(* ===== verification/Prelude.thy ===== *)
theory Prelude
  imports Main
begin

text \<open>
  Shared vocabulary of the development: an error-and-state monad in which the handlers of the
  gateway are written, the relational operations that stand for the SQL statements of the
  code, and the rules (collected in \<open>run_simps\<close>, \<open>run_iff\<close> and \<open>keeps_rules\<close>) by which
  the component theories execute handlers symbolically and carry invariants through them.
\<close>

named_theorems run_simps \<open>equations that execute a monadic step\<close>
named_theorems run_iff \<open>when a monadic computation succeeds\<close>
named_theorems keeps_rules \<open>introduction rules that push an invariant through a handler\<close>

section \<open>Computations with state and errors\<close>

text \<open>
  A Go function that reads and writes the state and returns \<open>(value, error)\<close> is a function
  from the state to a result and the state it leaves. The state is kept when an error is
  returned: what was written before the error stays written, unless a transaction undoes it.
\<close>

type_synonym ('s, 'e, 'a) act = "'s \<Rightarrow> ('e + 'a) \<times> 's"

definition returnS :: "'a \<Rightarrow> ('s, 'e, 'a) act" where
  "returnS x = (\<lambda>s. (Inr x, s))"

definition failS :: "'e \<Rightarrow> ('s, 'e, 'a) act" where
  "failS e = (\<lambda>s. (Inl e, s))"

definition bindS :: "('s, 'e, 'a) act \<Rightarrow> ('a \<Rightarrow> ('s, 'e, 'b) act) \<Rightarrow> ('s, 'e, 'b) act" where
  "bindS m f = (\<lambda>s. case m s of (Inl e, t) \<Rightarrow> (Inl e, t) | (Inr x, t) \<Rightarrow> f x t)"

definition thenS :: "('s, 'e, unit) act \<Rightarrow> ('s, 'e, 'b) act \<Rightarrow> ('s, 'e, 'b) act" where
  "thenS m k = bindS m (\<lambda>_. k)"

definition getS :: "('s \<Rightarrow> 'a) \<Rightarrow> ('s, 'e, 'a) act" where
  "getS f = (\<lambda>s. (Inr (f s), s))"

definition modS :: "('s \<Rightarrow> 's) \<Rightarrow> ('s, 'e, unit) act" where
  "modS f = (\<lambda>s. (Inr (), f s))"

text \<open>The error as a value, for code that inspects it instead of returning it.\<close>

definition tryS :: "('s, 'e, 'a) act \<Rightarrow> ('s, 'e, 'e + 'a) act" where
  "tryS m = (\<lambda>s. case m s of (r, t) \<Rightarrow> (Inr r, t))"

text \<open>A database transaction: an error rolls everything back.\<close>

definition atomicS :: "('s, 'e, 'a) act \<Rightarrow> ('s, 'e, 'a) act" where
  "atomicS m = (\<lambda>s. case m s of (Inl e, t) \<Rightarrow> (Inl e, s) | (Inr x, t) \<Rightarrow> (Inr x, t))"

text \<open>Loops that stop at the first error.\<close>

primrec forS :: "'a list \<Rightarrow> ('a \<Rightarrow> ('s, 'e, unit) act) \<Rightarrow> ('s, 'e, unit) act" where
  "forS [] f = returnS ()"
| "forS (x # xs) f = bindS (f x) (\<lambda>_. forS xs f)"

primrec foldS :: "('a \<Rightarrow> 'b \<Rightarrow> ('s, 'e, 'b) act) \<Rightarrow> 'a list \<Rightarrow> 'b \<Rightarrow> ('s, 'e, 'b) act" where
  "foldS f [] b = returnS b"
| "foldS f (x # xs) b = bindS (f x b) (foldS f xs)"

text \<open>A computation on one component of a larger state.\<close>

definition zoomS :: "('g \<Rightarrow> 's) \<Rightarrow> (('s \<Rightarrow> 's) \<Rightarrow> 'g \<Rightarrow> 'g) \<Rightarrow> ('s, 'e, 'a) act \<Rightarrow> ('g, 'e, 'a) act" where
  "zoomS get upd m = (\<lambda>g. case m (get g) of (r, t) \<Rightarrow> (r, upd (\<lambda>_. t) g))"

subsection \<open>Execution\<close>

lemma returnS_run [run_simps]: "returnS x s = (Inr x, s)"
  by (simp add: returnS_def)

lemma failS_run [run_simps]: "failS e s = (Inl e, s)"
  by (simp add: failS_def)

lemma getS_run [run_simps]: "getS f s = (Inr (f s), s)"
  by (simp add: getS_def)

lemma modS_run [run_simps]: "modS f s = (Inr (), f s)"
  by (simp add: modS_def)

lemma bindS_run [run_simps]:
  "bindS m f s = (case m s of (Inl e, t) \<Rightarrow> (Inl e, t) | (Inr x, t) \<Rightarrow> f x t)"
  by (simp add: bindS_def)

lemma thenS_run [run_simps]: "thenS m k s = bindS m (\<lambda>_. k) s"
  by (simp add: thenS_def)

lemma tryS_run [run_simps]: "tryS m s = (Inr (fst (m s)), snd (m s))"
  by (simp add: tryS_def split: prod.splits)

lemma atomicS_run [run_simps]:
  "atomicS m s = (case m s of (Inl e, t) \<Rightarrow> (Inl e, s) | (Inr x, t) \<Rightarrow> (Inr x, t))"
  by (simp add: atomicS_def)

lemma zoomS_run [run_simps]:
  "zoomS get upd m g = (fst (m (get g)), upd (\<lambda>_. snd (m (get g))) g)"
  by (simp add: zoomS_def split: prod.splits)

lemma bindS_return [run_simps, simp]: "bindS (returnS x) f = f x"
  by (rule ext) (simp add: bindS_def returnS_def)

lemma bindS_fail [run_simps, simp]: "bindS (failS e) f = failS e"
  by (rule ext) (simp add: bindS_def failS_def)

lemma bindS_assoc: "bindS (bindS m f) g = bindS m (\<lambda>x. bindS (f x) g)"
  by (rule ext) (simp add: bindS_def split: prod.splits sum.splits)

lemma returnS_iff [run_iff]: "returnS x s = (r, t) \<longleftrightarrow> r = Inr x \<and> t = s"
  by (auto simp: returnS_def)

lemma failS_iff [run_iff]: "failS e s = (r, t) \<longleftrightarrow> r = Inl e \<and> t = s"
  by (auto simp: failS_def)

lemma getS_iff [run_iff]: "getS f s = (r, t) \<longleftrightarrow> r = Inr (f s) \<and> t = s"
  by (auto simp: getS_def)

lemma modS_iff [run_iff]: "modS f s = (r, t) \<longleftrightarrow> r = Inr () \<and> t = f s"
  by (auto simp: modS_def)

lemma bindS_Inr [run_iff]:
  "bindS m f s = (Inr y, u) \<longleftrightarrow> (\<exists>x t. m s = (Inr x, t) \<and> f x t = (Inr y, u))"
  by (auto simp: bindS_def split: prod.splits sum.splits)

lemma bindS_Inl [run_iff]:
  "bindS m f s = (Inl e, u) \<longleftrightarrow>
     m s = (Inl e, u) \<or> (\<exists>x t. m s = (Inr x, t) \<and> f x t = (Inl e, u))"
  by (auto simp: bindS_def split: prod.splits sum.splits)

lemma thenS_Inr [run_iff]:
  "thenS m k s = (Inr y, u) \<longleftrightarrow> (\<exists>t. m s = (Inr (), t) \<and> k t = (Inr y, u))"
  by (simp add: thenS_def bindS_Inr)

lemma atomicS_Inr [run_iff]: "atomicS m s = (Inr x, t) \<longleftrightarrow> m s = (Inr x, t)"
  by (auto simp: atomicS_def split: prod.splits sum.splits)

lemma atomicS_Inl [run_iff]: "atomicS m s = (Inl e, t) \<longleftrightarrow> t = s \<and> (\<exists>u. m s = (Inl e, u))"
  by (auto simp: atomicS_def split: prod.splits sum.splits)

lemma tryS_iff [run_iff]: "tryS m s = (r, t) \<longleftrightarrow> (\<exists>q. m s = (q, t) \<and> r = Inr q)"
  by (auto simp: tryS_def split: prod.splits)

lemma forS_append: "forS (xs @ ys) f = bindS (forS xs f) (\<lambda>_. forS ys f)"
  by (induction xs) (simp_all add: bindS_assoc)

text \<open>Steps of a run.\<close>

lemma bindS_step: "m s = (Inr x, t) \<Longrightarrow> bindS m f s = f x t"
  by (simp add: bindS_def)

lemma bindS_stop: "m s = (Inl e, t) \<Longrightarrow> bindS m f s = (Inl e, t)"
  by (simp add: bindS_def)

lemma thenS_step: "m s = (Inr (), t) \<Longrightarrow> thenS m k s = k t"
  by (simp add: thenS_def bindS_step)

lemma thenS_stop: "m s = (Inl e, t) \<Longrightarrow> thenS m k s = (Inl e, t)"
  by (simp add: thenS_def bindS_stop)

lemma bindS_get: "bindS (getS f) k s = k (f s) s"
  by (simp add: bindS_def getS_def)

lemma thenS_mod: "thenS (modS f) k s = k (f s)"
  by (simp add: thenS_def bindS_def modS_def)

lemma thenS_result: "fst (thenS m k s) = Inr x \<Longrightarrow> \<exists>t. m s = (Inr (), t) \<and> fst (k t) = Inr x"
  by (auto simp: thenS_def bindS_def split: prod.splits sum.splits)

section \<open>Invariants\<close>

text \<open>
  \<open>keeps I m\<close>: whatever \<open>m\<close> returns, value or error, the state it leaves satisfies \<open>I\<close> if the
  state it started in did.
\<close>

definition keeps :: "('s \<Rightarrow> bool) \<Rightarrow> ('s, 'e, 'a) act \<Rightarrow> bool" where
  "keeps I m \<longleftrightarrow> (\<forall>s. I s \<longrightarrow> I (snd (m s)))"

lemma keepsI: "(\<And>s. I s \<Longrightarrow> I (snd (m s))) \<Longrightarrow> keeps I m"
  by (simp add: keeps_def)

lemma keepsD: "keeps I m \<Longrightarrow> m s = (r, t) \<Longrightarrow> I s \<Longrightarrow> I t"
  by (auto simp: keeps_def dest!: spec [of _ s])

lemma keeps_return [keeps_rules]: "keeps I (returnS x)"
  by (simp add: keeps_def returnS_def)

lemma keeps_fail [keeps_rules]: "keeps I (failS e)"
  by (simp add: keeps_def failS_def)

lemma keeps_get [keeps_rules]: "keeps I (getS f)"
  by (simp add: keeps_def getS_def)

lemma keeps_mod: "(\<And>s. I s \<Longrightarrow> I (f s)) \<Longrightarrow> keeps I (modS f)"
  by (simp add: keeps_def modS_def)

lemma keeps_bind [keeps_rules]:
  "keeps I m \<Longrightarrow> (\<And>x. keeps I (f x)) \<Longrightarrow> keeps I (bindS m f)"
  by (fastforce simp: keeps_def bindS_def split: prod.splits sum.splits)

lemma keeps_then [keeps_rules]: "keeps I m \<Longrightarrow> keeps I k \<Longrightarrow> keeps I (thenS m k)"
  by (simp add: thenS_def keeps_bind)

lemma keeps_try [keeps_rules]: "keeps I m \<Longrightarrow> keeps I (tryS m)"
  by (simp add: keeps_def tryS_run)

lemma keeps_atomic [keeps_rules]: "keeps I m \<Longrightarrow> keeps I (atomicS m)"
  by (auto simp: keeps_def atomicS_def split: prod.splits sum.splits)

lemma keeps_for [keeps_rules]: "(\<And>x. keeps I (f x)) \<Longrightarrow> keeps I (forS xs f)"
  by (induction xs) (simp_all add: keeps_bind keeps_return)

lemma keeps_fold [keeps_rules]: "(\<And>x b. keeps I (f x b)) \<Longrightarrow> keeps I (foldS f xs b)"
  by (induction xs arbitrary: b) (simp_all add: keeps_bind keeps_return)

lemma keeps_if [keeps_rules]:
  "(b \<Longrightarrow> keeps I m) \<Longrightarrow> (\<not> b \<Longrightarrow> keeps I k) \<Longrightarrow> keeps I (if b then m else k)"
  by simp

lemma keeps_let [keeps_rules]: "(\<And>x. keeps I (f x)) \<Longrightarrow> keeps I (let x = a in f x)"
  by (simp add: Let_def)

lemma keeps_case_option [keeps_rules]:
  "keeps I m \<Longrightarrow> (\<And>x. keeps I (f x)) \<Longrightarrow> keeps I (case z of None \<Rightarrow> m | Some x \<Rightarrow> f x)"
  by (simp split: option.split)

lemma keeps_case_sum [keeps_rules]:
  "(\<And>x. keeps I (f x)) \<Longrightarrow> (\<And>x. keeps I (h x)) \<Longrightarrow> keeps I (case z of Inl x \<Rightarrow> f x | Inr x \<Rightarrow> h x)"
  by (simp split: sum.split)

lemma keeps_case_prod [keeps_rules]:
  "(\<And>x y. keeps I (f x y)) \<Longrightarrow> keeps I (case z of (x, y) \<Rightarrow> f x y)"
  by (simp split: prod.split)

lemma keeps_case_list [keeps_rules]:
  "keeps I m \<Longrightarrow> (\<And>x xs. keeps I (f x xs)) \<Longrightarrow> keeps I (case z of [] \<Rightarrow> m | x # xs \<Rightarrow> f x xs)"
  by (simp split: list.split)

lemma keeps_zoom:
  assumes "\<And>g t. get (upd (\<lambda>_. t) g) = t" and "keeps I m"
  shows "keeps (\<lambda>g. I (get g)) (zoomS get upd m)"
  using assms by (simp add: keeps_def zoomS_run)

text \<open>
  \<open>preserves I m\<close> is the weaker promise of code that runs inside a transaction: only a state left by
  a success has to satisfy \<open>I\<close>, since an error is rolled back.
\<close>

definition preserves :: "('s \<Rightarrow> bool) \<Rightarrow> ('s, 'e, 'a) act \<Rightarrow> bool" where
  "preserves I m \<longleftrightarrow> (\<forall>s x t. I s \<longrightarrow> m s = (Inr x, t) \<longrightarrow> I t)"

lemma preservesI: "(\<And>s x t. I s \<Longrightarrow> m s = (Inr x, t) \<Longrightarrow> I t) \<Longrightarrow> preserves I m"
  by (simp add: preserves_def)

lemma preservesD: "preserves I m \<Longrightarrow> m s = (Inr x, t) \<Longrightarrow> I s \<Longrightarrow> I t"
  by (auto simp: preserves_def)

lemma keeps_preserves: "keeps I m \<Longrightarrow> preserves I m"
  unfolding keeps_def preserves_def by (metis snd_conv)

lemma preserves_return [keeps_rules]: "preserves I (returnS x)"
  by (simp add: preserves_def run_iff)

lemma preserves_fail [keeps_rules]: "preserves I (failS e)"
  by (simp add: preserves_def run_iff)

lemma preserves_get [keeps_rules]: "preserves I (getS f)"
  by (simp add: preserves_def run_iff)

lemma preserves_mod: "(\<And>s. I s \<Longrightarrow> I (f s)) \<Longrightarrow> preserves I (modS f)"
  by (simp add: preserves_def run_iff)

lemma preserves_bind [keeps_rules]:
  "preserves I m \<Longrightarrow> (\<And>x. preserves I (f x)) \<Longrightarrow> preserves I (bindS m f)"
  by (rule preservesI) (auto simp: bindS_Inr dest: preservesD)

lemma preserves_then [keeps_rules]: "preserves I m \<Longrightarrow> preserves I k \<Longrightarrow> preserves I (thenS m k)"
  by (simp add: thenS_def preserves_bind)

lemma preserves_for [keeps_rules]: "(\<And>x. preserves I (f x)) \<Longrightarrow> preserves I (forS xs f)"
  by (induction xs) (simp_all add: preserves_bind preserves_return)

lemma preserves_fold [keeps_rules]: "(\<And>x b. preserves I (f x b)) \<Longrightarrow> preserves I (foldS f xs b)"
  by (induction xs arbitrary: b) (simp_all add: preserves_bind preserves_return)

lemma preserves_if [keeps_rules]:
  "(b \<Longrightarrow> preserves I m) \<Longrightarrow> (\<not> b \<Longrightarrow> preserves I k) \<Longrightarrow> preserves I (if b then m else k)"
  by simp

lemma preserves_let [keeps_rules]:
  "(\<And>x. preserves I (f x)) \<Longrightarrow> preserves I (let x = a in f x)"
  by (simp add: Let_def)

lemma preserves_case_option [keeps_rules]:
  "preserves I m \<Longrightarrow> (\<And>x. preserves I (f x)) \<Longrightarrow>
     preserves I (case z of None \<Rightarrow> m | Some x \<Rightarrow> f x)"
  by (simp split: option.split)

lemma preserves_case_sum [keeps_rules]:
  "(\<And>x. preserves I (f x)) \<Longrightarrow> (\<And>x. preserves I (h x)) \<Longrightarrow>
     preserves I (case z of Inl x \<Rightarrow> f x | Inr x \<Rightarrow> h x)"
  by (simp split: sum.split)

lemma preserves_case_prod [keeps_rules]:
  "(\<And>x y. preserves I (f x y)) \<Longrightarrow> preserves I (case z of (x, y) \<Rightarrow> f x y)"
  by (simp split: prod.split)

text \<open>A projection of the state that a computation never changes.\<close>

definition same :: "('s \<Rightarrow> 'p) \<Rightarrow> ('s, 'e, 'a) act \<Rightarrow> bool" where
  "same p m \<longleftrightarrow> (\<forall>s. p (snd (m s)) = p s)"

lemma same_iff_keeps: "same p m \<longleftrightarrow> (\<forall>v. keeps (\<lambda>s. p s = v) m)"
  by (auto simp: same_def keeps_def)

lemma sameI: "(\<And>v. keeps (\<lambda>s. p s = v) m) \<Longrightarrow> same p m"
  by (simp add: same_iff_keeps)

lemma sameD: "same p m \<Longrightarrow> m s = (r, t) \<Longrightarrow> p t = p s"
  by (metis same_def snd_conv)

lemma same_keeps: "same p m \<Longrightarrow> keeps (\<lambda>s. Q (p s)) m"
  by (simp add: same_def keeps_def)

text \<open>An invariant that only looks at a projection is kept by what leaves the projection alone.\<close>

lemma keeps_via:
  assumes "\<And>v. keeps (\<lambda>d. p d = v) m" and "\<And>d t. p t = p d \<Longrightarrow> I d \<Longrightarrow> I t"
  shows "keeps I m"
  using assms(1) [unfolded keeps_def] by (intro keepsI) (rule assms(2), auto)

section \<open>Tables\<close>

text \<open>
  A table is the list of its rows. \<open>UPDATE .. WHERE P\<close>, \<open>DELETE .. WHERE P\<close> and
  \<open>SELECT .. WHERE P\<close> are the three list functions below; \<open>INSERT\<close> appends a row, and is
  refused by the database when a row with the same key is there.
\<close>

definition upd_rows :: "('r \<Rightarrow> bool) \<Rightarrow> ('r \<Rightarrow> 'r) \<Rightarrow> 'r list \<Rightarrow> 'r list" where
  "upd_rows P f t = map (\<lambda>r. if P r then f r else r) t"

definition del_rows :: "('r \<Rightarrow> bool) \<Rightarrow> 'r list \<Rightarrow> 'r list" where
  "del_rows P t = filter (\<lambda>r. \<not> P r) t"

definition has_row :: "('r \<Rightarrow> bool) \<Rightarrow> 'r list \<Rightarrow> bool" where
  "has_row P t = list_ex P t"

lemma has_row_iff: "has_row P t \<longleftrightarrow> (\<exists>r\<in>set t. P r)"
  by (simp add: has_row_def list_ex_iff)

lemma upd_rows_simps [simp]:
  "upd_rows P f [] = []"
  "upd_rows P f (r # t) = (if P r then f r else r) # upd_rows P f t"
  by (simp_all add: upd_rows_def)

lemma upd_rows_append [simp]: "upd_rows P f (t @ u) = upd_rows P f t @ upd_rows P f u"
  by (simp add: upd_rows_def)

lemma length_upd_rows [simp]: "length (upd_rows P f t) = length t"
  by (simp add: upd_rows_def)

lemma set_upd_rows: "set (upd_rows P f t) = (\<lambda>r. if P r then f r else r) ` set t"
  by (simp add: upd_rows_def)

lemma map_upd_rows_frame:
  "(\<And>r. P r \<Longrightarrow> g (f r) = g r) \<Longrightarrow> map g (upd_rows P f t) = map g t"
  by (simp add: upd_rows_def)

lemma upd_rows_none: "(\<And>r. r \<in> set t \<Longrightarrow> \<not> P r) \<Longrightarrow> upd_rows P f t = t"
  by (induction t) auto

lemma set_del_rows [simp]: "set (del_rows P t) = {r \<in> set t. \<not> P r}"
  by (auto simp: del_rows_def)

lemma distinct_map_del_rows: "distinct (map k t) \<Longrightarrow> distinct (map k (del_rows P t))"
  by (simp add: del_rows_def distinct_map_filter)

lemma find_upd_rows:
  "(\<And>r. P r \<Longrightarrow> Q (f r) = Q r) \<Longrightarrow>
     find Q (upd_rows P f t) = map_option (\<lambda>r. if P r then f r else r) (find Q t)"
  by (induction t) auto

lemma find_append: "find P (t @ u) = (case find P t of None \<Rightarrow> find P u | Some r \<Rightarrow> Some r)"
  by (induction t) auto

lemma find_SomeD: "find P t = Some r \<Longrightarrow> r \<in> set t \<and> P r"
  by (induction t) (auto split: if_splits)

lemma find_None_iff_has: "find P t = None \<longleftrightarrow> \<not> has_row P t"
  by (induction t) (auto simp: has_row_def)

text \<open>A table with a key and a row invariant, and what the three kinds of statement need to keep it.\<close>

definition rows_ok :: "('r \<Rightarrow> 'k) \<Rightarrow> ('r \<Rightarrow> bool) \<Rightarrow> 'r list \<Rightarrow> bool" where
  "rows_ok k P t \<longleftrightarrow> distinct (map k t) \<and> list_all P t"

lemma rows_ok_upd:
  assumes "rows_ok k P t" and "\<And>r. r \<in> set t \<Longrightarrow> Q r \<Longrightarrow> P r \<Longrightarrow> k (f r) = k r \<and> P (f r)"
  shows "rows_ok k P (upd_rows Q f t)"
proof -
  have "map k (upd_rows Q f t) = map k t"
    using assms by (auto simp: upd_rows_def rows_ok_def list_all_iff)
  then show ?thesis using assms by (auto simp: rows_ok_def list_all_iff set_upd_rows)
qed

lemma rows_ok_del: "rows_ok k P t \<Longrightarrow> rows_ok k P (del_rows Q t)"
  by (simp add: rows_ok_def list_all_iff del_rows_def distinct_map_filter)

lemma rows_ok_snoc: "rows_ok k P t \<Longrightarrow> k r \<notin> k ` set t \<Longrightarrow> P r \<Longrightarrow> rows_ok k P (t @ [r])"
  by (simp add: rows_ok_def)

text \<open>With distinct keys, a key finds its row.\<close>

lemma find_key:
  "distinct (map k t) \<Longrightarrow> r \<in> set t \<Longrightarrow> find (\<lambda>x. k x = k r) t = Some r"
  by (induction t) (auto simp: image_iff)

lemma key_unique:
  "distinct (map k t) \<Longrightarrow> r \<in> set t \<Longrightarrow> r' \<in> set t \<Longrightarrow> k r = k r' \<Longrightarrow> r = r'"
  by (meson distinct_map inj_onD)

section \<open>Consecutive sequence numbers\<close>

text \<open>\<open>[a..b]\<close> on integers, and when a list of numbers is that list.\<close>

lemma upto_snoc: "a \<le> b + 1 \<Longrightarrow> [a..b] @ [b + 1] = [a..b + 1]"
proof (induction "nat (b + 1 - a)" arbitrary: a)
  case 0
  then have "a = b + 1" by simp
  then show ?case by simp
next
  case (Suc n)
  then have "a \<le> b" by simp
  then have "[a..b] @ [b + 1] = a # ([a + 1..b] @ [b + 1])" by (simp add: upto_rec1)
  also have "[a + 1..b] @ [b + 1] = [a + 1..b + 1]"
    using Suc.hyps(1) [of "a + 1"] Suc.hyps(2) \<open>a \<le> b\<close> by simp
  finally show ?case using \<open>a \<le> b\<close> by (simp add: upto_rec1 [of a "b + 1"])
qed

lemma upto_Cons: "a \<le> b \<Longrightarrow> a # [a + 1..b] = [a..b]"
  by (simp add: upto_rec1)

lemma filter_upto:
  "filter (\<lambda>x. a < x \<and> x \<le> b) [lo..hi] = [max lo (a + 1)..min hi b]"
proof (rule strict_sorted_equal)
  show "sorted_wrt (<) (filter (\<lambda>x. a < x \<and> x \<le> b) [lo..hi])"
    by (simp add: sorted_wrt_filter)
  show "sorted_wrt (<) [max lo (a + 1)..min hi b]"
    by simp
  show "set (filter (\<lambda>x. a < x \<and> x \<le> b) [lo..hi]) = set [max lo (a + 1)..min hi b]"
    by auto
qed

lemma take_upto: "take n [a..b] = [a..min b (a + int n - 1)]"
proof (induction n arbitrary: a)
  case 0
  then show ?case by simp
next
  case (Suc n)
  show ?case
  proof (cases "a \<le> b")
    case True
    have "take (Suc n) [a..b] = a # take n [a + 1..b]"
      using True by (simp add: upto_rec1 [of a b])
    also have "\<dots> = a # [a + 1..min b (a + int (Suc n) - 1)]"
      by (simp add: Suc del: upto.simps)
    also have "\<dots> = [a..min b (a + int (Suc n) - 1)]"
      using True by (intro upto_Cons) simp
    finally show ?thesis .
  next
    case False
    then show ?thesis by simp
  qed
qed

end
