(* ===== verification/Wire.thy ===== *)
theory Wire
  imports Prelude
begin

text \<open>
  \<open>internal/protocol/protocol.go\<close>: the strict JSON decoder that every HTTP body and every socket
  frame passes. \<^verbatim>\<open>json.Decoder\<close> (standard library) turns the bytes into tokens; \<open>readValue\<close> builds the
  value, refusing duplicate property names, nesting beyond 64 and trailing documents. A stream is
  the list of what successive calls of \<^verbatim>\<open>Token\<close> return: \<open>TError\<close> where the call returns a syntax
  error, and nothing more where it returns \<^verbatim>\<open>io.EOF\<close>. Numbers keep their literal (\<^verbatim>\<open>UseNumber\<close>).
  The recursion carries fuel; \<open>decode\<close> supplies an amount that is proved to be enough.
\<close>

datatype json =
    JNull
  | JBool bool
  | JNum string
  | JStr string
  | JArr "json list"
  | JObj "(string \<times> json) list"

datatype token =
    TObjOpen | TObjClose | TArrOpen | TArrClose
  | TNull | TBool bool | TNum string | TStr string
  | TError

datatype wire_error =
  NestingLimit | TokenError | InvalidKey | DuplicateKey | UnexpectedDelimiter | TrailingJSON | OutOfFuel

text \<open>\<^verbatim>\<open>d.More()\<close>: another element follows in the current array or object.\<close>

fun more :: "token list \<Rightarrow> bool" where
  "more [] = False"
| "more (TObjClose # ts) = False"
| "more (TArrClose # ts) = False"
| "more (t # ts) = True"

text \<open>The final \<^verbatim>\<open>d.Token()\<close> of an object or array; only its error is looked at.\<close>

fun close_with :: "json \<Rightarrow> token list \<Rightarrow> wire_error + json \<times> token list" where
  "close_with v [] = Inl TokenError"
| "close_with v (TError # ts) = Inl TokenError"
| "close_with v (t # ts) = Inr (v, ts)"

fun read_value :: "nat \<Rightarrow> nat \<Rightarrow> token list \<Rightarrow> wire_error + json \<times> token list"
and read_members :: "nat \<Rightarrow> nat \<Rightarrow> (string \<times> json) list \<Rightarrow> token list
                      \<Rightarrow> wire_error + (string \<times> json) list \<times> token list"
and read_items :: "nat \<Rightarrow> nat \<Rightarrow> json list \<Rightarrow> token list \<Rightarrow> wire_error + json list \<times> token list"
where
  "read_value 0 depth ts = Inl OutOfFuel"
| "read_value (Suc n) depth ts =
     (if depth > 64 then Inl NestingLimit
      else case ts of
        [] \<Rightarrow> Inl TokenError
      | t # r \<Rightarrow>
        (case t of
           TError \<Rightarrow> Inl TokenError
         | TObjOpen \<Rightarrow>
             (case read_members n depth [] r of
                Inl e \<Rightarrow> Inl e
              | Inr (m, r') \<Rightarrow> close_with (JObj m) r')
         | TArrOpen \<Rightarrow>
             (case read_items n depth [] r of
                Inl e \<Rightarrow> Inl e
              | Inr (a, r') \<Rightarrow> close_with (JArr a) r')
         | TObjClose \<Rightarrow> Inl UnexpectedDelimiter
         | TArrClose \<Rightarrow> Inl UnexpectedDelimiter
         | TNull \<Rightarrow> Inr (JNull, r)
         | TBool b \<Rightarrow> Inr (JBool b, r)
         | TNum x \<Rightarrow> Inr (JNum x, r)
         | TStr s \<Rightarrow> Inr (JStr s, r)))"
| "read_members 0 depth m ts = Inl OutOfFuel"
| "read_members (Suc n) depth m ts =
     (if \<not> more ts then Inr (m, ts)
      else case ts of
        [] \<Rightarrow> Inl TokenError
      | t # r \<Rightarrow>
        (case t of
           TError \<Rightarrow> Inl TokenError
         | TStr k \<Rightarrow>
             (if k \<in> set (map fst m) then Inl DuplicateKey
              else case read_value n (Suc depth) r of
                Inl e \<Rightarrow> Inl e
              | Inr (v, r') \<Rightarrow> read_members n depth (m @ [(k, v)]) r')
         | _ \<Rightarrow> Inl InvalidKey))"
| "read_items 0 depth a ts = Inl OutOfFuel"
| "read_items (Suc n) depth a ts =
     (if \<not> more ts then Inr (a, ts)
      else case read_value n (Suc depth) ts of
        Inl e \<Rightarrow> Inl e
      | Inr (v, r') \<Rightarrow> read_items n depth (a @ [v]) r')"

definition decode :: "token list \<Rightarrow> wire_error + json" where
  "decode ts =
     (case read_value (2 * length ts + 1) 0 ts of
        Inl e \<Rightarrow> Inl e
      | Inr (v, r) \<Rightarrow> (if r = [] then Inr v else Inl TrailingJSON))"

text \<open>
  A value the decoder may return: property names distinct in every object, and at most \<open>d\<close> levels
  of nesting.
\<close>

fun json_ok :: "nat \<Rightarrow> json \<Rightarrow> bool" where
  "json_ok d (JArr a) = (\<forall>v\<in>set a. (case d of 0 \<Rightarrow> False | Suc e \<Rightarrow> json_ok e v))"
| "json_ok d (JObj m) =
     (distinct (map fst m) \<and> (\<forall>kv\<in>set m. (case d of 0 \<Rightarrow> False | Suc e \<Rightarrow> json_ok e (snd kv))))"
| "json_ok d v = True"

text \<open>What the encoder (\<^verbatim>\<open>json.Marshal\<close>) makes the tokens of a value.\<close>

fun tokens_of :: "json \<Rightarrow> token list" where
  "tokens_of JNull = [TNull]"
| "tokens_of (JBool b) = [TBool b]"
| "tokens_of (JNum x) = [TNum x]"
| "tokens_of (JStr s) = [TStr s]"
| "tokens_of (JArr a) = TArrOpen # concat (map tokens_of a) @ [TArrClose]"
| "tokens_of (JObj m) = TObjOpen # concat (map (\<lambda>kv. TStr (fst kv) # tokens_of (snd kv)) m) @ [TObjClose]"

section \<open>The fuel is enough\<close>

lemma close_with_rest: "close_with v ts = Inr (w, r) \<Longrightarrow> w = v \<and> length r < length ts"
  by (cases "(v, ts)" rule: close_with.cases) auto

lemma read_shrinks:
  shows "read_value n depth ts = Inr (v, r) \<Longrightarrow> length r < length ts"
    and "read_members n depth m ts = Inr (m', r) \<Longrightarrow> length r \<le> length ts"
    and "read_items n depth a ts = Inr (a', r) \<Longrightarrow> length r \<le> length ts"
proof (induction n depth ts and n depth m ts and n depth a ts
    arbitrary: v r and m' r and a' r rule: read_value_read_members_read_items.induct)
  case (2 n depth ts)
  then show ?case
    by (fastforce split: if_splits list.splits token.splits sum.splits prod.splits
        dest: close_with_rest)
next
  case (4 n depth m ts)
  then show ?case
    by (fastforce split: if_splits list.splits token.splits sum.splits prod.splits)
next
  case (6 n depth a ts)
  then show ?case
    by (fastforce split: if_splits sum.splits prod.splits)
qed auto

lemma read_fuel:
  shows "2 * length ts < n \<Longrightarrow> read_value n depth ts \<noteq> Inl OutOfFuel"
    and "2 * length ts < n \<Longrightarrow> read_members n depth m ts \<noteq> Inl OutOfFuel"
    and "2 * length ts + 1 < n \<Longrightarrow> read_items n depth a ts \<noteq> Inl OutOfFuel"
proof (induction n depth ts and n depth m ts and n depth a ts
    rule: read_value_read_members_read_items.induct)
  case (2 n depth ts)
  then show ?case
    by (auto split: list.splits token.splits sum.splits prod.splits elim!: close_with.elims)
next
  case (4 n depth m ts)
  show ?case
  proof
    assume out: "read_members (Suc n) depth m ts = Inl OutOfFuel"
    then obtain k rs where more: "more ts" and ts: "ts = TStr k # rs" and k: "k \<notin> set (map fst m)"
      by (auto split: if_splits list.splits token.splits)
    have "read_value n (Suc depth) rs \<noteq> Inl OutOfFuel"
      using "4.prems" ts k more by (intro "4.IH"(1) [OF _ ts refl]) auto
    with out more ts k obtain v r' where rv: "read_value n (Suc depth) rs = Inr (v, r')"
      and rm: "read_members n depth (m @ [(k, v)]) r' = Inl OutOfFuel"
      by (auto split: sum.splits prod.splits)
    have "2 * length r' < n" using read_shrinks(1) [OF rv] "4.prems" ts by simp
    with rm show False using "4.IH"(2) [OF _ ts refl _ rv refl] more k by simp
  qed
next
  case (6 n depth a ts)
  show ?case
  proof
    assume out: "read_items (Suc n) depth a ts = Inl OutOfFuel"
    then have more: "more ts" by (auto split: if_splits)
    have "read_value n (Suc depth) ts \<noteq> Inl OutOfFuel"
      using "6.prems" more by (intro "6.IH"(1)) auto
    with out more obtain v r' where rv: "read_value n (Suc depth) ts = Inr (v, r')"
      and ri: "read_items n depth (a @ [v]) r' = Inl OutOfFuel"
      by (auto split: sum.splits prod.splits)
    have "2 * length r' + 1 < n" using read_shrinks(1) [OF rv] "6.prems" by simp
    with ri show False using "6.IH"(2) [OF _ rv refl] more by simp
  qed
qed auto

section \<open>What the decoder accepts\<close>

abbreviation child_ok :: "nat \<Rightarrow> json \<Rightarrow> bool" where
  "child_ok d v \<equiv> (case d of 0 \<Rightarrow> False | Suc e \<Rightarrow> json_ok e v)"

lemma child_ok_depth: "depth \<le> 63 \<Longrightarrow> child_ok (64 - depth) v = json_ok (64 - Suc depth) v"
proof -
  assume "depth \<le> 63"
  then have "64 - depth = Suc (64 - Suc depth)" by simp
  then show ?thesis by (simp only: nat.case)
qed

lemma read_value_depth: "read_value n depth ts = Inr x \<Longrightarrow> depth \<le> 64"
  by (cases n) (auto split: if_splits)

lemma read_sound:
  shows "read_value n depth ts = Inr (v, r) \<Longrightarrow> json_ok (64 - depth) v"
    and "read_members n depth m ts = Inr (m', r) \<Longrightarrow> distinct (map fst m) \<Longrightarrow>
           (\<forall>kv\<in>set m. child_ok (64 - depth) (snd kv)) \<Longrightarrow>
           distinct (map fst m') \<and> (\<forall>kv\<in>set m'. child_ok (64 - depth) (snd kv))"
    and "read_items n depth a ts = Inr (a', r) \<Longrightarrow> (\<forall>v\<in>set a. child_ok (64 - depth) v) \<Longrightarrow>
           (\<forall>v\<in>set a'. child_ok (64 - depth) v)"
proof (induction n depth ts and n depth m ts and n depth a ts
    arbitrary: v r and m' r and a' r rule: read_value_read_members_read_items.induct)
  case (2 n depth ts)
  then show ?case
    by (auto split: if_splits list.splits token.splits sum.splits prod.splits
        dest!: close_with_rest)
next
  case (4 n depth m ts)
  show ?case
  proof (cases "more ts")
    case False
    with 4 show ?thesis by simp
  next
    case True
    with "4.prems"(1) obtain k rs v r' where ts: "ts = TStr k # rs" and k: "k \<notin> set (map fst m)"
      and rv: "read_value n (Suc depth) rs = Inr (v, r')"
      and rm: "read_members n depth (m @ [(k, v)]) r' = Inr (m', r)"
      by (auto split: list.splits token.splits if_splits sum.splits prod.splits)
    have "depth \<le> 63" using read_value_depth [OF rv] by simp
    moreover have "json_ok (64 - Suc depth) v"
      using "4.IH"(1) [OF _ ts refl _ rv] True k by simp
    ultimately have v: "child_ok (64 - depth) (snd (k, v))" by (simp add: child_ok_depth)
    then have "\<forall>kv\<in>set (m @ [(k, v)]). child_ok (64 - depth) (snd kv)"
      using "4.prems"(3) by (simp only: set_append list.set ball_Un ball_simps)
    then show ?thesis
      using "4.IH"(2) [OF _ ts refl _ rv refl rm] True k "4.prems"(2) by simp
  qed
next
  case (6 n depth a ts)
  show ?case
  proof (cases "more ts")
    case False
    with 6 show ?thesis by simp
  next
    case True
    with "6.prems"(1) obtain v r' where rv: "read_value n (Suc depth) ts = Inr (v, r')"
      and ri: "read_items n depth (a @ [v]) r' = Inr (a', r)"
      by (auto split: sum.splits prod.splits)
    have "depth \<le> 63" using read_value_depth [OF rv] by simp
    moreover have "json_ok (64 - Suc depth) v" using "6.IH"(1) [OF _ rv] True by simp
    ultimately have v: "child_ok (64 - depth) v" by (simp add: child_ok_depth)
    show ?thesis
      by (rule "6.IH"(2) [OF _ rv refl ri]) (use True v "6.prems"(2) in auto)
  qed
qed auto

section \<open>Round trip\<close>

lemma more_tokens_of: "more (tokens_of v @ r)"
  by (cases v) auto

lemma tokens_of_nonempty: "\<exists>t ts. tokens_of v = t # ts"
  by (cases v) auto

lemma read_items_tokens:
  assumes "\<And>v n r. v \<in> set b \<Longrightarrow> 2 * length (tokens_of v @ r) < n \<Longrightarrow>
             read_value n (Suc depth) (tokens_of v @ r) = Inr (v, r)"
    and "2 * length (concat (map tokens_of b) @ TArrClose # r) + 1 < n"
  shows "read_items n depth a (concat (map tokens_of b) @ TArrClose # r) = Inr (a @ b, TArrClose # r)"
  using assms
proof (induction b arbitrary: a n)
  case Nil
  then show ?case by (cases n) auto
next
  case (Cons v b)
  then obtain k where n: "n = Suc k" by (cases n) auto
  have "read_value k (Suc depth) (tokens_of v @ concat (map tokens_of b) @ TArrClose # r)
      = Inr (v, concat (map tokens_of b) @ TArrClose # r)"
    using Cons.prems n by (intro Cons.prems(1)) auto
  moreover have "read_items k depth (a @ [v]) (concat (map tokens_of b) @ TArrClose # r)
      = Inr ((a @ [v]) @ b, TArrClose # r)"
  proof (rule Cons.IH)
    show "2 * length (concat (map tokens_of b) @ TArrClose # r) + 1 < k"
      using tokens_of_nonempty [of v] Cons.prems(2) n by auto
  qed (use Cons.prems(1) in simp)
  ultimately show ?case
    using more_tokens_of [of v] n by simp
qed

lemma read_members_tokens:
  assumes "\<And>kv n r. kv \<in> set b \<Longrightarrow> 2 * length (tokens_of (snd kv) @ r) < n \<Longrightarrow>
             read_value n (Suc depth) (tokens_of (snd kv) @ r) = Inr (snd kv, r)"
    and "2 * length (concat (map (\<lambda>kv. TStr (fst kv) # tokens_of (snd kv)) b) @ TObjClose # r) < n"
    and "distinct (map fst (a @ b))"
  shows "read_members n depth a
           (concat (map (\<lambda>kv. TStr (fst kv) # tokens_of (snd kv)) b) @ TObjClose # r)
         = Inr (a @ b, TObjClose # r)"
  using assms
proof (induction b arbitrary: a n)
  case Nil
  then show ?case by (cases n) auto
next
  case (Cons kv b)
  let ?ts = "\<lambda>b. concat (map (\<lambda>kv. TStr (fst kv) # tokens_of (snd kv)) b) @ TObjClose # r"
  obtain k where n: "n = Suc k" using Cons.prems(2) by (cases n) auto
  have "read_value k (Suc depth) (tokens_of (snd kv) @ ?ts b) = Inr (snd kv, ?ts b)"
    using Cons.prems(2) n by (intro Cons.prems(1)) auto
  moreover have "read_members k depth (a @ [kv]) (?ts b) = Inr ((a @ [kv]) @ b, TObjClose # r)"
    using Cons.prems n by (intro Cons.IH) auto
  moreover have "fst kv \<notin> fst ` set a" using Cons.prems(3) by auto
  ultimately show ?case using n by (cases kv) simp
qed

lemma read_tokens:
  "json_ok (64 - depth) v \<Longrightarrow> depth \<le> 64 \<Longrightarrow> 2 * length (tokens_of v @ r) < n \<Longrightarrow>
     read_value n depth (tokens_of v @ r) = Inr (v, r)"
proof (induction v arbitrary: depth n r)
  case (JArr a)
  then obtain k where n: "n = Suc k" by (cases n) auto
  have "read_items k depth [] (concat (map tokens_of a) @ TArrClose # r) = Inr ([] @ a, TArrClose # r)"
  proof (rule read_items_tokens)
    fix v n' r'
    assume "v \<in> set a" and "2 * length (tokens_of v @ r') < n'"
    moreover have "depth \<le> 63" using JArr.prems(1,2) \<open>v \<in> set a\<close>
      by (cases "depth = 64") auto
    moreover have "json_ok (64 - Suc depth) v"
      using JArr.prems(1) \<open>v \<in> set a\<close> child_ok_depth [OF \<open>depth \<le> 63\<close>] by fastforce
    ultimately show "read_value n' (Suc depth) (tokens_of v @ r') = Inr (v, r')"
      by (intro JArr.IH) auto
  qed (use JArr.prems(3) n in simp)
  then show ?case using n JArr.prems(2) by simp
next
  case (JObj m)
  then obtain k where n: "n = Suc k" by (cases n) auto
  have "read_members k depth []
      (concat (map (\<lambda>kv. TStr (fst kv) # tokens_of (snd kv)) m) @ TObjClose # r)
      = Inr ([] @ m, TObjClose # r)"
  proof (rule read_members_tokens)
    fix kv n' r'
    assume kv: "kv \<in> set m" and "2 * length (tokens_of (snd kv) @ r') < n'"
    moreover have "depth \<le> 63" using JObj.prems(1,2) kv
      by (cases "depth = 64"; cases kv) auto
    moreover have "json_ok (64 - Suc depth) (snd kv)"
      using JObj.prems(1) kv child_ok_depth [OF \<open>depth \<le> 63\<close>] by fastforce
    ultimately show "read_value n' (Suc depth) (tokens_of (snd kv) @ r') = Inr (snd kv, r')"
      by (intro JObj.IH [of kv]) (auto intro: snds.intros)
  qed (use JObj.prems n in simp_all)
  then show ?case using n JObj.prems(2) by simp
next
  case JNull
  then show ?case by (cases n) auto
next
  case (JBool b)
  then show ?case by (cases n) auto
next
  case (JNum x)
  then show ?case by (cases n) auto
next
  case (JStr s)
  then show ?case by (cases n) auto
qed

section \<open>Properties\<close>

text \<open>
  C38: on every token stream the decoder returns a value or one of the errors the code names; the
  fuel of the model never runs out.
\<close>

theorem decode_total: "decode ts \<noteq> Inl OutOfFuel"
proof -
  have "read_value (2 * length ts + 1) 0 ts \<noteq> Inl OutOfFuel"
    by (rule read_fuel(1)) simp
  then show ?thesis
    by (auto simp: decode_def split: sum.splits)
qed

lemma decode_Inr: "decode ts = Inr v \<longleftrightarrow> read_value (2 * length ts + 1) 0 ts = Inr (v, [])"
  unfolding decode_def by (auto split: sum.splits prod.splits if_splits simp del: read_value.simps)

lemma decode_ok: "decode ts = Inr v \<Longrightarrow> json_ok 64 v"
  unfolding decode_Inr by (drule read_sound(1)) simp

lemma decode_tokens_of: "json_ok 64 v \<Longrightarrow> decode (tokens_of v) = Inr v"
  unfolding decode_Inr using read_tokens [of 0 v "[]" "2 * length (tokens_of v) + 1"]
  by (simp del: read_value.simps)

text \<open>
  C37: the decoder reads back exactly the values an encoder may write: encoding a value and decoding
  the tokens gives the value back if and only if no object in it repeats a property name and no
  part of it is nested deeper than 64.
\<close>

theorem decode_round_trip: "decode (tokens_of v) = Inr v \<longleftrightarrow> json_ok 64 v"
  using decode_ok decode_tokens_of by blast

end
