(* ===== verification/Protocol_Types.thy ===== *)
theory Protocol_Types
  imports Wire
begin

text \<open>
  \<open>internal/protocol/types_generated.go\<close> and the enumerations of \<open>database/migrations\<close>: the messages
  and resources of the protocol as records, its tagged unions as datatypes. An identifier that Go
  reads with \<open>str\<close> is a string, empty where the property is absent; a property that the code tells
  apart from an absent or null one is an option. Times are integers (nanoseconds), which is what
  \<open>timestamp\<close> and \<open>parseTime\<close> carry through the protocol; properties that no code looks into are kept
  as the JSON value they are.
\<close>

section \<open>Enumerations\<close>

datatype session_state =
  S_idle | S_running | S_waiting_approval | S_waiting_input | S_cancelling
  | S_completed | S_cancelled | S_failed | S_closed

datatype turn_state =
  T_starting | T_running | T_waiting_approval | T_waiting_input | T_cancelling
  | T_completed | T_cancelled | T_failed

datatype op_state = Op_accepted | Op_delivered | Op_confirmed | Op_failed | Op_reconciling

datatype outbox_state = Out_pending | Out_dispatching | Out_delivered | Out_uncertain | Out_not_sent

datatype queue_state = Q_queued | Q_starting | Q_consumed | Q_cancelled

datatype request_state = R_pending | R_deciding | R_resolved | R_expired | R_cancelled

datatype op_kind =
  K_create | K_send | K_queue | K_cancel | K_respond | K_pair | K_revoke | K_mark_read
  | K_native | K_organize | K_delete_history | K_import_history | K_subscribe

datatype resource_type =
  Rt_node | Rt_project | Rt_agent | Rt_session | Rt_request | Rt_notification | Rt_audit | Rt_operation

datatype change_action = Upsert | Remove

datatype session_mode = Managed | Readonly

datatype history_state = Available | Purged

datatype origin_mode = New_session | Resume | Fork | Clone | Attach | Import

datatype request_kind = Approval | Question

datatype agent_state = Ready | Unavailable | Agent_error

datatype notice_kind = N_approval | N_question | N_completed | N_failed | N_system

datatype error_code =
  UNAUTHENTICATED | FORBIDDEN | NOT_FOUND | VALIDATION_FAILED | IDEMPOTENCY_CONFLICT | NODE_OFFLINE
  | CAPABILITY_CHANGED | CAPABILITY_UNSUPPORTED | READ_ONLY | STALE_TURN | REQUEST_EXPIRED
  | REQUEST_ALREADY_DECIDED | CURSOR_EXPIRED | CURSOR_AHEAD | RATE_LIMITED | PAYLOAD_TOO_LARGE
  | PROTOCOL_UNSUPPORTED | SOURCE_CONFLICT | PAIRING_INVALID | PAIRING_CONFLICT | OPERATION_UNKNOWN
  | SERVICE_UNAVAILABLE | INTERNAL | HISTORY_PURGED | SHARE_UNAVAILABLE

section \<open>Resources\<close>

text \<open>\<open>omitempty\<close> booleans are options: \<open>equal\<close> tells an absent property from a false one.\<close>

record capabilities =
  cap_send :: bool
  cap_cancel :: bool
  cap_approval :: bool
  cap_question :: bool
  cap_diff :: bool
  cap_plan :: bool
  cap_usage :: bool
  cap_queue :: bool
  cap_steer :: bool
  cap_models :: "bool option"
  cap_compact :: "bool option"
  cap_workspace :: "bool option"
  cap_history_import :: "bool option"
  cap_sections :: "string list option"

datatype cap_key =
  Cap_send | Cap_cancel | Cap_approval | Cap_question | Cap_queue | Cap_models | Cap_compact
  | Cap_workspace | Cap_history_import

text \<open>\<open>truth(object(session,"capabilities"), key)\<close>.\<close>

fun truth_cap :: "capabilities \<Rightarrow> cap_key \<Rightarrow> bool" where
  "truth_cap c Cap_send = cap_send c"
| "truth_cap c Cap_cancel = cap_cancel c"
| "truth_cap c Cap_approval = cap_approval c"
| "truth_cap c Cap_question = cap_question c"
| "truth_cap c Cap_queue = cap_queue c"
| "truth_cap c Cap_models = (cap_models c = Some True)"
| "truth_cap c Cap_compact = (cap_compact c = Some True)"
| "truth_cap c Cap_workspace = (cap_workspace c = Some True)"
| "truth_cap c Cap_history_import = (cap_history_import c = Some True)"

record choice =
  ch_id :: string
  ch_label :: string

datatype question_body = Single "choice list" | Multiple "choice list" int | Free_text int

record question =
  qn_id :: string
  qn_label :: string
  qn_required :: bool
  qn_body :: question_body

datatype request_body =
  Approval_body string string "choice list" | Question_body "question list"

fun body_kind :: "request_body \<Rightarrow> request_kind" where
  "body_kind (Approval_body a s cs) = Approval"
| "body_kind (Question_body qs) = Question"

record node_request =
  nr_id :: string
  nr_session :: string
  nr_turn :: string
  nr_title :: string
  nr_summary :: string
  nr_created :: string
  nr_expires :: string
  nr_body :: request_body

datatype decision = Choose string | Answer "(string \<times> json) list"

fun decision_kind :: "decision \<Rightarrow> request_kind" where
  "decision_kind (Choose c) = Approval"
| "decision_kind (Answer a) = Question"

record request_view =
  rv_id :: string
  rv_session :: string
  rv_turn :: string
  rv_state :: request_state
  rv_def :: node_request
  rv_created :: string
  rv_expires :: string
  rv_revision :: int
  rv_decision :: "decision option"
  rv_decision_op :: "string option"

abbreviation rv_kind :: "request_view \<Rightarrow> request_kind" where
  "rv_kind r \<equiv> body_kind (nr_body (rv_def r))"

record queue_item =
  qi_id :: string
  qi_op :: string
  qi_text :: string
  qi_state :: queue_state
  qi_created :: string

record node_session_state =
  ns_session :: string
  ns_turn :: string
  ns_state :: session_state
  ns_caps :: capabilities
  ns_caprev :: int
  ns_queue :: "queue_item list"

record node_project =
  np_id :: string
  np_name :: string
  np_description :: string
  np_branch :: "string option"
  np_valid :: bool

record node_agent =
  ag_id :: string
  ag_name :: string
  ag_state :: agent_state
  ag_version :: "string option"
  ag_adapter :: string
  ag_caps :: capabilities
  ag_caprev :: int

section \<open>Timeline and events\<close>

datatype timeline_item =
    Message_item string string string string bool bool
  | Tool_item string string bool json
  | Plan_item string string json
  | Diff_item string string "string list" json
  | Usage_item string string json
  | Notice_item string string string json
  | Request_item string string string

primrec item_id :: "timeline_item \<Rightarrow> string" where
  "item_id (Message_item i t r x c u) = i"
| "item_id (Tool_item i t u b) = i"
| "item_id (Plan_item i t b) = i"
| "item_id (Diff_item i t fs b) = i"
| "item_id (Usage_item i t b) = i"
| "item_id (Notice_item i t x b) = i"
| "item_id (Request_item i t q) = i"

primrec item_turn :: "timeline_item \<Rightarrow> string" where
  "item_turn (Message_item i t r x c u) = t"
| "item_turn (Tool_item i t u b) = t"
| "item_turn (Plan_item i t b) = t"
| "item_turn (Diff_item i t fs b) = t"
| "item_turn (Usage_item i t b) = t"
| "item_turn (Notice_item i t x b) = t"
| "item_turn (Request_item i t q) = t"

text \<open>\<open>str(item,"text")\<close>, \<open>truth(item,"complete")\<close> and \<open>truth(item,"truncated")\<close>.\<close>

fun item_text :: "timeline_item \<Rightarrow> string" where
  "item_text (Message_item i t r x c u) = x"
| "item_text (Notice_item i t x b) = x"
| "item_text v = []"

fun item_complete :: "timeline_item \<Rightarrow> bool" where
  "item_complete (Message_item i t r x c u) = c"
| "item_complete v = False"

fun item_truncated :: "timeline_item \<Rightarrow> bool" where
  "item_truncated (Message_item i t r x c u) = u"
| "item_truncated (Tool_item i t u b) = u"
| "item_truncated v = False"

record diff_file =
  df_id :: string
  df_session :: string
  df_item :: string
  df_path :: string
  df_language :: "string option"
  df_patch :: string
  df_truncated :: bool
  df_created :: string

text \<open>The \<open>type\<close> and \<open>data\<close> of a session event; \<open>Session_state\<close> carries state, turn and revision.\<close>

datatype event_data =
    Message_delta string string string
  | Message_completed string string string bool
  | Item_upsert timeline_item
  | Request_upsert request_view
  | Session_state session_state string int
  | Queue_updated "queue_item list"
  | Capabilities_updated capabilities int
  | Diff_file_event diff_file

section \<open>Commands and receipts\<close>

record session_origin =
  og_session :: string
  og_source :: string
  og_resource :: string
  og_mode :: origin_mode
  og_point :: "string option"
  og_point_label :: "string option"
  og_project_history :: bool

record session_preset =
  ps_session :: string
  ps_resource :: string

record create_session =
  cs_node :: string
  cs_project :: string
  cs_agent :: string
  cs_prompt :: string
  cs_caprev :: int
  cs_origin :: "session_origin option"
  cs_preset :: "session_preset option"
  cs_history_only :: bool

datatype send_mode = Mode_send | Mode_queue

record send_message =
  sm_turn :: string
  sm_text :: string
  sm_mode :: send_mode
  sm_caprev :: int
  sm_attachments :: "string list"
  sm_references :: "string list"
  sm_command :: string

record cancel_turn =
  ct_turn :: string
  ct_caprev :: int

record respond_request =
  rr_turn :: string
  rr_revision :: int
  rr_caprev :: int
  rr_decision :: decision

record workspace_request =
  wr_kind :: string
  wr_args :: json

datatype native_action =
  Act_models | Act_set_model string | Act_compact | Act_workspace workspace_request

record native_control =
  nc_turn :: string
  nc_caprev :: int
  nc_action :: native_action

record project_history =
  ph_node :: string
  ph_project :: string
  ph_agent :: string
  ph_caprev :: int
  ph_request :: workspace_request

datatype payload =
    P_create create_session
  | P_send send_message
  | P_cancel cancel_turn
  | P_respond respond_request
  | P_native native_control
  | P_history project_history

text \<open>The command a node executes; \<open>kind\<close> is the payload's constructor.\<close>

record node_command =
  c_op :: string
  c_epoch :: int
  c_deadline :: string
  c_session :: string
  c_turn :: string
  c_next_turn :: string
  c_request :: string
  c_payload :: payload

text \<open>\<open>str(object(cmd,"payload"),"expectedTurnId")\<close> and \<open>str(object(cmd,"payload"),"text")\<close>.\<close>

fun payload_turn :: "payload \<Rightarrow> string" where
  "payload_turn (P_create b) = []"
| "payload_turn (P_send b) = sm_turn b"
| "payload_turn (P_cancel b) = ct_turn b"
| "payload_turn (P_respond b) = rr_turn b"
| "payload_turn (P_native b) = nc_turn b"
| "payload_turn (P_history b) = []"

fun payload_text :: "payload \<Rightarrow> string" where
  "payload_text (P_send b) = sm_text b"
| "payload_text p = []"

datatype native_result =
    Nat_models json
  | Nat_set_model string json
  | Nat_compact string
  | Nat_workspace string json

record op_result =
  or_session :: "string option"
  or_turn :: "string option"
  or_request :: "string option"
  or_node :: "string option"
  or_queue_item :: "string option"
  or_native :: "native_result option"

section \<open>Requests that the gateway answers itself\<close>

record session_metadata =
  md_revision :: int
  md_title :: "string option"
  md_pinned :: "bool option"
  md_tags :: "string list option"
  md_archived :: "bool option"

record delete_history =
  dh_revision :: int
  dh_descendants :: bool

record transcript_item =
  ti_role :: string
  ti_text :: string

record transcript =
  tr_exported :: string
  tr_title :: string
  tr_agent :: string
  tr_parent :: "string option"
  tr_items :: "transcript_item list"
  tr_truncated :: bool

record import_history =
  ih_node :: string
  ih_project :: string
  ih_agent :: string
  ih_transcript :: transcript

datatype consent_decision = Accept | Reject | Ban | Filter

record consent_input =
  co_choices :: "(string \<times> consent_decision) list"
  co_nonce :: string

record enrollment_input =
  en_key :: string
  en_name :: string
  en_platform :: string
  en_version :: string

record node_proof =
  pf_challenge :: string
  pf_signature :: string

record create_share =
  csr_control :: bool
  csr_ttl :: int

text \<open>A command through a share; the schema admits the first three.\<close>

datatype shared_command =
    Sc_send send_message
  | Sc_cancel cancel_turn
  | Sc_respond string respond_request
  | Sc_other string

record profile_update =
  up_name :: string
  up_avatar :: "string option option"
  up_revision :: int

text \<open>\<open>str\<close> of a property that may be absent or null.\<close>

fun str :: "string option \<Rightarrow> string" where
  "str None = []"
| "str (Some s) = s"

text \<open>\<open>nullString\<close>: the empty string is stored as NULL.\<close>

definition nullString :: "string \<Rightarrow> string option" where
  "nullString s = (if s = [] then None else Some s)"

lemma str_nullString [simp]: "str (nullString s) = s"
  by (simp add: nullString_def)

lemma nullString_str: "x \<noteq> Some [] \<Longrightarrow> nullString (str x) = x"
  by (cases x) (auto simp: nullString_def)

end
