(* ===== verification/Common.thy ===== *)
theory Common
  imports Protocol_Types "HOL-Library.Char_ord"
begin

text \<open>
  \<open>internal/gateway/common.go\<close> and \<open>truncate_text\<close> of \<open>history.go\<close>: API errors and their normalisation,
  query parameters, signed page cursors, and text cut at a number of characters. Strings are
  lists of bytes holding UTF-8, as Go's are.
\<close>

section \<open>Errors\<close>

text \<open>
  What a handler returns instead of a value: an \<open>APIError\<close> (status, code, \<open>Retry\<close>; the human
  message is left out), \<open>pgx.ErrNoRows\<close>, or any other error (a violated constraint, a failed
  connection).
\<close>

datatype err = Api nat error_code bool | NoRows | DBError

definition apierr :: "nat \<Rightarrow> error_code \<Rightarrow> err" where
  "apierr status code = Api status code (status = 429 \<or> status = 503)"

definition notFound :: err where
  "notFound = apierr 404 NOT_FOUND"

definition invalid :: err where
  "invalid = apierr 400 VALIDATION_FAILED"

fun normalizeError :: "err \<Rightarrow> err" where
  "normalizeError (Api st c r) = Api st c r"
| "normalizeError NoRows = notFound"
| "normalizeError DBError = apierr 500 INTERNAL"

fun error_code_of :: "err \<Rightarrow> error_code" where
  "error_code_of (Api st c r) = c"
| "error_code_of NoRows = NOT_FOUND"
| "error_code_of DBError = INTERNAL"

section \<open>Characters\<close>

definition byte :: "char \<Rightarrow> nat" where
  "byte c = of_char c"

definition continuation :: "char \<Rightarrow> bool" where
  "continuation c \<longleftrightarrow> 128 \<le> byte c \<and> byte c < 192"

text \<open>\<^verbatim>\<open>[]rune(text)\<close>: a leading byte with the continuation bytes that follow it.\<close>

function runes :: "string \<Rightarrow> string list" where
  "runes [] = []"
| "runes (c # cs) = (c # takeWhile continuation cs) # runes (dropWhile continuation cs)"
  by pat_completeness auto
termination
  by (relation "measure length") (auto simp: less_Suc_eq_le length_dropWhile_le)

definition rune_count :: "string \<Rightarrow> nat" where
  "rune_count s = length (runes s)"

definition truncate_text :: "string \<Rightarrow> nat \<Rightarrow> string \<times> bool" where
  "truncate_text text limit =
     (let r = runes text in
      if length r > limit then (concat (take limit r), True) else (text, False))"

lemma concat_runes [simp]: "concat (runes s) = s"
  by (induction s rule: runes.induct) auto

lemma runes_append: "runes (c # t @ cs) = (c # t) # runes cs"
  if "\<forall>x\<in>set t. continuation x" and "cs = [] \<or> \<not> continuation (hd cs)"
proof -
  have "takeWhile continuation (t @ cs) = t" "dropWhile continuation (t @ cs) = cs"
    using that by (cases cs; simp add: takeWhile_append dropWhile_append)+
  then show ?thesis by simp
qed

lemma runes_take: "runes (concat (take n (runes s))) = take n (runes s)"
proof (induction s arbitrary: n rule: runes.induct)
  case 1
  then show ?case by simp
next
  case (2 c cs)
  let ?t = "takeWhile continuation cs" and ?d = "dropWhile continuation cs"
  show ?case
  proof (cases n)
    case (Suc k)
    let ?u = "concat (take k (runes ?d))"
    have hd: "?u = [] \<or> \<not> continuation (hd ?u)"
    proof (cases ?d rule: list.exhaust)
      case (Cons x xs)
      then have "\<not> continuation x" using hd_dropWhile [of continuation cs] by simp
      then show ?thesis using Cons by (cases k) simp_all
    next
      case Nil
      then show ?thesis by (simp only: runes.simps take_Nil concat.simps simp_thms)
    qed
    have "runes (c # ?t @ ?u) = (c # ?t) # runes ?u"
      by (rule runes_append [OF _ hd]) (auto dest: set_takeWhileD)
    then show ?thesis using Suc 2 by simp
  qed simp
qed

lemma rune_count_truncate: "rune_count (fst (truncate_text s n)) = min n (rune_count s)"
  by (auto simp: truncate_text_def rune_count_def runes_take Let_def)

lemma truncate_flag: "snd (truncate_text s n) \<longleftrightarrow> n < rune_count s"
  by (simp add: truncate_text_def rune_count_def Let_def)

lemma truncate_prefix: "\<exists>r. s = fst (truncate_text s n) @ r"
proof -
  have "s = concat (take n (runes s)) @ concat (drop n (runes s))"
    by (metis append_take_drop_id concat_append concat_runes)
  then show ?thesis by (auto simp: truncate_text_def Let_def)
qed

text \<open>
  \<^verbatim>\<open>strings.TrimSpace\<close>: leading and trailing Unicode white space goes. The spaces are U+0009 to
  U+000D, U+0020, U+0085, U+00A0, U+1680, U+2000 to U+200A, U+2028, U+2029, U+202F, U+205F, U+3000.
\<close>

definition space_rune :: "string \<Rightarrow> bool" where
  "space_rune r \<longleftrightarrow>
     (case map byte r of
        [a] \<Rightarrow> a \<in> {9, 10, 11, 12, 13, 32}
      | [a, b] \<Rightarrow> a = 194 \<and> b \<in> {133, 160}
      | [a, b, c] \<Rightarrow>
          (a = 225 \<and> b = 154 \<and> c = 128)
          \<or> (a = 226 \<and> b = 128 \<and> (128 \<le> c \<and> c \<le> 138 \<or> c \<in> {168, 169, 175}))
          \<or> (a = 226 \<and> b = 129 \<and> c = 159)
          \<or> (a = 227 \<and> b = 128 \<and> c = 128)
      | _ \<Rightarrow> False)"

definition trim_space :: "string \<Rightarrow> string" where
  "trim_space s =
     concat (rev (dropWhile space_rune (rev (dropWhile space_rune (runes s)))))"

section \<open>Query parameters\<close>

definition digit :: "char \<Rightarrow> bool" where
  "digit c \<longleftrightarrow> 48 \<le> byte c \<and> byte c \<le> 57"

definition number_of :: "string \<Rightarrow> int" where
  "number_of s = foldl (\<lambda>n c. 10 * n + int (byte c - 48)) 0 s"

definition max_int64 :: int where
  "max_int64 = 9223372036854775807"

text \<open>\<^verbatim>\<open>strconv.Atoi\<close> and \<^verbatim>\<open>strconv.ParseInt(_, 10, 64)\<close>: a sign, digits, the range of \<open>int64\<close>.\<close>

definition parse_int :: "string \<Rightarrow> int option" where
  "parse_int s =
     (let neg = (s \<noteq> [] \<and> hd s = CHR ''-'');
          ds = (if s \<noteq> [] \<and> (hd s = CHR ''-'' \<or> hd s = CHR ''+'') then tl s else s);
          n = (if neg then - number_of ds else number_of ds)
      in if ds = [] \<or> \<not> list_all digit ds \<or> n > max_int64 \<or> n < - max_int64 - 1 then None
         else Some n)"

definition parseLimit :: "string \<Rightarrow> int \<Rightarrow> int \<Rightarrow> err + int" where
  "parseLimit value dflt limit =
     (if value = [] then Inr dflt
      else case parse_int value of
        None \<Rightarrow> Inl invalid
      | Some n \<Rightarrow> (if n < 1 \<or> n > limit then Inl invalid else Inr n))"

definition max_safe :: int where
  "max_safe = 9007199254740991"

definition parseSequence :: "string \<Rightarrow> err + int" where
  "parseSequence value =
     (if value = [] then Inr 0
      else case parse_int value of
        None \<Rightarrow> Inl invalid
      | Some n \<Rightarrow> (if n < 0 \<or> n > max_safe then Inl invalid else Inr n))"

text \<open>How a client writes a sequence number.\<close>

fun decimal :: "nat \<Rightarrow> string" where
  "decimal n = (if n < 10 then [] else decimal (n div 10)) @ [char_of (48 + n mod 10)]"

declare decimal.simps [simp del]

lemma byte_char_of: "n < 256 \<Longrightarrow> byte (char_of n) = n"
  by (simp add: byte_def)

lemma number_of_snoc: "number_of (s @ [c]) = 10 * number_of s + int (byte c - 48)"
  by (simp add: number_of_def)

lemma number_of_decimal: "number_of (decimal n) = int n"
proof (induction n rule: decimal.induct)
  case (1 n)
  have split: "10 * int (n div 10) + int (n mod 10) = int n"
    using arg_cong [OF mult_div_mod_eq [of 10 n], of int] by (simp only: of_nat_add of_nat_mult of_nat_numeral)
  have "byte (char_of (48 + n mod 10)) = 48 + n mod 10" by (rule byte_char_of) simp
  then show ?case
    using 1 split by (subst decimal.simps) (auto simp: number_of_snoc number_of_def [of "[]"])
qed

lemma decimal_digits: "list_all digit (decimal n)"
proof (induction n rule: decimal.induct)
  case (1 n)
  have "byte (char_of (48 + n mod 10)) = 48 + n mod 10" by (rule byte_char_of) simp
  moreover have "n mod 10 \<le> 9" by simp
  ultimately have "digit (char_of (48 + n mod 10))" unfolding digit_def by linarith
  then show ?case
    using 1 by (subst decimal.simps) simp
qed

lemma decimal_not_nil: "decimal n \<noteq> []"
  by (subst decimal.simps) simp

lemma digit_no_sign: "digit c \<Longrightarrow> c \<noteq> CHR ''-'' \<and> c \<noteq> CHR ''+''"
  by (auto simp: digit_def byte_def)

lemma parse_int_decimal: "int n \<le> max_int64 \<Longrightarrow> parse_int (decimal n) = Some (int n)"
proof -
  assume n: "int n \<le> max_int64"
  have "digit (hd (decimal n))"
    using decimal_digits [of n] decimal_not_nil [of n] by (simp add: list_all_iff)
  with n show ?thesis
    by (auto simp: parse_int_def Let_def decimal_not_nil decimal_digits number_of_decimal max_int64_def
        dest: digit_no_sign)
qed

lemma parseLimit_range: "parseLimit v d m = Inr n \<Longrightarrow> v = [] \<and> n = d \<or> 1 \<le> n \<and> n \<le> m"
  by (auto simp: parseLimit_def split: if_splits option.splits)

lemma parseLimit_pos: "parseLimit v d m = Inr n \<Longrightarrow> 1 \<le> d \<Longrightarrow> 1 \<le> n"
  using parseLimit_range by fastforce

lemma parseSequence_range: "parseSequence v = Inr n \<Longrightarrow> 0 \<le> n \<and> n \<le> max_safe"
  by (auto simp: parseSequence_def max_safe_def split: if_splits option.splits)

section \<open>Properties\<close>

text \<open>
  Cutting a text keeps a prefix of it, of exactly the allowed number of characters (or the whole
  text when it is shorter), and the flag says whether anything was cut.
\<close>

theorem truncate_spec:
  "rune_count (fst (truncate_text s n)) = min n (rune_count s)
   \<and> (\<exists>r. s = fst (truncate_text s n) @ r)
   \<and> (snd (truncate_text s n) = (n < rune_count s))"
  by (intro conjI rune_count_truncate truncate_prefix truncate_flag)

lemma parse_int_decimal_large: "max_int64 < int n \<Longrightarrow> parse_int (decimal n) = None"
proof -
  assume n: "max_int64 < int n"
  have "digit (hd (decimal n))"
    using decimal_digits [of n] decimal_not_nil [of n] by (simp add: list_all_iff)
  with n show ?thesis
    by (auto simp: parse_int_def Let_def decimal_not_nil decimal_digits number_of_decimal
        dest: digit_no_sign)
qed

text \<open>
  The sequence parameter of a request reads back exactly the numbers a client may hold: the
  decimal form of a number is accepted with its value up to the largest safe integer and refused
  beyond it.
\<close>

theorem parse_sequence_decimal:
  "parseSequence (decimal n) = (if int n \<le> max_safe then Inr (int n) else Inl invalid)"
proof (cases "int n \<le> max_int64")
  case True
  then show ?thesis by (simp add: parseSequence_def decimal_not_nil parse_int_decimal)
next
  case False
  then show ?thesis
    by (simp add: parseSequence_def decimal_not_nil parse_int_decimal_large max_safe_def max_int64_def)
qed

end
