(* ===== verification/Cursor.thy ===== *)
theory Cursor
  imports Common
begin

text \<open>
  The signed page cursors of \<open>common.go\<close> (\<open>cursor\<close>, \<open>decodeCursor\<close>): the unpadded URL-safe base64
  of the JSON of the cursor, a dot, and the base64 of its HMAC. The base64 of the standard library
  is modelled byte by byte; the HMAC and the JSON codec are arguments.
\<close>

section \<open>Base64\<close>

definition b64_alphabet :: string where
  "b64_alphabet = ''ABCDEFGHIJKLMNOPQRSTUVWXYZabcdefghijklmnopqrstuvwxyz0123456789-_''"

definition b64_char :: "nat \<Rightarrow> char" where
  "b64_char n = b64_alphabet ! n"

definition b64_index :: "char \<Rightarrow> nat option" where
  "b64_index c =
     (let n = length (takeWhile (\<lambda>x. x \<noteq> c) b64_alphabet) in if n < 64 then Some n else None)"

fun b64_split :: "nat list \<Rightarrow> nat list" where
  "b64_split [] = []"
| "b64_split [x] = [x div 4, (x mod 4) * 16]"
| "b64_split [x, y] = [x div 4, (x mod 4) * 16 + y div 16, (y mod 16) * 4]"
| "b64_split (x # y # z # r) =
     [x div 4, (x mod 4) * 16 + y div 16, (y mod 16) * 4 + z div 64, z mod 64] @ b64_split r"

fun b64_join :: "nat list \<Rightarrow> nat list option" where
  "b64_join [] = Some []"
| "b64_join [p] = None"
| "b64_join [p, q] = Some [p * 4 + q div 16]"
| "b64_join [p, q, r] = Some [p * 4 + q div 16, (q mod 16) * 16 + r div 4]"
| "b64_join (p # q # r # s # t) =
     map_option (\<lambda>u. [p * 4 + q div 16, (q mod 16) * 16 + r div 4, (r mod 4) * 64 + s] @ u) (b64_join t)"

fun all_some :: "'a option list \<Rightarrow> 'a list option" where
  "all_some [] = Some []"
| "all_some (None # xs) = None"
| "all_some (Some x # xs) = map_option (\<lambda>ys. x # ys) (all_some xs)"

definition b64_encode :: "string \<Rightarrow> string" where
  "b64_encode s = map b64_char (b64_split (map byte s))"

text \<open>The decoder skips line breaks and ignores the bits left over in a last partial group.\<close>

definition b64_decode :: "string \<Rightarrow> string option" where
  "b64_decode s =
     (case all_some (map b64_index (filter (\<lambda>c. byte c \<noteq> 10 \<and> byte c \<noteq> 13) s)) of
        None \<Rightarrow> None
      | Some ns \<Rightarrow> map_option (map char_of) (b64_join ns))"

lemma byte_less: "byte c < 256"
  by (simp add: byte_def)

lemma char_of_byte [simp]: "char_of (byte c) = c"
  by (simp add: byte_def)

lemma map_char_of_byte: "map char_of (map byte s) = s"
  by (induction s) auto

lemma b64_split_less: "\<forall>x\<in>set xs. x < 256 \<Longrightarrow> \<forall>y\<in>set (b64_split xs). y < 64"
  by (induction xs rule: b64_split.induct) auto

lemma b64_join_split: "\<forall>x\<in>set xs. x < 256 \<Longrightarrow> b64_join (b64_split xs) = Some xs"
proof (induction xs rule: b64_split.induct)
  case (3 x y)
  then show ?case by (auto simp: div_add1_eq)
next
  case (4 x y z r)
  have "y div 16 div 16 = 0" "z div 64 div 4 = 0" "y div 16 mod 16 = y div 16" "z div 64 mod 4 = z div 64"
    using 4(2) by (simp_all add: div_mult2_eq [symmetric] less_mult_imp_div_less)
  then show ?case using 4 by simp
qed auto

lemma b64_roundtrip_table:
  "list_all (\<lambda>n. b64_index (b64_char n) = Some n \<and> byte (b64_char n) \<noteq> 10 \<and> byte (b64_char n) \<noteq> 13) [0..<64]"
  by code_simp

lemma b64_index_char:
  "n < 64 \<Longrightarrow> b64_index (b64_char n) = Some n \<and> byte (b64_char n) \<noteq> 10 \<and> byte (b64_char n) \<noteq> 13"
  using b64_roundtrip_table by (simp add: list_all_iff)

lemma all_some_map: "all_some (map Some xs) = Some xs"
  by (induction xs) auto

lemma b64_decode_encode: "b64_decode (b64_encode s) = Some s"
proof -
  let ?ns = "b64_split (map byte s)"
  have less: "\<forall>x\<in>set (map byte s). x < 256" using byte_less by auto
  have ns: "\<forall>n\<in>set ?ns. n < 64" by (rule b64_split_less [OF less])
  have "filter (\<lambda>c. byte c \<noteq> 10 \<and> byte c \<noteq> 13) (map b64_char ?ns) = map b64_char ?ns"
    using ns b64_index_char by (intro filter_True) auto
  moreover have "map b64_index (map b64_char ?ns) = map Some ?ns"
    using ns b64_index_char by simp
  ultimately show ?thesis
    using b64_join_split [OF less] map_char_of_byte [of s]
    by (simp add: b64_decode_def b64_encode_def all_some_map del: map_map)
qed

section \<open>Cursors\<close>

text \<open>The properties of a cursor; \<open>str\<close> and \<open>number\<close> read an absent one as empty or zero.\<close>

record cursor =
  cu_user :: string
  cu_kind :: string
  cu_filter :: string
  cu_sort :: string
  cu_id :: string
  cu_after :: int
  cu_scope :: string
  cu_before :: string
  cu_item :: string
  cu_expires :: int

record codec =
  mac :: "string \<Rightarrow> string"
  marshal :: "cursor \<Rightarrow> string"
  unmarshal :: "string \<Rightarrow> cursor option"

definition sign_cursor :: "codec \<Rightarrow> cursor \<Rightarrow> string" where
  "sign_cursor K c = (let b = b64_encode (marshal K c) in b @ ''.'' @ b64_encode (mac K b))"

text \<open>Body and signature around the first dot; both empty when there is none.\<close>

definition split_token :: "string \<Rightarrow> string \<times> string" where
  "split_token token =
     (if CHR ''.'' \<in> set token
      then (takeWhile (\<lambda>c. c \<noteq> CHR ''.'') token, tl (dropWhile (\<lambda>c. c \<noteq> CHR ''.'') token))
      else ([], []))"

definition decodeCursor :: "codec \<Rightarrow> int \<Rightarrow> string \<Rightarrow> err + cursor" where
  "decodeCursor K now_unix token =
     (case split_token token of (body, sig) \<Rightarrow>
      case b64_decode sig of
        None \<Rightarrow> Inl invalid
      | Some raw \<Rightarrow>
          (if raw \<noteq> mac K body then Inl invalid
           else case b64_decode body of
             None \<Rightarrow> Inl invalid
           | Some b \<Rightarrow>
               (case unmarshal K b of
                  None \<Rightarrow> Inl invalid
                | Some c \<Rightarrow> (if cu_expires c < now_unix then Inl (apierr 410 CURSOR_EXPIRED) else Inr c))))"

lemma alphabet_no_dot: "CHR ''.'' \<notin> set b64_alphabet"
  by (simp add: b64_alphabet_def)

lemma length_alphabet: "length b64_alphabet = 64"
  by (simp add: b64_alphabet_def)

lemma encode_no_dot: "CHR ''.'' \<notin> set (b64_encode s)"
proof -
  have "\<forall>n\<in>set (b64_split (map byte s)). n < 64"
    by (rule b64_split_less) (use byte_less in auto)
  moreover have "b64_char n \<in> set b64_alphabet" if "n < 64" for n
    unfolding b64_char_def by (rule nth_mem) (simp add: that length_alphabet)
  ultimately have "set (b64_encode s) \<subseteq> set b64_alphabet"
    by (auto simp: b64_encode_def)
  then show ?thesis using alphabet_no_dot by blast
qed

lemma split_token_encode: "split_token (b64_encode s @ ''.'' @ r) = (b64_encode s, r)"
proof -
  have "takeWhile (\<lambda>c. c \<noteq> CHR ''.'') (b64_encode s @ ''.'' @ r) = b64_encode s"
    "dropWhile (\<lambda>c. c \<noteq> CHR ''.'') (b64_encode s @ ''.'' @ r) = ''.'' @ r"
    using encode_no_dot [of s] by (auto simp: takeWhile_append dropWhile_append)
  then show ?thesis by (simp add: split_token_def)
qed

lemma sign_cursor_nonempty: "sign_cursor K c \<noteq> []"
  by (simp add: sign_cursor_def Let_def)

lemma parseLimit_decimal: "1 \<le> n \<Longrightarrow> int n \<le> m \<Longrightarrow> m \<le> max_int64 \<Longrightarrow> parseLimit (decimal n) k m = Inr (int n)"
  by (simp add: parseLimit_def decimal_not_nil parse_int_decimal)

lemma decode_sign_cursor:
  "unmarshal K (marshal K c) = Some c \<Longrightarrow>
     decodeCursor K t (sign_cursor K c)
       = (if cu_expires c < t then Inl (apierr 410 CURSOR_EXPIRED) else Inr c)"
  using split_token_encode [of "marshal K c"]
  by (simp add: decodeCursor_def sign_cursor_def Let_def b64_decode_encode)

lemma decodeCursor_signed:
  "decodeCursor K t token = Inr c \<Longrightarrow>
     \<exists>body sig. split_token token = (body, sig) \<and> b64_decode sig = Some (mac K body) \<and> t \<le> cu_expires c"
  by (auto simp: decodeCursor_def split: prod.splits option.splits if_splits)

section \<open>Properties\<close>

text \<open>
  C39: a page cursor the server signs is accepted again and gives the position back until it expires,
  and is refused as expired afterwards.
\<close>

theorem cursor_round_trip:
  assumes "unmarshal K (marshal K c) = Some c"
  shows "decodeCursor K t (sign_cursor K c)
    = (if cu_expires c < t then Inl (apierr 410 CURSOR_EXPIRED) else Inr c)"
  using assms by (rule decode_sign_cursor)

theorem cursor_round_trip_witness:
  "decodeCursor \<lparr>mac = rev, marshal = cu_user, unmarshal = (\<lambda>s. Some \<lparr>cu_user = s, cu_kind = ''nodes'',
       cu_filter = [], cu_sort = [], cu_id = ''i'', cu_after = 3, cu_scope = [], cu_before = [], cu_item = [], cu_expires = 10\<rparr>)\<rparr> 5
     (sign_cursor \<lparr>mac = rev, marshal = cu_user, unmarshal = (\<lambda>s. Some \<lparr>cu_user = s, cu_kind = ''nodes'',
       cu_filter = [], cu_sort = [], cu_id = ''i'', cu_after = 3, cu_scope = [], cu_before = [], cu_item = [], cu_expires = 10\<rparr>)\<rparr>
       \<lparr>cu_user = ''u'', cu_kind = ''nodes'', cu_filter = [], cu_sort = [], cu_id = ''i'',
        cu_after = 3, cu_scope = [], cu_before = [], cu_item = [], cu_expires = 10\<rparr>)
   = Inr \<lparr>cu_user = ''u'', cu_kind = ''nodes'', cu_filter = [], cu_sort = [], cu_id = ''i'',
        cu_after = 3, cu_scope = [], cu_before = [], cu_item = [], cu_expires = 10\<rparr>"
  by (subst cursor_round_trip) simp_all

end
