(* ===== verification/Store.thy ===== *)
theory Store
  imports Cursor
begin

text \<open>
  The database: the tables of \<open>database/migrations\<close> as lists of rows in one record, and
  \<open>internal/gateway/store.go\<close> with \<open>getResource\<close> of \<open>resources.go\<close> and \<open>queueSubscription\<close> of
  \<open>subscriptions.go\<close>. A statement is a list operation; an \<open>INSERT\<close> is refused (\<open>DBError\<close>) when its
  primary key is taken, and an \<open>UPDATE\<close> when a \<open>CHECK\<close> on the column it writes fails. Foreign keys
  are not modelled. What the handlers take from outside (clock, entropy, configuration, schema
  validator, hashes, and how Go and the database write a time as text) is the record \<open>env\<close>.
\<close>

section \<open>Rows\<close>

record user_row =
  us_id :: string
  us_subject :: string
  us_name :: string
  us_last_rev :: int
  us_created :: int
  us_avatar :: "string option"
  us_profile_rev :: int

record user_token_row =
  ut_hash :: string
  ut_user :: string
  ut_expires :: int
  ut_revoked :: "int option"

record node_row =
  nd_id :: string
  nd_key :: string
  nd_name :: string
  nd_platform :: string
  nd_version :: string
  nd_epoch :: int
  nd_credential :: int
  nd_revision :: int
  nd_last_seen :: "int option"
  nd_revoked :: "int option"
  nd_created :: int

record access_row =
  ac_user :: string
  ac_node :: string
  ac_revoked :: "int option"

record node_token_row =
  nk_hash :: string
  nk_node :: string
  nk_credential :: int
  nk_expires :: int
  nk_revoked :: "int option"

record project_row =
  pj_node :: string
  pj_body :: node_project
  pj_revision :: int

record agent_row =
  ar_node :: string
  ar_body :: node_agent
  ar_revision :: int

record session_row =
  se_id :: string
  se_user :: string
  se_node :: string
  se_project :: string
  se_agent :: string
  se_title :: string
  se_state :: session_state
  se_turn :: "string option"
  se_mode :: session_mode
  se_history :: history_state
  se_caps :: capabilities
  se_caprev :: int
  se_revision :: int
  se_last_seq :: int
  se_last_source :: int
  se_earliest :: int
  se_created :: int
  se_updated :: int
  se_pinned :: bool
  se_tags :: "string list"
  se_archived :: bool
  se_parent :: "string option"
  se_origin :: origin_mode
  se_origin_point :: "string option"

record turn_row =
  tn_id :: string
  tn_session :: string
  tn_state :: turn_state
  tn_started :: "int option"
  tn_ended :: "int option"

record op_error =
  oe_code :: error_code
  oe_retry :: bool
  oe_trace :: string

record op_row =
  op_user :: string
  op_id :: string
  op_kind :: op_kind
  op_hash :: string
  op_state :: op_state
  op_node :: "string option"
  op_session :: "string option"
  op_turn :: "string option"
  op_epoch :: int
  op_payload :: "node_command option"
  op_result :: "op_result option"
  op_error :: "op_error option"
  op_revision :: int
  op_deadline :: int
  op_created :: int
  op_updated :: int

record outbox_row =
  ob_user :: string
  ob_op :: string
  ob_node :: string
  ob_epoch :: int
  ob_state :: outbox_state
  ob_deadline :: int

record queue_row =
  qu_id :: string
  qu_user :: string
  qu_session :: string
  qu_op :: string
  qu_next_turn :: string
  qu_position :: int
  qu_text :: string
  qu_state :: queue_state
  qu_created :: int

record request_row =
  rq_id :: string
  rq_session :: string
  rq_turn :: string
  rq_user :: string
  rq_state :: request_state
  rq_def :: node_request
  rq_decision :: "decision option"
  rq_decision_op :: "string option"
  rq_revision :: int
  rq_created :: int
  rq_expires :: int
  rq_resolved :: "int option"

record event_row =
  ev_session :: string
  ev_seq :: int
  ev_id :: string
  ev_node :: string
  ev_turn :: "string option"
  ev_source :: "(string \<times> int \<times> string) option"
  ev_data :: event_data
  ev_created :: int

record receipt_row =
  rc_node :: string
  rc_event :: string
  rc_session :: string
  rc_source_seq :: int
  rc_hash :: string
  rc_gateway_seq :: int
  rc_created :: int

record timeline_row =
  tl_session :: string
  tl_turn :: string
  tl_item :: string
  tl_first :: int
  tl_last :: int
  tl_body :: timeline_item

record checkpoint_row =
  cp_id :: string
  cp_session :: string
  cp_seq :: int
  cp_count :: int
  cp_created :: int
  cp_expires :: int

record checkpoint_item_row =
  ci_checkpoint :: string
  ci_ordinal :: int
  ci_body :: timeline_item

record diff_row =
  dr_session :: string
  dr_turn :: string
  dr_file :: diff_file

record notice_row =
  nt_id :: string
  nt_user :: string
  nt_session :: "string option"
  nt_kind :: notice_kind
  nt_title :: string
  nt_read :: "int option"
  nt_revision :: int
  nt_created :: int

record change_row =
  cg_user :: string
  cg_revision :: int
  cg_type :: resource_type
  cg_resource :: string
  cg_action :: change_action
  cg_resource_rev :: int
  cg_created :: int

datatype audit_action = Audit_login | Audit_op op_kind

record audit_row =
  au_id :: string
  au_user :: string
  au_op :: "string option"
  au_node :: "string option"
  au_session :: "string option"
  au_action :: audit_action
  au_state :: op_state
  au_created :: int

record share_row =
  sh_id :: string
  sh_session :: string
  sh_owner :: string
  sh_recipient :: "string option"
  sh_control :: bool
  sh_token_hash :: string
  sh_invite :: "string option"
  sh_create_op :: string
  sh_request_hash :: string
  sh_created :: int
  sh_expires :: int
  sh_accepted :: "int option"
  sh_revoked :: "int option"

record share_command_row =
  sc_share :: string
  sc_actor :: string
  sc_client_op :: string
  sc_owner :: string
  sc_owner_op :: string
  sc_hash :: string
  sc_action :: op_kind
  sc_created :: int

record consent_row =
  cn_user :: string
  cn_template :: string
  cn_credits :: int
  cn_decision :: consent_decision

datatype push_state = Push_pending | Push_sending | Push_sent | Push_failed | Push_unknown

record push_row =
  pu_id :: string
  pu_user :: string
  pu_notice :: string
  pu_template :: string
  pu_session :: string
  pu_data :: "(string \<times> string) list"
  pu_app :: string
  pu_state :: push_state
  pu_code :: "int option"
  pu_created :: int

datatype enrollment_state = Enroll_pending | Enroll_confirmed | Enroll_expired

record enrollment_row =
  el_id :: string
  el_key :: string
  el_code_hash :: string
  el_poll_hash :: string
  el_name :: string
  el_platform :: string
  el_version :: string
  el_state :: enrollment_state
  el_node :: "string option"
  el_expires :: int

record ticket_row =
  tk_id :: string
  tk_enrollment :: string
  tk_user :: string
  tk_expires :: int
  tk_consumed :: "int option"

record challenge_row =
  cl_id :: string
  cl_node :: string
  cl_nonce_hash :: string
  cl_input :: string
  cl_expires :: int
  cl_consumed :: "int option"

record db =
  t_users :: "user_row list"
  t_user_tokens :: "user_token_row list"
  t_nodes :: "node_row list"
  t_access :: "access_row list"
  t_node_tokens :: "node_token_row list"
  t_projects :: "project_row list"
  t_agents :: "agent_row list"
  t_sessions :: "session_row list"
  t_turns :: "turn_row list"
  t_ops :: "op_row list"
  t_outbox :: "outbox_row list"
  t_queue :: "queue_row list"
  t_requests :: "request_row list"
  t_events :: "event_row list"
  t_receipts :: "receipt_row list"
  t_timeline :: "timeline_row list"
  t_checkpoints :: "checkpoint_row list"
  t_checkpoint_items :: "checkpoint_item_row list"
  t_diffs :: "diff_row list"
  t_notices :: "notice_row list"
  t_changes :: "change_row list"
  t_audits :: "audit_row list"
  t_shares :: "share_row list"
  t_share_commands :: "share_command_row list"
  t_identities :: "(string \<times> string) list"
  t_consents :: "consent_row list"
  t_pushes :: "push_row list"
  t_enrollments :: "enrollment_row list"
  t_tickets :: "ticket_row list"
  t_challenges :: "challenge_row list"
  entropy :: nat

section \<open>What comes from outside\<close>

datatype field_source = Src_value | Src_summary | Src_session_title | Src_state | Src_time

record subscription_field =
  sf_source :: field_source
  sf_value :: string
  sf_limit :: nat

record subscription_template =
  st_id :: string
  st_title :: string
  st_kind :: notice_kind
  st_app :: string
  st_data :: "(string \<times> subscription_field) list"

record config =
  cf_wechat :: bool
  cf_subscriptions :: "subscription_template list"
  cf_command_ttl :: int
  cf_offline_after :: int
  cf_heartbeat :: int
  cf_max_connections :: nat
  cf_queue_frames :: nat
  cf_queue_bytes :: nat
  cf_content_retention :: int
  cf_metadata_retention :: int
  cf_changes_retention :: int
  cf_maintenance_interval :: int
  cf_origins :: "string list"
  cf_user_ttl :: int
  cf_node_ttl :: int
  cf_app_id :: string

text \<open>The bodies of the requests that are recorded as operations.\<close>

datatype http_body =
    Body_command payload
  | Body_ticket string
  | Body_none
  | Body_metadata session_metadata
  | Body_delete delete_history
  | Body_import import_history
  | Body_consent consent_input
  | Body_share create_share
  | Body_shared shared_command

text \<open>\<open>requestFingerprint\<close> (pairing.go): method, path and body of a request.\<close>

record fingerprint =
  fp_method :: string
  fp_path :: string
  fp_body :: http_body

text \<open>What a node reports about a session, without the epoch (\<open>hashInput\<close> of \<open>source\<close>).\<close>

datatype source_body =
    Src_event string string event_data
  | Src_session node_session_state
  | Src_request node_request
  | Src_request_cancel string string string

record source_message =
  src_event :: string
  src_seq :: int
  src_body :: source_body

text \<open>The frames the gateway writes, to a node or to a client.\<close>

datatype frame =
    F_node_ready string int int string
  | F_node_heartbeat int string string
  | F_events_ack int string int int
  | F_command node_command
  | F_command_query int string
  | F_heartbeat string
  | F_ready int "(string \<times> int) list" int
  | F_change change_row
  | F_operation op_row
  | F_event event_row
  | F_error op_error

text \<open>
  Random bytes and cryptography: \<open>secret()\<close>, nonces, single bytes; AES-GCM under a key that is derived
  from the configured one by a label (nonce, text and associated data follow); the keyed digest
  \<open>digest\<close>; Ed25519; and the image codecs (the size of a picture with whether it is a JPEG or PNG file,
  and its re-encoding as a JPEG file); last, the size of an item of a transcript as canonical JSON.
\<close>

record vault =
  vt_secret :: "nat \<Rightarrow> string"
  vt_nonce :: "nat \<Rightarrow> string"
  vt_byte :: "nat \<Rightarrow> char"
  vt_seal :: "string \<Rightarrow> string \<Rightarrow> string \<Rightarrow> string \<Rightarrow> string"
  vt_open :: "string \<Rightarrow> string \<Rightarrow> string \<Rightarrow> string \<Rightarrow> string option"
  vt_digest :: "string \<Rightarrow> string \<Rightarrow> string"
  vt_verify :: "string \<Rightarrow> string \<Rightarrow> string \<Rightarrow> bool"
  vt_image :: "string \<Rightarrow> (bool \<times> int \<times> int) option"
  vt_jpeg :: "string \<Rightarrow> string option"
  vt_size :: "transcript_item \<Rightarrow> nat"

text \<open>
  What the API shows of a row. A project, an agent and a session are shown as they are stored, a session
  with its queue; the summary of a notice is always empty, and the title of an audit entry is made of its
  action and state.
\<close>

record node_view =
  nv_id :: string
  nv_name :: string
  nv_platform :: string
  nv_version :: string
  nv_online :: bool
  nv_last_seen :: "string option"
  nv_revoked :: bool
  nv_revision :: int

record notice_view =
  nw_id :: string
  nw_session :: "string option"
  nw_kind :: notice_kind
  nw_title :: string
  nw_read :: bool
  nw_created :: string
  nw_revision :: int

record audit_view =
  aw_id :: string
  aw_action :: audit_action
  aw_state :: op_state
  aw_op :: "string option"
  aw_node :: "string option"
  aw_session :: "string option"
  aw_created :: string

datatype resource_view =
    V_node node_view
  | V_project project_row
  | V_agent agent_row
  | V_session session_row "queue_item list"
  | V_request request_view
  | V_notice notice_view
  | V_audit audit_view

text \<open>
  \<open>view_size\<close> is the length of a view as canonical JSON, with the member \<^verbatim>\<open>__sort\<close> when it is given, and
  \<open>ilike\<close> the operator of the database, a title against a pattern.
\<close>

record env =
  now :: int
  dbnow :: int
  rnd :: "nat \<Rightarrow> string"
  cfg :: config
  valid_event :: "event_row \<Rightarrow> bool"
  valid_item :: "timeline_item \<Rightarrow> bool"
  valid_command :: "node_command \<Rightarrow> bool"
  valid_frame :: "frame \<Rightarrow> bool"
  frame_size :: "frame \<Rightarrow> nat"
  fp_hash :: "fingerprint \<Rightarrow> string"
  token_hash :: "string \<Rightarrow> string"
  source_hash :: "source_message \<Rightarrow> string"
  event_size :: "event_row \<Rightarrow> nat"
  item_size :: "timeline_item \<Rightarrow> nat"
  item_column_size :: "timeline_item \<Rightarrow> nat"
  timestamp :: "int \<Rightarrow> string"
  pg_time :: "int \<Rightarrow> string"
  push_time :: "int \<Rightarrow> string"
  parse_time :: "string \<Rightarrow> int"
  codec_of :: codec
  unix :: "int \<Rightarrow> int"
  vault_of :: vault
  view_size :: "string option \<Rightarrow> resource_view \<Rightarrow> nat"
  ilike :: "string \<Rightarrow> string \<Rightarrow> bool"

type_synonym 'a dbact = "(db, err, 'a) act"

section \<open>Statements\<close>

text \<open>\<open>QueryRow(..).Scan(..)\<close>: \<open>pgx.ErrNoRows\<close> when there is no row.\<close>

definition oneS :: "(db \<Rightarrow> 'a option) \<Rightarrow> 'a dbact" where
  "oneS f = (\<lambda>d. case f d of None \<Rightarrow> (Inl NoRows, d) | Some x \<Rightarrow> (Inr x, d))"

definition guardS :: "bool \<Rightarrow> 'e \<Rightarrow> ('s, 'e, unit) act" where
  "guardS b e = (if b then returnS () else failS e)"

lemma oneS_run [run_simps]: "oneS f d = (case f d of None \<Rightarrow> (Inl NoRows, d) | Some x \<Rightarrow> (Inr x, d))"
  by (simp add: oneS_def)

lemma oneS_Inr [run_iff]: "oneS f d = (Inr x, t) \<longleftrightarrow> f d = Some x \<and> t = d"
  by (auto simp: oneS_def split: option.splits)

lemma guardS_run [run_simps]: "guardS b e s = (if b then (Inr (), s) else (Inl e, s))"
  by (simp add: guardS_def run_simps)

lemma guardS_Inr [run_iff]: "guardS b e s = (Inr x, t) \<longleftrightarrow> b \<and> t = s"
  by (simp add: guardS_def run_simps) auto

lemma keeps_one [keeps_rules]: "keeps I (oneS f)"
  by (simp add: keeps_def oneS_def split: option.split)

lemma keeps_guard [keeps_rules]: "keeps I (guardS b e)"
  by (simp add: keeps_def guardS_run)

lemma preserves_one [keeps_rules]: "preserves I (oneS f)"
  by (simp add: keeps_preserves keeps_one)

lemma preserves_guard [keeps_rules]: "preserves I (guardS b e)"
  by (simp add: keeps_preserves keeps_guard)

lemma preserves_guarded: "(b \<Longrightarrow> preserves I k) \<Longrightarrow> preserves I (thenS (guardS b e) k)"
  by (rule preservesI) (auto simp: thenS_Inr guardS_Inr dest: preservesD)

lemma keeps_guarded: "(b \<Longrightarrow> keeps I k) \<Longrightarrow> keeps I (thenS (guardS b e) k)"
  by (rule keepsI) (auto simp: thenS_run bindS_run guardS_run keeps_def)

text \<open>\<open>id(prefix)\<close>: 16 fresh random bytes in hexadecimal behind the prefix.\<close>

definition new_id :: "env \<Rightarrow> string \<Rightarrow> string dbact" where
  "new_id E prefix =
     (\<lambda>d. (Inr (prefix @ ''_'' @ rnd E (entropy d)), d\<lparr>entropy := entropy d + 1\<rparr>))"

lemma new_id_run [run_simps]:
  "new_id E prefix d = (Inr (prefix @ ''_'' @ rnd E (entropy d)), d\<lparr>entropy := entropy d + 1\<rparr>)"
  by (simp add: new_id_def)

lemma new_id_iff [run_iff]:
  "new_id E prefix d = (r, t) \<longleftrightarrow>
     r = Inr (prefix @ ''_'' @ rnd E (entropy d)) \<and> t = d\<lparr>entropy := entropy d + 1\<rparr>"
  by (auto simp: new_id_def)

text \<open>
  \<open>transaction\<close>: locks the user's row, which has to exist, and runs the function; an error undoes
  every write. Entropy that was drawn stays drawn.
\<close>

definition transaction :: "string \<Rightarrow> 'a dbact \<Rightarrow> 'a dbact" where
  "transaction uid fn =
     (\<lambda>d. if uid \<noteq> [] \<and> \<not> has_row (\<lambda>u. us_id u = uid) (t_users d) then (Inl NoRows, d)
          else case fn d of
            (Inl e, t) \<Rightarrow> (Inl e, d\<lparr>entropy := entropy t\<rparr>)
          | (Inr x, t) \<Rightarrow> (Inr x, t))"

lemma transaction_Inr [run_iff]:
  "transaction uid fn d = (Inr x, t) \<longleftrightarrow>
     (uid = [] \<or> has_row (\<lambda>u. us_id u = uid) (t_users d)) \<and> fn d = (Inr x, t)"
  by (auto simp: transaction_def split: prod.splits sum.splits)

lemma transaction_Inl: "transaction uid fn d = (Inl e, t) \<Longrightarrow> \<exists>n. t = d\<lparr>entropy := n\<rparr>"
  by (auto simp: transaction_def split: prod.splits sum.splits if_splits intro: exI [of _ "entropy d"])

section \<open>Access\<close>

text \<open>\<open>activeAccess\<close>: the user's access to the node and the node itself are not revoked.\<close>

definition accessible :: "db \<Rightarrow> string \<Rightarrow> string \<Rightarrow> bool" where
  "accessible d uid nid \<longleftrightarrow>
     has_row (\<lambda>a. ac_user a = uid \<and> ac_node a = nid \<and> ac_revoked a = None) (t_access d)
     \<and> has_row (\<lambda>n. nd_id n = nid \<and> nd_revoked n = None) (t_nodes d)"

definition ownNode :: "string \<Rightarrow> string \<Rightarrow> bool \<Rightarrow> string dbact" where
  "ownNode uid nid includeRevoked =
     oneS (\<lambda>d. if (if includeRevoked
                   then has_row (\<lambda>a. ac_user a = uid \<and> ac_node a = nid) (t_access d)
                        \<and> has_row (\<lambda>n. nd_id n = nid) (t_nodes d)
                   else accessible d uid nid)
               then Some nid else None)"

definition find_session :: "db \<Rightarrow> string \<Rightarrow> session_row option" where
  "find_session d sid = find (\<lambda>r. se_id r = sid) (t_sessions d)"

definition own_session_row :: "db \<Rightarrow> string \<Rightarrow> string \<Rightarrow> session_row option" where
  "own_session_row d uid sid =
     (case find_session d sid of
        None \<Rightarrow> None
      | Some r \<Rightarrow> (if se_user r = uid \<and> accessible d uid (se_node r) then Some r else None))"

definition ownSession :: "string \<Rightarrow> string \<Rightarrow> string dbact" where
  "ownSession uid sid = oneS (\<lambda>d. map_option se_node (own_session_row d uid sid))"

section \<open>Resources\<close>

text \<open>The \<open>queue\<close> of a session's JSON: its unconsumed items in the order of their positions.\<close>

definition open_queue :: "db \<Rightarrow> string \<Rightarrow> queue_row list" where
  "open_queue d sid =
     sort_key qu_position
       (filter (\<lambda>q. qu_session q = sid \<and> qu_state q \<in> {Q_queued, Q_starting}) (t_queue d))"

definition queue_view :: "env \<Rightarrow> queue_row \<Rightarrow> queue_item" where
  "queue_view E q = \<lparr>qi_id = qu_id q, qi_op = qu_op q, qi_text = qu_text q, qi_state = qu_state q,
     qi_created = pg_time E (qu_created q)\<rparr>"

definition session_queue :: "env \<Rightarrow> db \<Rightarrow> string \<Rightarrow> queue_item list" where
  "session_queue E d sid = map (queue_view E) (open_queue d sid)"

text \<open>\<open>getResource(.., "sessions", sid)\<close>: the row and its queue.\<close>

definition getSession :: "env \<Rightarrow> string \<Rightarrow> string \<Rightarrow> (session_row \<times> queue_item list) dbact" where
  "getSession E uid sid =
     oneS (\<lambda>d. map_option (\<lambda>r. (r, session_queue E d sid)) (own_session_row d uid sid))"

text \<open>\<open>requestExpr\<close>: a pending request past its expiry reads as expired.\<close>

definition request_view_of :: "env \<Rightarrow> request_row \<Rightarrow> request_view" where
  "request_view_of E r =
     \<lparr>rv_id = rq_id r, rv_session = rq_session r, rv_turn = rq_turn r,
      rv_state = (if rq_state r = R_pending \<and> rq_expires r \<le> dbnow E then R_expired else rq_state r),
      rv_def = rq_def r, rv_created = pg_time E (rq_created r), rv_expires = pg_time E (rq_expires r),
      rv_revision = rq_revision r, rv_decision = rq_decision r, rv_decision_op = rq_decision_op r\<rparr>"

definition find_request :: "db \<Rightarrow> string \<Rightarrow> request_row option" where
  "find_request d rid = find (\<lambda>r. rq_id r = rid) (t_requests d)"

definition own_request_row :: "db \<Rightarrow> string \<Rightarrow> string \<Rightarrow> request_row option" where
  "own_request_row d uid rid =
     (case find_request d rid of
        None \<Rightarrow> None
      | Some r \<Rightarrow>
          (case find_session d (rq_session r) of
             None \<Rightarrow> None
           | Some ss \<Rightarrow> (if rq_user r = uid \<and> accessible d uid (se_node ss) \<and>
                            has_row (\<lambda>a. ac_user a = se_user ss \<and> ac_node a = se_node ss
                                         \<and> ac_user a = uid) (t_access d)
                         then Some r else None)))"

definition getRequest :: "env \<Rightarrow> string \<Rightarrow> string \<Rightarrow> request_view dbact" where
  "getRequest E uid rid = oneS (\<lambda>d. map_option (request_view_of E) (own_request_row d uid rid))"

definition getProject :: "string \<Rightarrow> string \<Rightarrow> project_row dbact" where
  "getProject uid pid =
     oneS (\<lambda>d. find (\<lambda>p. np_id (pj_body p) = pid \<and> accessible d uid (pj_node p)) (t_projects d))"

definition getAgent :: "string \<Rightarrow> string \<Rightarrow> agent_row dbact" where
  "getAgent uid aid =
     oneS (\<lambda>d. find (\<lambda>a. ag_id (ar_body a) = aid \<and> accessible d uid (ar_node a)) (t_agents d))"

section \<open>Changes, audit and notifications\<close>

text \<open>
  \<open>change\<close>: the user's \<open>last_revision\<close> is advanced and the new number keys the change; nothing
  happens when there is no such user.
\<close>

definition change :: "env \<Rightarrow> string \<Rightarrow> resource_type \<Rightarrow> string \<Rightarrow> change_action \<Rightarrow> int \<Rightarrow> unit dbact" where
  "change E uid kind rid action version =
     bindS (getS (\<lambda>d. find (\<lambda>u. us_id u = uid) (t_users d)))
       (\<lambda>r. case r of
          None \<Rightarrow> returnS ()
        | Some u \<Rightarrow>
            (let n = us_last_rev u + 1 in
             thenS (guardS (n \<le> max_safe) DBError)
               (bindS (getS (\<lambda>d. has_row (\<lambda>c. cg_user c = uid \<and> cg_revision c = n) (t_changes d)))
                 (\<lambda>taken. thenS (guardS (\<not> taken) DBError)
                   (modS (\<lambda>d. d\<lparr>
                      t_users := upd_rows (\<lambda>u. us_id u = uid) (\<lambda>u. u\<lparr>us_last_rev := n\<rparr>) (t_users d),
                      t_changes := t_changes d @
                        [\<lparr>cg_user = uid, cg_revision = n, cg_type = kind, cg_resource = rid,
                          cg_action = action, cg_resource_rev = version, cg_created = dbnow E\<rparr>]\<rparr>))))))"

definition audit :: "env \<Rightarrow> string \<Rightarrow> string \<Rightarrow> audit_action \<Rightarrow> op_state \<Rightarrow> string \<Rightarrow> string \<Rightarrow> unit dbact" where
  "audit E uid op kind state nid sid =
     bindS (new_id E ''audit'') (\<lambda>aid.
     bindS (getS (\<lambda>d. has_row (\<lambda>a. au_id a = aid) (t_audits d))) (\<lambda>taken.
     thenS (guardS (\<not> taken) DBError)
     (thenS (modS (\<lambda>d. d\<lparr>t_audits := t_audits d @
        [\<lparr>au_id = aid, au_user = uid, au_op = nullString op, au_node = nullString nid,
          au_session = nullString sid, au_action = kind, au_state = state, au_created = dbnow E\<rparr>]\<rparr>))
     (change E uid Rt_audit aid Upsert 1))))"

text \<open>\<open>queueSubscription\<close>: one credit of an accepted template buys one push.\<close>

definition subscriptions_enabled :: "env \<Rightarrow> bool" where
  "subscriptions_enabled E \<longleftrightarrow> cf_wechat (cfg E) \<and> cf_subscriptions (cfg E) \<noteq> []"

definition consent_usable :: "db \<Rightarrow> string \<Rightarrow> string \<Rightarrow> consent_row \<Rightarrow> bool" where
  "consent_usable d uid tid c \<longleftrightarrow>
     cn_user c = uid \<and> cn_template c = tid \<and> cn_decision c = Accept \<and> cn_credits c > 0
     \<and> uid \<in> fst ` set (t_identities d)"

definition push_field ::
  "env \<Rightarrow> string \<Rightarrow> string \<Rightarrow> (notice_kind \<Rightarrow> string) \<Rightarrow> notice_kind \<Rightarrow> subscription_field \<Rightarrow> string" where
  "push_field E summary title kind_text kind f =
     fst (truncate_text (case sf_source f of
                      Src_value \<Rightarrow> sf_value f
                    | Src_summary \<Rightarrow> summary
                    | Src_session_title \<Rightarrow> title
                    | Src_state \<Rightarrow> kind_text kind
                    | Src_time \<Rightarrow> push_time E (now E)) (sf_limit f))"

fun notice_kind_text :: "notice_kind \<Rightarrow> string" where
  "notice_kind_text N_approval = ''approval''"
| "notice_kind_text N_question = ''question''"
| "notice_kind_text N_completed = ''completed''"
| "notice_kind_text N_failed = ''failed''"
| "notice_kind_text N_system = ''system''"

definition queueSubscription ::
  "env \<Rightarrow> string \<Rightarrow> string \<Rightarrow> string \<Rightarrow> notice_kind \<Rightarrow> string \<Rightarrow> unit dbact" where
  "queueSubscription E uid notification sid kind summary =
     (if \<not> subscriptions_enabled E then returnS ()
      else forS (cf_subscriptions (cfg E)) (\<lambda>t.
        if st_kind t \<noteq> kind then returnS ()
        else bindS (getS (\<lambda>d. has_row (consent_usable d uid (st_id t)) (t_consents d))) (\<lambda>usable.
          if \<not> usable then returnS ()
          else thenS (modS (\<lambda>d. d\<lparr>t_consents := upd_rows (consent_usable d uid (st_id t))
                                    (\<lambda>c. c\<lparr>cn_credits := cn_credits c - 1\<rparr>) (t_consents d)\<rparr>))
            (bindS (if \<exists>kf\<in>set (st_data t). sf_source (snd kf) = Src_session_title
                    then oneS (\<lambda>d. map_option se_title
                      (find (\<lambda>r. se_id r = sid \<and> se_user r = uid) (t_sessions d)))
                    else returnS []) (\<lambda>title.
             bindS (new_id E ''push'') (\<lambda>pid.
             bindS (getS (\<lambda>d. has_row (\<lambda>p. pu_id p = pid
                         \<or> pu_notice p = notification \<and> pu_template p = st_id t) (t_pushes d))) (\<lambda>taken.
             thenS (guardS (\<not> taken) DBError)
             (modS (\<lambda>d. d\<lparr>t_pushes := t_pushes d @
                [\<lparr>pu_id = pid, pu_user = uid, pu_notice = notification, pu_template = st_id t,
                  pu_session = sid,
                  pu_data = map (\<lambda>(k, f). (k, push_field E summary title notice_kind_text kind f)) (st_data t),
                  pu_app = st_app t, pu_state = Push_pending, pu_code = None, pu_created = dbnow E\<rparr>]\<rparr>)))))))))"

definition notify :: "env \<Rightarrow> string \<Rightarrow> string \<Rightarrow> notice_kind \<Rightarrow> string \<Rightarrow> unit dbact" where
  "notify E uid sid kind title =
     bindS (new_id E ''notice'') (\<lambda>nid.
     bindS (getS (\<lambda>d. has_row (\<lambda>n. nt_id n = nid) (t_notices d))) (\<lambda>taken.
     thenS (guardS (\<not> taken) DBError)
     (thenS (modS (\<lambda>d. d\<lparr>t_notices := t_notices d @
        [\<lparr>nt_id = nid, nt_user = uid, nt_session = nullString sid, nt_kind = kind, nt_title = title,
          nt_read = None, nt_revision = 1, nt_created = dbnow E\<rparr>]\<rparr>))
     (thenS (queueSubscription E uid nid sid kind title)
     (change E uid Rt_notification nid Upsert 1)))))"

text \<open>The two titles that \<open>notify\<close> is called with, in UTF-8.\<close>

definition title_request :: string where
  "title_request = map char_of ([65, 103, 101, 110, 116, 32, 230, 156, 137, 229, 190, 133, 229, 164, 132, 231, 144, 134, 232, 175, 183, 230, 177, 130] :: nat list)"

definition title_state :: string where
  "title_state = map char_of ([228, 188, 154, 232, 175, 157, 231, 138, 182, 230, 128, 129, 229, 183, 178, 230, 155, 180, 230, 150, 176] :: nat list)"

section \<open>Operations\<close>

definition find_op :: "db \<Rightarrow> string \<Rightarrow> string \<Rightarrow> op_row option" where
  "find_op d uid op = find (\<lambda>r. op_user r = uid \<and> op_id r = op) (t_ops d)"

definition operation :: "string \<Rightarrow> string \<Rightarrow> op_row dbact" where
  "operation uid op = oneS (\<lambda>d. find_op d uid op)"

text \<open>
  \<open>finishOp\<close>: state, result and error are overwritten and the revision advanced. The table's
  \<open>CHECK ((state = 'failed') = (error IS NOT NULL))\<close> guards the row.
\<close>

definition finishOp ::
  "env \<Rightarrow> string \<Rightarrow> string \<Rightarrow> op_state \<Rightarrow> op_result option \<Rightarrow> err option \<Rightarrow> unit dbact" where
  "finishOp E uid op state result reason =
     bindS (case reason of
              Some (Api st code retry) \<Rightarrow>
                bindS (new_id E ''trace'') (\<lambda>t. returnS (Some \<lparr>oe_code = code, oe_retry = retry, oe_trace = t\<rparr>))
            | _ \<Rightarrow> returnS None) (\<lambda>eb.
     bindS (oneS (\<lambda>d. find_op d uid op)) (\<lambda>r.
     thenS (guardS ((state = Op_failed) = (eb \<noteq> None)) DBError)
     (thenS (modS (\<lambda>d. d\<lparr>t_ops := upd_rows (\<lambda>r. op_user r = uid \<and> op_id r = op)
        (\<lambda>r. r\<lparr>op_state := state, op_result := result, op_error := eb,
               op_revision := op_revision r + 1, op_updated := now E\<rparr>) (t_ops d)\<rparr>))
     (change E uid Rt_operation op Upsert (op_revision r + 1)))))"

definition insertOp ::
  "env \<Rightarrow> string \<Rightarrow> string \<Rightarrow> op_kind \<Rightarrow> string \<Rightarrow> string \<Rightarrow> string \<Rightarrow> int \<Rightarrow> fingerprint
     \<Rightarrow> node_command option \<Rightarrow> int \<Rightarrow> unit dbact" where
  "insertOp E uid op kind nid sid turn epoch body command deadline =
     bindS (getS (\<lambda>d. has_row (\<lambda>r. op_user r = uid \<and> op_id r = op) (t_ops d))) (\<lambda>taken.
     thenS (guardS (\<not> taken) DBError)
     (thenS (modS (\<lambda>d. d\<lparr>t_ops := t_ops d @
        [\<lparr>op_user = uid, op_id = op, op_kind = kind, op_hash = fp_hash E body, op_state = Op_accepted,
          op_node = nullString nid, op_session = nullString sid, op_turn = nullString turn,
          op_epoch = epoch, op_payload = command, op_result = None, op_error = None, op_revision = 1,
          op_deadline = deadline, op_created = now E, op_updated = now E\<rparr>]\<rparr>))
     (change E uid Rt_operation op Upsert 1)))"

text \<open>\<open>priorOp\<close>: an operation with this identifier is replayed when its request was the same.\<close>

definition priorOp :: "env \<Rightarrow> string \<Rightarrow> string \<Rightarrow> fingerprint \<Rightarrow> op_row option dbact" where
  "priorOp E uid op fp =
     bindS (getS (\<lambda>d. find_op d uid op)) (\<lambda>r. case r of
       None \<Rightarrow> returnS None
     | Some r \<Rightarrow>
         thenS (guardS (op_hash r = fp_hash E fp) (apierr 409 IDEMPOTENCY_CONFLICT))
           (bindS (operation uid op) (\<lambda>r. returnS (Some r))))"


section \<open>The change log\<close>

text \<open>
  The changes of a user that are kept are numbered without a gap up to the user's
  \<open>last_revision\<close>, in the order of the table.
\<close>

definition change_revs :: "change_row list \<Rightarrow> string \<Rightarrow> int list" where
  "change_revs C uid = map cg_revision (filter (\<lambda>c. cg_user c = uid) C)"

definition changes_inv :: "user_row list \<Rightarrow> change_row list \<Rightarrow> bool" where
  "changes_inv U C \<longleftrightarrow>
     distinct (map us_id U) \<and>
     (\<forall>u\<in>set U. us_last_rev u \<le> max_safe \<and>
        (\<exists>k. 0 \<le> k \<and> k \<le> us_last_rev u \<and> change_revs C (us_id u) = [k + 1..us_last_rev u])) \<and>
     (\<forall>c\<in>set C. cg_user c \<in> us_id ` set U)"

abbreviation changes_ok :: "db \<Rightarrow> bool" where
  "changes_ok d \<equiv> changes_inv (t_users d) (t_changes d)"

lemma change_revs_snoc:
  "change_revs (C @ [c]) uid = change_revs C uid @ (if cg_user c = uid then [cg_revision c] else [])"
  by (simp add: change_revs_def)

lemma changes_inv_step:
  assumes inv: "changes_inv U C" and u: "u \<in> set U" "us_id u = uid"
    and n: "n = us_last_rev u + 1" "n \<le> max_safe"
    and c: "cg_user c = uid" "cg_revision c = n"
  shows "changes_inv (upd_rows (\<lambda>u. us_id u = uid) (\<lambda>u. u\<lparr>us_last_rev := n\<rparr>) U) (C @ [c])"
    (is "changes_inv ?U _")
proof -
  have dist: "distinct (map us_id U)" using inv by (simp add: changes_inv_def)
  have ids: "map us_id ?U = map us_id U" by (rule map_upd_rows_frame) simp
  have "us_last_rev v \<le> max_safe \<and>
      (\<exists>k. 0 \<le> k \<and> k \<le> us_last_rev v \<and> change_revs (C @ [c]) (us_id v) = [k + 1..us_last_rev v])"
    if "v \<in> set ?U" for v
  proof -
    from that obtain w where w: "w \<in> set U"
      and v: "v = (if us_id w = uid then w\<lparr>us_last_rev := n\<rparr> else w)"
      by (auto simp: set_upd_rows)
    obtain k where k: "0 \<le> k" "k \<le> us_last_rev w" "change_revs C (us_id w) = [k + 1..us_last_rev w]"
      and le: "us_last_rev w \<le> max_safe"
      using inv w by (auto simp: changes_inv_def)
    show ?thesis
    proof (cases "us_id w = uid")
      case True
      then have "w = u" using key_unique [OF dist w u(1)] u(2) by simp
      moreover from this have "[k + 1..us_last_rev w] @ [n] = [k + 1..n]"
        using upto_snoc [of "k + 1" "us_last_rev w"] k(2) n(1) by simp
      ultimately show ?thesis using k n v c True
        by (intro conjI exI [of _ k]) (simp_all add: change_revs_snoc del: upto.simps)
    next
      case False
      then show ?thesis using k le v c by (auto simp: change_revs_snoc)
    qed
  qed
  moreover have "us_id ` set ?U = us_id ` set U" using ids by (metis set_map)
  then have "\<forall>x\<in>set (C @ [c]). cg_user x \<in> us_id ` set ?U" using inv u c(1) by (auto simp: changes_inv_def)
  ultimately show ?thesis using dist ids by (simp add: changes_inv_def)
qed

text \<open>A new user has no changes yet.\<close>

lemma changes_inv_new:
  assumes inv: "changes_inv U C" and u: "us_id u \<notin> us_id ` set U" "us_last_rev u = 0"
  shows "changes_inv (U @ [u]) C"
proof -
  have "filter (\<lambda>c. cg_user c = us_id u) C = []"
    using inv u(1) unfolding changes_inv_def filter_empty_conv by metis
  then show ?thesis using inv u by (auto simp: changes_inv_def change_revs_def max_safe_def)
qed

text \<open>Other columns of a user do not matter.\<close>

lemma changes_inv_upd:
  assumes f: "\<And>u. us_id (f u) = us_id u \<and> us_last_rev (f u) = us_last_rev u"
  shows "changes_inv (upd_rows P f U) C = changes_inv U C"
proof -
  have ids: "map us_id (upd_rows P f U) = map us_id U" by (rule map_upd_rows_frame) (use f in blast)
  have row: "us_id (if P u then f u else u) = us_id u" "us_last_rev (if P u then f u else u) = us_last_rev u" for u
    using f by simp_all
  have users: "us_id ` set (upd_rows P f U) = us_id ` set U" using ids by (metis set_map)
  have "(\<forall>v\<in>set (upd_rows P f U). us_last_rev v \<le> max_safe \<and>
        (\<exists>k. 0 \<le> k \<and> k \<le> us_last_rev v \<and> change_revs C (us_id v) = [k + 1..us_last_rev v]))
    \<longleftrightarrow> (\<forall>v\<in>set U. us_last_rev v \<le> max_safe \<and>
        (\<exists>k. 0 \<le> k \<and> k \<le> us_last_rev v \<and> change_revs C (us_id v) = [k + 1..us_last_rev v]))"
    unfolding upd_rows_def set_map ball_simps(9) row ..
  then show ?thesis by (simp only: changes_inv_def ids users)
qed

lemma change_keeps: "keeps changes_ok (change E uid kind rid action n)"
proof (rule keepsI)
  fix d assume inv: "changes_ok d"
  show "changes_ok (snd (change E uid kind rid action n d))"
  proof (cases "find (\<lambda>u. us_id u = uid) (t_users d)")
    case None
    then show ?thesis using inv by (simp add: change_def run_simps)
  next
    case (Some u)
    then show ?thesis
      using inv find_SomeD [OF Some]
      by (auto simp: change_def run_simps Let_def intro: changes_inv_step)
  qed
qed

section \<open>The event log\<close>

text \<open>
  The events of a session that are kept are numbered without a gap from the session's
  \<open>earliest_sequence\<close> to its \<open>last_sequence\<close>, in the order of the table, and no event is left of a
  session that is gone.
\<close>

definition event_seqs :: "event_row list \<Rightarrow> string \<Rightarrow> int list" where
  "event_seqs V sid = map ev_seq (filter (\<lambda>e. ev_session e = sid) V)"

definition events_inv :: "session_row list \<Rightarrow> event_row list \<Rightarrow> bool" where
  "events_inv S V \<longleftrightarrow>
     distinct (map se_id S) \<and>
     (\<forall>s\<in>set S. 1 \<le> se_earliest s \<and> se_earliest s \<le> se_last_seq s + 1 \<and> se_last_seq s \<le> max_safe \<and>
        event_seqs V (se_id s) = [se_earliest s..se_last_seq s]) \<and>
     (\<forall>e\<in>set V. \<exists>s\<in>set S. se_id s = ev_session e)"

abbreviation events_ok :: "db \<Rightarrow> bool" where
  "events_ok d \<equiv> events_inv (t_sessions d) (t_events d)"

lemma event_seqs_snoc:
  "event_seqs (V @ [e]) sid = event_seqs V sid @ (if ev_session e = sid then [ev_seq e] else [])"
  by (simp add: event_seqs_def)

text \<open>Only the keys and the numbers of the rows matter.\<close>

lemma events_inv_keys:
  "events_inv S V \<longleftrightarrow>
     (let T = map (\<lambda>s. (se_id s, se_earliest s, se_last_seq s)) S;
          W = map (\<lambda>e. (ev_session e, ev_seq e)) V
      in distinct (map fst T) \<and>
         (\<forall>(i, a, b)\<in>set T. 1 \<le> a \<and> a \<le> b + 1 \<and> b \<le> max_safe \<and>
            map snd (filter (\<lambda>w. fst w = i) W) = [a..b]) \<and>
         (\<forall>w\<in>set W. \<exists>t\<in>set T. fst t = fst w))"
  by (simp add: events_inv_def event_seqs_def Let_def comp_def filter_map del: upto.simps)

lemma events_inv_upd:
  assumes "\<And>r. P r \<Longrightarrow> se_id (f r) = se_id r \<and> se_earliest (f r) = se_earliest r \<and> se_last_seq (f r) = se_last_seq r"
  shows "events_inv (upd_rows P f S) V = events_inv S V"
proof -
  have "map (\<lambda>s. (se_id s, se_earliest s, se_last_seq s)) (upd_rows P f S)
      = map (\<lambda>s. (se_id s, se_earliest s, se_last_seq s)) S"
    by (rule map_upd_rows_frame) (use assms in blast)
  then show ?thesis by (simp only: events_inv_keys)
qed

lemma events_inv_ev:
  assumes "\<And>e. P e \<Longrightarrow> ev_session (f e) = ev_session e \<and> ev_seq (f e) = ev_seq e"
  shows "events_inv S (upd_rows P f V) = events_inv S V"
proof -
  have "map (\<lambda>e. (ev_session e, ev_seq e)) (upd_rows P f V) = map (\<lambda>e. (ev_session e, ev_seq e)) V"
    by (rule map_upd_rows_frame) (use assms in blast)
  then show ?thesis by (simp only: events_inv_keys)
qed

lemma events_inv_step:
  assumes inv: "events_inv S V" and r: "r \<in> set S" "se_id r = sid"
    and n: "n = se_last_seq r + 1" "n \<le> max_safe" and e: "ev_session e = sid" "ev_seq e = n"
    and f: "\<And>x. se_id (f x) = se_id x \<and> se_earliest (f x) = se_earliest x \<and> se_last_seq (f x) = se_last_seq x + 1"
  shows "events_inv (upd_rows (\<lambda>x. se_id x = sid) f S) (V @ [e])"
    (is "events_inv ?S _")
proof -
  have dist: "distinct (map se_id S)" using inv by (simp add: events_inv_def)
  have ids: "map se_id ?S = map se_id S" by (rule map_upd_rows_frame) (use f in blast)
  have "1 \<le> se_earliest v \<and> se_earliest v \<le> se_last_seq v + 1 \<and> se_last_seq v \<le> max_safe \<and>
      event_seqs (V @ [e]) (se_id v) = [se_earliest v..se_last_seq v]" if "v \<in> set ?S" for v
  proof -
    from that obtain w where w: "w \<in> set S" and v: "v = (if se_id w = sid then f w else w)"
      by (auto simp: set_upd_rows)
    have k: "1 \<le> se_earliest w" "se_earliest w \<le> se_last_seq w + 1" "se_last_seq w \<le> max_safe"
      "event_seqs V (se_id w) = [se_earliest w..se_last_seq w]"
      using inv w by (auto simp: events_inv_def)
    show ?thesis
    proof (cases "se_id w = sid")
      case True
      then have "w = r" using key_unique [OF dist w r(1)] r(2) by simp
      moreover from this have "[se_earliest w..se_last_seq w] @ [n] = [se_earliest w..n]"
        using upto_snoc [of "se_earliest w" "se_last_seq w"] k(2) n(1) by simp
      ultimately show ?thesis using k n v e f True
        by (simp add: event_seqs_snoc del: upto.simps)
    next
      case False
      then show ?thesis using k v e by (simp add: event_seqs_snoc)
    qed
  qed
  moreover have "\<exists>s\<in>set ?S. se_id s = ev_session x" if "x \<in> set (V @ [e])" for x
  proof -
    have "\<exists>s\<in>set S. se_id s = ev_session x" using that inv r e by (auto simp: events_inv_def)
    then show ?thesis using ids by (metis (no_types, lifting) image_iff set_map)
  qed
  ultimately show ?thesis using dist ids by (auto simp: events_inv_def)
qed

lemma events_inv_new:
  assumes "events_inv S V" and "se_id r \<notin> se_id ` set S" and "se_earliest r = 1" and "se_last_seq r = 0"
  shows "events_inv (S @ [r]) V"
proof -
  have "event_seqs V (se_id r) = []"
  proof -
    have "ev_session e \<noteq> se_id r" if "e \<in> set V" for e
    proof -
      obtain t where "t \<in> set S" and "se_id t = ev_session e"
        using assms(1) \<open>e \<in> set V\<close> by (auto simp: events_inv_def)
      with assms(2) show ?thesis by (metis imageI)
    qed
    then show ?thesis by (simp add: event_seqs_def filter_empty_conv)
  qed
  then show ?thesis using assms by (auto simp: events_inv_def max_safe_def)
qed

section \<open>Both logs\<close>

named_theorems logs_rules \<open>handlers that keep the two logs\<close>

definition logs_ok :: "db \<Rightarrow> bool" where
  "logs_ok d \<longleftrightarrow> changes_ok d \<and> events_ok d"

text \<open>
  The changes are stored in the order of the clock: the retention of changes by age therefore cuts
  off a prefix of the log.
\<close>

definition timed :: "int \<Rightarrow> change_row list \<Rightarrow> bool" where
  "timed T C \<longleftrightarrow> sorted (map cg_created C) \<and> (\<forall>c\<in>set C. cg_created c \<le> T)"

text \<open>A request carries a decision exactly while one is under way or after it was carried out.\<close>

definition request_ok :: "request_row \<Rightarrow> bool" where
  "request_ok r \<longleftrightarrow>
     (if rq_state r = R_deciding \<or> rq_state r = R_resolved
      then rq_decision r \<noteq> None \<and> rq_decision_op r \<noteq> None
      else rq_decision r = None \<and> rq_decision_op r = None)"

text \<open>An operation has an error exactly if it failed, and a result exactly if it is confirmed.\<close>

definition op_ok :: "op_row \<Rightarrow> bool" where
  "op_ok r \<longleftrightarrow>
     (op_state r = Op_failed) = (op_error r \<noteq> None) \<and> (op_state r = Op_confirmed) = (op_result r \<noteq> None)"

text \<open>The invariant of the database at time \<open>T\<close>: the two logs, the requests and the operations.\<close>

definition store_ok :: "int \<Rightarrow> db \<Rightarrow> bool" where
  "store_ok T d \<longleftrightarrow> logs_ok d \<and> timed T (t_changes d) \<and> rows_ok rq_id request_ok (t_requests d)
     \<and> rows_ok (\<lambda>r. (op_user r, op_id r)) op_ok (t_ops d)"

lemma timed_mono: "timed T C \<Longrightarrow> T \<le> U \<Longrightarrow> timed U C"
  by (auto simp: timed_def)

lemma timed_snoc: "timed T C \<Longrightarrow> cg_created c = T \<Longrightarrow> timed T (C @ [c])"
  by (auto simp: timed_def sorted_append)

text \<open>A write that leaves the columns of the logs alone keeps them.\<close>

lemma logs_mod:
  "(\<And>d. changes_ok d \<Longrightarrow> changes_ok (f d)) \<Longrightarrow> (\<And>d. events_ok d \<Longrightarrow> events_ok (f d)) \<Longrightarrow>
     (\<And>d. t_changes (f d) = t_changes d) \<Longrightarrow>
     (\<And>d. rows_ok rq_id request_ok (t_requests d) \<Longrightarrow> rows_ok rq_id request_ok (t_requests (f d))) \<Longrightarrow>
     (\<And>d. rows_ok (\<lambda>r. (op_user r, op_id r)) op_ok (t_ops d)
        \<Longrightarrow> rows_ok (\<lambda>r. (op_user r, op_id r)) op_ok (t_ops (f d))) \<Longrightarrow>
     preserves (store_ok T) (modS f)"
  by (rule preserves_mod) (simp add: store_ok_def logs_ok_def)

lemma keeps_transaction:
  "preserves I fn \<Longrightarrow> (\<And>d n. I (d\<lparr>entropy := n\<rparr>) = I d) \<Longrightarrow> keeps I (transaction uid fn)"
  by (auto simp: keeps_def preserves_def transaction_def split: prod.splits sum.splits)

lemma logs_entropy [simp]: "store_ok T (d\<lparr>entropy := n\<rparr>) = store_ok T d"
  by (simp add: store_ok_def logs_ok_def)

lemma logs_transaction [logs_rules]:
  "preserves (store_ok T) fn \<Longrightarrow> keeps (store_ok T) (transaction uid fn)"
  by (rule keeps_transaction) simp_all

lemma logs_new_id [logs_rules]: "preserves (store_ok T) (new_id E p)"
  by (simp add: preserves_def run_iff)

lemma change_logs: "preserves logs_ok (change E uid kind rid action n)"
proof -
  have "same (\<lambda>d. (t_sessions d, t_events d)) (change E uid kind rid action n)"
    unfolding change_def same_iff_keeps Let_def
    by (intro allI keeps_rules keeps_mod) simp
  then have "keeps logs_ok (change E uid kind rid action n)"
    using change_keeps [of E uid kind rid action n]
    by (auto simp: same_def keeps_def logs_ok_def)
  then show ?thesis by (rule keeps_preserves)
qed

lemma change_timed: "keeps (\<lambda>d. timed (dbnow E) (t_changes d)) (change E uid kind rid action n)"
  unfolding change_def Let_def
  by (intro keeps_rules keeps_mod) (simp add: timed_snoc)

lemma change_rows: "same (\<lambda>d. (t_requests d, t_ops d)) (change E uid kind rid action n)"
  unfolding change_def same_iff_keeps Let_def by (intro allI keeps_rules keeps_mod) simp

lemma logs_change [logs_rules]: "preserves (store_ok (dbnow E)) (change E uid kind rid action n)"
proof (rule preservesI)
  fix d x t
  assume ok: "store_ok (dbnow E) d" and run: "change E uid kind rid action n d = (Inr x, t)"
  have "logs_ok t" using preservesD [OF change_logs run] ok by (simp add: store_ok_def)
  moreover have "timed (dbnow E) (t_changes t)" using keepsD [OF change_timed run] ok by (simp add: store_ok_def)
  ultimately show "store_ok (dbnow E) t" using sameD [OF change_rows run] ok by (simp add: store_ok_def)
qed

lemma logs_audit [logs_rules]: "preserves (store_ok (dbnow E)) (audit E uid op kind state nid sid)"
  unfolding audit_def by (intro logs_rules keeps_rules logs_mod) simp_all

lemma logs_queueSubscription [logs_rules]:
  "preserves (store_ok (dbnow E)) (queueSubscription E uid notification sid kind summary)"
  unfolding queueSubscription_def by (intro logs_rules keeps_rules logs_mod) simp_all

lemma logs_notify [logs_rules]: "preserves (store_ok (dbnow E)) (notify E uid sid kind title)"
  unfolding notify_def by (intro logs_rules keeps_rules logs_mod) simp_all

lemma finishOp_ok:
  assumes "(state = Op_confirmed) = (result \<noteq> None)"
  shows "preserves (store_ok (dbnow E)) (finishOp E uid op state result reason)"
proof -
  have core: "preserves (store_ok (dbnow E))
      (thenS (guardS ((state = Op_failed) = (eb \<noteq> None)) DBError)
       (thenS (modS (\<lambda>d. d\<lparr>t_ops := upd_rows (\<lambda>r. op_user r = uid \<and> op_id r = op)
          (\<lambda>r. r\<lparr>op_state := state, op_result := result, op_error := eb,
                 op_revision := op_revision r + 1, op_updated := now E\<rparr>) (t_ops d)\<rparr>))
       (change E uid Rt_operation op Upsert v)))" for eb v
    by (rule preserves_guarded, rule preserves_then, rule preserves_mod)
      (use assms in \<open>auto simp: store_ok_def logs_ok_def op_ok_def intro!: rows_ok_upd logs_change\<close>)
  show ?thesis unfolding finishOp_def
    by (intro preserves_bind core)
      (auto intro: logs_rules keeps_rules split: option.split err.split)
qed

lemma logs_finishOp [logs_rules]:
  "preserves (store_ok (dbnow E)) (finishOp E uid op Op_reconciling None reason)"
  "preserves (store_ok (dbnow E)) (finishOp E uid op Op_delivered None reason)"
  "preserves (store_ok (dbnow E)) (finishOp E uid op Op_failed None reason)"
  "preserves (store_ok (dbnow E)) (finishOp E uid op Op_confirmed (Some res) reason)"
  by (rule finishOp_ok; simp)+

lemma logs_insertOp [logs_rules]:
  "preserves (store_ok (dbnow E)) (insertOp E uid op kind nid sid turn epoch body command deadline)"
proof (rule preservesI)
  fix d x t
  assume ok: "store_ok (dbnow E) d"
    and run: "insertOp E uid op kind nid sid turn epoch body command deadline d = (Inr x, t)"
  let ?d = "d\<lparr>t_ops := t_ops d @
        [\<lparr>op_user = uid, op_id = op, op_kind = kind, op_hash = fp_hash E body, op_state = Op_accepted,
          op_node = nullString nid, op_session = nullString sid, op_turn = nullString turn,
          op_epoch = epoch, op_payload = command, op_result = None, op_error = None, op_revision = 1,
          op_deadline = deadline, op_created = now E, op_updated = now E\<rparr>]\<rparr>"
  from run have new: "\<not> has_row (\<lambda>r. op_user r = uid \<and> op_id r = op) (t_ops d)"
    and c: "change E uid Rt_operation op Upsert 1 ?d = (Inr x, t)"
    by (auto simp: insertOp_def run_iff)
  have "store_ok (dbnow E) ?d"
    using ok new by (auto simp: store_ok_def logs_ok_def op_ok_def has_row_iff intro!: rows_ok_snoc)
  then show "store_ok (dbnow E) t" by (rule preservesD [OF logs_change c])
qed

end
