(* ===== verification/Samples.thy ===== *)
theory Samples
  imports Store
begin

text \<open>
  A concrete environment and a small database (one user, device, project, agent and session) on
  which the hypotheses of the properties are shown to hold.
\<close>

definition caps0 :: capabilities where
  "caps0 = \<lparr>cap_send = True, cap_cancel = True, cap_approval = True, cap_question = True,
     cap_diff = True, cap_plan = True, cap_usage = True, cap_queue = True, cap_steer = False,
     cap_models = Some True, cap_compact = Some True, cap_workspace = Some True,
     cap_history_import = None, cap_sections = None\<rparr>"

definition config0 :: config where
  "config0 = \<lparr>cf_wechat = False, cf_subscriptions = [], cf_command_ttl = 15, cf_offline_after = 45,
     cf_heartbeat = 15, cf_max_connections = 256, cf_queue_frames = 256, cf_queue_bytes = 2097152,
     cf_content_retention = 2592000, cf_metadata_retention = 7776000, cf_changes_retention = 604800,
     cf_maintenance_interval = 60, cf_origins = [], cf_user_ttl = 7200,
     cf_node_ttl = 600, cf_app_id = ''app''\<rparr>"

definition codec0 :: codec where
  "codec0 = \<lparr>mac = (\<lambda>s. rev s), marshal = (\<lambda>c. cu_user c @ ''/'' @ cu_kind c @ ''/'' @ cu_id c),
     unmarshal = (\<lambda>s. Some \<lparr>cu_user = ''u'', cu_kind = ''k'', cu_filter = [], cu_sort = [],
       cu_id = ''i'', cu_after = 3, cu_scope = [], cu_before = [], cu_item = [],
       cu_expires = 1000\<rparr>)\<rparr>"

definition vault0 :: vault where
  "vault0 = \<lparr>vt_secret = (\<lambda>n. replicate n CHR ''s''), vt_nonce = (\<lambda>n. replicate 12 CHR ''n''),
     vt_byte = char_of, vt_seal = (\<lambda>k n t a. t @ replicate 16 CHR ''t''),
     vt_open = (\<lambda>k n t a. Some (take (length t - 16) t)), vt_digest = (\<lambda>p v. v),
     vt_verify = (\<lambda>k m s. True), vt_image = (\<lambda>x. Some (True, 1, 1)), vt_jpeg = Some,
     vt_size = (\<lambda>i. length (ti_text i) + 30)\<rparr>"

text \<open>Random bytes are any supply of distinct strings; here, runs of one letter.\<close>

definition env0 :: env where
  "env0 = \<lparr>now = 100, dbnow = 100, rnd = (\<lambda>n. replicate n CHR ''x''), cfg = config0,
     valid_event = (\<lambda>_. True), valid_item = (\<lambda>_. True), valid_command = (\<lambda>_. True),
     valid_frame = (\<lambda>_. True), frame_size = (\<lambda>_. 100),
     fp_hash = (\<lambda>f. fp_method f @ '' '' @ fp_path f), token_hash = (\<lambda>t. t), source_hash = src_event,
     event_size = (\<lambda>_. 100), item_size = (\<lambda>_. 100), item_column_size = (\<lambda>_. 100),
     timestamp = (\<lambda>t. replicate (nat t) CHR ''i''),
     pg_time = (\<lambda>t. replicate (nat t) CHR ''i''), push_time = (\<lambda>_. []), parse_time = (\<lambda>s. int (length s)),
     codec_of = codec0, unix = (\<lambda>t. t), vault_of = vault0,
     view_size = (\<lambda>s v. 100), ilike = (\<lambda>t p. True)\<rparr>"

definition session0 :: session_row where
  "session0 = \<lparr>se_id = ''s'', se_user = ''u'', se_node = ''n'', se_project = ''p'', se_agent = ''a'',
     se_title = ''title'', se_state = S_completed, se_turn = Some ''t'', se_mode = Managed,
     se_history = Available, se_caps = caps0, se_caprev = 1, se_revision = 1, se_last_seq = 0,
     se_last_source = 0, se_earliest = 1, se_created = 1, se_updated = 1, se_pinned = False,
     se_tags = [], se_archived = False, se_parent = None, se_origin = New_session,
     se_origin_point = None\<rparr>"

definition turn0 :: turn_row where
  "turn0 = \<lparr>tn_id = ''t'', tn_session = ''s'', tn_state = T_completed, tn_started = Some 1,
     tn_ended = Some 2\<rparr>"

definition db0 :: db where
  "db0 = \<lparr>
     t_users = [\<lparr>us_id = ''u'', us_subject = ''w'', us_name = ''user'', us_last_rev = 0,
       us_created = 0, us_avatar = None, us_profile_rev = 0\<rparr>],
     t_user_tokens = [],
     t_nodes = [\<lparr>nd_id = ''n'', nd_key = ''k'', nd_name = ''node'', nd_platform = ''linux'',
       nd_version = ''1'', nd_epoch = 1, nd_credential = 1, nd_revision = 1, nd_last_seen = None,
       nd_revoked = None, nd_created = 0\<rparr>],
     t_access = [\<lparr>ac_user = ''u'', ac_node = ''n'', ac_revoked = None\<rparr>],
     t_node_tokens = [],
     t_projects = [\<lparr>pj_node = ''n'', pj_body = \<lparr>np_id = ''p'', np_name = ''project'',
       np_description = [], np_branch = None, np_valid = True\<rparr>, pj_revision = 1\<rparr>],
     t_agents = [\<lparr>ar_node = ''n'', ar_body = \<lparr>ag_id = ''a'', ag_name = ''agent'', ag_state = Ready,
       ag_version = None, ag_adapter = ''1'', ag_caps = caps0, ag_caprev = 1\<rparr>, ar_revision = 1\<rparr>],
     t_sessions = [session0],
     t_turns = [turn0],
     t_ops = [], t_outbox = [], t_queue = [], t_requests = [], t_events = [], t_receipts = [],
     t_timeline = [], t_checkpoints = [], t_checkpoint_items = [], t_diffs = [], t_notices = [],
     t_changes = [], t_audits = [], t_shares = [], t_share_commands = [], t_identities = [],
     t_consents = [], t_pushes = [], t_enrollments = [], t_tickets = [],
     t_challenges = [], entropy = 0\<rparr>"

lemmas sample_defs = caps0_def config0_def codec0_def vault0_def env0_def session0_def turn0_def db0_def

text \<open>An environment whose tokens and times can be read back.\<close>

definition put_field :: "string \<Rightarrow> string" where
  "put_field s = replicate (length s) CHR ''1'' @ CHR ''0'' # s"

definition take_field :: "string \<Rightarrow> string \<times> string" where
  "take_field t =
     (let n = length (takeWhile (\<lambda>c. c = CHR ''1'') t); r = drop (n + 1) t in (take n r, drop n r))"

lemma take_put_field: "take_field (put_field s @ r) = (s, r)"
proof -
  have "takeWhile (\<lambda>c. c = CHR ''1'') (put_field s @ r) = replicate (length s) CHR ''1''"
    by (simp add: put_field_def takeWhile_append)
  then show ?thesis by (simp add: take_field_def put_field_def)
qed

definition put_int :: "int \<Rightarrow> string" where
  "put_int n = (if n < 0 then CHR ''-'' # replicate (nat (- n)) CHR ''i'' else replicate (nat n) CHR ''i'')"

definition take_int :: "string \<Rightarrow> int" where
  "take_int s = (case s of [] \<Rightarrow> 0 | c # cs \<Rightarrow> if c = CHR ''-'' then - int (length cs) else int (length s))"

lemma take_put_int: "take_int (put_int n) = n"
  by (cases "nat n") (auto simp: put_int_def take_int_def)

definition codec1 :: codec where
  "codec1 = \<lparr>mac = rev,
     marshal = (\<lambda>c. concat (map put_field [cu_user c, cu_kind c, cu_filter c, cu_sort c, cu_id c, put_int (cu_after c),
       cu_scope c, cu_before c, cu_item c, put_int (cu_expires c)])),
     unmarshal = (\<lambda>t0. let (a, t1) = take_field t0; (b, t2) = take_field t1; (c, t3) = take_field t2;
       (e, t4) = take_field t3; (f, t5) = take_field t4; (g, t6) = take_field t5; (h, t7) = take_field t6;
       (i, t8) = take_field t7; (j, t9) = take_field t8; (k, t10) = take_field t9 in
       Some \<lparr>cu_user = a, cu_kind = b, cu_filter = c, cu_sort = e, cu_id = f, cu_after = take_int g, cu_scope = h,
         cu_before = i, cu_item = j, cu_expires = take_int k\<rparr>)\<rparr>"

definition env1 :: env where
  "env1 = env0\<lparr>codec_of := codec1, pg_time := put_int, parse_time := take_int\<rparr>"

lemma codec1_reads: "unmarshal codec1 (marshal codec1 c) = Some c"
  using take_put_field [of _ "[]"] by (simp add: codec1_def take_put_field take_put_int)

lemma logs_db0: "logs_ok db0"
  by (auto simp: logs_ok_def changes_inv_def events_inv_def change_revs_def event_seqs_def
      sample_defs max_safe_def)

lemma store_db0: "0 \<le> T \<Longrightarrow> store_ok T db0"
  using logs_db0 by (simp add: store_ok_def timed_def rows_ok_def sample_defs)

text \<open>A witness state: the outcome of a run that starts in \<open>db0\<close>.\<close>

definition after_run :: "'a dbact \<Rightarrow> db" where
  "after_run m = snd (m db0)"

end
