(* ===== verification/Paging.thy ===== *)
theory Paging
  imports Common
begin

text \<open>
  The contract between a reader of a numbered log and the client that follows it page by page
  (\<open>nextAfter\<close>, \<open>hasMore\<close>): the session events and the user's changes are both such logs.
\<close>

text \<open>The cursor after a page: the number of its last entry.\<close>

definition last_number :: "('e \<Rightarrow> int) \<Rightarrow> int \<Rightarrow> 'e list \<Rightarrow> int" where
  "last_number num after xs = (if xs = [] then after else num (last xs))"

definition span :: "('e \<Rightarrow> int) \<Rightarrow> 'e list \<Rightarrow> int \<Rightarrow> int \<Rightarrow> 'e list" where
  "span num xs a b = filter (\<lambda>e. a < num e \<and> num e \<le> b) xs"

text \<open>
  A client that asks for the next page until it has reached \<open>until\<close>; \<open>None\<close> when it has not got
  there in the number of requests it was given.
\<close>

fun collect ::
  "(int \<Rightarrow> int \<Rightarrow> nat \<Rightarrow> 's \<Rightarrow> err + 'e list) \<Rightarrow> ('e \<Rightarrow> int) \<Rightarrow> nat \<Rightarrow> nat \<Rightarrow> int \<Rightarrow> int \<Rightarrow> 's
     \<Rightarrow> (err + 'e list) option" where
  "collect read num limit 0 after until s = (if after < until then None else Some (Inr []))"
| "collect read num limit (Suc n) after until s =
     (if \<not> after < until then Some (Inr [])
      else case read after until limit s of
        Inl e \<Rightarrow> Some (Inl e)
      | Inr xs \<Rightarrow>
          (case collect read num limit n (last_number num after xs) until s of
             Some (Inr ys) \<Rightarrow> Some (Inr (xs @ ys))
           | r \<Rightarrow> r))"

lemma span_numbers:
  assumes "map num xs = [lo + 1..hi]" and "lo \<le> a" and "b \<le> hi"
  shows "map num (span num xs a b) = [a + 1..b]"
proof -
  have "map num (span num xs a b) = filter (\<lambda>n. a < n \<and> n \<le> b) (map num xs)"
    by (simp add: span_def filter_map comp_def)
  also have "\<dots> = [a + 1..b]" using assms by (simp add: filter_upto)
  finally show ?thesis .
qed

lemma last_take_span:
  assumes "map num ys = [a + 1..b]" and "0 < n" and "a < b"
  shows "last_number num a (take n ys) = min b (a + int n)"
proof -
  have m: "map num (take n ys) = [a + 1..min b (a + int n)]"
    using assms(1) take_upto [of n "a + 1" b] by (simp add: take_map [symmetric])
  have ne: "[a + 1..min b (a + int n)] \<noteq> []" using assms by simp
  have "num (last (take n ys)) = last (map num (take n ys))"
    using m ne by (metis last_map map_is_Nil_conv)
  also have "\<dots> = min b (a + int n)"
  proof -
    have "[a + 1..min b (a + int n)] = [a + 1..min b (a + int n) - 1] @ [min b (a + int n)]"
      using upto_snoc [of "a + 1" "min b (a + int n) - 1"] assms by simp
    then show ?thesis by (simp only: m last_snoc)
  qed
  finally show ?thesis using m ne by (auto simp: last_number_def)
qed

lemma drop_span:
  assumes "map num ys = [a + 1..b]"
  shows "drop n ys = span num ys (min b (a + int n)) b"
  using assms
proof (induction n arbitrary: a ys)
  case 0
  have "\<forall>y\<in>set ys. a < num y \<and> num y \<le> b"
  proof
    fix y assume "y \<in> set ys"
    then have "num y \<in> set [a + 1..b]" using 0 by (metis image_eqI set_map)
    then show "a < num y \<and> num y \<le> b" by simp
  qed
  then have "\<forall>y\<in>set ys. min b a < num y \<and> num y \<le> b" by auto
  then show ?case by (simp add: span_def filter_True)
next
  case (Suc n)
  show ?case
  proof (cases ys)
    case Nil
    then show ?thesis by (simp add: span_def)
  next
    case (Cons y zs)
    then have ab: "a + 1 \<le> b" using Suc.prems by (cases "a + 1 \<le> b") auto
    have y: "num y = a + 1" and zs: "map num zs = [(a + 1) + 1..b]"
      using Suc.prems Cons ab upto_Cons [of "a + 1" b] by (simp_all del: upto.simps) (metis list.inject)+
    have "drop n zs = span num zs (min b (a + 1 + int n)) b" using Suc.IH [OF zs] .
    moreover have "\<not> min b (a + int (Suc n)) < num y" using y ab by simp
    ultimately show ?thesis using Cons by (simp add: span_def add.assoc)
  qed
qed

locale paged_log =
  fixes ok :: "'s \<Rightarrow> bool"
    and log :: "'s \<Rightarrow> 'e list"
    and num :: "'e \<Rightarrow> int"
    and lo hi :: "'s \<Rightarrow> int"
    and read :: "int \<Rightarrow> int \<Rightarrow> nat \<Rightarrow> 's \<Rightarrow> err + 'e list"
  assumes numbered: "ok s \<Longrightarrow> map num (log s) = [lo s + 1..hi s]"
    and read_page: "ok s \<Longrightarrow> lo s \<le> after \<Longrightarrow> after < until \<Longrightarrow> until \<le> hi s \<Longrightarrow> 0 < limit \<Longrightarrow>
        \<exists>n>0. n \<le> limit \<and> read after until limit s = Inr (take n (span num (log s) after until))"
begin

text \<open>The next cursor is further on, never past \<open>until\<close>.\<close>

lemma page_advances:
  assumes "ok s" and "lo s \<le> after" and "after < until" and "until \<le> hi s" and "0 < limit"
    and "read after until limit s = Inr xs"
  shows "after < last_number num after xs" and "last_number num after xs \<le> until"
    and "span num (log s) after until = xs @ span num (log s) (last_number num after xs) until"
proof -
  obtain n where n: "0 < n" and xs: "xs = take n (span num (log s) after until)"
    using read_page [OF assms(1-5)] assms(6) by auto
  let ?ys = "span num (log s) after until"
  have ys: "map num ?ys = [after + 1..until]"
    using span_numbers [OF numbered [OF assms(1)] assms(2,4)] .
  have last: "last_number num after xs = min until (after + int n)"
    unfolding xs by (rule last_take_span [OF ys n assms(3)])
  show "after < last_number num after xs" and "last_number num after xs \<le> until"
    using last n assms(3) by simp_all
  have "drop n ?ys = span num (log s) (last_number num after xs) until"
    using drop_span [OF ys, of n] last n assms(3) by (auto simp: span_def intro!: filter_cong)
  then show "?ys = xs @ span num (log s) (last_number num after xs) until"
    using xs append_take_drop_id [of n ?ys] by simp
qed

text \<open>The numbers of a page.\<close>

lemma page_numbers:
  assumes "ok s" and "lo s \<le> after" and "after < until" and "until \<le> hi s" and "0 < limit"
    and "read after until limit s = Inr xs"
  shows "map num xs = [after + 1..last_number num after xs]"
proof -
  obtain n where n: "0 < n" and xs: "xs = take n (span num (log s) after until)"
    using read_page [OF assms(1-5)] assms(6) by auto
  have ys: "map num (span num (log s) after until) = [after + 1..until]"
    using span_numbers [OF numbered [OF assms(1)] assms(2,4)] .
  have "last_number num after xs = min until (after + int n)"
    unfolding xs by (rule last_take_span [OF ys n assms(3)])
  then show ?thesis
    using ys take_upto [of n "after + 1" until] xs by (simp add: take_map [symmetric])
qed

text \<open>The client gets every entry of the range, in order, once, in at most as many requests.\<close>

lemma collect_all:
  assumes "ok s" and "until \<le> hi s" and "0 < limit"
  shows "lo s \<le> after \<Longrightarrow> nat (until - after) \<le> n \<Longrightarrow>
    collect read num limit n after until s = Some (Inr (span num (log s) after until))"
proof (induction n arbitrary: after)
  case 0
  then have "span num (log s) after until = []" by (auto simp: span_def filter_empty_conv)
  then show ?case using 0 by simp
next
  case (Suc n)
  show ?case
  proof (cases "after < until")
    case False
    then have "span num (log s) after until = []" by (auto simp: span_def filter_empty_conv)
    then show ?thesis using False by simp
  next
    case True
    obtain xs where xs: "read after until limit s = Inr xs"
      using read_page [OF assms(1) Suc.prems(1) True assms(2,3)] by auto
    note adv = page_advances [OF assms(1) Suc.prems(1) True assms(2,3) xs]
    have "collect read num limit n (last_number num after xs) until s
        = Some (Inr (span num (log s) (last_number num after xs) until))"
      using adv(1) Suc.prems by (intro Suc.IH) simp_all
    then show ?thesis using xs True adv(3) by simp
  qed
qed

end

end
