(* ===== verification/Events.thy ===== *)
theory Events
  imports Samples Paging "HOL-Library.Product_Lexorder" "HOL-Library.List_Lexorder"
begin

text \<open>
  \<open>internal/gateway/history.go\<close>: appending an event to a session's log and projecting it onto the
  timeline; reading the event and change logs in gap-free pages; checkpoints of the timeline.
\<close>

section \<open>Appending\<close>

definition find_item :: "db \<Rightarrow> string \<Rightarrow> string \<Rightarrow> string \<Rightarrow> timeline_row option" where
  "find_item d sid turn item =
     find (\<lambda>r. tl_session r = sid \<and> tl_turn r = turn \<and> tl_item r = item) (t_timeline d)"

definition known_request :: "db \<Rightarrow> string \<Rightarrow> string \<Rightarrow> string \<Rightarrow> bool" where
  "known_request d rid sid turn \<longleftrightarrow>
     has_row (\<lambda>r. rq_id r = rid \<and> rq_session r = sid \<and> rq_turn r = turn) (t_requests d)"

definition known_diff :: "db \<Rightarrow> string \<Rightarrow> string \<Rightarrow> string \<Rightarrow> bool" where
  "known_diff d fid sid turn \<longleftrightarrow>
     has_row (\<lambda>r. df_id (dr_file r) = fid \<and> dr_session r = sid \<and> dr_turn r = turn) (t_diffs d)"

text \<open>The insert of a timeline row, or the update of the row that has its key.\<close>

definition upsert_item :: "env \<Rightarrow> string \<Rightarrow> string \<Rightarrow> timeline_item \<Rightarrow> int \<Rightarrow> unit dbact" where
  "upsert_item E sid turn item sequence =
     thenS (guardS (valid_item E item) invalid)
     (modS (\<lambda>d. d\<lparr>t_timeline :=
        (if find_item d sid turn (item_id item) = None
         then t_timeline d @ [\<lparr>tl_session = sid, tl_turn = turn, tl_item = item_id item,
                tl_first = sequence, tl_last = sequence, tl_body = item\<rparr>]
         else upd_rows (\<lambda>r. tl_session r = sid \<and> tl_turn r = turn \<and> tl_item r = item_id item)
                (\<lambda>r. r\<lparr>tl_last := sequence, tl_body := item\<rparr>) (t_timeline d))\<rparr>))"

text \<open>
  The message that a delta or a completed message makes of the item stored before: a delta extends
  its text, a completed message replaces it; 48000 characters are kept.
\<close>

definition projected_message ::
  "timeline_item option \<Rightarrow> string \<Rightarrow> string \<Rightarrow> string \<Rightarrow> string \<Rightarrow> bool \<Rightarrow> bool \<Rightarrow> timeline_item" where
  "projected_message prev turn item role text delta truncated =
     (let full = (if delta then (case prev of None \<Rightarrow> [] | Some p \<Rightarrow> item_text p) @ text else text);
          cut = truncate_text full 48000
      in Message_item item turn role (fst cut) (\<not> delta)
           (snd cut \<or> truncated \<or> delta \<and> (case prev of None \<Rightarrow> False | Some p \<Rightarrow> item_truncated p)))"

definition project_message ::
  "env \<Rightarrow> string \<Rightarrow> string \<Rightarrow> string \<Rightarrow> string \<Rightarrow> string \<Rightarrow> bool \<Rightarrow> bool \<Rightarrow> int \<Rightarrow> unit dbact" where
  "project_message E sid turn item role text delta truncated sequence =
     bindS (getS (\<lambda>d. map_option tl_body (find_item d sid turn item))) (\<lambda>prev.
       if delta \<and> (case prev of None \<Rightarrow> False | Some p \<Rightarrow> item_complete p) then returnS ()
       else upsert_item E sid turn (projected_message prev turn item role text delta truncated) sequence)"

fun projectItem :: "env \<Rightarrow> string \<Rightarrow> string \<Rightarrow> event_data \<Rightarrow> int \<Rightarrow> unit dbact" where
  "projectItem E sid turn (Message_delta item role text) sequence =
     project_message E sid turn item role text True False sequence"
| "projectItem E sid turn (Message_completed item role text truncated) sequence =
     project_message E sid turn item role text False truncated sequence"
| "projectItem E sid turn (Item_upsert item) sequence =
     thenS (guardS (item_turn item = turn) invalid)
     (bindS (getS (\<lambda>d. case item of
               Request_item i t rid \<Rightarrow> known_request d rid sid turn
             | Diff_item i t fs b \<Rightarrow> list_all (\<lambda>f. known_diff d f sid turn) fs
             | _ \<Rightarrow> True)) (\<lambda>known.
      thenS (guardS known invalid) (upsert_item E sid turn item sequence)))"
| "projectItem E sid turn (Request_upsert r) sequence =
     upsert_item E sid turn (Request_item (rv_id r) turn (rv_id r)) sequence"
| "projectItem E sid turn (Diff_file_event f) sequence =
     thenS (guardS (df_session f = sid) invalid)
     (bindS (getS (\<lambda>d. has_row (\<lambda>r. df_id (dr_file r) = df_id f) (t_diffs d))) (\<lambda>existing.
      thenS (guardS (\<not> existing) (apierr 409 SOURCE_CONFLICT))
      (modS (\<lambda>d. d\<lparr>t_diffs := t_diffs d @ [\<lparr>dr_session = sid, dr_turn = turn, dr_file = f\<rparr>]\<rparr>))))"
| "projectItem E sid turn data sequence = returnS ()"

text \<open>A \<open>session.state\<close> event carries the revision the append produced.\<close>

fun stamp_revision :: "int \<Rightarrow> event_data \<Rightarrow> event_data" where
  "stamp_revision n (Session_state st tn m) = Session_state st tn n"
| "stamp_revision n data = data"

definition bump_session :: "env \<Rightarrow> string \<Rightarrow> (int \<times> int) dbact" where
  "bump_session E sid =
     bindS (oneS (\<lambda>d. find_session d sid)) (\<lambda>r.
     thenS (guardS (se_last_seq r + 1 \<le> max_safe) DBError)
     (thenS (modS (\<lambda>d. d\<lparr>t_sessions := upd_rows (\<lambda>r. se_id r = sid)
        (\<lambda>r. r\<lparr>se_last_seq := se_last_seq r + 1, se_revision := se_revision r + 1,
               se_updated := now E\<rparr>) (t_sessions d)\<rparr>))
     (returnS (se_last_seq r + 1, se_revision r + 1))))"

definition insert_event :: "event_row \<Rightarrow> unit dbact" where
  "insert_event e =
     bindS (getS (\<lambda>d. has_row (\<lambda>x. ev_id x = ev_id e
                 \<or> ev_session x = ev_session e \<and> ev_seq x = ev_seq e) (t_events d))) (\<lambda>taken.
     thenS (guardS (\<not> taken) DBError) (modS (\<lambda>d. d\<lparr>t_events := t_events d @ [e]\<rparr>)))"

definition appendEvent ::
  "env \<Rightarrow> string \<Rightarrow> string \<Rightarrow> string \<Rightarrow> string \<Rightarrow> event_data \<Rightarrow> int dbact" where
  "appendEvent E uid nid sid turn data =
     bindS (bump_session E sid) (\<lambda>(sequence, rev').
     bindS (new_id E ''event'') (\<lambda>eid.
       let event = \<lparr>ev_session = sid, ev_seq = sequence, ev_id = eid, ev_node = nid,
                    ev_turn = nullString turn, ev_source = None, ev_data = stamp_revision rev' data,
                    ev_created = now E\<rparr>
       in thenS (guardS (valid_event E event) invalid)
          (thenS (insert_event event)
          (thenS (projectItem E sid turn (stamp_revision rev' data) sequence)
          (thenS (change E uid Rt_session sid Upsert rev') (returnS sequence))))))"

section \<open>Reading the logs\<close>

text \<open>
  \<open>readEvents\<close>: at most \<open>limit\<close> rows; a gap is an error, and the page ends early when it would
  exceed a mebibyte, but never before its first event.
\<close>

fun read_run ::
  "('r \<Rightarrow> int) \<Rightarrow> ('r \<Rightarrow> nat) \<Rightarrow> nat \<Rightarrow> int \<Rightarrow> 'r list \<Rightarrow> nat \<Rightarrow> 'r list \<Rightarrow> err + 'r list" where
  "read_run num sz budget expected out bytes [] = Inr out"
| "read_run num sz budget expected out bytes (m # rows) =
     (if num m \<noteq> expected then Inl (apierr 410 CURSOR_EXPIRED)
      else if out \<noteq> [] \<and> bytes + sz m > budget then Inr out
      else read_run num sz budget (expected + 1) (out @ [m]) (bytes + sz m) rows)"

definition select_events :: "db \<Rightarrow> string \<Rightarrow> int \<Rightarrow> int \<Rightarrow> nat \<Rightarrow> event_row list" where
  "select_events d sid after until limit =
     take limit (sort_key ev_seq
       (filter (\<lambda>e. ev_session e = sid \<and> after < ev_seq e \<and> ev_seq e \<le> until) (t_events d)))"

definition readEvents :: "env \<Rightarrow> string \<Rightarrow> int \<Rightarrow> int \<Rightarrow> nat \<Rightarrow> db \<Rightarrow> err + event_row list" where
  "readEvents E sid after until limit d =
     (case read_run ev_seq (event_size E) 1048576 (after + 1) [] 0 (select_events d sid after until limit) of
        Inl e \<Rightarrow> Inl e
      | Inr out \<Rightarrow> if out = [] \<and> after < until then Inl (apierr 410 CURSOR_EXPIRED) else Inr out)"

definition select_changes :: "db \<Rightarrow> string \<Rightarrow> int \<Rightarrow> int \<Rightarrow> nat \<Rightarrow> change_row list" where
  "select_changes d uid after until limit =
     take limit (sort_key cg_revision
       (filter (\<lambda>c. cg_user c = uid \<and> after < cg_revision c \<and> cg_revision c \<le> until) (t_changes d)))"

fun consecutive :: "('r \<Rightarrow> int) \<Rightarrow> int \<Rightarrow> 'r list \<Rightarrow> bool" where
  "consecutive num expected [] = True"
| "consecutive num expected (x # xs) = (num x = expected \<and> consecutive num (expected + 1) xs)"

definition readChanges :: "string \<Rightarrow> int \<Rightarrow> int \<Rightarrow> nat \<Rightarrow> db \<Rightarrow> err + change_row list" where
  "readChanges uid after until limit d =
     (let changes = select_changes d uid after until limit
      in if \<not> consecutive cg_revision (after + 1) changes then Inl (apierr 410 CURSOR_EXPIRED)
         else if changes = [] \<and> after < until then Inl (apierr 410 CURSOR_EXPIRED)
         else Inr changes)"

text \<open>A result of a reader as a step of a handler.\<close>

definition liftS :: "('s \<Rightarrow> 'e + 'a) \<Rightarrow> ('s, 'e, 'a) act" where
  "liftS f = (\<lambda>s. (f s, s))"

lemma liftS_run [run_simps]: "liftS f s = (f s, s)"
  by (simp add: liftS_def)

lemma liftS_iff [run_iff]: "liftS f s = (r, t) \<longleftrightarrow> f s = r \<and> t = s"
  by (auto simp: liftS_def)

lemma keeps_lift [keeps_rules]: "keeps I (liftS f)"
  by (simp add: keeps_def liftS_def)

lemma preserves_lift [keeps_rules]: "preserves I (liftS f)"
  by (simp add: preserves_def liftS_def)

record 'e page =
  pg_after :: int
  pg_high :: int
  pg_items :: "'e list"
  pg_next :: int
  pg_more :: bool

text \<open>The handlers take the raw query parameters \<open>after\<close>, \<open>limit\<close> and \<open>until\<close>.\<close>

definition eventsPage ::
  "env \<Rightarrow> string \<Rightarrow> string \<Rightarrow> string \<Rightarrow> string \<Rightarrow> string \<Rightarrow> (int \<times> event_row page) dbact" where
  "eventsPage E uid sid after_q limit_q until_q =
     bindS (ownSession uid sid) (\<lambda>_.
     bindS (liftS (\<lambda>_. parseSequence after_q)) (\<lambda>after.
     bindS (liftS (\<lambda>_. parseLimit limit_q 100 200)) (\<lambda>limit.
     bindS (oneS (\<lambda>d. find_session d sid)) (\<lambda>r.
     thenS (guardS (se_history r \<noteq> Purged) (apierr 410 HISTORY_PURGED))
     (bindS (if until_q \<noteq> [] then liftS (\<lambda>_. parseSequence until_q) else returnS (se_last_seq r)) (\<lambda>until.
     thenS (guardS (\<not> (after > until \<or> until > se_last_seq r)) (apierr 409 CURSOR_AHEAD))
     (thenS (guardS (\<not> after < se_earliest r - 1) (apierr 410 CURSOR_EXPIRED))
     (bindS (liftS (readEvents E sid after until (nat limit))) (\<lambda>events.
        let nxt = last_number ev_seq after events in
        returnS (se_earliest r, \<lparr>pg_after = after, pg_high = until, pg_items = events,
                 pg_next = nxt, pg_more = nxt < until\<rparr>))))))))))"

definition changesPage :: "string \<Rightarrow> string \<Rightarrow> string \<Rightarrow> string \<Rightarrow> change_row page dbact" where
  "changesPage uid after_q limit_q until_q =
     bindS (liftS (\<lambda>_. parseSequence after_q)) (\<lambda>after.
     bindS (oneS (\<lambda>d. find (\<lambda>u. us_id u = uid) (t_users d))) (\<lambda>u.
     bindS (if until_q \<noteq> [] then liftS (\<lambda>_. parseSequence until_q) else returnS (us_last_rev u)) (\<lambda>until.
     thenS (guardS (\<not> (after > until \<or> until > us_last_rev u)) (apierr 409 CURSOR_AHEAD))
     (bindS (liftS (\<lambda>_. parseLimit limit_q 100 200)) (\<lambda>limit.
     bindS (liftS (readChanges uid after until (nat limit))) (\<lambda>changes.
        let nxt = last_number cg_revision after changes in
        returnS \<lparr>pg_after = after, pg_high = until, pg_items = changes, pg_next = nxt,
                 pg_more = nxt < until\<rparr>))))))"

section \<open>Appending keeps the logs\<close>

lemma find_session_iff: "find_session d sid = Some r \<Longrightarrow> r \<in> set (t_sessions d) \<and> se_id r = sid"
  using find_SomeD by (fastforce simp: find_session_def)

text \<open>What \<open>projectItem\<close> does not touch.\<close>

lemma projectItem_frame:
  "same (\<lambda>d. (t_users d, t_changes d, t_sessions d, t_events d, t_requests d)) (projectItem E sid turn data n)"
  by (rule sameI, cases data)
    (auto simp: project_message_def upsert_item_def intro!: keeps_rules keeps_mod
      split: option.split)

lemma projectItem_ops: "same t_ops (projectItem E sid turn data n)"
  by (rule sameI, cases data)
    (auto simp: project_message_def upsert_item_def intro!: keeps_rules keeps_mod
      split: option.split)

lemma logs_projectItem: "keeps logs_ok (projectItem E sid turn data n)"
  using projectItem_frame [of E sid turn data n]
  by (auto simp: same_def keeps_def logs_ok_def)

lemma bump_then_insert:
  "logs_ok d \<Longrightarrow> bump_session E sid d = (Inr (n, v), t) \<Longrightarrow>
     ev_session e = sid \<Longrightarrow> ev_seq e = n \<Longrightarrow>
     logs_ok (t\<lparr>t_events := t_events t @ [e]\<rparr>)"
  by (auto simp: bump_session_def run_iff logs_ok_def dest!: find_session_iff
      intro!: events_inv_step)

text \<open>
  Appending an event advances the session's number and stores an event under it; between the two
  writes the log is short of one event, which is why the two are taken together. An append that
  fails is rolled back by the transaction around it, so the lemma is about one that succeeds.
\<close>

lemma insert_event_Inr:
  "insert_event e d = (Inr (), t) \<Longrightarrow> t = d\<lparr>t_events := t_events d @ [e]\<rparr>"
  by (auto simp: insert_event_def run_iff)

lemma appendEvent_Inr:
  assumes "appendEvent E uid nid sid turn data d = (Inr n, t)"
  obtains v d1 eid d3 d4 where "bump_session E sid d = (Inr (n, v), d1)"
    and "valid_event E \<lparr>ev_session = sid, ev_seq = n, ev_id = eid, ev_node = nid,
           ev_turn = nullString turn, ev_source = None, ev_data = stamp_revision v data,
           ev_created = now E\<rparr>"
    and "d3 = d1\<lparr>entropy := entropy d1 + 1, t_events := t_events d1 @
           [\<lparr>ev_session = sid, ev_seq = n, ev_id = eid, ev_node = nid,
             ev_turn = nullString turn, ev_source = None, ev_data = stamp_revision v data,
             ev_created = now E\<rparr>]\<rparr>"
    and "projectItem E sid turn (stamp_revision v data) n d3 = (Inr (), d4)"
    and "change E uid Rt_session sid Upsert v d4 = (Inr (), t)"
  using assms
  by (auto simp: appendEvent_def run_iff Let_def dest!: insert_event_Inr)

lemma append_logs: "preserves logs_ok (appendEvent E uid nid sid turn data)"
proof (rule preservesI)
  fix d n t
  assume ok: "logs_ok d" and run: "appendEvent E uid nid sid turn data d = (Inr n, t)"
  from run show "logs_ok t"
  proof (rule appendEvent_Inr)
    fix v d1 eid d3 d4
    let ?e = "\<lparr>ev_session = sid, ev_seq = n, ev_id = eid, ev_node = nid, ev_turn = nullString turn,
      ev_source = None, ev_data = stamp_revision v data, ev_created = now E\<rparr>"
    assume b: "bump_session E sid d = (Inr (n, v), d1)"
      and d3: "d3 = d1\<lparr>entropy := entropy d1 + 1, t_events := t_events d1 @ [?e]\<rparr>"
      and p: "projectItem E sid turn (stamp_revision v data) n d3 = (Inr (), d4)"
      and c: "change E uid Rt_session sid Upsert v d4 = (Inr (), t)"
    have "logs_ok (d1\<lparr>t_events := t_events d1 @ [?e]\<rparr>)"
      by (rule bump_then_insert [OF ok b]) simp_all
    then have "logs_ok d3" unfolding d3 by (simp add: logs_ok_def)
    then have "logs_ok d4" by (rule keepsD [OF logs_projectItem p])
    then show "logs_ok t" by (rule preservesD [OF change_logs c])
  qed
qed

lemma append_frame:
  assumes run: "appendEvent E uid nid sid turn data d = (Inr n, t)"
  shows "t_requests t = t_requests d \<and> t_ops t = t_ops d"
  using run
proof (rule appendEvent_Inr)
  fix v d1 eid d3 d4
  let ?e = "\<lparr>ev_session = sid, ev_seq = n, ev_id = eid, ev_node = nid, ev_turn = nullString turn,
    ev_source = None, ev_data = stamp_revision v data, ev_created = now E\<rparr>"
  assume b: "bump_session E sid d = (Inr (n, v), d1)"
    and d3: "d3 = d1\<lparr>entropy := entropy d1 + 1, t_events := t_events d1 @ [?e]\<rparr>"
    and p: "projectItem E sid turn (stamp_revision v data) n d3 = (Inr (), d4)"
    and c: "change E uid Rt_session sid Upsert v d4 = (Inr (), t)"
  have "(t_requests d1, t_ops d1) = (t_requests d, t_ops d)" using b by (auto simp: bump_session_def run_iff)
  moreover have "(t_requests d4, t_ops d4) = (t_requests d3, t_ops d3)"
    using sameD [OF projectItem_ops p] sameD [OF projectItem_frame p] by simp
  moreover have "(t_requests t, t_ops t) = (t_requests d4, t_ops d4)" using sameD [OF change_rows c] by simp
  ultimately show ?thesis using d3 by simp
qed

lemma logs_appendEvent [logs_rules]: "preserves (store_ok (dbnow E)) (appendEvent E uid nid sid turn data)"
proof (rule preservesI)
  fix d n t
  assume ok: "store_ok (dbnow E) d" and run: "appendEvent E uid nid sid turn data d = (Inr n, t)"
  from run have "timed (dbnow E) (t_changes t)"
  proof (rule appendEvent_Inr)
    fix v d1 eid d3 d4
    let ?e = "\<lparr>ev_session = sid, ev_seq = n, ev_id = eid, ev_node = nid, ev_turn = nullString turn,
      ev_source = None, ev_data = stamp_revision v data, ev_created = now E\<rparr>"
    assume b: "bump_session E sid d = (Inr (n, v), d1)"
      and d3: "d3 = d1\<lparr>entropy := entropy d1 + 1, t_events := t_events d1 @ [?e]\<rparr>"
      and p: "projectItem E sid turn (stamp_revision v data) n d3 = (Inr (), d4)"
      and c: "change E uid Rt_session sid Upsert v d4 = (Inr (), t)"
    have "t_changes d1 = t_changes d" using b by (auto simp: bump_session_def run_iff)
    moreover have "t_changes d4 = t_changes d3" using sameD [OF projectItem_frame p] by simp
    ultimately have "timed (dbnow E) (t_changes d4)" using ok d3 by (simp add: store_ok_def)
    then show ?thesis by (rule keepsD [OF change_timed c])
  qed
  moreover have "t_requests t = t_requests d \<and> t_ops t = t_ops d"
    by (rule append_frame [OF run])
  ultimately show "store_ok (dbnow E) t"
    using preservesD [OF append_logs run] ok by (simp add: store_ok_def)
qed

section \<open>What the readers return\<close>

text \<open>The rows of a consecutive run come back as a non-empty prefix of it.\<close>

lemma read_run_prefix:
  "map num rows = [expected..b] \<Longrightarrow> out \<noteq> [] \<or> rows \<noteq> [] \<Longrightarrow>
     \<exists>n. read_run num sz budget expected out bytes rows = Inr (out @ take n rows)
         \<and> (out = [] \<longrightarrow> 0 < n)"
proof (induction rows arbitrary: expected out bytes)
  case Nil
  then show ?case by (auto intro: exI [of _ 1])
next
  case (Cons m rows)
  have le: "expected \<le> b" using Cons.prems(1) by (cases "expected \<le> b") auto
  then have m: "num m = expected" and rows: "map num rows = [expected + 1..b]"
    using Cons.prems(1) upto_Cons [of expected b] by (simp_all del: upto.simps) (metis list.inject)+
  show ?case
  proof (cases "out \<noteq> [] \<and> bytes + sz m > budget")
    case True
    then show ?thesis using m by (auto intro: exI [of _ 0])
  next
    case False
    obtain n where "read_run num sz budget (expected + 1) (out @ [m]) (bytes + sz m) rows
        = Inr ((out @ [m]) @ take n rows)"
      using Cons.IH [OF rows, of "out @ [m]" "bytes + sz m"] by auto
    then show ?thesis using m False by (intro exI [of _ "Suc n"]) simp
  qed
qed

lemma consecutive_iff: "consecutive num a xs \<longleftrightarrow> map num xs = [a..a + int (length xs) - 1]"
proof (induction xs arbitrary: a)
  case Nil
  then show ?case by simp
next
  case (Cons x xs)
  have "[a..a + int (length (x # xs)) - 1] = a # [a + 1..(a + 1) + int (length xs) - 1]"
    using upto_Cons [of a "a + int (length xs)"] by (simp add: add.commute del: upto.simps)
  then show ?case using Cons [of "a + 1"] by (simp del: upto.simps)
qed

lemma sort_key_sorted: "sorted (map f xs) \<Longrightarrow> sort_key f xs = xs"
  by (induction xs) (auto simp: insort_is_Cons)

text \<open>With the log in order, the selected rows are the first of the span.\<close>

lemma select_span:
  assumes "map num (filter P rows) = [lo + 1..hi]" and "lo \<le> after" and "until \<le> hi"
  shows "take limit (sort_key num (filter (\<lambda>r. P r \<and> after < num r \<and> num r \<le> until) rows))
       = take limit (span num (filter P rows) after until)"
proof -
  have "filter (\<lambda>r. P r \<and> after < num r \<and> num r \<le> until) rows = span num (filter P rows) after until"
    by (simp add: span_def filter_filter conj_commute)
  then show ?thesis
    using span_numbers [OF assms] by (simp add: sort_key_sorted)
qed

subsection \<open>Both readers keep the contract of a paged log\<close>

definition session_log :: "db \<Rightarrow> string \<Rightarrow> event_row list" where
  "session_log d sid = filter (\<lambda>e. ev_session e = sid) (t_events d)"

definition session_low :: "db \<Rightarrow> string \<Rightarrow> int" where
  "session_low d sid = (case find_session d sid of None \<Rightarrow> 0 | Some r \<Rightarrow> se_earliest r - 1)"

definition session_high :: "db \<Rightarrow> string \<Rightarrow> int" where
  "session_high d sid = (case find_session d sid of None \<Rightarrow> 0 | Some r \<Rightarrow> se_last_seq r)"

definition user_log :: "db \<Rightarrow> string \<Rightarrow> change_row list" where
  "user_log d uid = filter (\<lambda>c. cg_user c = uid) (t_changes d)"

definition user_high :: "db \<Rightarrow> string \<Rightarrow> int" where
  "user_high d uid = (case find (\<lambda>u. us_id u = uid) (t_users d) of None \<Rightarrow> 0 | Some u \<Rightarrow> us_last_rev u)"

definition user_low :: "db \<Rightarrow> string \<Rightarrow> int" where
  "user_low d uid = user_high d uid - int (length (user_log d uid))"

lemma session_log_numbers:
  assumes "logs_ok d" and "find_session d sid = Some r"
  shows "map ev_seq (session_log d sid) = [session_low d sid + 1..session_high d sid]"
proof -
  have "r \<in> set (t_sessions d)" and "se_id r = sid" using find_session_iff [OF assms(2)] by simp_all
  then show ?thesis
    using assms by (auto simp: logs_ok_def events_inv_def event_seqs_def session_log_def
        session_low_def session_high_def simp del: upto.simps)
qed

lemma user_log_numbers:
  assumes "logs_ok d" and "find (\<lambda>u. us_id u = uid) (t_users d) = Some u"
  shows "map cg_revision (user_log d uid) = [user_low d uid + 1..user_high d uid]"
proof -
  have u: "u \<in> set (t_users d)" "us_id u = uid" using find_SomeD [OF assms(2)] by simp_all
  then obtain k where k: "k \<le> us_last_rev u" "map cg_revision (user_log d uid) = [k + 1..us_last_rev u]"
    using assms(1) by (auto simp: logs_ok_def changes_inv_def change_revs_def user_log_def
        simp del: upto.simps)
  have "int (length (user_log d uid)) = us_last_rev u - k"
    using arg_cong [OF k(2), of length] k(1) by simp
  then show ?thesis using k(2) assms(2) by (simp add: user_low_def user_high_def del: upto.simps)
qed

lemma take_nonempty: "map num ys = [a + 1..b] \<Longrightarrow> a < b \<Longrightarrow> 0 < n \<Longrightarrow> take n ys \<noteq> []"
  by (cases ys; cases n) auto

lemma readEvents_page:
  assumes "logs_ok d" and "find_session d sid = Some r" and "session_low d sid \<le> after"
    and "after < until" and "until \<le> session_high d sid" and "0 < limit"
  shows "\<exists>n>0. n \<le> limit \<and>
    readEvents E sid after until limit d = Inr (take n (span ev_seq (session_log d sid) after until))"
proof -
  let ?ys = "span ev_seq (session_log d sid) after until"
  note nums = session_log_numbers [OF assms(1,2)]
  have rows: "select_events d sid after until limit = take limit ?ys"
    unfolding select_events_def session_log_def
    by (rule select_span [OF nums [unfolded session_log_def] assms(3,5)])
  have ys: "map ev_seq ?ys = [after + 1..until]" by (rule span_numbers [OF nums assms(3,5)])
  have "map ev_seq (take limit ?ys) = [after + 1..min until (after + int limit)]"
    using ys take_upto [of limit "after + 1" until] by (simp add: take_map [symmetric])
  moreover have "take limit ?ys \<noteq> []" by (rule take_nonempty [OF ys assms(4,6)])
  ultimately obtain n where n: "0 < n"
    and run: "read_run ev_seq (event_size E) 1048576 (after + 1) [] 0 (take limit ?ys)
      = Inr (take n (take limit ?ys))"
    using read_run_prefix [of ev_seq "take limit ?ys" "after + 1" _ "[]" "event_size E" 1048576 0] by auto
  have "take n (take limit ?ys) = take (min n limit) ?ys" by simp
  moreover have "take (min n limit) ?ys \<noteq> []"
    by (rule take_nonempty [OF ys assms(4)]) (use n assms(6) in simp)
  ultimately show ?thesis
    using run n assms(6) by (intro exI [of _ "min n limit"]) (simp add: readEvents_def rows)
qed

lemma readChanges_page:
  assumes "logs_ok d" and "find (\<lambda>u. us_id u = uid) (t_users d) = Some u"
    and "user_low d uid \<le> after" and "after < until" and "until \<le> user_high d uid" and "0 < limit"
  shows "readChanges uid after until limit d
    = Inr (take limit (span cg_revision (user_log d uid) after until))"
proof -
  let ?ys = "span cg_revision (user_log d uid) after until"
  note nums = user_log_numbers [OF assms(1,2)]
  have rows: "select_changes d uid after until limit = take limit ?ys"
    unfolding select_changes_def user_log_def
    by (rule select_span [OF nums [unfolded user_log_def] assms(3,5)])
  have ys: "map cg_revision ?ys = [after + 1..until]" by (rule span_numbers [OF nums assms(3,5)])
  have m: "map cg_revision (take limit ?ys) = [after + 1..min until (after + int limit)]"
    using ys take_upto [of limit "after + 1" until] by (simp add: take_map [symmetric])
  have "int (length (take limit ?ys)) = min until (after + int limit) - after"
    using arg_cong [OF m, of length] assms(4) by simp
  then have "consecutive cg_revision (after + 1) (take limit ?ys)"
    using m by (simp add: consecutive_iff del: upto.simps length_take)
  moreover have "take limit ?ys \<noteq> []" by (rule take_nonempty [OF ys assms(4,6)])
  ultimately show ?thesis by (simp add: readChanges_def rows Let_def)
qed

interpretation event_log: paged_log
  "\<lambda>d. logs_ok d \<and> find_session d sid \<noteq> None" "\<lambda>d. session_log d sid" ev_seq
  "\<lambda>d. session_low d sid" "\<lambda>d. session_high d sid" "readEvents E sid" for E sid
  by unfold_locales (auto intro: session_log_numbers readEvents_page simp del: upto.simps)

interpretation change_log: paged_log
  "\<lambda>d. logs_ok d \<and> find (\<lambda>u. us_id u = uid) (t_users d) \<noteq> None" "\<lambda>d. user_log d uid" cg_revision
  "\<lambda>d. user_low d uid" "\<lambda>d. user_high d uid" "readChanges uid" for uid
  by unfold_locales
    (auto intro: user_log_numbers intro!: exI readChanges_page simp del: upto.simps)

section \<open>Properties\<close>

lemma session_high_bump:
  "bump_session E sid d = (Inr (n, v), t) \<Longrightarrow>
     n = session_high d sid + 1 \<and> session_high t sid = n \<and> t_events t = t_events d"
  by (auto simp: bump_session_def run_iff session_high_def find_session_def find_upd_rows
      dest: find_SomeD)

lemma same_projection: "same p m \<Longrightarrow> m d = (r, t) \<Longrightarrow> p t = p d"
  by (rule sameD)

lemma change_frame: "same (\<lambda>d. (t_sessions d, t_events d)) (change E uid kind rid action n)"
  unfolding change_def same_iff_keeps Let_def
  by (intro allI keeps_rules keeps_mod) simp

text \<open>
  C12: appending an event gives it the session's next sequence number, puts it at the end of the
  session's log, leaves the logs of other sessions alone, and keeps both logs free of gaps.
\<close>

theorem append_event_spec:
  assumes "logs_ok d" and "appendEvent E uid nid sid turn data d = (Inr n, t)"
  shows "logs_ok t \<and> n = session_high d sid + 1 \<and> session_high t sid = n
    \<and> (\<exists>e. ev_seq e = n \<and> session_log t sid = session_log d sid @ [e])
    \<and> (\<forall>other. other \<noteq> sid \<longrightarrow> session_log t other = session_log d other)"
proof -
  have ok: "logs_ok t" using preservesD [OF append_logs assms(2,1)] .
  from assms(2) show ?thesis
  proof (rule appendEvent_Inr)
    fix v d1 eid d3 d4
    let ?e = "\<lparr>ev_session = sid, ev_seq = n, ev_id = eid, ev_node = nid, ev_turn = nullString turn,
      ev_source = None, ev_data = stamp_revision v data, ev_created = now E\<rparr>"
    assume b: "bump_session E sid d = (Inr (n, v), d1)"
      and d3: "d3 = d1\<lparr>entropy := entropy d1 + 1, t_events := t_events d1 @ [?e]\<rparr>"
      and p: "projectItem E sid turn (stamp_revision v data) n d3 = (Inr (), d4)"
      and c: "change E uid Rt_session sid Upsert v d4 = (Inr (), t)"
    have "t_sessions t = t_sessions d1" and events: "t_events t = t_events d @ [?e]"
      using sameD [OF projectItem_frame p] sameD [OF change_frame c] d3 session_high_bump [OF b]
      by simp_all
    then have "session_high t sid = n"
      using session_high_bump [OF b] by (simp add: session_high_def find_session_def)
    moreover have "session_log t sid = session_log d sid @ [?e]"
      and "\<forall>other. other \<noteq> sid \<longrightarrow> session_log t other = session_log d other"
      using events by (simp_all add: session_log_def)
    ultimately show ?thesis using ok session_high_bump [OF b] by auto
  qed
qed

definition sample_append :: "(err + int) \<times> db" where
  "sample_append = appendEvent env0 ''u'' ''n'' ''s'' ''t'' (Message_completed ''m'' ''user'' ''hi'' False) db0"

lemmas append_eval = appendEvent_def bump_session_def insert_event_def project_message_def
  upsert_item_def projected_message_def truncate_text_def continuation_def byte_def find_item_def
  change_def find_session_def has_row_def nullString_def max_safe_def Let_def

lemma sample_append_eq: "fst sample_append = Inr 1"
  by (simp add: sample_append_def append_eval run_simps sample_defs)

lemma sample_append_session:
  "find_session (snd sample_append) ''s''
     = Some (session0\<lparr>se_last_seq := 1, se_revision := 2, se_updated := 100\<rparr>)"
  by (simp add: sample_append_def append_eval run_simps sample_defs)

lemma sample_append_logs: "logs_ok (snd sample_append)"
  using preservesD [OF append_logs _ logs_db0] sample_append_eq
  by (metis prod.collapse sample_append_def)

theorem append_event_spec_witness:
  "session_high (snd sample_append) ''s'' = 1 \<and> logs_ok (snd sample_append)"
proof -
  have "appendEvent env0 ''u'' ''n'' ''s'' ''t'' (Message_completed ''m'' ''user'' ''hi'' False) db0
      = (Inr 1, snd sample_append)"
    using sample_append_eq by (metis prod.collapse sample_append_def)
  from append_event_spec [OF logs_db0 this] show ?thesis by simp
qed

text \<open>
  C26: a client that follows \<open>nextAfter\<close> from any cursor the log still reaches gets, after at most one
  request for each event, every event up to the high-water mark, in order and without a gap.
\<close>

theorem events_collected:
  assumes "logs_ok d" and "find_session d sid = Some r"
    and "se_earliest r - 1 \<le> after" and "until \<le> se_last_seq r" and "0 < limit"
  shows "collect (readEvents E sid) ev_seq limit (nat (until - after)) after until d
      = Some (Inr (span ev_seq (session_log d sid) after until))
    \<and> map ev_seq (span ev_seq (session_log d sid) after until) = [after + 1..until]"
proof -
  have low: "session_low d sid = se_earliest r - 1" and high: "session_high d sid = se_last_seq r"
    using assms(2) by (simp_all add: session_low_def session_high_def)
  show ?thesis
    using event_log.collect_all [of d sid until limit after "nat (until - after)" E]
      span_numbers [OF session_log_numbers [OF assms(1,2)], of after until] assms low high
    by simp
qed

theorem events_collected_witness:
  "collect (readEvents env0 ''s'') ev_seq 1 1 0 1 (snd sample_append)
     = Some (Inr (span ev_seq (session_log (snd sample_append) ''s'') 0 1))"
  using events_collected [OF sample_append_logs sample_append_session, of 0 1 1 env0]
  by (simp add: sample_defs)

text \<open>
  C27: the same for the changes of a user, whose log may have lost a prefix to retention.
\<close>

theorem changes_collected:
  assumes "logs_ok d" and "find (\<lambda>u. us_id u = uid) (t_users d) = Some u"
    and "us_last_rev u - int (length (user_log d uid)) \<le> after" and "until \<le> us_last_rev u"
    and "0 < limit"
  shows "collect (readChanges uid) cg_revision limit (nat (until - after)) after until d
      = Some (Inr (span cg_revision (user_log d uid) after until))
    \<and> map cg_revision (span cg_revision (user_log d uid) after until) = [after + 1..until]"
proof -
  have "user_high d uid = us_last_rev u" using assms(2) by (simp add: user_high_def)
  then show ?thesis
    using change_log.collect_all [of d uid until limit after "nat (until - after)"]
      span_numbers [OF user_log_numbers [OF assms(1,2)], of after until] assms
    by (simp add: user_low_def)
qed

lemma sample_append_user:
  "find (\<lambda>u. us_id u = ''u'') (t_users (snd sample_append))
     = Some \<lparr>us_id = ''u'', us_subject = ''w'', us_name = ''user'', us_last_rev = 1,
         us_created = 0, us_avatar = None, us_profile_rev = 0\<rparr>"
  by (simp add: sample_append_def append_eval run_simps sample_defs)

lemma sample_append_changes: "length (user_log (snd sample_append) ''u'') = 1"
  by (simp add: sample_append_def append_eval run_simps sample_defs user_log_def)

theorem changes_collected_witness:
  "collect (readChanges ''u'') cg_revision 5 1 0 1 (snd sample_append)
     = Some (Inr (span cg_revision (user_log (snd sample_append) ''u'') 0 1))"
  using changes_collected [OF sample_append_logs sample_append_user, of 0 1 5]
  by (simp add: sample_append_changes)

lemma readEvents_empty: "until \<le> after \<Longrightarrow> readEvents E sid after until limit d = Inr []"
proof -
  assume "until \<le> after"
  then have "filter (\<lambda>e. ev_session e = sid \<and> after < ev_seq e \<and> ev_seq e \<le> until) (t_events d) = []"
    by (auto simp: filter_empty_conv)
  then show ?thesis using \<open>until \<le> after\<close> by (simp add: readEvents_def select_events_def)
qed

lemma eventsPage_Inr:
  assumes "eventsPage E uid sid after_q limit_q until_q d = (Inr (first, pg), t)"
  obtains r limit where "own_session_row d uid sid \<noteq> None" and "find_session d sid = Some r"
    and "1 \<le> limit" and "se_earliest r - 1 \<le> pg_after pg" and "pg_after pg \<le> pg_high pg"
    and "pg_high pg \<le> se_last_seq r" and "t = d"
    and "readEvents E sid (pg_after pg) (pg_high pg) (nat limit) d = Inr (pg_items pg)"
    and "pg_next pg = last_number ev_seq (pg_after pg) (pg_items pg)"
    and "pg_more pg = (pg_next pg < pg_high pg)"
  using assms
proof -
  obtain r limit x xs u where x: "own_session_row d uid sid \<noteq> None" "find_session d sid = Some r"
    "se_earliest r - 1 \<le> x" "x \<le> u" "u \<le> se_last_seq r" "t = d"
    and limit: "parseLimit limit_q 100 200 = Inr limit"
    and xs: "readEvents E sid x u (nat limit) d = Inr xs"
    and pg: "pg = \<lparr>pg_after = x, pg_high = u, pg_items = xs, pg_next = last_number ev_seq x xs,
        pg_more = last_number ev_seq x xs < u\<rparr>"
    using assms by (auto simp: eventsPage_def ownSession_def run_iff Let_def split: if_splits)
  show ?thesis
    by (rule that [of r limit]) (use x xs pg parseLimit_pos [OF limit] in simp_all)
qed

text \<open>
  C13: a page of events that the handler returns lies within the kept log: its events are the ones
  that follow the cursor, numbered without a gap; the next cursor is the last of them, further on
  than the cursor asked with, and \<open>hasMore\<close> says exactly whether it is short of the high-water mark.
\<close>

theorem events_page_spec:
  assumes "logs_ok d" and "eventsPage E uid sid after_q limit_q until_q d = (Inr (first, pg), t)"
  shows "t = d \<and> own_session_row d uid sid \<noteq> None
    \<and> session_low d sid \<le> pg_after pg \<and> pg_high pg \<le> session_high d sid
    \<and> map ev_seq (pg_items pg) = [pg_after pg + 1..pg_next pg]
    \<and> span ev_seq (session_log d sid) (pg_after pg) (pg_high pg)
        = pg_items pg @ span ev_seq (session_log d sid) (pg_next pg) (pg_high pg)
    \<and> pg_next pg \<le> pg_high pg \<and> (pg_more pg = (pg_next pg < pg_high pg))
    \<and> (pg_after pg < pg_high pg \<longrightarrow> pg_after pg < pg_next pg)"
  using assms(2)
proof (rule eventsPage_Inr)
  fix r limit
  assume own: "own_session_row d uid sid \<noteq> None" and r: "find_session d sid = Some r"
    and limit: "1 \<le> limit" and low: "se_earliest r - 1 \<le> pg_after pg"
    and le: "pg_after pg \<le> pg_high pg" and high: "pg_high pg \<le> se_last_seq r" and t: "t = d"
    and read: "readEvents E sid (pg_after pg) (pg_high pg) (nat limit) d = Inr (pg_items pg)"
    and nxt: "pg_next pg = last_number ev_seq (pg_after pg) (pg_items pg)"
    and more: "pg_more pg = (pg_next pg < pg_high pg)"
  have bounds: "session_low d sid \<le> pg_after pg" "pg_high pg \<le> session_high d sid"
    using r low high by (simp_all add: session_low_def session_high_def)
  show ?thesis
  proof (cases "pg_after pg < pg_high pg")
    case True
    have ok: "logs_ok d \<and> find_session d sid \<noteq> None" using assms(1) r by simp
    have "0 < nat limit" using limit by simp
    note page = ok bounds(1) True bounds(2) this read
    show ?thesis
      using own t bounds nxt more event_log.page_advances [OF page] event_log.page_numbers [OF page]
      by simp
  next
    case False
    then have "pg_items pg = []" using read readEvents_empty [of "pg_high pg" "pg_after pg"] by simp
    then show ?thesis using own t bounds nxt more False le by (simp add: last_number_def)
  qed
qed

definition sample_page :: "(err + int \<times> event_row page) \<times> db" where
  "sample_page = eventsPage env0 ''u'' ''s'' ''0'' [] [] (snd sample_append)"

lemma sample_page_eq:
  "\<exists>first pg. sample_page = (Inr (first, pg), snd sample_append) \<and> pg_next pg = 1 \<and> pg_after pg = 0"
  by (simp add: sample_page_def eventsPage_def ownSession_def own_session_row_def accessible_def
      has_row_def sample_append_session run_simps sample_append_def append_eval sample_defs
      parseSequence_def parse_int_def number_of_def digit_def max_int64_def parseLimit_def readEvents_def
      select_events_def last_number_def apierr_def)

theorem events_page_spec_witness:
  "\<exists>first pg. eventsPage env0 ''u'' ''s'' ''0'' [] [] (snd sample_append) = (Inr (first, pg), snd sample_append)
     \<and> pg_after pg = 0 \<and> map ev_seq (pg_items pg) = [1] \<and> pg_next pg = 1 \<and> \<not> pg_more pg"
proof -
  obtain first pg where "sample_page = (Inr (first, pg), snd sample_append)" and n: "pg_next pg = 1" "pg_after pg = 0"
    using sample_page_eq by blast
  then have run: "eventsPage env0 ''u'' ''s'' ''0'' [] [] (snd sample_append) = (Inr (first, pg), snd sample_append)"
    by (simp add: sample_page_def)
  have high: "session_high (snd sample_append) ''s'' = 1"
    by (simp add: session_high_def sample_append_session session0_def)
  note page = events_page_spec [OF sample_append_logs run]
  have "map ev_seq (pg_items pg) = [1]" using page n by simp
  moreover have "\<not> pg_more pg" using page n high by linarith
  ultimately show ?thesis using run n by (intro exI [of _ first] exI [of _ pg] conjI)
qed

end
