(* ===== verification/Sessions.thy ===== *)
theory Sessions
  imports Events
begin

text \<open>
  The session part of \<open>internal/gateway/node.go\<close>: the snapshots a node reports (\<open>sessionUpdate\<close>) with
  the transitions they may make, the mirror of the message queue, and interaction requests that a
  node opens and withdraws. All of it runs inside the transaction of \<open>source\<close> or \<open>acknowledge\<close>.
\<close>

section \<open>States\<close>

text \<open>\<open>isActive\<close> of \<open>commands.go\<close>.\<close>

fun isActive :: "session_state \<Rightarrow> bool" where
  "isActive S_running = True"
| "isActive S_waiting_approval = True"
| "isActive S_waiting_input = True"
| "isActive S_cancelling = True"
| "isActive S_idle = True"
| "isActive S_completed = False"
| "isActive S_cancelled = False"
| "isActive S_failed = False"
| "isActive S_closed = False"

definition validTransition :: "session_state \<Rightarrow> session_state \<Rightarrow> bool" where
  "validTransition old next =
     (if old = next then True
      else if old = S_closed then False
      else if next = S_closed then True
      else (case old of
          S_idle \<Rightarrow> next = S_running \<or> next = S_failed
        | S_running \<Rightarrow> next \<in> {S_waiting_approval, S_waiting_input, S_cancelling, S_completed,
                              S_cancelled, S_failed}
        | S_waiting_approval \<Rightarrow> next \<in> {S_running, S_cancelling, S_completed, S_cancelled, S_failed}
        | S_waiting_input \<Rightarrow> next \<in> {S_running, S_cancelling, S_completed, S_cancelled, S_failed}
        | S_cancelling \<Rightarrow> next \<in> {S_cancelled, S_completed, S_failed}
        | _ \<Rightarrow> False))"

text \<open>The turn state that a session state stands for (\<open>idle\<close> is a turn that is starting).\<close>

fun turn_of_state :: "session_state \<Rightarrow> turn_state" where
  "turn_of_state S_idle = T_starting"
| "turn_of_state S_running = T_running"
| "turn_of_state S_waiting_approval = T_waiting_approval"
| "turn_of_state S_waiting_input = T_waiting_input"
| "turn_of_state S_cancelling = T_cancelling"
| "turn_of_state S_completed = T_completed"
| "turn_of_state S_cancelled = T_cancelled"
| "turn_of_state S_failed = T_failed"
| "turn_of_state S_closed = T_failed"

fun turn_active :: "turn_state \<Rightarrow> bool" where
  "turn_active T_starting = True"
| "turn_active T_running = True"
| "turn_active T_waiting_approval = True"
| "turn_active T_waiting_input = True"
| "turn_active T_cancelling = True"
| "turn_active T_completed = False"
| "turn_active T_cancelled = False"
| "turn_active T_failed = False"

section \<open>Turns\<close>

text \<open>The unique index \<open>turns_one_active\<close>: a write that leaves two active turns in a session fails.\<close>

definition one_active :: "turn_row list \<Rightarrow> bool" where
  "one_active T \<longleftrightarrow>
     list_all (\<lambda>t. length (filter (\<lambda>u. tn_session u = tn_session t \<and> turn_active (tn_state u)) T) \<le> 1) T"

definition put_turns :: "(turn_row list \<Rightarrow> turn_row list) \<Rightarrow> unit dbact" where
  "put_turns f =
     bindS (getS (\<lambda>d. f (t_turns d))) (\<lambda>T.
     thenS (guardS (one_active T) DBError) (modS (\<lambda>d. d\<lparr>t_turns := T\<rparr>)))"

definition insert_turn :: "turn_row \<Rightarrow> unit dbact" where
  "insert_turn t =
     bindS (getS (\<lambda>d. has_row (\<lambda>u. tn_id u = tn_id t) (t_turns d))) (\<lambda>taken.
     thenS (guardS (\<not> taken) DBError) (put_turns (\<lambda>T. T @ [t])))"

definition set_turn :: "env \<Rightarrow> turn_state \<Rightarrow> turn_row \<Rightarrow> turn_row" where
  "set_turn E st t = t\<lparr>tn_state := st,
     tn_started := (if st = T_running \<and> tn_started t = None then Some (now E) else tn_started t),
     tn_ended := (if st \<in> {T_completed, T_cancelled, T_failed} \<and> tn_ended t = None
                  then Some (now E) else tn_ended t)\<rparr>"

section \<open>Starting and continuing a turn\<close>

text \<open>An accepted command of the session that reserved the turn identifier.\<close>

fun reserving_payload :: "payload \<Rightarrow> bool" where
  "reserving_payload (P_native b) =
     (case nc_action b of
        Act_compact \<Rightarrow> True
      | Act_workspace r \<Rightarrow> wr_kind r = ''review''
      | _ \<Rightarrow> False)"
| "reserving_payload p = False"

definition reserves_turn :: "string \<Rightarrow> string \<Rightarrow> string \<Rightarrow> op_row \<Rightarrow> bool" where
  "reserves_turn uid sid turn r \<longleftrightarrow>
     op_user r = uid \<and> op_session r = Some sid \<and>
     (case op_payload r of
        None \<Rightarrow> False
      | Some c \<Rightarrow> c_next_turn c = turn \<and> turn \<noteq> [] \<and>
          (op_kind r \<in> {K_send, K_queue} \<or> op_kind r = K_native \<and> reserving_payload (c_payload c))) \<and>
     op_state r \<in> {Op_accepted, Op_delivered, Op_confirmed, Op_reconciling}"

definition start_turn ::
  "env \<Rightarrow> string \<Rightarrow> string \<Rightarrow> session_state \<Rightarrow> string \<Rightarrow> session_state \<Rightarrow> unit dbact" where
  "start_turn E uid sid old newTurn state =
     thenS (guardS (\<not> (isActive old \<or> old = S_closed \<or> state \<noteq> S_running)) (apierr 409 STALE_TURN))
     (bindS (getS (\<lambda>d. find (reserves_turn uid sid newTurn) (t_ops d))) (\<lambda>r.
      case r of
        None \<Rightarrow> failS (apierr 409 STALE_TURN)
      | Some r \<Rightarrow>
          thenS (guardS (\<not> (op_kind r = K_queue \<and> old \<noteq> S_completed)) (apierr 409 STALE_TURN))
          (thenS (guardS (\<not> (op_kind r = K_queue \<and> op_state r \<noteq> Op_confirmed)) (apierr 409 OPERATION_UNKNOWN))
          (bindS (getS (\<lambda>d. case open_queue d sid of [] \<Rightarrow> None | q # _ \<Rightarrow> Some (qu_next_turn q))) (\<lambda>head.
           thenS (guardS (\<not> (op_kind r = K_queue \<and> head \<noteq> Some newTurn)) invalid)
           (thenS (insert_turn \<lparr>tn_id = newTurn, tn_session = sid, tn_state = T_running,
                     tn_started = Some (now E), tn_ended = None\<rparr>)
           (modS (\<lambda>d. d\<lparr>t_queue := upd_rows (\<lambda>q. qu_session q = sid \<and> qu_next_turn q = newTurn)
                         (\<lambda>q. q\<lparr>qu_state := Q_consumed\<rparr>) (t_queue d)\<rparr>))))))))"

text \<open>A command to resume the closed native session, still without its final receipt.\<close>

definition authorizes_resume :: "string \<Rightarrow> string \<Rightarrow> string \<Rightarrow> op_row \<Rightarrow> bool" where
  "authorizes_resume uid sid turn r \<longleftrightarrow>
     op_user r = uid \<and> op_session r = Some sid \<and> op_kind r = K_native \<and>
     op_state r \<in> {Op_accepted, Op_delivered, Op_reconciling} \<and>
     (case op_payload r of
        Some c \<Rightarrow> payload_turn (c_payload c) = turn \<and>
          (case c_payload c of
             P_native b \<Rightarrow> (case nc_action b of Act_workspace w \<Rightarrow> wr_kind w = ''resume'' | _ \<Rightarrow> False)
           | _ \<Rightarrow> False)
      | None \<Rightarrow> False)"

definition continue_turn ::
  "string \<Rightarrow> string \<Rightarrow> session_state \<Rightarrow> string \<Rightarrow> session_state \<Rightarrow> unit dbact" where
  "continue_turn uid sid old turn state =
     (if validTransition old state then returnS ()
      else bindS (getS (\<lambda>d. old = S_closed \<and> state = S_completed \<and>
                            has_row (authorizes_resume uid sid turn) (t_ops d))) (\<lambda>authorized.
           guardS authorized (apierr 409 STALE_TURN)))"

definition next_turn_state :: "string \<Rightarrow> session_state \<Rightarrow> string \<Rightarrow> session_state \<Rightarrow> turn_state dbact" where
  "next_turn_state sid old turn state =
     (if state \<noteq> S_closed then returnS (turn_of_state state)
      else if old = S_closed then
        oneS (\<lambda>d. map_option tn_state (find (\<lambda>t. tn_id t = turn \<and> tn_session t = sid) (t_turns d)))
      else if \<not> isActive old then returnS (turn_of_state old)
      else returnS T_failed)"

section \<open>The queue mirror\<close>

definition find_queue :: "db \<Rightarrow> string \<Rightarrow> queue_row option" where
  "find_queue d qid = find (\<lambda>q. qu_id q = qid) (t_queue d)"

definition next_position :: "db \<Rightarrow> string \<Rightarrow> int" where
  "next_position d sid =
     foldr max (map qu_position (filter (\<lambda>q. qu_session q = sid) (t_queue d))) 0 + 1"

text \<open>The queue operation an item names: of this user and session, not failed, with the same text.\<close>

definition queue_op :: "db \<Rightarrow> string \<Rightarrow> string \<Rightarrow> string \<Rightarrow> op_row option" where
  "queue_op d uid sid op =
     find (\<lambda>r. op_user r = uid \<and> op_id r = op \<and> op_session r = Some sid \<and> op_kind r = K_queue) (t_ops d)"

definition payload_of :: "op_row \<Rightarrow> (node_command \<Rightarrow> string) \<Rightarrow> string" where
  "payload_of r f = (case op_payload r of None \<Rightarrow> [] | Some c \<Rightarrow> f c)"

definition mirror_item :: "env \<Rightarrow> string \<Rightarrow> string \<Rightarrow> queue_item \<Rightarrow> unit dbact" where
  "mirror_item E uid sid q =
     bindS (getS (\<lambda>d. queue_op d uid sid (qi_op q))) (\<lambda>r.
     case r of
       None \<Rightarrow> failS invalid
     | Some r \<Rightarrow>
         thenS (guardS (\<not> (op_state r = Op_failed
                            \<or> payload_of r (\<lambda>c. payload_text (c_payload c)) \<noteq> qi_text q)) invalid)
         (bindS (getS (\<lambda>d. find_queue d (qi_id q))) (\<lambda>row.
          case row of
            Some o' \<Rightarrow>
              thenS (guardS (qu_session o' = sid) notFound)
              (thenS (guardS (\<not> (qu_op o' \<noteq> qi_op q \<or> qu_text o' \<noteq> qi_text q
                                  \<or> qu_state o' = Q_consumed \<or> qu_state o' = Q_cancelled))
                       (apierr 409 SOURCE_CONFLICT))
              (modS (\<lambda>d. d\<lparr>t_queue := upd_rows (\<lambda>x. qu_id x = qi_id q)
                           (\<lambda>x. x\<lparr>qu_state := qi_state q\<rparr>) (t_queue d)\<rparr>)))
          | None \<Rightarrow>
              bindS (getS (\<lambda>d. has_row (\<lambda>x. qu_session x = sid \<and> qu_op x = qi_op q) (t_queue d))) (\<lambda>taken.
              thenS (guardS (\<not> taken) DBError)
              (modS (\<lambda>d. d\<lparr>t_queue := t_queue d @
                 [\<lparr>qu_id = qi_id q, qu_user = uid, qu_session = sid, qu_op = qi_op q,
                   qu_next_turn = payload_of r c_next_turn, qu_position = next_position d sid,
                   qu_text = qi_text q, qu_state = qi_state q,
                   qu_created = parse_time E (qi_created q)\<rparr>]\<rparr>))))))"

definition queueMirror :: "env \<Rightarrow> string \<Rightarrow> string \<Rightarrow> queue_item list \<Rightarrow> unit dbact" where
  "queueMirror E uid sid items =
     bindS (foldS (\<lambda>q ids. thenS (guardS (qi_id q \<notin> set ids) invalid)
              (thenS (mirror_item E uid sid q) (returnS (ids @ [qi_id q])))) items []) (\<lambda>ids.
     bindS (getS (\<lambda>d. map qu_id (open_queue d sid))) (\<lambda>ordered.
     thenS (guardS (set ordered \<subseteq> set ids) invalid)
     (guardS (take (length ordered) ids = ordered) invalid)))"

section \<open>Interaction requests\<close>

text \<open>\<open>validateQuestions\<close>: identifiers are unique, and no more can be chosen than there are options.\<close>

fun options_ok :: "question_body \<Rightarrow> bool" where
  "options_ok (Single os) = distinct (map ch_id os)"
| "options_ok (Multiple os n) = (distinct (map ch_id os) \<and> \<not> n > int (length os))"
| "options_ok (Free_text n) = True"

fun validateQuestions :: "request_body \<Rightarrow> bool" where
  "validateQuestions (Approval_body a s choices) = distinct (map ch_id choices)"
| "validateQuestions (Question_body qs) =
     (distinct (map qn_id qs) \<and> list_all (\<lambda>q. options_ok (qn_body q)) qs)"

fun kind_cap :: "request_kind \<Rightarrow> cap_key" where
  "kind_cap Approval = Cap_approval"
| "kind_cap Question = Cap_question"

fun kind_notice :: "request_kind \<Rightarrow> notice_kind" where
  "kind_notice Approval = N_approval"
| "kind_notice Question = N_question"

definition minute :: int where
  "minute = 60 * 1000000000"

definition insert_request :: "request_row \<Rightarrow> unit dbact" where
  "insert_request r =
     bindS (getS (\<lambda>d. has_row (\<lambda>x. rq_id x = rq_id r) (t_requests d))) (\<lambda>taken.
     thenS (guardS (\<not> taken \<and> rq_expires r > rq_created r) DBError)
     (modS (\<lambda>d. d\<lparr>t_requests := t_requests d @ [r]\<rparr>)))"

definition requestCreate :: "env \<Rightarrow> string \<Rightarrow> string \<Rightarrow> node_request \<Rightarrow> int dbact" where
  "requestCreate E uid nid b =
     (let sid = nr_session b; turn = nr_turn b;
          created = parse_time E (nr_created b); expiry = parse_time E (nr_expires b) in
      bindS (getSession E uid sid) (\<lambda>(s, queue).
      thenS (guardS (\<not> (turn \<noteq> str (se_turn s) \<or> \<not> isActive (se_state s) \<or> se_state s = S_cancelling))
               (apierr 409 STALE_TURN))
      (thenS (guardS (truth_cap (se_caps s) (kind_cap (body_kind (nr_body b)))) (apierr 409 CAPABILITY_UNSUPPORTED))
      (thenS (guardS (validateQuestions (nr_body b)) invalid)
      (thenS (guardS (\<not> (\<not> expiry > created \<or> \<not> expiry > now E \<or> created > now E + minute))
                (apierr 410 REQUEST_EXPIRED))
      (thenS (bindS (getS (\<lambda>d. find_request d (nr_id b))) (\<lambda>existing.
              case existing of
                Some r \<Rightarrow> guardS (rq_def r = b) (apierr 409 SOURCE_CONFLICT)
              | None \<Rightarrow>
                  thenS (insert_request
                    \<lparr>rq_id = nr_id b, rq_session = sid, rq_turn = turn, rq_user = uid,
                     rq_state = R_pending, rq_def = b, rq_decision = None, rq_decision_op = None,
                     rq_revision = 1, rq_created = created, rq_expires = expiry, rq_resolved = None\<rparr>)
                  (notify E uid sid (kind_notice (body_kind (nr_body b))) title_request)))
      (bindS (getRequest E uid (nr_id b)) (\<lambda>rr.
       thenS (change E uid Rt_request (nr_id b) Upsert (rv_revision rr))
       (appendEvent E uid nid sid turn (Request_upsert rr))))))))))"

definition requestCancel :: "env \<Rightarrow> string \<Rightarrow> string \<Rightarrow> string \<Rightarrow> string \<Rightarrow> string \<Rightarrow> int dbact" where
  "requestCancel E uid nid sid turn rid =
     bindS (getRequest E uid rid) (\<lambda>rr.
     thenS (guardS (\<not> (rv_session rr \<noteq> sid \<or> rv_turn rr \<noteq> turn)) (apierr 409 STALE_TURN))
     (bindS (if rv_state rr = R_pending then
               thenS (modS (\<lambda>d. d\<lparr>t_requests := upd_rows (\<lambda>r. rq_id r = rid)
                        (\<lambda>r. r\<lparr>rq_state := R_cancelled, rq_revision := rq_revision r + 1\<rparr>) (t_requests d)\<rparr>))
               (thenS (change E uid Rt_request rid Upsert (rv_revision rr + 1))
               (getRequest E uid rid))
             else returnS rr) (\<lambda>rr.
      appendEvent E uid nid sid turn (Request_upsert rr))))"

section \<open>Session snapshots\<close>

definition announce_state ::
  "env \<Rightarrow> string \<Rightarrow> string \<Rightarrow> string \<Rightarrow> session_row \<Rightarrow> queue_item list \<Rightarrow> node_session_state \<Rightarrow> int dbact" where
  "announce_state E uid nid sid old queue b =
     bindS (appendEvent E uid nid sid (ns_turn b) (Session_state (ns_state b) (ns_turn b) (se_revision old))) (\<lambda>seq.
     bindS (if se_caps old \<noteq> ns_caps b \<or> ns_caprev b \<noteq> se_caprev old
            then appendEvent E uid nid sid (ns_turn b) (Capabilities_updated (ns_caps b) (ns_caprev b))
            else returnS seq) (\<lambda>seq.
     if queue \<noteq> ns_queue b
     then appendEvent E uid nid sid (ns_turn b) (Queue_updated (ns_queue b))
     else returnS seq))"

definition pending_requests :: "db \<Rightarrow> string \<Rightarrow> string list" where
  "pending_requests d sid =
     map rq_id (filter (\<lambda>r. rq_session r = sid \<and> rq_state r = R_pending) (t_requests d))"

definition cancel_pending :: "env \<Rightarrow> string \<Rightarrow> string \<Rightarrow> string \<Rightarrow> string \<Rightarrow> int \<Rightarrow> int dbact" where
  "cancel_pending E uid nid sid turn seq =
     bindS (getS (\<lambda>d. pending_requests d sid)) (\<lambda>rs.
     foldS (\<lambda>rid _. requestCancel E uid nid sid turn rid) rs seq)"

definition sessionUpdate :: "env \<Rightarrow> string \<Rightarrow> string \<Rightarrow> string \<Rightarrow> node_session_state \<Rightarrow> int dbact" where
  "sessionUpdate E uid nid sid b =
     bindS (getSession E uid sid) (\<lambda>(old, queue).
     let oldTurn = str (se_turn old); newTurn = ns_turn b; state = ns_state b; cr = ns_caprev b in
     thenS (guardS (newTurn \<noteq> []) invalid)
     (thenS (if newTurn \<noteq> oldTurn then start_turn E uid sid (se_state old) newTurn state
             else continue_turn uid sid (se_state old) newTurn state)
     (thenS (guardS (\<not> (cr < se_caprev old \<or> cr = se_caprev old \<and> ns_caps b \<noteq> se_caps old))
               (apierr 409 CAPABILITY_CHANGED))
     (bindS (next_turn_state sid (se_state old) newTurn state) (\<lambda>turnState.
      thenS (put_turns (upd_rows (\<lambda>t. tn_id t = newTurn) (set_turn E turnState)))
      (thenS (modS (\<lambda>d. d\<lparr>t_sessions := upd_rows (\<lambda>r. se_id r = sid)
                (\<lambda>r. r\<lparr>se_turn := Some newTurn, se_state := state, se_caps := ns_caps b,
                       se_caprev := cr\<rparr>) (t_sessions d)\<rparr>))
      (thenS (queueMirror E uid sid (ns_queue b))
      (bindS (announce_state E uid nid sid old queue b) (\<lambda>seq.
       bindS (if \<not> isActive state \<or> state = S_cancelling
              then cancel_pending E uid nid sid oldTurn seq else returnS seq) (\<lambda>seq.
       thenS (if state \<noteq> se_state old \<and> (state = S_completed \<or> state = S_failed)
              then notify E uid sid (if state = S_completed then N_completed else N_failed) title_state
              else returnS ())
       (returnS seq)))))))))))"

section \<open>The logs are kept\<close>

lemma logs_put_turns [logs_rules]: "preserves (store_ok T) (put_turns f)"
  unfolding put_turns_def by (intro logs_rules keeps_rules logs_mod) simp_all

lemma logs_insert_turn [logs_rules]: "preserves (store_ok T) (insert_turn t)"
  unfolding insert_turn_def by (intro logs_rules keeps_rules)

lemma logs_start_turn [logs_rules]: "preserves (store_ok (dbnow E)) (start_turn E uid sid old newTurn state)"
  unfolding start_turn_def by (intro logs_rules keeps_rules logs_mod) simp_all

lemma logs_mirror_item [logs_rules]: "preserves (store_ok (dbnow E)) (mirror_item E uid sid q)"
  unfolding mirror_item_def by (intro logs_rules keeps_rules logs_mod) simp_all

lemma logs_queueMirror [logs_rules]: "preserves (store_ok (dbnow E)) (queueMirror E uid sid items)"
  unfolding queueMirror_def by (intro logs_rules keeps_rules)

lemma logs_insert_request [logs_rules]:
  "request_ok r \<Longrightarrow> preserves (store_ok T) (insert_request r)"
  by (rule preservesI)
    (auto simp: insert_request_def run_iff store_ok_def logs_ok_def has_row_iff intro!: rows_ok_snoc)

lemma logs_requestCreate [logs_rules]: "preserves (store_ok (dbnow E)) (requestCreate E uid nid b)"
  unfolding requestCreate_def getSession_def getRequest_def
  by (intro logs_rules keeps_rules) (simp_all add: request_ok_def)

text \<open>The request that is withdrawn is the one that was looked up, and it is pending there too.\<close>

lemma getRequest_pending:
  assumes "getRequest E uid rid d = (Inr rr, t)" and "rv_state rr = R_pending"
  obtains r where "t = d" and "find_request d rid = Some r" and "rq_state r = R_pending"
  using assms
  by (auto simp: getRequest_def run_iff own_request_row_def request_view_of_def
      split: option.splits if_splits)

lemma cancel_row_ok:
  assumes "rows_ok rq_id request_ok Q" and "find (\<lambda>r. rq_id r = rid) Q = Some r" and "rq_state r = R_pending"
  shows "rows_ok rq_id request_ok (upd_rows (\<lambda>r. rq_id r = rid)
    (\<lambda>r. r\<lparr>rq_state := R_cancelled, rq_revision := rq_revision r + 1\<rparr>) Q)"
proof (rule rows_ok_upd [OF assms(1)])
  fix x assume x: "x \<in> set Q" "rq_id x = rid" and ok: "request_ok x"
  have "x = r" using key_unique [of rq_id Q x r] x find_SomeD [OF assms(2)] assms(1) by (simp add: rows_ok_def)
  then show "rq_id (x\<lparr>rq_state := R_cancelled, rq_revision := rq_revision x + 1\<rparr>) = rq_id x
      \<and> request_ok (x\<lparr>rq_state := R_cancelled, rq_revision := rq_revision x + 1\<rparr>)"
    using ok assms(3) by (simp add: request_ok_def)
qed

lemma logs_requestCancel [logs_rules]:
  "preserves (store_ok (dbnow E)) (requestCancel E uid nid sid turn rid)"
proof (rule preservesI)
  fix d n t
  assume ok: "store_ok (dbnow E) d" and run: "requestCancel E uid nid sid turn rid d = (Inr n, t)"
  from run obtain rr where rr: "getRequest E uid rid d = (Inr rr, d)"
    and rest: "bindS (if rv_state rr = R_pending then
               thenS (modS (\<lambda>d. d\<lparr>t_requests := upd_rows (\<lambda>r. rq_id r = rid)
                        (\<lambda>r. r\<lparr>rq_state := R_cancelled, rq_revision := rq_revision r + 1\<rparr>) (t_requests d)\<rparr>))
               (thenS (change E uid Rt_request rid Upsert (rv_revision rr + 1))
               (getRequest E uid rid))
             else returnS rr) (\<lambda>rr. appendEvent E uid nid sid turn (Request_upsert rr)) d = (Inr n, t)"
    unfolding requestCancel_def getRequest_def bindS_Inr [of "oneS _"] thenS_Inr guardS_Inr oneS_Inr by blast
  show "store_ok (dbnow E) t"
  proof (cases "rv_state rr = R_pending")
    case True
    let ?d = "d\<lparr>t_requests := upd_rows (\<lambda>r. rq_id r = rid)
                        (\<lambda>r. r\<lparr>rq_state := R_cancelled, rq_revision := rq_revision r + 1\<rparr>) (t_requests d)\<rparr>"
    obtain r where "find_request d rid = Some r" "rq_state r = R_pending"
      using getRequest_pending [OF rr True] by blast
    then have "store_ok (dbnow E) ?d"
      using ok cancel_row_ok by (auto simp: store_ok_def logs_ok_def find_request_def)
    moreover have "bindS (thenS (change E uid Rt_request rid Upsert (rv_revision rr + 1)) (getRequest E uid rid))
        (\<lambda>rr. appendEvent E uid nid sid turn (Request_upsert rr)) ?d = (Inr n, t)"
      using rest True by (simp add: thenS_def bindS_assoc bindS_run [of "modS _"] modS_run)
    moreover have "preserves (store_ok (dbnow E))
        (bindS (thenS (change E uid Rt_request rid Upsert (rv_revision rr + 1)) (getRequest E uid rid))
          (\<lambda>rr. appendEvent E uid nid sid turn (Request_upsert rr)))"
      unfolding getRequest_def by (intro logs_rules keeps_rules)
    ultimately show ?thesis by (blast dest: preservesD)
  next
    case False
    then have "appendEvent E uid nid sid turn (Request_upsert rr) d = (Inr n, t)" using rest by simp
    then show ?thesis using ok by (rule preservesD [OF logs_appendEvent])
  qed
qed

lemma logs_announce [logs_rules]: "preserves (store_ok (dbnow E)) (announce_state E uid nid sid old queue b)"
  unfolding announce_state_def by (intro logs_rules keeps_rules)

lemma logs_cancel_pending [logs_rules]: "preserves (store_ok (dbnow E)) (cancel_pending E uid nid sid turn seq)"
  unfolding cancel_pending_def by (intro logs_rules keeps_rules)

lemma logs_sessionUpdate [logs_rules]: "preserves (store_ok (dbnow E)) (sessionUpdate E uid nid sid b)"
  unfolding sessionUpdate_def getSession_def continue_turn_def next_turn_state_def
  by (intro logs_rules keeps_rules logs_mod) (simp_all add: events_inv_upd)

end
