(* ===== verification/Peers.thy ===== *)
theory Peers
  imports Sessions
begin

text \<open>
  The state of the server besides the database: the connected peers of \<open>realtime.go\<close> with their
  bounded write queues. \<open>s.mu\<close> makes every handler a step on this state; a node's peer is found in
  \<open>nodes\<close> under the node's identifier, as every handler checks before it runs.
\<close>

record outbound =
  out_frame :: frame
  out_size :: nat

record peer =
  pr_user :: string
  pr_node :: string
  pr_token :: string
  pr_epoch :: int
  pr_expires :: int
  pr_last_seen :: int
  pr_queue :: "outbound list"
  pr_bytes :: nat
  pr_closed :: bool
  pr_revision :: int
  pr_watching :: bool
  pr_watched :: "(string \<times> int) list"
  pr_inventory :: string
  pr_projects :: "node_project list"
  pr_agents :: "node_agent list"
  pr_complete :: bool
  pr_ready :: bool
  pr_needs_sync :: "string list"

record rate_entry =
  rt_count :: int
  rt_until :: int

text \<open>
  \<open>nodes\<close> is a map from identifiers; \<open>clients\<close> is a set of pointers, here numbered connections (the
  numbers start afresh for each connection and stand for the pointers).
\<close>

record gw =
  g_db :: db
  g_nodes :: "(string \<times> peer) list"
  g_clients :: "(nat \<times> peer) list"
  g_rates :: "(string \<times> rate_entry) list"
  g_draining :: bool

type_synonym 'a gwact = "(gw, err, 'a) act"

definition dbS :: "'a dbact \<Rightarrow> 'a gwact" where
  "dbS m = zoomS g_db g_db_update m"

definition stop :: "peer \<Rightarrow> peer" where
  "stop p = p\<lparr>pr_closed := True\<rparr>"

text \<open>
  \<open>enqueue\<close>: a frame that does not fit the schema, the frame limit, the byte budget or the channel
  closes the connection instead of being queued.
\<close>

definition enqueue :: "env \<Rightarrow> frame \<Rightarrow> peer \<Rightarrow> bool \<times> peer" where
  "enqueue E f p =
     (let n = frame_size E f in
      if \<not> valid_frame E f then (False, stop p)
      else if pr_closed p \<or> n > 262144 \<or> pr_bytes p + n > cf_queue_bytes (cfg E) then (False, stop p)
      else if length (pr_queue p) < cf_queue_frames (cfg E)
      then (True, p\<lparr>pr_queue := pr_queue p @ [\<lparr>out_frame = f, out_size = n\<rparr>], pr_bytes := pr_bytes p + n\<rparr>)
      else (False, stop p))"

definition online :: "env \<Rightarrow> gw \<Rightarrow> string \<Rightarrow> bool" where
  "online E g nid =
     (case map_of (g_nodes g) nid of
        None \<Rightarrow> False
      | Some p \<Rightarrow> \<not> pr_closed p \<and> pr_ready p \<and> now E - pr_last_seen p < cf_offline_after (cfg E))"

section \<open>Steps on a node's peer\<close>

text \<open>Assignment through a pointer that a map holds.\<close>

definition upd_key :: "'k \<Rightarrow> ('v \<Rightarrow> 'v) \<Rightarrow> ('k \<times> 'v) list \<Rightarrow> ('k \<times> 'v) list" where
  "upd_key k f xs = map (\<lambda>(j, v). (j, if j = k then f v else v)) xs"

lemma map_of_upd_key [simp]:
  "map_of (upd_key k f xs) j = (if j = k then map_option f (map_of xs j) else map_of xs j)"
  by (induction xs) (auto simp: upd_key_def)

lemma upd_key_simps [simp]:
  "upd_key k f [] = []"
  "upd_key k f ((j, v) # xs) = (j, if j = k then f v else v) # upd_key k f xs"
  by (simp_all add: upd_key_def)

lemma keys_upd_key [simp]: "map fst (upd_key k f xs) = map fst xs"
  by (auto simp: upd_key_def comp_def)

lemma length_upd_key [simp]: "length (upd_key k f xs) = length xs"
  by (simp add: upd_key_def)

definition nodeS :: "string \<Rightarrow> peer gwact" where
  "nodeS nid = (\<lambda>g. case map_of (g_nodes g) nid of None \<Rightarrow> (Inl NoRows, g) | Some p \<Rightarrow> (Inr p, g))"

definition set_node :: "string \<Rightarrow> (peer \<Rightarrow> peer) \<Rightarrow> unit gwact" where
  "set_node nid f = modS (\<lambda>g. g\<lparr>g_nodes := upd_key nid f (g_nodes g)\<rparr>)"

definition enqueue_node :: "env \<Rightarrow> string \<Rightarrow> frame \<Rightarrow> bool gwact" where
  "enqueue_node E nid f =
     bindS (nodeS nid) (\<lambda>p.
     thenS (set_node nid (\<lambda>_. snd (enqueue E f p))) (returnS (fst (enqueue E f p))))"

text \<open>\<open>p.enqueue(..)\<close> as a statement: the caller does not look at the result.\<close>

definition send_node :: "env \<Rightarrow> string \<Rightarrow> frame \<Rightarrow> unit gwact" where
  "send_node E nid f = bindS (enqueue_node E nid f) (\<lambda>_. returnS ())"

section \<open>Queues stay within their bounds\<close>

text \<open>
  The byte counter is the sum of the queued frames, and neither it nor the number of frames
  exceeds the configured bounds.
\<close>

definition queue_ok :: "env \<Rightarrow> peer \<Rightarrow> bool" where
  "queue_ok E p \<longleftrightarrow>
     pr_bytes p = sum_list (map out_size (pr_queue p)) \<and>
     pr_bytes p \<le> cf_queue_bytes (cfg E) \<and> length (pr_queue p) \<le> cf_queue_frames (cfg E) \<and>
     (\<forall>x\<in>set (pr_queue p). valid_frame E (out_frame x) \<and> out_size x \<le> 262144)"

lemma enqueue_ok: "queue_ok E p \<Longrightarrow> queue_ok E (snd (enqueue E f p))"
  by (auto simp: enqueue_def queue_ok_def stop_def Let_def)

lemma enqueue_True:
  "fst (enqueue E f p) \<longleftrightarrow>
     valid_frame E f \<and> \<not> pr_closed p \<and> frame_size E f \<le> 262144 \<and>
     pr_bytes p + frame_size E f \<le> cf_queue_bytes (cfg E) \<and>
     length (pr_queue p) < cf_queue_frames (cfg E)"
  by (auto simp: enqueue_def Let_def)

lemma enqueue_False: "\<not> fst (enqueue E f p) \<Longrightarrow> snd (enqueue E f p) = stop p"
  by (auto simp: enqueue_def Let_def split: if_splits)

section \<open>Rules for steps\<close>

lemma dbS_run [run_simps]: "dbS m g = (fst (m (g_db g)), g\<lparr>g_db := snd (m (g_db g))\<rparr>)"
  by (simp add: dbS_def zoomS_run)

lemma dbS_iff [run_iff]: "dbS m g = (r, h) \<longleftrightarrow> (\<exists>t. m (g_db g) = (r, t) \<and> h = g\<lparr>g_db := t\<rparr>)"
  by (cases "m (g_db g)") (auto simp: dbS_run)

lemma nodeS_iff [run_iff]: "nodeS nid g = (Inr p, h) \<longleftrightarrow> map_of (g_nodes g) nid = Some p \<and> h = g"
  by (auto simp: nodeS_def split: option.splits)

lemma set_node_iff [run_iff]:
  "set_node nid f g = (r, h) \<longleftrightarrow>
     r = Inr () \<and> h = g\<lparr>g_nodes := upd_key nid f (g_nodes g)\<rparr>"
  by (simp add: set_node_def run_iff)

lemma nodeS_run [run_simps]:
  "nodeS nid g = (case map_of (g_nodes g) nid of None \<Rightarrow> (Inl NoRows, g) | Some p \<Rightarrow> (Inr p, g))"
  by (simp add: nodeS_def)

lemma set_node_run [run_simps]:
  "set_node nid f g = (Inr (), g\<lparr>g_nodes := upd_key nid f (g_nodes g)\<rparr>)"
  by (simp add: set_node_def run_simps)

text \<open>A handler of the server keeps the logs of its database.\<close>

abbreviation gstore_ok :: "int \<Rightarrow> gw \<Rightarrow> bool" where
  "gstore_ok T g \<equiv> store_ok T (g_db g)"

lemma glogs_db [logs_rules]: "keeps (store_ok T) m \<Longrightarrow> keeps (gstore_ok T) (dbS m)"
  by (simp add: keeps_def dbS_run)

lemma glogs_node [logs_rules]: "keeps (gstore_ok T) (nodeS nid)"
  by (simp add: keeps_def nodeS_def split: option.split)

lemma glogs_set_node [logs_rules]: "keeps (gstore_ok T) (set_node nid f)"
  by (simp add: keeps_def set_node_run)

lemma glogs_enqueue_node [logs_rules]: "keeps (gstore_ok T) (enqueue_node E nid f)"
  unfolding enqueue_node_def by (intro logs_rules keeps_rules)

lemma glogs_send_node [logs_rules]: "keeps (gstore_ok T) (send_node E nid f)"
  unfolding send_node_def by (intro logs_rules keeps_rules)

end
