(* ===== verification/Sources.thy ===== *)
theory Sources
  imports Peers
begin

text \<open>
  The reports of a node in \<open>internal/gateway/node.go\<close>: its inventory of projects and agents, its
  readiness, and the sources (events, session snapshots, requests and their withdrawal) that are
  numbered by the node and taken over exactly once, through a ledger of receipts.
\<close>

section \<open>Readiness\<close>

definition touch_node :: "env \<Rightarrow> string \<Rightarrow> string \<Rightarrow> unit dbact" where
  "touch_node E uid nid =
     transaction uid
       (bindS (oneS (\<lambda>d. find (\<lambda>n. nd_id n = nid) (t_nodes d))) (\<lambda>n.
        thenS (modS (\<lambda>d. d\<lparr>t_nodes := upd_rows (\<lambda>n. nd_id n = nid)
                (\<lambda>n. n\<lparr>nd_revision := nd_revision n + 1, nd_last_seen := Some (now E)\<rparr>) (t_nodes d)\<rparr>))
        (change E uid Rt_node nid Upsert (nd_revision n + 1))))"

definition nodeReady :: "env \<Rightarrow> string \<Rightarrow> unit gwact" where
  "nodeReady E nid =
     bindS (nodeS nid) (\<lambda>p.
     let ready = (pr_complete p \<and> pr_needs_sync p = []) in
     if pr_ready p = ready then returnS ()
     else thenS (set_node nid (\<lambda>p. p\<lparr>pr_ready := ready\<rparr>)) (dbS (touch_node E (pr_user p) nid)))"

section \<open>Inventory\<close>

definition upsert_project :: "string \<Rightarrow> node_project \<Rightarrow> int dbact" where
  "upsert_project nid item =
     bindS (getS (\<lambda>d. find (\<lambda>p. np_id (pj_body p) = np_id item) (t_projects d))) (\<lambda>row.
     case row of
       Some p \<Rightarrow>
         thenS (guardS (pj_node p = nid) notFound)
         (thenS (modS (\<lambda>d. d\<lparr>t_projects := upd_rows (\<lambda>p. np_id (pj_body p) = np_id item)
                    (\<lambda>p. p\<lparr>pj_body := item, pj_revision := pj_revision p + 1\<rparr>) (t_projects d)\<rparr>))
         (returnS (pj_revision p + 1)))
     | None \<Rightarrow>
         thenS (modS (\<lambda>d. d\<lparr>t_projects := t_projects d @
                  [\<lparr>pj_node = nid, pj_body = item, pj_revision = 1\<rparr>]\<rparr>))
         (returnS 1))"

text \<open>An agent's capability revision may not go back, nor stay with other capabilities.\<close>

definition upsert_agent :: "string \<Rightarrow> node_agent \<Rightarrow> int dbact" where
  "upsert_agent nid item =
     bindS (getS (\<lambda>d. find (\<lambda>a. ag_id (ar_body a) = ag_id item) (t_agents d))) (\<lambda>row.
     case row of
       Some a \<Rightarrow>
         thenS (guardS (ar_node a = nid) notFound)
         (thenS (guardS (\<not> (ag_caprev item < ag_caprev (ar_body a)
                    \<or> ag_caprev item = ag_caprev (ar_body a) \<and> ag_caps item \<noteq> ag_caps (ar_body a)))
                  (apierr 409 CAPABILITY_CHANGED))
         (thenS (modS (\<lambda>d. d\<lparr>t_agents := upd_rows (\<lambda>a. ag_id (ar_body a) = ag_id item)
                    (\<lambda>a. a\<lparr>ar_body := item, ar_revision := ar_revision a + 1\<rparr>) (t_agents d)\<rparr>))
         (returnS (ar_revision a + 1))))
     | None \<Rightarrow>
         thenS (modS (\<lambda>d. d\<lparr>t_agents := t_agents d @
                  [\<lparr>ar_node = nid, ar_body = item, ar_revision = 1\<rparr>]\<rparr>))
         (returnS 1))"

text \<open>The loop over one group: identifiers are unique, each item is stored and announced.\<close>

definition import_group ::
  "env \<Rightarrow> string \<Rightarrow> resource_type \<Rightarrow> ('i \<Rightarrow> string) \<Rightarrow> ('i \<Rightarrow> int dbact) \<Rightarrow> 'i list \<Rightarrow> string list dbact" where
  "import_group E uid kind ident store items =
     foldS (\<lambda>item ids.
        thenS (guardS (ident item \<notin> set ids) invalid)
        (bindS (store item) (\<lambda>v.
        thenS (change E uid kind (ident item) Upsert v) (returnS (ids @ [ident item])))))
       items []"

definition retire_projects :: "env \<Rightarrow> string \<Rightarrow> string \<Rightarrow> string list \<Rightarrow> unit dbact" where
  "retire_projects E uid nid ids =
     bindS (getS (\<lambda>d. filter (\<lambda>p. pj_node p = nid \<and> np_id (pj_body p) \<notin> set ids) (t_projects d))) (\<lambda>gone.
     thenS (modS (\<lambda>d. d\<lparr>t_projects := upd_rows (\<lambda>p. pj_node p = nid \<and> np_id (pj_body p) \<notin> set ids)
              (\<lambda>p. p\<lparr>pj_body := (pj_body p)\<lparr>np_valid := False\<rparr>, pj_revision := pj_revision p + 1\<rparr>)
              (t_projects d)\<rparr>))
     (forS gone (\<lambda>p. change E uid Rt_project (np_id (pj_body p)) Upsert (pj_revision p + 1))))"

definition retire_agents :: "env \<Rightarrow> string \<Rightarrow> string \<Rightarrow> string list \<Rightarrow> unit dbact" where
  "retire_agents E uid nid ids =
     bindS (getS (\<lambda>d. filter (\<lambda>a. ar_node a = nid \<and> ag_id (ar_body a) \<notin> set ids) (t_agents d))) (\<lambda>gone.
     thenS (modS (\<lambda>d. d\<lparr>t_agents := upd_rows (\<lambda>a. ar_node a = nid \<and> ag_id (ar_body a) \<notin> set ids)
              (\<lambda>a. a\<lparr>ar_body := (ar_body a)\<lparr>ag_state := Unavailable\<rparr>, ar_revision := ar_revision a + 1\<rparr>)
              (t_agents d)\<rparr>))
     (forS gone (\<lambda>a. change E uid Rt_agent (ag_id (ar_body a)) Upsert (ar_revision a + 1))))"

definition import_inventory ::
  "env \<Rightarrow> string \<Rightarrow> string \<Rightarrow> node_project list \<Rightarrow> node_agent list \<Rightarrow> unit dbact" where
  "import_inventory E uid nid projects agents =
     transaction uid
       (bindS (import_group E uid Rt_project np_id (upsert_project nid) projects) (\<lambda>ids.
        thenS (retire_projects E uid nid ids)
        (bindS (import_group E uid Rt_agent ag_id (upsert_agent nid) agents) (\<lambda>ids.
         retire_agents E uid nid ids))))"

record inventory_frame =
  if_inventory :: string
  if_projects :: "node_project list"
  if_agents :: "node_agent list"
  if_complete :: bool

text \<open>The parts of an inventory are collected on the peer; a part of another one starts afresh.\<close>

definition collect_inventory :: "inventory_frame \<Rightarrow> peer \<Rightarrow> peer" where
  "collect_inventory b p =
     (let q = (if pr_inventory p \<noteq> if_inventory b
               then p\<lparr>pr_inventory := if_inventory b, pr_projects := [], pr_agents := []\<rparr> else p)
      in q\<lparr>pr_projects := pr_projects q @ if_projects b, pr_agents := pr_agents q @ if_agents b\<rparr>)"

definition inventory :: "env \<Rightarrow> string \<Rightarrow> inventory_frame \<Rightarrow> unit gwact" where
  "inventory E nid b =
     thenS (set_node nid (collect_inventory b))
     (bindS (nodeS nid) (\<lambda>p.
      if length (pr_projects p) > 1000 \<or> length (pr_agents p) > 1000 then
        thenS (set_node nid (\<lambda>p. p\<lparr>pr_projects := [], pr_agents := []\<rparr>))
          (failS (apierr 413 PAYLOAD_TOO_LARGE))
      else if \<not> if_complete b then returnS ()
      else thenS (set_node nid (\<lambda>p. p\<lparr>pr_projects := [], pr_agents := [], pr_inventory := []\<rparr>))
          (thenS (dbS (import_inventory E (pr_user p) nid (pr_projects p) (pr_agents p)))
          (thenS (set_node nid (\<lambda>p. p\<lparr>pr_complete := True\<rparr>))
          (nodeReady E nid)))))"

section \<open>Sources\<close>

fun source_session :: "source_body \<Rightarrow> string" where
  "source_session (Src_event sid turn data) = sid"
| "source_session (Src_session b) = ns_session b"
| "source_session (Src_request b) = nr_session b"
| "source_session (Src_request_cancel sid turn rid) = sid"

fun source_turn :: "source_body \<Rightarrow> string" where
  "source_turn (Src_event sid turn data) = turn"
| "source_turn (Src_session b) = ns_turn b"
| "source_turn (Src_request b) = nr_turn b"
| "source_turn (Src_request_cancel sid turn rid) = turn"

fun is_snapshot :: "source_body \<Rightarrow> bool" where
  "is_snapshot (Src_session b) = True"
| "is_snapshot m = False"

fun closing_snapshot :: "source_body \<Rightarrow> bool" where
  "closing_snapshot (Src_session b) = (ns_state b = S_closed)"
| "closing_snapshot m = False"

fun apply_source :: "env \<Rightarrow> string \<Rightarrow> string \<Rightarrow> source_body \<Rightarrow> int dbact" where
  "apply_source E uid nid (Src_event sid turn data) = appendEvent E uid nid sid turn data"
| "apply_source E uid nid (Src_session b) = sessionUpdate E uid nid (ns_session b) b"
| "apply_source E uid nid (Src_request b) = requestCreate E uid nid b"
| "apply_source E uid nid (Src_request_cancel sid turn rid) = requestCancel E uid nid sid turn rid"

definition find_receipt :: "db \<Rightarrow> string \<Rightarrow> string \<Rightarrow> receipt_row option" where
  "find_receipt d nid srcId = find (\<lambda>r. rc_node r = nid \<and> rc_event r = srcId) (t_receipts d)"

definition mark_source :: "string \<Rightarrow> string \<Rightarrow> int \<Rightarrow> string \<Rightarrow> int \<Rightarrow> string \<Rightarrow> unit dbact" where
  "mark_source nid sid gatewaySeq srcId srcSeq digest =
     bindS (getS (\<lambda>d. has_row (\<lambda>e. \<not> (ev_session e = sid \<and> ev_seq e = gatewaySeq) \<and>
         (case ev_source e of
            None \<Rightarrow> False
          | Some (i, n, h) \<Rightarrow> ev_node e = nid \<and> i = srcId \<or> ev_session e = sid \<and> n = srcSeq)) (t_events d))) (\<lambda>taken.
     thenS (guardS (\<not> taken) DBError)
     (modS (\<lambda>d. d\<lparr>t_events := upd_rows (\<lambda>e. ev_session e = sid \<and> ev_seq e = gatewaySeq)
        (\<lambda>e. e\<lparr>ev_source := Some (srcId, srcSeq, digest)\<rparr>) (t_events d)\<rparr>)))"

definition record_receipt :: "env \<Rightarrow> string \<Rightarrow> string \<Rightarrow> string \<Rightarrow> int \<Rightarrow> string \<Rightarrow> int \<Rightarrow> unit dbact" where
  "record_receipt E nid sid srcId srcSeq digest gatewaySeq =
     bindS (getS (\<lambda>d. has_row (\<lambda>r. rc_node r = nid \<and> rc_event r = srcId
                 \<or> rc_session r = sid \<and> rc_source_seq r = srcSeq) (t_receipts d))) (\<lambda>taken.
     thenS (guardS (\<not> taken \<and> srcSeq \<le> max_safe) DBError)
     (modS (\<lambda>d. d\<lparr>
        t_receipts := t_receipts d @ [\<lparr>rc_node = nid, rc_event = srcId, rc_session = sid,
          rc_source_seq = srcSeq, rc_hash = digest, rc_gateway_seq = gatewaySeq, rc_created = dbnow E\<rparr>],
        t_sessions := upd_rows (\<lambda>r. se_id r = sid) (\<lambda>r. r\<lparr>se_last_source := srcSeq\<rparr>) (t_sessions d)\<rparr>)))"

text \<open>The first sight of a source: in order, about a known turn, applied, then entered in the ledger.\<close>

definition new_source :: "env \<Rightarrow> string \<Rightarrow> string \<Rightarrow> source_message \<Rightarrow> int dbact" where
  "new_source E uid nid m =
     (let sid = source_session (src_body m); turn = source_turn (src_body m);
          digest = source_hash E m in
      bindS (oneS (\<lambda>d. find_session d sid)) (\<lambda>s.
      let purgedSnapshot = (se_history s = Purged \<and> closing_snapshot (src_body m)) in
      thenS (guardS (\<not> (se_history s = Purged \<and> \<not> purgedSnapshot)) (apierr 410 HISTORY_PURGED))
      (thenS (guardS (src_seq m = se_last_source s + 1) (apierr 409 SOURCE_CONFLICT))
      (bindS (getS (\<lambda>d. turn = [] \<or> is_snapshot (src_body m)
                 \<or> has_row (\<lambda>t. tn_id t = turn \<and> tn_session t = sid) (t_turns d))) (\<lambda>known.
       thenS (guardS known invalid)
       (bindS (if purgedSnapshot
               then oneS (\<lambda>d. map_option se_last_seq
                      (find (\<lambda>r. se_id r = sid \<and> se_state r = S_closed) (t_sessions d)))
               else apply_source E uid nid (src_body m)) (\<lambda>gatewaySeq.
        thenS (if purgedSnapshot then returnS ()
               else mark_source nid sid gatewaySeq (src_event m) (src_seq m) digest)
        (thenS (record_receipt E nid sid (src_event m) (src_seq m) digest gatewaySeq)
        (returnS gatewaySeq)))))))))"

definition source_tx :: "env \<Rightarrow> string \<Rightarrow> string \<Rightarrow> source_message \<Rightarrow> int dbact" where
  "source_tx E uid nid m =
     transaction uid
       (bindS (getS (\<lambda>d. find_receipt d nid (src_event m))) (\<lambda>r.
        case r of
          Some r \<Rightarrow>
            thenS (guardS (rc_hash r = source_hash E m \<and> rc_session r = source_session (src_body m)
                           \<and> rc_source_seq r = src_seq m) (apierr 409 SOURCE_CONFLICT))
            (returnS (rc_gateway_seq r))
        | None \<Rightarrow> new_source E uid nid m))"

definition source :: "env \<Rightarrow> string \<Rightarrow> source_message \<Rightarrow> unit gwact" where
  "source E nid m =
     bindS (nodeS nid) (\<lambda>p.
     let sid = source_session (src_body m) in
     bindS (dbS (ownSession (pr_user p) sid)) (\<lambda>owner.
     thenS (guardS (owner = nid) notFound)
     (bindS (dbS (source_tx E (pr_user p) nid m)) (\<lambda>gatewaySeq.
      thenS (send_node E nid (F_events_ack (pr_epoch p) sid (src_seq m) gatewaySeq))
      (if is_snapshot (src_body m)
       then thenS (set_node nid (\<lambda>p. p\<lparr>pr_needs_sync := filter (\<lambda>s. s \<noteq> sid) (pr_needs_sync p)\<rparr>))
              (nodeReady E nid)
       else returnS ())))))"

section \<open>The logs are kept\<close>

lemma logs_touch_node [logs_rules]: "keeps (store_ok (dbnow E)) (touch_node E uid nid)"
  unfolding touch_node_def by (intro logs_rules keeps_rules logs_mod) simp_all

lemma logs_nodeReady [logs_rules]: "keeps (gstore_ok (dbnow E)) (nodeReady E nid)"
  unfolding nodeReady_def by (intro logs_rules keeps_rules)

lemma logs_upsert_project [logs_rules]: "preserves (store_ok T) (upsert_project nid item)"
  unfolding upsert_project_def by (intro logs_rules keeps_rules logs_mod) simp_all

lemma logs_upsert_agent [logs_rules]: "preserves (store_ok T) (upsert_agent nid item)"
  unfolding upsert_agent_def by (intro logs_rules keeps_rules logs_mod) simp_all

lemma logs_import_group [logs_rules]:
  "(\<And>i. preserves (store_ok (dbnow E)) (store i)) \<Longrightarrow> preserves (store_ok (dbnow E)) (import_group E uid kind ident store items)"
  unfolding import_group_def by (intro logs_rules keeps_rules)

lemma logs_retire_projects [logs_rules]: "preserves (store_ok (dbnow E)) (retire_projects E uid nid ids)"
  unfolding retire_projects_def by (intro logs_rules keeps_rules logs_mod) simp_all

lemma logs_retire_agents [logs_rules]: "preserves (store_ok (dbnow E)) (retire_agents E uid nid ids)"
  unfolding retire_agents_def by (intro logs_rules keeps_rules logs_mod) simp_all

lemma logs_import_inventory [logs_rules]: "keeps (store_ok (dbnow E)) (import_inventory E uid nid projects agents)"
  unfolding import_inventory_def by (intro logs_rules keeps_rules)

lemma logs_inventory [logs_rules]: "keeps (gstore_ok (dbnow E)) (inventory E nid b)"
  unfolding inventory_def by (intro logs_rules keeps_rules)

lemma logs_apply_source [logs_rules]: "preserves (store_ok (dbnow E)) (apply_source E uid nid m)"
  by (cases m) (auto intro: logs_rules)

lemma logs_mark_source [logs_rules]: "preserves (store_ok T) (mark_source nid sid g i n h)"
  unfolding mark_source_def by (intro logs_rules keeps_rules logs_mod) (simp_all add: events_inv_ev)

lemma logs_record_receipt [logs_rules]: "preserves (store_ok (dbnow E)) (record_receipt E nid sid i n h g)"
  unfolding record_receipt_def by (intro logs_rules keeps_rules logs_mod) (simp_all add: events_inv_upd)

lemma logs_new_source [logs_rules]: "preserves (store_ok (dbnow E)) (new_source E uid nid m)"
  unfolding new_source_def by (intro logs_rules keeps_rules)

lemma logs_source_tx [logs_rules]: "keeps (store_ok (dbnow E)) (source_tx E uid nid m)"
  unfolding source_tx_def by (intro logs_rules keeps_rules)

lemma logs_ownSession [logs_rules]: "keeps (store_ok T) (ownSession uid sid)"
  unfolding ownSession_def by (rule keeps_rules)

lemma logs_source [logs_rules]: "keeps (gstore_ok (dbnow E)) (source E nid m)"
  unfolding source_def by (intro logs_rules keeps_rules)

end
