(* ===== verification/Workspace.thy ===== *)
theory Workspace
  imports Sessions
begin

text \<open>
  \<open>internal/gateway/workspace.go\<close>: the registry of workspace operations (embedded from
  \<open>contracts/workspace-operations.json\<close>) and the gate every workspace control passes; and the
  capability check of \<open>commands.go\<close>.
\<close>

section \<open>The registry\<close>

record workspace_operation =
  wo_kind :: string
  wo_idle :: bool
  wo_write :: bool
  wo_new_turn :: bool
  wo_closed :: bool

definition workspace_op :: "string \<Rightarrow> bool \<Rightarrow> bool \<Rightarrow> bool \<Rightarrow> bool \<Rightarrow> workspace_operation" where
  "workspace_op k i w n c =
     \<lparr>wo_kind = k, wo_idle = i, wo_write = w, wo_new_turn = n, wo_closed = c\<rparr>"

definition workspace_entries :: "workspace_operation list" where
  "workspace_entries =
    [workspace_op ''overview'' False False False False,
     workspace_op ''project'' False False False True,
     workspace_op ''files'' False False False True,
     workspace_op ''artifacts'' False False False False,
     workspace_op ''attachments'' False False False False,
     workspace_op ''account'' False False False False,
     workspace_op ''config'' False False False False,
     workspace_op ''thinking'' False False False False,
     workspace_op ''permissions'' False False False False,
     workspace_op ''sources'' False False False False,
     workspace_op ''output_styles'' False False False False,
     workspace_op ''agents'' False False False False,
     workspace_op ''skills'' False False False False,
     workspace_op ''commands'' False False False False,
     workspace_op ''extensions'' False False False False,
     workspace_op ''mcp'' False False False False,
     workspace_op ''tasks'' False False False False,
     workspace_op ''checkpoints'' False False False False,
     workspace_op ''retry'' False False False False,
     workspace_op ''queue'' False False False False,
     workspace_op ''history'' False False False True,
     workspace_op ''diagnostics'' False False False True,
     workspace_op ''goal'' False False False False,
     workspace_op ''widgets'' False False False False,
     workspace_op ''list_files'' False False False True,
     workspace_op ''read_file'' False False False True,
     workspace_op ''file_status'' False False False True,
     workspace_op ''mcp_tools'' False False False False,
     workspace_op ''task'' False False False False,
     workspace_op ''history_messages'' False False False True,
     workspace_op ''external'' False False False False,
     workspace_op ''begin_upload'' False True False False,
     workspace_op ''upload_chunk'' False True False False,
     workspace_op ''commit_upload'' False True False False,
     workspace_op ''discard_upload'' False True False False,
     workspace_op ''set_thinking'' True True False False,
     workspace_op ''set_mode'' True True False False,
     workspace_op ''set_permission'' True True False False,
     workspace_op ''set_output_style'' True True False False,
     workspace_op ''set_queue_policy'' True True False False,
     workspace_op ''set_config'' True True False False,
     workspace_op ''reset_config'' True True False False,
     workspace_op ''set_skill'' True True False False,
     workspace_op ''set_mcp'' True True False False,
     workspace_op ''reload_extensions'' True True False False,
     workspace_op ''reload_skills'' True True False False,
     workspace_op ''authorize_mcp'' True True False False,
     workspace_op ''reconnect_mcp'' True True False False,
     workspace_op ''add_mcp'' True True False False,
     workspace_op ''remove_mcp'' True True False False,
     workspace_op ''install_plugin'' True True False False,
     workspace_op ''uninstall_plugin'' True True False False,
     workspace_op ''steer'' False True False False,
     workspace_op ''set_auto_compaction'' True True False False,
     workspace_op ''set_auto_retry'' True True False False,
     workspace_op ''abort_retry'' False True False False,
     workspace_op ''stop_task'' False True False False,
     workspace_op ''close'' False True False False,
     workspace_op ''restore_preview'' True False False False,
     workspace_op ''restore_apply'' True True False False,
     workspace_op ''native_rename'' True True False False,
     workspace_op ''native_archive'' True True False False,
     workspace_op ''native_delete'' True True False False,
     workspace_op ''start_auth'' True True False False,
     workspace_op ''cancel_auth'' False True False False,
     workspace_op ''set_goal'' True True False False,
     workspace_op ''clear_goal'' True True False False,
     workspace_op ''review'' True True True False,
     workspace_op ''review_targets'' False False False False,
     workspace_op ''native_queue_policy'' True True False False,
     workspace_op ''resume'' True True False True]"

text \<open>The map built from the entries; a duplicate would panic at start-up.\<close>

definition workspaceRegistry :: "string \<Rightarrow> workspace_operation option" where
  "workspaceRegistry k = find (\<lambda>w. wo_kind w = k) workspace_entries"

lemma workspace_entries_distinct: "distinct (map wo_kind workspace_entries)"
  by (simp add: workspace_entries_def workspace_op_def)

section \<open>Gates\<close>

definition workspaceTurn :: "native_action \<Rightarrow> bool" where
  "workspaceTurn a =
     (case a of
        Act_workspace r \<Rightarrow> (case workspaceRegistry (wr_kind r) of None \<Rightarrow> False | Some w \<Rightarrow> wo_new_turn w)
      | _ \<Rightarrow> False)"

text \<open>The checks return the error of the first one that fails.\<close>

fun first_error :: "(bool \<times> err) list \<Rightarrow> err option" where
  "first_error [] = None"
| "first_error ((b, e) # cs) = (if b then Some e else first_error cs)"

definition workspaceGate :: "session_row \<Rightarrow> native_control \<Rightarrow> workspace_request \<Rightarrow> err option" where
  "workspaceGate s b r =
     (case workspaceRegistry (wr_kind r) of
        None \<Rightarrow> Some invalid
      | Some w \<Rightarrow> first_error
         [(se_history s = Purged, apierr 410 HISTORY_PURGED),
          (wo_kind w = ''resume'' \<and> se_state s \<noteq> S_closed, apierr 409 CAPABILITY_UNSUPPORTED),
          (se_mode s = Readonly \<or> se_state s = S_closed \<and> \<not> wo_closed w, apierr 409 READ_ONLY),
          (se_caprev s \<noteq> nc_caprev b, apierr 409 CAPABILITY_CHANGED),
          (\<not> truth_cap (se_caps s) Cap_workspace, apierr 409 CAPABILITY_UNSUPPORTED),
          (wo_idle w \<and> isActive (se_state s), apierr 409 STALE_TURN)])"

definition capability :: "session_row \<Rightarrow> cap_key \<Rightarrow> int \<Rightarrow> err option" where
  "capability s key version = first_error
     [(se_history s = Purged, apierr 410 HISTORY_PURGED),
      (se_mode s = Readonly, apierr 409 READ_ONLY),
      (se_state s = S_closed, apierr 409 STALE_TURN),
      (se_caprev s \<noteq> version, apierr 409 CAPABILITY_CHANGED),
      (\<not> truth_cap (se_caps s) key, apierr 409 CAPABILITY_UNSUPPORTED)]"

definition checkS :: "err option \<Rightarrow> ('s, err, unit) act" where
  "checkS e = (case e of None \<Rightarrow> returnS () | Some x \<Rightarrow> failS x)"

lemma checkS_Inr [run_iff]: "checkS e s = (Inr x, t) \<longleftrightarrow> e = None \<and> t = s"
  by (auto simp: checkS_def run_iff split: option.splits)

lemma checkS_run [run_simps]: "checkS e s = (case e of None \<Rightarrow> (Inr (), s) | Some x \<Rightarrow> (Inl x, s))"
  by (simp add: checkS_def run_simps split: option.split)

lemma keeps_check [keeps_rules]: "keeps I (checkS e)"
  by (simp add: keeps_def checkS_run split: option.split)

lemma first_error_None: "first_error cs = None \<longleftrightarrow> (\<forall>c\<in>set cs. \<not> fst c)"
  by (induction cs rule: first_error.induct) auto

lemma capability_None:
  "capability s key v = None \<longleftrightarrow>
     se_history s \<noteq> Purged \<and> se_mode s \<noteq> Readonly \<and> se_state s \<noteq> S_closed \<and>
     se_caprev s = v \<and> truth_cap (se_caps s) key"
  by (auto simp: capability_def first_error_None)

text \<open>Transfers have a rate budget of their own.\<close>

definition workspaceTransfer :: "payload \<Rightarrow> bool" where
  "workspaceTransfer b =
     (case b of
        P_native n \<Rightarrow> (case nc_action n of
            Act_workspace r \<Rightarrow> wr_kind r = ''read_file'' \<or> wr_kind r = ''upload_chunk''
          | _ \<Rightarrow> False)
      | _ \<Rightarrow> False)"

section \<open>The registry and the database agree on which operations open a turn\<close>

lemma new_turn_review: "list_all (\<lambda>w. wo_new_turn w = (wo_kind w = ''review'')) workspace_entries"
  by (simp add: workspace_entries_def workspace_op_def)

lemma review_registered: "\<exists>w. workspaceRegistry ''review'' = Some w \<and> wo_new_turn w"
  by (simp add: workspaceRegistry_def workspace_entries_def workspace_op_def)

lemma registry_new_turn:
  "(case workspaceRegistry k of None \<Rightarrow> False | Some w \<Rightarrow> wo_new_turn w) = (k = ''review'')"
proof (cases "workspaceRegistry k")
  case None
  then show ?thesis using review_registered by auto
next
  case (Some w)
  then have "w \<in> set workspace_entries" and "wo_kind w = k"
    using find_SomeD [of _ workspace_entries w] by (auto simp: workspaceRegistry_def)
  then show ?thesis using Some new_turn_review by (auto simp: list_all_iff)
qed

text \<open>
  C40: a native control reserves a turn when it is sent (\<open>workspaceTurn\<close>, from the registry) exactly
  when a node may later start that turn (the literals of the query in \<open>sessionUpdate\<close>): compaction
  and the review of the workspace, and nothing else.
\<close>

theorem reserving_controls_agree:
  "(nc_action b = Act_compact \<or> workspaceTurn (nc_action b)) = reserving_payload (P_native b)"
  by (cases "nc_action b") (simp_all add: workspaceTurn_def registry_new_turn)

end
