(* ===== verification/Decisions.thy ===== *)
theory Decisions
  imports Sessions
begin

text \<open>
  \<open>validateDecision\<close> of \<open>internal/gateway/commands.go\<close>: whether a user's decision answers the request.
  Every failure is the same error (\<open>invalid\<close>), so the model is a predicate.
\<close>

fun json_string :: "json \<Rightarrow> string option" where
  "json_string (JStr s) = Some s"
| "json_string j = None"

text \<open>The chosen options of a multiple choice: known ones, none twice.\<close>

fun choices_ok :: "string list \<Rightarrow> string list \<Rightarrow> json list \<Rightarrow> bool" where
  "choices_ok options seen [] = True"
| "choices_ok options seen (x # xs) =
     (case json_string x of
        None \<Rightarrow> False
      | Some v \<Rightarrow> v \<in> set options \<and> v \<notin> set seen \<and> choices_ok options (v # seen) xs)"

fun answer_ok :: "question_body \<Rightarrow> bool \<Rightarrow> json \<Rightarrow> bool" where
  "answer_ok (Free_text limit) required a =
     (case json_string a of
        None \<Rightarrow> False
      | Some s \<Rightarrow> int (rune_count s) \<le> limit \<and> \<not> (required \<and> trim_space s = []))"
| "answer_ok (Single options) required a =
     (case json_string a of
        None \<Rightarrow> False
      | Some v \<Rightarrow> v \<in> set (map ch_id options) \<or> \<not> required \<and> v = [])"
| "answer_ok (Multiple options limit) required a =
     (case a of
        JArr vs \<Rightarrow> int (length vs) \<le> limit \<and> \<not> (required \<and> vs = []) \<and> choices_ok (map ch_id options) [] vs
      | _ \<Rightarrow> False)"

definition question_ok :: "(string \<times> json) list \<Rightarrow> question \<Rightarrow> bool" where
  "question_ok answers q =
     (case map_of answers (qn_id q) of
        None \<Rightarrow> \<not> qn_required q
      | Some a \<Rightarrow> answer_ok (qn_body q) (qn_required q) a)"

fun validateDecision :: "request_body \<Rightarrow> decision \<Rightarrow> bool" where
  "validateDecision (Approval_body a s choices) (Choose c) = (c \<in> set (map ch_id choices))"
| "validateDecision (Question_body qs) (Answer answers) =
     (list_all (question_ok answers) qs \<and> set (map fst answers) \<subseteq> set (map qn_id qs))"
| "validateDecision body decision = False"

text \<open>\<open>equal\<close> on decisions: JSON objects are equal whatever the order of their properties.\<close>

fun same_decision :: "decision \<Rightarrow> decision \<Rightarrow> bool" where
  "same_decision (Choose c) (Choose e) = (c = e)"
| "same_decision (Answer a) (Answer b) = (set a = set b)"
| "same_decision d e = False"

section \<open>What an accepted decision is\<close>

lemma choices_ok_iff:
  "choices_ok options seen xs \<longleftrightarrow>
     (\<exists>vs. xs = map JStr vs \<and> set vs \<subseteq> set options \<and> distinct vs \<and> set vs \<inter> set seen = {})"
proof (induction xs arbitrary: seen)
  case Nil
  then show ?case by simp
next
  case (Cons x xs)
  show ?case
  proof (cases x)
    case (JStr v)
    show ?thesis
    proof
      assume "choices_ok options seen (x # xs)"
      then obtain vs where "v \<in> set options" "v \<notin> set seen" "xs = map JStr vs" "set vs \<subseteq> set options"
        "distinct vs" "set vs \<inter> set (v # seen) = {}"
        by (auto simp: JStr Cons)
      then show "\<exists>vs. x # xs = map JStr vs \<and> set vs \<subseteq> set options \<and> distinct vs
          \<and> set vs \<inter> set seen = {}"
        by (intro exI [of _ "v # vs"]) (auto simp: JStr)
    next
      assume "\<exists>vs. x # xs = map JStr vs \<and> set vs \<subseteq> set options \<and> distinct vs
          \<and> set vs \<inter> set seen = {}"
      then show "choices_ok options seen (x # xs)"
        by (auto simp: JStr Cons Cons_eq_map_conv)
    qed
  qed auto
qed

text \<open>The abstract reading of an answer: its kind, its range, and not left empty where required.\<close>

definition fits :: "question \<Rightarrow> json \<Rightarrow> bool" where
  "fits q a \<longleftrightarrow>
     (case qn_body q of
        Free_text n \<Rightarrow> (\<exists>s. a = JStr s \<and> int (rune_count s) \<le> n \<and> (qn_required q \<longrightarrow> trim_space s \<noteq> []))
      | Single os \<Rightarrow> (\<exists>v. a = JStr v \<and> (v \<in> ch_id ` set os \<or> v = [] \<and> \<not> qn_required q))
      | Multiple os n \<Rightarrow>
          (\<exists>vs. a = JArr (map JStr vs) \<and> int (length vs) \<le> n \<and> set vs \<subseteq> ch_id ` set os \<and> distinct vs
                \<and> (qn_required q \<longrightarrow> vs \<noteq> [])))"

lemma answer_ok_fits: "answer_ok (qn_body q) (qn_required q) a = fits q a"
proof (cases "qn_body q")
  case (Single os)
  then show ?thesis by (cases a) (auto simp: fits_def)
next
  case (Multiple os n)
  then show ?thesis by (cases a) (auto simp: fits_def choices_ok_iff)
next
  case (Free_text n)
  then show ?thesis by (cases a) (auto simp: fits_def)
qed

text \<open>
  C36: a decision is accepted exactly when it is of the request's kind and answers it: an approval
  picks one of the offered choices; answers leave out only optional questions, each fits its question
  (text within its length, one of the options, distinct options up to the maximum; never empty where
  required), and none is for a question that was not asked.
\<close>

theorem validate_decision_iff:
  "validateDecision body dec =
     (case (body, dec) of
        (Approval_body a s choices, Choose c) \<Rightarrow> (\<exists>ch\<in>set choices. ch_id ch = c)
      | (Question_body qs, Answer answers) \<Rightarrow>
          (\<forall>q\<in>set qs. (map_of answers (qn_id q) = None \<and> \<not> qn_required q)
             \<or> (\<exists>a. map_of answers (qn_id q) = Some a \<and> fits q a))
          \<and> fst ` set answers \<subseteq> qn_id ` set qs
      | _ \<Rightarrow> False)"
proof (cases body; cases dec)
  fix qs answers
  assume b: "body = Question_body qs" and d: "dec = Answer answers"
  have "question_ok answers q \<longleftrightarrow>
      (map_of answers (qn_id q) = None \<and> \<not> qn_required q)
        \<or> (\<exists>a. map_of answers (qn_id q) = Some a \<and> fits q a)" for q
    by (auto simp: question_ok_def answer_ok_fits split: option.split)
  then show ?thesis using b d by (simp add: list_all_iff)
qed auto

theorem validate_decision_iff_witness:
  "validateDecision
     (Question_body [\<lparr>qn_id = ''q'', qn_label = ''?'', qn_required = True,
        qn_body = Multiple [\<lparr>ch_id = ''a'', ch_label = []\<rparr>, \<lparr>ch_id = ''b'', ch_label = []\<rparr>] 2\<rparr>])
     (Answer [(''q'', JArr [JStr ''b''])])
   \<and> \<not> validateDecision
     (Question_body [\<lparr>qn_id = ''q'', qn_label = ''?'', qn_required = True,
        qn_body = Multiple [\<lparr>ch_id = ''a'', ch_label = []\<rparr>, \<lparr>ch_id = ''b'', ch_label = []\<rparr>] 2\<rparr>])
     (Answer [])"
  unfolding validate_decision_iff
  by (auto simp: fits_def intro!: exI [of _ "[''b'']"])

end
