(* ===== verification/Commands.thy ===== *)
theory Commands
  imports Sources Workspace Decisions
begin

text \<open>
  \<open>internal/gateway/commands.go\<close>: a user's command is admitted against the state of the session,
  accepted together with its operation and outbox rows in one transaction, and handed to the node's
  connection; a command that provably was not sent fails and its effects are taken back.
\<close>

section \<open>Taking back a command that was not sent\<close>

definition fail_created_session :: "env \<Rightarrow> string \<Rightarrow> string \<Rightarrow> unit dbact" where
  "fail_created_session E uid sid =
     bindS (getS (\<lambda>d. own_session_row d uid sid)) (\<lambda>s.
     case s of
       None \<Rightarrow> returnS ()
     | Some s \<Rightarrow>
         if se_state s \<noteq> S_idle then returnS ()
         else thenS (put_turns (upd_rows (\<lambda>t. tn_id t = str (se_turn s))
                     (\<lambda>t. t\<lparr>tn_state := T_failed, tn_ended := Some (now E)\<rparr>)))
           (thenS (modS (\<lambda>d. d\<lparr>t_sessions := upd_rows (\<lambda>r. se_id r = sid)
                     (\<lambda>r. r\<lparr>se_state := S_failed\<rparr>) (t_sessions d)\<rparr>))
           (bindS (appendEvent E uid (se_node s) sid (str (se_turn s))
                     (Session_state S_failed (str (se_turn s)) (se_revision s))) (\<lambda>_. returnS ()))))"

definition release_request :: "env \<Rightarrow> request_row \<Rightarrow> request_row" where
  "release_request E r = r\<lparr>rq_state := (if rq_expires r > dbnow E then R_pending else R_expired),
     rq_decision := None, rq_decision_op := None, rq_revision := rq_revision r + 1\<rparr>"

definition decided_by :: "string \<Rightarrow> string \<Rightarrow> request_row \<Rightarrow> bool" where
  "decided_by uid op r \<longleftrightarrow> rq_user r = uid \<and> rq_decision_op r = Some op \<and> rq_state r = R_deciding"

definition announce_request :: "env \<Rightarrow> string \<Rightarrow> string \<Rightarrow> unit dbact" where
  "announce_request E uid rid =
     bindS (getS (\<lambda>d. own_request_row d uid rid)) (\<lambda>r.
     case r of
       None \<Rightarrow> returnS ()
     | Some r \<Rightarrow>
         bindS (ownSession uid (rq_session r)) (\<lambda>nid.
         bindS (appendEvent E uid nid (rq_session r) (rq_turn r) (Request_upsert (request_view_of E r)))
           (\<lambda>_. returnS ())))"

definition release_decisions :: "env \<Rightarrow> string \<Rightarrow> string \<Rightarrow> unit dbact" where
  "release_decisions E uid op =
     bindS (getS (\<lambda>d. filter (decided_by uid op) (t_requests d))) (\<lambda>rows.
     thenS (modS (\<lambda>d. d\<lparr>t_requests := upd_rows (decided_by uid op) (release_request E) (t_requests d)\<rparr>))
     (forS rows (\<lambda>r. thenS (change E uid Rt_request (rq_id r) Upsert (rq_revision r + 1))
                           (announce_request E uid (rq_id r)))))"

definition rejectedEffects :: "env \<Rightarrow> string \<Rightarrow> string \<Rightarrow> unit dbact" where
  "rejectedEffects E uid op =
     bindS (oneS (\<lambda>d. find_op d uid op)) (\<lambda>r.
     case op_session r of
       None \<Rightarrow> returnS ()
     | Some sid \<Rightarrow>
         if op_kind r = K_create then fail_created_session E uid sid
         else if op_kind r = K_respond then release_decisions E uid op
         else returnS ())"

definition set_outbox :: "string \<Rightarrow> string \<Rightarrow> (outbox_state \<Rightarrow> bool) \<Rightarrow> outbox_state \<Rightarrow> unit dbact" where
  "set_outbox uid op P st =
     modS (\<lambda>d. d\<lparr>t_outbox := upd_rows (\<lambda>r. ob_user r = uid \<and> ob_op r = op \<and> P (ob_state r))
                 (\<lambda>r. r\<lparr>ob_state := st\<rparr>) (t_outbox d)\<rparr>)"

definition failUnsent :: "env \<Rightarrow> string \<Rightarrow> string \<Rightarrow> err \<Rightarrow> unit dbact" where
  "failUnsent E uid op reason =
     transaction uid
       (thenS (set_outbox uid op (\<lambda>_. True) Out_not_sent)
       (thenS (finishOp E uid op Op_failed None (Some reason))
       (rejectedEffects E uid op)))"

section \<open>Dispatch\<close>

text \<open>The intent to write is stored before the frame is queued: a crash in between is uncertain.\<close>

definition dispatch :: "env \<Rightarrow> string \<Rightarrow> string \<Rightarrow> string \<Rightarrow> node_command \<Rightarrow> unit gwact" where
  "dispatch E nid uid op cmd =
     bindS (getS (\<lambda>g. online E g nid)) (\<lambda>on.
     if \<not> on \<or> \<not> parse_time E (c_deadline cmd) > now E
     then dbS (failUnsent E uid op (apierr 503 NODE_OFFLINE))
     else thenS (dbS (set_outbox uid op (\<lambda>st. st = Out_pending) Out_dispatching))
       (bindS (enqueue_node E nid (F_command cmd)) (\<lambda>queued.
        if queued then returnS ()
        else dbS (failUnsent E uid op (apierr 503 SERVICE_UNAVAILABLE)))))"

section \<open>Admission\<close>

text \<open>What the checks of a command resolve it to.\<close>

record plan =
  pl_node :: string
  pl_session :: string
  pl_turn :: string
  pl_kind :: op_kind
  pl_request :: "request_view option"
  pl_agent :: "agent_row option"

fun payload_caprev :: "payload \<Rightarrow> int" where
  "payload_caprev (P_create b) = cs_caprev b"
| "payload_caprev (P_send b) = sm_caprev b"
| "payload_caprev (P_cancel b) = ct_caprev b"
| "payload_caprev (P_respond b) = rr_caprev b"
| "payload_caprev (P_native b) = nc_caprev b"
| "payload_caprev (P_history b) = ph_caprev b"

text \<open>\<open>createSession\<close> and \<open>projectHistory\<close>: the device, project and agent they name.\<close>

definition check_source_session :: "env \<Rightarrow> string \<Rightarrow> string \<Rightarrow> string \<Rightarrow> string \<Rightarrow> string \<Rightarrow> unit dbact" where
  "check_source_session E uid nid pid aid sid =
     bindS (getSession E uid sid) (\<lambda>(s, queue).
     guardS (\<not> (se_node s \<noteq> nid \<or> se_project s \<noteq> pid \<or> se_agent s \<noteq> aid \<or> se_history s = Purged))
       (apierr 403 FORBIDDEN))"

definition check_origin :: "env \<Rightarrow> string \<Rightarrow> create_session \<Rightarrow> unit dbact" where
  "check_origin E uid b =
     thenS (case cs_origin b of
              Some o' \<Rightarrow> if og_project_history o' then returnS ()
                        else check_source_session E uid (cs_node b) (cs_project b) (cs_agent b) (og_session o')
            | None \<Rightarrow> returnS ())
     (thenS (case cs_preset b of
              Some p \<Rightarrow> check_source_session E uid (cs_node b) (cs_project b) (cs_agent b) (ps_session p)
            | None \<Rightarrow> returnS ())
     (case cs_origin b of
        Some o' \<Rightarrow> if og_mode o' = Import then returnS ()
                  else check_source_session E uid (cs_node b) (cs_project b) (cs_agent b) (og_source o')
      | None \<Rightarrow> returnS ()))"

definition check_agent :: "string \<Rightarrow> string \<Rightarrow> string \<Rightarrow> string \<Rightarrow> int \<Rightarrow> bool \<Rightarrow> agent_row dbact" where
  "check_agent uid nid pid aid version history =
     bindS (ownNode uid nid False) (\<lambda>_.
     bindS (getProject uid pid) (\<lambda>p.
     thenS (guardS (\<not> (pj_node p \<noteq> nid \<or> \<not> np_valid (pj_body p))) invalid)
     (bindS (getAgent uid aid) (\<lambda>a.
      thenS (guardS (\<not> (ar_node a \<noteq> nid \<or> ag_state (ar_body a) \<noteq> Ready)) invalid)
      (thenS (guardS (ag_caprev (ar_body a) = version) (apierr 409 CAPABILITY_CHANGED))
      (thenS (guardS (\<not> (history \<and> \<not> truth_cap (ag_caps (ar_body a)) Cap_history_import))
                (apierr 409 CAPABILITY_UNSUPPORTED))
      (thenS (guardS (truth_cap (ag_caps (ar_body a)) Cap_send) (apierr 409 CAPABILITY_UNSUPPORTED))
      (returnS a))))))))"

definition admit_create :: "env \<Rightarrow> string \<Rightarrow> create_session \<Rightarrow> plan dbact" where
  "admit_create E uid b =
     bindS (check_agent uid (cs_node b) (cs_project b) (cs_agent b) (cs_caprev b) False) (\<lambda>a.
     thenS (guardS (\<not> ((cs_history_only b \<and> cs_origin b \<noteq> None
                \<or> (case cs_origin b of None \<Rightarrow> False | Some o' \<Rightarrow> og_mode o' = Import))
               \<and> \<not> truth_cap (ag_caps (ar_body a)) Cap_history_import)) (apierr 409 CAPABILITY_UNSUPPORTED))
     (thenS (check_origin E uid b)
     (bindS (new_id E ''session'') (\<lambda>sid.
      bindS (new_id E ''turn'') (\<lambda>turn.
      returnS \<lparr>pl_node = cs_node b, pl_session = sid, pl_turn = turn, pl_kind = K_create,
               pl_request = None, pl_agent = Some a\<rparr>)))))"

definition admit_history :: "env \<Rightarrow> string \<Rightarrow> project_history \<Rightarrow> plan dbact" where
  "admit_history E uid b =
     bindS (check_agent uid (ph_node b) (ph_project b) (ph_agent b) (ph_caprev b) True) (\<lambda>a.
     bindS (new_id E ''session'') (\<lambda>_.
     bindS (new_id E ''turn'') (\<lambda>_.
     returnS \<lparr>pl_node = ph_node b, pl_session = [], pl_turn = [], pl_kind = K_native,
              pl_request = None, pl_agent = Some a\<rparr>)))"

text \<open>The state checks of a command on an existing session; the result is the operation's kind.\<close>

fun admit_payload ::
  "env \<Rightarrow> session_row \<Rightarrow> queue_item list \<Rightarrow> request_view option \<Rightarrow> payload \<Rightarrow> err + op_kind" where
  "admit_payload E s queue rq (P_native b) =
     (case nc_action b of
        Act_workspace r \<Rightarrow> (case workspaceGate s b r of None \<Rightarrow> Inr K_native | Some e \<Rightarrow> Inl e)
      | act \<Rightarrow>
          (if isActive (se_state s) then Inl (apierr 409 STALE_TURN)
           else case capability s (if act = Act_compact then Cap_compact else Cap_models) (nc_caprev b) of
             None \<Rightarrow> Inr K_native
           | Some e \<Rightarrow> Inl e))"
| "admit_payload E s queue rq (P_send b) =
     (case sm_mode b of
        Mode_queue \<Rightarrow>
          (if \<not> isActive (se_state s) \<or> se_state s = S_cancelling \<or> se_state s = S_idle
           then Inl (apierr 409 STALE_TURN)
           else if length queue \<ge> 20 then Inl (apierr 409 CAPABILITY_UNSUPPORTED)
           else case capability s Cap_queue (sm_caprev b) of None \<Rightarrow> Inr K_queue | Some e \<Rightarrow> Inl e)
      | Mode_send \<Rightarrow>
          (if isActive (se_state s) then Inl (apierr 409 STALE_TURN)
           else case capability s Cap_send (sm_caprev b) of None \<Rightarrow> Inr K_send | Some e \<Rightarrow> Inl e))"
| "admit_payload E s queue rq (P_cancel b) =
     (if \<not> isActive (se_state s) \<or> se_state s = S_idle then Inl (apierr 409 STALE_TURN)
      else case capability s Cap_cancel (ct_caprev b) of None \<Rightarrow> Inr K_cancel | Some e \<Rightarrow> Inl e)"
| "admit_payload E s queue (Some r) (P_respond b) =
     (if rv_turn r \<noteq> str (se_turn s) then Inl (apierr 409 STALE_TURN)
      else if rv_state r = R_expired \<or> \<not> parse_time E (rv_expires r) > now E
      then Inl (apierr 410 REQUEST_EXPIRED)
      else if rv_state r \<noteq> R_pending \<or> se_state s = S_cancelling
      then Inl (apierr 409 REQUEST_ALREADY_DECIDED)
      else if rv_revision r \<noteq> rr_revision b then Inl (apierr 409 REQUEST_ALREADY_DECIDED)
      else case capability s (kind_cap (rv_kind r)) (rr_caprev b) of
        Some e \<Rightarrow> Inl e
      | None \<Rightarrow> (if validateDecision (nr_body (rv_def r)) (rr_decision b) then Inr K_respond else Inl invalid))"
| "admit_payload E s queue rq b = Inl notFound"

text \<open>
  A decision that was already made the same way is answered with its operation; the result is
  that operation or the plan.
\<close>

definition admit_turn ::
  "env \<Rightarrow> session_row \<Rightarrow> queue_item list \<Rightarrow> request_view option \<Rightarrow> payload \<Rightarrow> (op_row + plan) dbact" where
  "admit_turn E s queue rq b =
     thenS (guardS (\<not> (str (se_turn s) \<noteq> payload_turn b \<or> str (se_turn s) = [])) (apierr 409 STALE_TURN))
     (bindS (liftS (\<lambda>_. admit_payload E s queue rq b)) (\<lambda>kind.
      returnS (Inr \<lparr>pl_node = se_node s, pl_session = se_id s, pl_turn = str (se_turn s),
                    pl_kind = kind, pl_request = rq, pl_agent = None\<rparr>)))"

definition admit_session ::
  "env \<Rightarrow> string \<Rightarrow> string \<Rightarrow> request_view option \<Rightarrow> payload \<Rightarrow> (op_row + plan) dbact" where
  "admit_session E uid sid rq b =
     bindS (getSession E uid sid) (\<lambda>(s, queue).
     case (rq, b) of
       (Some r, P_respond body) \<Rightarrow>
         (case rv_decision r of
            Some dec \<Rightarrow>
              if same_decision dec (rr_decision body)
              then bindS (operation uid (str (rv_decision_op r))) (\<lambda>o'. returnS (Inl o'))
              else failS (apierr 409 REQUEST_ALREADY_DECIDED)
          | None \<Rightarrow> admit_turn E s queue rq b)
     | _ \<Rightarrow> admit_turn E s queue rq b)"

definition admit :: "env \<Rightarrow> string \<Rightarrow> string \<Rightarrow> payload \<Rightarrow> (op_row + plan) dbact" where
  "admit E uid path b =
     (case b of
        P_create c \<Rightarrow> bindS (admit_create E uid c) (\<lambda>p. returnS (Inr p))
      | P_history h \<Rightarrow> bindS (admit_history E uid h) (\<lambda>p. returnS (Inr p))
      | P_respond r \<Rightarrow>
          bindS (getRequest E uid path) (\<lambda>rq. admit_session E uid (rv_session rq) (Some rq) b)
      | _ \<Rightarrow> admit_session E uid path None b)"

section \<open>Acceptance\<close>

definition unresolved :: "op_state \<Rightarrow> bool" where
  "unresolved st \<longleftrightarrow> st \<in> {Op_accepted, Op_delivered, Op_reconciling}"

text \<open>A control of the session whose outcome is still unknown.\<close>

definition busy :: "db \<Rightarrow> string \<Rightarrow> bool" where
  "busy d sid \<longleftrightarrow>
     has_row (\<lambda>r. op_session r = Some sid \<and> unresolved (op_state r) \<and>
                  op_kind r \<in> {K_create, K_send, K_cancel, K_respond, K_native}) (t_ops d)"

definition next_turn_id :: "env \<Rightarrow> op_kind \<Rightarrow> payload \<Rightarrow> string dbact" where
  "next_turn_id E kind b =
     (if kind = K_send \<or> kind = K_queue \<or>
         (case b of P_native n \<Rightarrow> nc_action n = Act_compact \<or> workspaceTurn (nc_action n) | _ \<Rightarrow> False)
      then new_id E ''turn'' else returnS [])"

definition build_command ::
  "env \<Rightarrow> string \<Rightarrow> int \<Rightarrow> int \<Rightarrow> plan \<Rightarrow> payload \<Rightarrow> string \<Rightarrow> node_command" where
  "build_command E op epoch deadline p b nextTurn =
     \<lparr>c_op = op, c_epoch = epoch, c_deadline = timestamp E deadline, c_session = pl_session p,
      c_turn = (if pl_kind p = K_create then pl_turn p else []), c_next_turn = nextTurn,
      c_request = (case pl_request p of Some r \<Rightarrow> rv_id r | None \<Rightarrow> []), c_payload = b\<rparr>"

definition title_new :: string where
  "title_new = map char_of ([230, 150, 176, 228, 188, 154, 232, 175, 157] :: nat list)"

definition session_title :: "string \<Rightarrow> create_session \<Rightarrow> string dbact" where
  "session_title uid b =
     (if cs_history_only b then
        (case cs_origin b of
           Some o' \<Rightarrow> if og_mode o' = Resume
                     then oneS (\<lambda>d. map_option se_title
                            (find (\<lambda>r. se_id r = og_source o' \<and> se_user r = uid) (t_sessions d)))
                     else returnS title_new
         | None \<Rightarrow> returnS title_new)
      else returnS (fst (truncate_text (trim_space (cs_prompt b)) 200)))"

definition insert_session :: "session_row \<Rightarrow> unit dbact" where
  "insert_session r =
     bindS (getS (\<lambda>d. has_row (\<lambda>x. se_id x = se_id r) (t_sessions d))) (\<lambda>taken.
     thenS (guardS (\<not> taken) DBError) (modS (\<lambda>d. d\<lparr>t_sessions := t_sessions d @ [r]\<rparr>)))"

definition create_rows :: "env \<Rightarrow> string \<Rightarrow> plan \<Rightarrow> create_session \<Rightarrow> agent_row \<Rightarrow> unit dbact" where
  "create_rows E uid p b a =
     bindS (session_title uid b) (\<lambda>title.
     thenS (insert_session
       \<lparr>se_id = pl_session p, se_user = uid, se_node = pl_node p, se_project = cs_project b,
        se_agent = cs_agent b, se_title = title, se_state = S_idle, se_turn = None, se_mode = Managed,
        se_history = Available, se_caps = ag_caps (ar_body a), se_caprev = ag_caprev (ar_body a),
        se_revision = 1, se_last_seq = 0, se_last_source = 0, se_earliest = 1, se_created = dbnow E,
        se_updated = dbnow E, se_pinned = False, se_tags = [], se_archived = False, se_parent = None,
        se_origin = New_session, se_origin_point = None\<rparr>)
     (thenS (insert_turn \<lparr>tn_id = pl_turn p, tn_session = pl_session p, tn_state = T_starting,
               tn_started = None, tn_ended = None\<rparr>)
     (thenS (modS (\<lambda>d. d\<lparr>t_sessions := upd_rows (\<lambda>r. se_id r = pl_session p)
               (\<lambda>r. r\<lparr>se_turn := Some (pl_turn p)\<rparr>) (t_sessions d)\<rparr>))
     (thenS (case cs_origin b of
               None \<Rightarrow> returnS ()
             | Some o' \<Rightarrow>
                 modS (\<lambda>d. d\<lparr>t_sessions := upd_rows (\<lambda>r. se_id r = pl_session p)
                   (\<lambda>r. r\<lparr>se_parent := (if og_mode o' = Import then None else Some (og_source o')),
                          se_origin := og_mode o', se_origin_point := og_point_label o'\<rparr>) (t_sessions d)\<rparr>))
     (change E uid Rt_session (pl_session p) Upsert 1)))))"

text \<open>A command that comes through a share is recorded only while the share is live (\<open>shares.go\<close>).\<close>

record share_admission =
  sa_share :: string
  sa_actor :: string
  sa_client_op :: string
  sa_fingerprint :: string
  sa_action :: op_kind

definition live_share :: "env \<Rightarrow> db \<Rightarrow> string \<Rightarrow> share_row \<Rightarrow> bool" where
  "live_share E d owner g \<longleftrightarrow>
     sh_owner g = owner \<and> sh_revoked g = None \<and> sh_expires g > now E \<and>
     (case find_session d (sh_session g) of
        None \<Rightarrow> False
      | Some s \<Rightarrow> se_user s = owner \<and> accessible d owner (se_node s) \<and> se_history s = Available)"

definition recordShareAdmission :: "env \<Rightarrow> share_admission option \<Rightarrow> string \<Rightarrow> string \<Rightarrow> unit dbact" where
  "recordShareAdmission E adm owner op =
     (case adm of
        None \<Rightarrow> returnS ()
      | Some v \<Rightarrow>
          bindS (getS (\<lambda>d. has_row (\<lambda>g. sh_id g = sa_share v \<and> sh_recipient g = Some (sa_actor v)
                        \<and> sh_control g \<and> live_share E d owner g) (t_shares d))) (\<lambda>live.
          if \<not> live then failS (apierr 404 SHARE_UNAVAILABLE)
          else bindS (getS (\<lambda>d. has_row (\<lambda>c. sc_actor c = sa_actor v \<and> sc_client_op c = sa_client_op v)
                        (t_share_commands d))) (\<lambda>taken.
               thenS (guardS (\<not> taken) DBError)
               (modS (\<lambda>d. d\<lparr>t_share_commands := t_share_commands d @
                  [\<lparr>sc_share = sa_share v, sc_actor = sa_actor v, sc_client_op = sa_client_op v,
                    sc_owner = owner, sc_owner_op = op, sc_hash = sa_fingerprint v,
                    sc_action = sa_action v, sc_created = now E\<rparr>]\<rparr>)))))"

definition insert_outbox :: "outbox_row \<Rightarrow> unit dbact" where
  "insert_outbox r =
     bindS (getS (\<lambda>d. has_row (\<lambda>x. ob_user x = ob_user r \<and> ob_op x = ob_op r) (t_outbox d))) (\<lambda>taken.
     thenS (guardS (\<not> taken) DBError) (modS (\<lambda>d. d\<lparr>t_outbox := t_outbox d @ [r]\<rparr>)))"

definition mark_deciding ::
  "env \<Rightarrow> string \<Rightarrow> plan \<Rightarrow> string \<Rightarrow> decision \<Rightarrow> string \<Rightarrow> unit dbact" where
  "mark_deciding E uid p rid dec op =
     bindS (oneS (\<lambda>d. find_request d rid)) (\<lambda>r.
     thenS (modS (\<lambda>d. d\<lparr>t_requests := upd_rows (\<lambda>r. rq_id r = rid)
        (\<lambda>r. r\<lparr>rq_state := R_deciding, rq_decision := Some dec, rq_decision_op := Some op,
               rq_revision := rq_revision r + 1\<rparr>) (t_requests d)\<rparr>))
     (thenS (change E uid Rt_request rid Upsert (rq_revision r + 1))
     (bindS (getRequest E uid rid) (\<lambda>rr.
      bindS (appendEvent E uid (pl_node p) (pl_session p) (pl_turn p) (Request_upsert rr)) (\<lambda>_.
      returnS ())))))"

definition accept_command ::
  "env \<Rightarrow> share_admission option \<Rightarrow> string \<Rightarrow> string \<Rightarrow> fingerprint \<Rightarrow> plan \<Rightarrow> int \<Rightarrow> int
     \<Rightarrow> node_command \<Rightarrow> unit dbact" where
  "accept_command E adm uid op fp p epoch deadline cmd =
     transaction uid
       (thenS (case (c_payload cmd, pl_agent p) of
                 (P_create b, Some a) \<Rightarrow> create_rows E uid p b a
               | _ \<Rightarrow> returnS ())
       (thenS (insertOp E uid op (pl_kind p) (pl_node p) (pl_session p) (pl_turn p) epoch fp (Some cmd) deadline)
       (thenS (recordShareAdmission E adm uid op)
       (thenS (insert_outbox \<lparr>ob_user = uid, ob_op = op, ob_node = pl_node p, ob_epoch = epoch,
                  ob_state = Out_pending, ob_deadline = deadline\<rparr>)
       (thenS (case (c_payload cmd, pl_request p) of
                 (P_respond b, Some r) \<Rightarrow> mark_deciding E uid p (rv_id r) (rr_decision b) op
               | _ \<Rightarrow> returnS ())
       (audit E uid op (Audit_op (pl_kind p)) Op_accepted (pl_node p) (pl_session p)))))))"

definition is_new_session :: "payload \<Rightarrow> bool" where
  "is_new_session b \<longleftrightarrow> (case b of P_create c \<Rightarrow> True | P_history h \<Rightarrow> True | _ \<Rightarrow> False)"

text \<open>The planned command: the node is online, the session free, the message well-formed.\<close>

definition submit ::
  "env \<Rightarrow> share_admission option \<Rightarrow> string \<Rightarrow> string \<Rightarrow> fingerprint \<Rightarrow> payload \<Rightarrow> plan \<Rightarrow> op_row gwact" where
  "submit E adm uid op fp b p =
     bindS (getS (\<lambda>g. online E g (pl_node p))) (\<lambda>on.
     thenS (guardS on (apierr 503 NODE_OFFLINE))
     (bindS (nodeS (pl_node p)) (\<lambda>peer.
      let deadline = now E + cf_command_ttl (cfg E) in
      bindS (getS (\<lambda>g. \<not> is_new_session b \<and> busy (g_db g) (pl_session p))) (\<lambda>wait.
      thenS (guardS (\<not> wait) (apierr 409 OPERATION_UNKNOWN))
      (bindS (dbS (next_turn_id E (pl_kind p) b)) (\<lambda>nextTurn.
       let cmd = build_command E op (pr_epoch peer) deadline p b nextTurn in
       thenS (guardS (valid_command E cmd) DBError)
       (thenS (dbS (accept_command E adm uid op fp p (pr_epoch peer) deadline cmd))
       (thenS (dispatch E (pl_node p) uid op cmd)
       (dbS (operation uid op))))))))))"

definition command ::
  "env \<Rightarrow> share_admission option \<Rightarrow> string \<Rightarrow> string \<Rightarrow> fingerprint \<Rightarrow> string \<Rightarrow> payload \<Rightarrow> op_row gwact" where
  "command E adm uid op fp path b =
     bindS (dbS (priorOp E uid op fp)) (\<lambda>prior.
     case prior of
       Some r \<Rightarrow> returnS r
     | None \<Rightarrow>
         bindS (dbS (admit E uid path b)) (\<lambda>a.
         case a of
           Inl r \<Rightarrow> returnS r
         | Inr p \<Rightarrow> submit E adm uid op fp b p))"

section \<open>The logs are kept\<close>

lemma logs_fail_created [logs_rules]: "preserves (store_ok (dbnow E)) (fail_created_session E uid sid)"
  unfolding fail_created_session_def
  by (intro logs_rules keeps_rules logs_mod) (simp_all add: events_inv_upd)

lemma preserves_ownSession [keeps_rules]: "preserves I (ownSession uid sid)"
  unfolding ownSession_def by (rule keeps_rules)

lemma logs_announce_request [logs_rules]: "preserves (store_ok (dbnow E)) (announce_request E uid rid)"
  unfolding announce_request_def by (intro logs_rules keeps_rules)

lemma logs_release_decisions [logs_rules]: "preserves (store_ok (dbnow E)) (release_decisions E uid op)"
  unfolding release_decisions_def
  by (intro logs_rules keeps_rules logs_mod) (auto simp: release_request_def request_ok_def intro!: rows_ok_upd)

lemma logs_rejectedEffects [logs_rules]: "preserves (store_ok (dbnow E)) (rejectedEffects E uid op)"
  unfolding rejectedEffects_def by (intro logs_rules keeps_rules)

lemma logs_set_outbox [logs_rules]: "preserves (store_ok T) (set_outbox uid op P st)"
  unfolding set_outbox_def by (rule logs_mod) simp_all

lemma logs_failUnsent [logs_rules]: "keeps (store_ok (dbnow E)) (failUnsent E uid op reason)"
  unfolding failUnsent_def by (intro logs_rules keeps_rules)

lemma keeps_set_outbox [logs_rules]: "keeps (store_ok T) (set_outbox uid op P st)"
  unfolding set_outbox_def by (rule keeps_mod) (simp add: store_ok_def logs_ok_def)

lemma logs_dispatch [logs_rules]: "keeps (gstore_ok (dbnow E)) (dispatch E nid uid op cmd)"
  unfolding dispatch_def by (intro logs_rules keeps_rules)

lemma keeps_new_id [logs_rules]: "keeps (store_ok (dbnow E)) (new_id E p)"
  by (simp add: keeps_def new_id_def)

lemma logs_admit [logs_rules]: "keeps (store_ok (dbnow E)) (admit E uid path b)"
  unfolding admit_def admit_create_def admit_history_def check_agent_def check_origin_def
    check_source_session_def admit_session_def admit_turn_def getSession_def getRequest_def
    getProject_def getAgent_def ownNode_def operation_def
  by (cases b) (auto intro!: logs_rules keeps_rules split: payload.split option.split)

lemma logs_insert_session [logs_rules]:
  "se_earliest r = 1 \<Longrightarrow> se_last_seq r = 0 \<Longrightarrow> preserves (store_ok T) (insert_session r)"
  by (rule preservesI)
    (auto simp: insert_session_def run_iff store_ok_def logs_ok_def has_row_iff intro!: events_inv_new)

lemma logs_create_rows [logs_rules]: "preserves (store_ok (dbnow E)) (create_rows E uid p b a)"
  unfolding create_rows_def session_title_def
  by (intro logs_rules keeps_rules logs_mod) (simp_all add: events_inv_upd)

lemma logs_recordShareAdmission [logs_rules]: "preserves (store_ok (dbnow E)) (recordShareAdmission E adm owner op)"
  unfolding recordShareAdmission_def by (intro logs_rules keeps_rules logs_mod) simp_all

lemma logs_insert_outbox [logs_rules]: "preserves (store_ok T) (insert_outbox r)"
  unfolding insert_outbox_def by (intro logs_rules keeps_rules logs_mod) simp_all

lemma logs_mark_deciding [logs_rules]: "preserves (store_ok (dbnow E)) (mark_deciding E uid p rid dec op)"
  unfolding mark_deciding_def getRequest_def by (intro logs_rules keeps_rules logs_mod) (auto simp: request_ok_def intro!: rows_ok_upd)

lemma logs_accept [logs_rules]: "keeps (store_ok (dbnow E)) (accept_command E adm uid op fp p epoch deadline cmd)"
  unfolding accept_command_def
  by (intro logs_rules keeps_rules) (auto intro!: logs_rules keeps_rules split: payload.split option.split)

lemma logs_submit [logs_rules]: "keeps (gstore_ok (dbnow E)) (submit E adm uid op fp b p)"
  unfolding submit_def next_turn_id_def operation_def by (intro logs_rules keeps_rules)

lemma logs_command [logs_rules]: "keeps (gstore_ok (dbnow E)) (command E adm uid op fp path b)"
  unfolding command_def priorOp_def operation_def by (intro logs_rules keeps_rules)

end
