(* ===== verification/Receipts.thy ===== *)
theory Receipts
  imports Commands
begin

text \<open>
  The receipts of a node in \<open>internal/gateway/node.go\<close>: \<open>acknowledge\<close> takes a node's word on a command
  (a receipt as it happens, or the answer to a query of the node's journal) and settles the
  operation; \<open>nodeFrame\<close> is the dispatcher of all messages of a node.
\<close>

section \<open>The synchronisation fence\<close>

text \<open>A session whose creation failed before the node reported anything about it.\<close>

definition failed_create :: "db \<Rightarrow> string \<Rightarrow> bool" where
  "failed_create d sid \<longleftrightarrow>
     has_row (\<lambda>r. op_session r = Some sid \<and> op_kind r = K_create \<and> op_state r = Op_failed) (t_ops d)"

definition never_started :: "db \<Rightarrow> string \<Rightarrow> string \<Rightarrow> bool" where
  "never_started d sid nid \<longleftrightarrow>
     has_row (\<lambda>r. se_id r = sid \<and> se_node r = nid \<and> se_state r = S_failed \<and> se_last_source r = 0)
       (t_sessions d)
     \<and> failed_create d sid"

definition releaseUnstartedSync :: "env \<Rightarrow> string \<Rightarrow> string \<Rightarrow> unit gwact" where
  "releaseUnstartedSync E nid sid =
     bindS (nodeS nid) (\<lambda>p.
     if sid \<notin> set (pr_needs_sync p) then returnS ()
     else bindS (getS (\<lambda>g. never_started (g_db g) sid nid)) (\<lambda>neverStarted.
       if \<not> neverStarted then returnS ()
       else thenS (set_node nid (\<lambda>p. p\<lparr>pr_needs_sync := filter (\<lambda>s. s \<noteq> sid) (pr_needs_sync p)\<rparr>))
              (nodeReady E nid)))"

section \<open>Receipts\<close>

datatype receipt =
    Rc_delivered
  | Rc_confirmed op_result
  | Rc_rejected error_code bool
  | Rc_unknown
  | Rc_not_seen

text \<open>The turn that a result has to name.\<close>

definition expected_turn :: "op_kind \<Rightarrow> node_command option \<Rightarrow> string" where
  "expected_turn kind cmd =
     (case cmd of
        None \<Rightarrow> []
      | Some c \<Rightarrow>
          if kind = K_send \<or> kind = K_native \<and> c_next_turn c \<noteq> [] then c_next_turn c
          else if kind = K_create then c_turn c
          else payload_turn (c_payload c))"

fun native_matches :: "native_action \<Rightarrow> native_result option \<Rightarrow> bool" where
  "native_matches (Act_workspace r) (Some (Nat_workspace k x)) = (k = wr_kind r)"
| "native_matches Act_models (Some (Nat_models x)) = True"
| "native_matches (Act_set_model n) (Some (Nat_set_model k x)) = (n = k)"
| "native_matches Act_compact (Some (Nat_compact x)) = True"
| "native_matches act res = False"

definition native_ok :: "op_kind \<Rightarrow> node_command option \<Rightarrow> native_result option \<Rightarrow> bool" where
  "native_ok kind cmd native =
     (case map_option c_payload cmd of
        Some (P_history h) \<Rightarrow> native_matches (Act_workspace (ph_request h)) native
      | Some (P_native b) \<Rightarrow> (if kind = K_native then native_matches (nc_action b) native else native = None)
      | _ \<Rightarrow> native = None)"

text \<open>The checks of a confirmed result against its command.\<close>

definition result_ok :: "string \<Rightarrow> string \<Rightarrow> op_kind \<Rightarrow> node_command option \<Rightarrow> op_result \<Rightarrow> bool" where
  "result_ok nid sid kind cmd res \<longleftrightarrow>
     str (or_session res) = sid \<and> str (or_node res) = nid \<and>
     str (or_turn res) = expected_turn kind cmd \<and>
     \<not> (kind = K_respond \<and> str (or_request res) \<noteq> (case cmd of None \<Rightarrow> [] | Some c \<Rightarrow> c_request c)) \<and>
     \<not> (kind \<noteq> K_respond \<and> or_request res \<noteq> None) \<and>
     \<not> (kind \<noteq> K_queue \<and> or_queue_item res \<noteq> None) \<and>
     native_ok kind cmd (or_native res)"

section \<open>The effects of a confirmed command\<close>

definition confirm_queue ::
  "env \<Rightarrow> string \<Rightarrow> string \<Rightarrow> string \<Rightarrow> string \<Rightarrow> string \<Rightarrow> op_result \<Rightarrow> unit dbact" where
  "confirm_queue E uid nid sid op text res =
     (let qid = str (or_queue_item res);
          item = \<lparr>qi_id = qid, qi_op = op, qi_text = text, qi_state = Q_queued,
                  qi_created = timestamp E (now E)\<rparr> in
      thenS (guardS (qid \<noteq> []) invalid)
      (bindS (getSession E uid sid) (\<lambda>(current, queue).
       if qid \<in> qi_id ` set queue then returnS ()
       else
         (let items = queue @ [item] in
          thenS (guardS (\<not> length items > 20) invalid)
          (thenS (queueMirror E uid sid items)
          (bindS (appendEvent E uid nid sid (str (se_turn current)) (Queue_updated items)) (\<lambda>_. returnS ())))))))"

definition confirm_respond ::
  "env \<Rightarrow> string \<Rightarrow> string \<Rightarrow> string \<Rightarrow> string \<Rightarrow> string \<Rightarrow> unit dbact" where
  "confirm_respond E uid nid sid op rid =
     bindS (oneS (\<lambda>d. find (\<lambda>r. rq_id r = rid \<and> rq_decision_op r = Some op) (t_requests d))) (\<lambda>r.
     thenS (modS (\<lambda>d. d\<lparr>t_requests := upd_rows (\<lambda>r. rq_id r = rid \<and> rq_decision_op r = Some op)
        (\<lambda>r. r\<lparr>rq_state := R_resolved, rq_resolved := Some (now E), rq_revision := rq_revision r + 1\<rparr>)
        (t_requests d)\<rparr>))
     (thenS (change E uid Rt_request rid Upsert (rq_revision r + 1))
     (bindS (getRequest E uid rid) (\<lambda>rr.
      bindS (appendEvent E uid nid sid (rv_turn rr) (Request_upsert rr)) (\<lambda>_. returnS ())))))"

definition confirm_cancel :: "env \<Rightarrow> string \<Rightarrow> string \<Rightarrow> string \<Rightarrow> string \<Rightarrow> unit dbact" where
  "confirm_cancel E uid nid sid turn =
     bindS (getSession E uid sid) (\<lambda>(current, queue).
     if str (se_turn current) = turn \<and> isActive (se_state current) \<and> se_state current \<noteq> S_cancelling then
       thenS (modS (\<lambda>d. d\<lparr>t_sessions := upd_rows (\<lambda>r. se_id r = sid)
                (\<lambda>r. r\<lparr>se_state := S_cancelling\<rparr>) (t_sessions d)\<rparr>))
       (thenS (put_turns (upd_rows (\<lambda>t. tn_id t = turn) (\<lambda>t. t\<lparr>tn_state := T_cancelling\<rparr>)))
       (bindS (appendEvent E uid nid sid turn (Session_state S_cancelling turn (se_revision current)))
          (\<lambda>_. returnS ())))
     else returnS ())"

definition confirm ::
  "env \<Rightarrow> string \<Rightarrow> string \<Rightarrow> string \<Rightarrow> string \<Rightarrow> op_row \<Rightarrow> op_result \<Rightarrow> unit dbact" where
  "confirm E uid nid sid op r res =
     transaction uid
       (thenS (if op_kind r = K_queue
               then confirm_queue E uid nid sid op (payload_of r (\<lambda>c. payload_text (c_payload c))) res
               else returnS ())
       (thenS (if op_kind r = K_respond
               then confirm_respond E uid nid sid op (payload_of r c_request)
               else returnS ())
       (thenS (if op_kind r = K_cancel
               then confirm_cancel E uid nid sid (expected_turn (op_kind r) (op_payload r))
               else returnS ())
       (thenS (set_outbox uid op (\<lambda>_. True) Out_delivered)
       (thenS (finishOp E uid op Op_confirmed (Some res) None)
       (audit E uid op (Audit_op (op_kind r)) Op_confirmed nid sid))))))"

text \<open>A command that the node's journal does not know: a receipt that was seen before contradicts it.\<close>

definition journal_miss :: "env \<Rightarrow> string \<Rightarrow> string \<Rightarrow> string \<Rightarrow> string \<Rightarrow> unit gwact" where
  "journal_miss E nid uid sid op =
     bindS (dbS (oneS (\<lambda>d. map_option ob_state
              (find (\<lambda>r. ob_user r = uid \<and> ob_op r = op) (t_outbox d))))) (\<lambda>delivery.
     if delivery = Out_delivered then
       thenS (dbS (transaction uid (finishOp E uid op Op_reconciling None None)))
         (failS (apierr 409 SOURCE_CONFLICT))
     else thenS (dbS (failUnsent E uid op (apierr 409 OPERATION_UNKNOWN)))
         (releaseUnstartedSync E nid sid))"

definition settled :: "op_state \<Rightarrow> bool" where
  "settled st \<longleftrightarrow> st = Op_confirmed \<or> st = Op_failed"

definition settle ::
  "env \<Rightarrow> string \<Rightarrow> string \<Rightarrow> string \<Rightarrow> string \<Rightarrow> op_row \<Rightarrow> receipt \<Rightarrow> bool \<Rightarrow> unit gwact" where
  "settle E nid uid sid op r rc isQuery =
     (case rc of
        Rc_not_seen \<Rightarrow>
          thenS (guardS isQuery invalid) (journal_miss E nid uid sid op)
      | Rc_unknown \<Rightarrow> dbS (transaction uid (finishOp E uid op Op_reconciling None None))
      | Rc_delivered \<Rightarrow>
          dbS (transaction uid (thenS (set_outbox uid op (\<lambda>_. True) Out_delivered)
                                      (finishOp E uid op Op_delivered None None)))
      | Rc_rejected code retry \<Rightarrow>
          thenS (dbS (failUnsent E uid op (Api 409 code retry))) (releaseUnstartedSync E nid sid)
      | Rc_confirmed res \<Rightarrow>
          thenS (guardS (result_ok nid sid (op_kind r) (op_payload r) res) invalid)
            (dbS (confirm E uid nid sid op r res)))"

text \<open>
  Only the node the command was for is heard; a settled operation is not settled again; a receipt
  of an earlier connection counts only as the answer to a query. \<open>node_id\<close> is read into a string,
  which a NULL does not fit.
\<close>

definition acknowledge :: "env \<Rightarrow> string \<Rightarrow> string \<Rightarrow> receipt \<Rightarrow> bool \<Rightarrow> unit gwact" where
  "acknowledge E nid op rc isQuery =
     bindS (nodeS nid) (\<lambda>p.
     bindS (dbS (operation (pr_user p) op)) (\<lambda>r.
     thenS (guardS (op_node r \<noteq> None) DBError)
     (thenS (guardS (op_node r = Some (pr_node p)) notFound)
     (let sid = str (op_session r) in
      if settled (op_state r) then
        thenS (guardS (\<not> (case rc of Rc_confirmed res \<Rightarrow> op_result r \<noteq> Some res | _ \<Rightarrow> False))
                 (apierr 409 SOURCE_CONFLICT))
          (releaseUnstartedSync E nid sid)
      else
        thenS (guardS (isQuery \<or> (case op_payload r of None \<Rightarrow> 0 | Some c \<Rightarrow> c_epoch c) = pr_epoch p)
                 (apierr 409 PROTOCOL_UNSUPPORTED))
          (settle E nid (pr_user p) sid op r rc isQuery)))))"

section \<open>The messages of a node\<close>

datatype node_message =
    Nm_heartbeat string
  | Nm_inventory inventory_frame
  | Nm_ack string receipt
  | Nm_status string receipt
  | Nm_events "source_message list"
  | Nm_source source_message

definition node_heartbeat :: "env \<Rightarrow> string \<Rightarrow> string \<Rightarrow> unit gwact" where
  "node_heartbeat E nid nonce =
     bindS (nodeS nid) (\<lambda>p.
     thenS (dbS (modS (\<lambda>d. d\<lparr>t_nodes := upd_rows (\<lambda>n. nd_id n = pr_node p \<and> nd_epoch n = pr_epoch p)
              (\<lambda>n. n\<lparr>nd_last_seen := Some (now E)\<rparr>) (t_nodes d)\<rparr>)))
     (send_node E nid (F_node_heartbeat (pr_epoch p) nonce (timestamp E (now E)))))"

fun nodeFrame :: "env \<Rightarrow> string \<Rightarrow> node_message \<Rightarrow> unit gwact" where
  "nodeFrame E nid (Nm_heartbeat nonce) = node_heartbeat E nid nonce"
| "nodeFrame E nid (Nm_inventory b) = inventory E nid b"
| "nodeFrame E nid (Nm_ack op rc) = acknowledge E nid op rc False"
| "nodeFrame E nid (Nm_status op rc) = acknowledge E nid op rc True"
| "nodeFrame E nid (Nm_events es) = forS es (source E nid)"
| "nodeFrame E nid (Nm_source m) = source E nid m"

section \<open>The logs are kept\<close>

lemma logs_releaseUnstartedSync [logs_rules]: "keeps (gstore_ok (dbnow E)) (releaseUnstartedSync E nid sid)"
  unfolding releaseUnstartedSync_def by (intro logs_rules keeps_rules)

lemma logs_confirm_queue [logs_rules]: "preserves (store_ok (dbnow E)) (confirm_queue E uid nid sid op text res)"
  unfolding confirm_queue_def getSession_def by (intro logs_rules keeps_rules)

lemma logs_confirm_respond [logs_rules]: "preserves (store_ok (dbnow E)) (confirm_respond E uid nid sid op rid)"
  unfolding confirm_respond_def getRequest_def by (intro logs_rules keeps_rules logs_mod) (auto simp: request_ok_def intro!: rows_ok_upd split: if_splits)

lemma logs_confirm_cancel [logs_rules]: "preserves (store_ok (dbnow E)) (confirm_cancel E uid nid sid turn)"
  unfolding confirm_cancel_def getSession_def
  by (intro logs_rules keeps_rules logs_mod) (simp_all add: events_inv_upd)

lemma logs_confirm [logs_rules]: "keeps (store_ok (dbnow E)) (confirm E uid nid sid op r res)"
  unfolding confirm_def by (intro logs_rules keeps_rules)

lemma logs_journal_miss [logs_rules]: "keeps (gstore_ok (dbnow E)) (journal_miss E nid uid sid op)"
  unfolding journal_miss_def by (intro logs_rules keeps_rules)

lemma logs_settle [logs_rules]: "keeps (gstore_ok (dbnow E)) (settle E nid uid sid op r rc isQuery)"
  unfolding settle_def by (cases rc) (auto intro!: logs_rules keeps_rules)

lemma logs_acknowledge [logs_rules]: "keeps (gstore_ok (dbnow E)) (acknowledge E nid op rc isQuery)"
  unfolding acknowledge_def operation_def by (intro logs_rules keeps_rules)

lemma logs_node_heartbeat [logs_rules]: "keeps (gstore_ok (dbnow E)) (node_heartbeat E nid nonce)"
  unfolding node_heartbeat_def
  by (intro logs_rules keeps_rules keeps_mod) (simp add: store_ok_def logs_ok_def)

lemma logs_nodeFrame [logs_rules]: "keeps (gstore_ok (dbnow E)) (nodeFrame E nid m)"
  by (cases m) (auto intro!: logs_rules keeps_rules)

end
