(* ===== verification/Rates.thy ===== *)
theory Rates
  imports Receipts
begin

text \<open>
  The budgets and the identity checks of \<open>internal/gateway/server.go\<close>: \<open>rate\<close>, \<open>bearer\<close>,
  \<open>authenticate\<close>, the operations that need no login or an idempotency key, and the order in which
  \<open>wrap\<close> charges them before it runs a handler.
\<close>

section \<open>Rate limits\<close>

text \<open>Go's zero time is before every time that the code compares it with.\<close>

definition rate_of :: "(string \<times> rate_entry) list \<Rightarrow> string \<Rightarrow> int \<Rightarrow> rate_entry" where
  "rate_of R key t =
     (case map_of R key of
        Some r \<Rightarrow> if rt_until r > t then r else \<lparr>rt_count = 0, rt_until = t + minute\<rparr>
      | None \<Rightarrow> \<lparr>rt_count = 0, rt_until = t + minute\<rparr>)"

definition put_rate :: "string \<Rightarrow> rate_entry \<Rightarrow> (string \<times> rate_entry) list \<Rightarrow> (string \<times> rate_entry) list" where
  "put_rate key r R = (if map_of R key \<noteq> None then upd_key key (\<lambda>_. r) R else R @ [(key, r)])"

definition max_rates :: nat where
  "max_rates = 10000"

definition rate :: "int \<Rightarrow> string \<Rightarrow> int \<Rightarrow> (string \<times> rate_entry) list \<Rightarrow> bool \<times> (string \<times> rate_entry) list" where
  "rate t key limit R =
     (let r = rate_of R key t;
          R' = (if length R \<ge> max_rates then filter (\<lambda>(k, v). rt_until v > t) R else R) in
      if length R \<ge> max_rates \<and> map_of R' key = None \<and> length R' \<ge> max_rates then (False, R')
      else (rt_count r + 1 \<le> limit, put_rate key (r\<lparr>rt_count := rt_count r + 1\<rparr>) R'))"

text \<open>The table of budgets: one entry for a key, no more entries than the cap, no negative count.\<close>

definition rates_ok :: "(string \<times> rate_entry) list \<Rightarrow> bool" where
  "rates_ok R \<longleftrightarrow> distinct (map fst R) \<and> length R \<le> max_rates \<and> (\<forall>(k, v)\<in>set R. rt_count v \<ge> 0)"

lemma map_of_put_rate [simp]: "map_of (put_rate key r R) k = (if k = key then Some r else map_of R k)"
  by (cases "map_of R key"; cases "map_of R k") (auto simp: put_rate_def map_add_def)

lemma put_rate_length: "length (put_rate key r R) = (if map_of R key = None then Suc (length R) else length R)"
  by (simp add: put_rate_def)

lemma put_rate_distinct: "distinct (map fst R) \<Longrightarrow> distinct (map fst (put_rate key r R))"
  by (auto simp: put_rate_def map_of_eq_None_iff)

text \<open>Throwing out the expired budgets changes no budget that \<open>rate\<close> would go on with.\<close>

definition purge :: "int \<Rightarrow> (string \<times> rate_entry) list \<Rightarrow> (string \<times> rate_entry) list" where
  "purge t R = filter (\<lambda>(k, v). rt_until v > t) R"

lemma map_of_purge:
  "distinct (map fst R) \<Longrightarrow>
     map_of (purge t R) k =
       (case map_of R k of Some r \<Rightarrow> if rt_until r > t then Some r else None | None \<Rightarrow> None)"
  unfolding purge_def by (induction R) (auto simp: map_of_eq_None_iff image_iff split: option.splits)

lemma purge_distinct: "distinct (map fst R) \<Longrightarrow> distinct (map fst (purge t R))"
  by (simp add: purge_def distinct_map_filter)

lemma purge_length: "length (purge t R) \<le> length R"
  by (simp add: purge_def)

text \<open>A call of \<open>rate\<close> in one of three ways: refused, a new budget, or one more use of a budget.\<close>

definition kept_rates :: "int \<Rightarrow> (string \<times> rate_entry) list \<Rightarrow> (string \<times> rate_entry) list" where
  "kept_rates t R = (if length R \<ge> max_rates then purge t R else R)"

lemma rate_cases:
  obtains (full) "rate t key limit R = (False, kept_rates t R)" "map_of (kept_rates t R) key = None"
  | (used) "rate t key limit R =
      (rt_count (rate_of R key t) + 1 \<le> limit,
       put_rate key ((rate_of R key t)\<lparr>rt_count := rt_count (rate_of R key t) + 1\<rparr>) (kept_rates t R))"
    "map_of (kept_rates t R) key = None \<longrightarrow> length (kept_rates t R) < max_rates"
proof (cases "map_of (kept_rates t R) key = None \<and> length (kept_rates t R) \<ge> max_rates")
  case True
  moreover from this have "length R \<ge> max_rates" by (simp add: kept_rates_def split: if_splits)
  ultimately have "rate t key limit R = (False, kept_rates t R)"
    by (simp add: rate_def kept_rates_def purge_def Let_def)
  then show ?thesis using full True by simp
next
  case False
  then show ?thesis
    by (intro used) (auto simp: rate_def kept_rates_def purge_def Let_def split: if_splits)
qed

lemma kept_rates_ok: "rates_ok R \<Longrightarrow> rates_ok (kept_rates t R)"
  using purge_length [of t R]
  by (auto simp: rates_ok_def kept_rates_def purge_distinct) (auto simp: purge_def)

lemma put_rate_counts:
  "\<forall>(k, v)\<in>set R. rt_count v \<ge> 0 \<Longrightarrow> rt_count r \<ge> 0 \<Longrightarrow> \<forall>(k, v)\<in>set (put_rate key r R). rt_count v \<ge> 0"
  by (auto simp: put_rate_def upd_key_def)

lemma rate_of_count: "rates_ok R \<Longrightarrow> rt_count (rate_of R key t) \<ge> 0"
  by (auto simp: rate_of_def rates_ok_def split: option.split dest!: map_of_SomeD)

lemma rate_ok: "rates_ok R \<Longrightarrow> rates_ok (snd (rate t key limit R))"
proof (cases rule: rate_cases [of t key limit R])
  case full
  then show "rates_ok R \<Longrightarrow> ?thesis" by (simp add: kept_rates_ok)
next
  case used
  assume ok: "rates_ok R"
  note kept = kept_rates_ok [OF ok, of t]
  have "\<forall>(k, v)\<in>set (put_rate key ((rate_of R key t)\<lparr>rt_count := rt_count (rate_of R key t) + 1\<rparr>)
      (kept_rates t R)). rt_count v \<ge> 0"
    by (rule put_rate_counts) (use kept rate_of_count [OF ok, of key t] in \<open>auto simp: rates_ok_def\<close>)
  then show ?thesis
    using used kept by (auto simp: rates_ok_def put_rate_length put_rate_distinct)
qed

section \<open>How many calls a budget grants\<close>

text \<open>The granted calls for one key in a series of calls: time, key and limit.\<close>

fun granted :: "string \<Rightarrow> (int \<times> string \<times> int) list \<Rightarrow> (string \<times> rate_entry) list \<Rightarrow> int" where
  "granted key [] R = 0"
| "granted key ((t, k, l) # cs) R =
     (let (ok, R') = rate t k l R in (if ok \<and> k = key then 1 else 0) + granted key cs R')"

text \<open>What is left of the budget that the table holds for the key, live or not.\<close>

definition left_of :: "int \<Rightarrow> rate_entry option \<Rightarrow> int" where
  "left_of L r = (case r of None \<Rightarrow> 0 | Some r \<Rightarrow> max 0 (L - rt_count r))"

lemma kept_entry:
  "rates_ok R \<Longrightarrow> map_of (kept_rates t R) k = map_of R k
     \<or> map_of (kept_rates t R) k = None \<and> (\<exists>r. map_of R k = Some r \<and> rt_until r \<le> t)"
  by (auto simp: kept_rates_def map_of_purge rates_ok_def split: option.split)

lemma other_entry:
  assumes "rates_ok R" and "k \<noteq> key"
  shows "map_of (snd (rate t k l R)) key = map_of R key
     \<or> map_of (snd (rate t k l R)) key = None \<and> (\<exists>r. map_of R key = Some r \<and> rt_until r \<le> t)"
  using kept_entry [OF assms(1), of t key] assms(2)
  by (cases rule: rate_cases [of t k l R]) auto

lemma live_call:
  assumes "rates_ok R" and "map_of R key = Some r" and "rt_until r > t"
  shows "fst (rate t key l R) = (rt_count r + 1 \<le> l)
    \<and> map_of (snd (rate t key l R)) key = Some (r\<lparr>rt_count := rt_count r + 1\<rparr>)"
  using kept_entry [OF assms(1), of t key] assms(2,3)
  by (cases rule: rate_cases [of t key l R]) (auto simp: rate_of_def)

lemma granted_live:
  assumes "rates_ok R" and "map_of R key = Some r"
    and "\<forall>(t, k, l)\<in>set cs. t < rt_until r \<and> (k = key \<longrightarrow> l \<le> L)"
  shows "granted key cs R \<le> max 0 (L - rt_count r)"
  using assms
proof (induction cs arbitrary: R r)
  case Nil
  then show ?case by simp
next
  case (Cons c cs)
  obtain t k l where c: "c = (t, k, l)" by (cases c)
  let ?R = "snd (rate t k l R)"
  have ok: "rates_ok ?R" by (rule rate_ok) (fact Cons.prems(1))
  show ?case
  proof (cases "k = key")
    case True
    from live_call [OF Cons.prems(1,2), of t l] Cons.prems(3) c True
    have g: "fst (rate t k l R) = (rt_count r + 1 \<le> l)"
      and r': "map_of ?R key = Some (r\<lparr>rt_count := rt_count r + 1\<rparr>)" by auto
    from Cons.IH [OF ok r'] Cons.prems(3)
    have "granted key cs ?R \<le> max 0 (L - (rt_count r + 1))" by simp
    then show ?thesis using g c True Cons.prems(3) by (auto simp: split_beta Let_def)
  next
    case False
    from other_entry [OF Cons.prems(1) False, of t l] Cons.prems(2,3) c
    have "map_of ?R key = Some r" by auto
    from Cons.IH [OF ok this] Cons.prems(3) show ?thesis using c False
      by (simp add: split_beta Let_def)
  qed
qed

lemma granted_minute:
  assumes "rates_ok R" and "0 \<le> L"
    and "\<forall>(t, k, l)\<in>set cs. a \<le> t \<and> t < a + minute \<and> (k = key \<longrightarrow> l \<le> L)"
  shows "granted key cs R \<le> left_of L (map_of R key) + L"
  using assms
proof (induction cs arbitrary: R)
  case Nil
  then show ?case by (simp add: left_of_def split: option.split)
next
  case (Cons c cs)
  obtain t k l where c: "c = (t, k, l)" by (cases c)
  let ?R = "snd (rate t k l R)"
  have ok: "rates_ok ?R" by (rule rate_ok) (fact Cons.prems(1))
  have IH: "granted key cs ?R \<le> left_of L (map_of ?R key) + L"
    using Cons.IH [OF ok Cons.prems(2)] Cons.prems(3) by simp
  have l: "k = key \<Longrightarrow> l \<le> L" and t: "a \<le> t" using Cons.prems(3) c by auto
  show ?case
  proof (cases "k = key")
    case False
    from other_entry [OF Cons.prems(1) False, of t l]
    have "left_of L (map_of ?R key) \<le> left_of L (map_of R key)"
      by (auto simp: left_of_def split: option.split)
    then show ?thesis using IH c False by (simp add: split_beta Let_def)
  next
    case True
    show ?thesis
    proof (cases "\<exists>r. map_of R key = Some r \<and> rt_until r > t")
      case True
      then obtain r where r: "map_of R key = Some r" "rt_until r > t" by auto
      from live_call [OF Cons.prems(1) r, of l] show ?thesis
        using IH c \<open>k = key\<close> l r by (auto simp: split_beta Let_def left_of_def)
    next
      case False
      then have fresh: "rate_of R key t = \<lparr>rt_count = 0, rt_until = t + minute\<rparr>"
        by (auto simp: rate_of_def split: option.split)
      have pos: "0 \<le> left_of L (map_of R key)" by (simp add: left_of_def split: option.split)
      show ?thesis
      proof (cases rule: rate_cases [of t key l R])
        case full
        then show ?thesis using IH c \<open>k = key\<close> pos by (simp add: split_beta Let_def left_of_def)
      next
        case used
        then have "map_of ?R key = Some \<lparr>rt_count = 1, rt_until = t + minute\<rparr>"
          using fresh \<open>k = key\<close> by simp
        moreover have "\<forall>(t', k, l)\<in>set cs. t' < t + minute \<and> (k = key \<longrightarrow> l \<le> L)"
          using Cons.prems(3) t by fastforce
        ultimately have "granted key cs ?R \<le> max 0 (L - 1)"
          using granted_live [OF ok, of key _ cs L] by fastforce
        then show ?thesis
          using used(1) c \<open>k = key\<close> fresh l pos Cons.prems(2) by (auto simp: split_beta Let_def)
      qed
    qed
  qed
qed

lemma left_of_le: "rates_ok R \<Longrightarrow> 0 \<le> L \<Longrightarrow> left_of L (map_of R key) \<le> L"
  by (auto simp: left_of_def rates_ok_def split: option.split dest!: map_of_SomeD)

text \<open>
  C35: in any minute a key is granted at most twice its limit, whatever other keys are charged in
  between, even when the table is full and purged; with no budget open at the beginning of the minute,
  at most its limit. And the table never grows beyond its cap.
\<close>

theorem rate_bounds:
  assumes "rates_ok R" and "0 \<le> L"
    and "\<forall>(t, k, l)\<in>set cs. a \<le> t \<and> t < a + minute \<and> (k = key \<longrightarrow> l \<le> L)"
  shows "granted key cs R \<le> 2 * L
    \<and> (map_of R key = None \<longrightarrow> granted key cs R \<le> L)
    \<and> rates_ok (snd (rate t k l R))"
  using granted_minute [OF assms] left_of_le [OF assms(1,2), of key] rate_ok [OF assms(1), of t k l]
  by (auto simp: left_of_def)

text \<open>Of two charges of a key in one minute, under a limit of one, the first is granted.\<close>

theorem rate_bounds_witness:
  "granted ''k'' [(0, ''k'', 1), (1, ''k'', 1), (2, ''j'', 5)] [] = 1"
proof (rule antisym)
  show "granted ''k'' [(0, ''k'', 1), (1, ''k'', 1), (2, ''j'', 5)] [] \<le> 1"
    using rate_bounds [of "[]" 1 "[(0, ''k'', 1), (1, ''k'', 1), (2, ''j'', 5)]" 0 "''k''" 0 "''k''" 1]
    by (simp add: rates_ok_def minute_def)
  show "1 \<le> granted ''k'' [(0, ''k'', 1), (1, ''k'', 1), (2, ''j'', 5)] []"
    by code_simp
qed

section \<open>Identity\<close>

definition bearer_prefix :: string where
  "bearer_prefix = ''Bearer ''"

definition bearer :: "string \<Rightarrow> string" where
  "bearer h = (if take 7 h \<noteq> bearer_prefix \<or> length h > 1024 then [] else drop 7 h)"

text \<open>A token that was issued for the user and has neither been revoked nor expired.\<close>

definition live_token :: "env \<Rightarrow> string \<Rightarrow> user_token_row \<Rightarrow> bool" where
  "live_token E token t \<longleftrightarrow>
     ut_hash t = token_hash E token \<and> ut_revoked t = None \<and> ut_expires t > now E"

definition authenticate :: "env \<Rightarrow> string \<Rightarrow> (string \<times> int) dbact" where
  "authenticate E header =
     (let token = bearer header in
      thenS (guardS (token \<noteq> []) (apierr 401 UNAUTHENTICATED))
      (bindS (getS (\<lambda>d. find (live_token E token) (t_user_tokens d))) (\<lambda>t.
       case t of
         None \<Rightarrow> failS (apierr 401 UNAUTHENTICATED)
       | Some t \<Rightarrow> returnS (ut_user t, ut_expires t))))"

section \<open>Admission of an HTTP request\<close>

definition isPublic :: "string \<Rightarrow> bool" where
  "isPublic name \<longleftrightarrow>
     name \<in> {''health'', ''ready'', ''login'', ''createEnrollment'', ''createNodeChallenge'', ''proveNodeIdentity''}"

definition requiresKey :: "string \<Rightarrow> bool" where
  "requiresKey name \<longleftrightarrow>
     name \<in> {''createShare'', ''sharedCommand'', ''projectHistory'', ''createSession'', ''sendMessage'',
             ''cancelTurn'', ''respondRequest'', ''nativeControl'', ''confirmPairing'', ''revokeNode'',
             ''markNotificationRead'', ''organizeSession'', ''deleteHistory'', ''importHistory'',
             ''recordSubscriptionConsent''}"

fun key_char :: "char \<Rightarrow> bool" where
  "key_char c = (let n = of_char c :: nat in
     65 \<le> n \<and> n \<le> 90 \<or> 97 \<le> n \<and> n \<le> 122 \<or> 48 \<le> n \<and> n \<le> 57 \<or> n = 95 \<or> n = 45)"

definition operationKey :: "string \<Rightarrow> bool" where
  "operationKey k \<longleftrightarrow> 16 \<le> length k \<and> length k \<le> 128 \<and> list_all key_char k"

definition rateS :: "env \<Rightarrow> string \<Rightarrow> int \<Rightarrow> bool gwact" where
  "rateS E key limit = (\<lambda>g. (Inr (fst (rate (now E) key limit (g_rates g))),
                             g\<lparr>g_rates := snd (rate (now E) key limit (g_rates g))\<rparr>))"

text \<open>The budgets of an address: \<open>&&\<close> charges the next one only while none is used up.\<close>

definition charge_address :: "env \<Rightarrow> string \<Rightarrow> string \<Rightarrow> bool \<Rightarrow> bool gwact" where
  "charge_address E name ip transfer =
     bindS (if transfer then rateS E (''transfer-ip:'' @ ip) 600 else rateS E (''ip:'' @ ip) 120) (\<lambda>a.
     bindS (if isPublic name \<and> a then rateS E (''public:'' @ ip) 30 else returnS a) (\<lambda>a.
     if (name = ''createEnrollment'' \<or> name = ''previewPairing'') \<and> a
     then rateS E (''pairing-ip:'' @ ip) 5 else returnS a))"

definition charge_user :: "env \<Rightarrow> string \<Rightarrow> string \<Rightarrow> bool \<Rightarrow> unit gwact" where
  "charge_user E name uid transfer =
     bindS (if transfer then rateS E (''transfer-user:'' @ uid) 400 else rateS E (''user:'' @ uid) 180) (\<lambda>a.
     thenS (guardS a (apierr 429 RATE_LIMITED))
     (if requiresKey name \<and> \<not> transfer
      then bindS (rateS E (''commands:'' @ uid) 30) (\<lambda>a. guardS a (apierr 429 RATE_LIMITED))
      else returnS ()))"

text \<open>
  \<open>wrap\<close> from the idempotency key to the handler, which gets the user (none for a public
  operation). Decoding and the schema come before; the identity provider of \<open>login\<close> is outside.
\<close>

definition identify :: "env \<Rightarrow> string \<Rightarrow> string \<Rightarrow> bool \<Rightarrow> string gwact" where
  "identify E name header transfer =
     (if isPublic name \<or> name = ''pollEnrollment'' then returnS []
      else bindS (dbS (authenticate E header)) (\<lambda>(uid, expiry).
           thenS (charge_user E name uid transfer) (returnS uid)))"

definition admission :: "env \<Rightarrow> string \<Rightarrow> string \<Rightarrow> string \<Rightarrow> string \<Rightarrow> bool \<Rightarrow> string gwact" where
  "admission E name key ip header transfer =
     thenS (guardS (\<not> (requiresKey name \<and> \<not> operationKey key)) invalid)
     (bindS (charge_address E name ip transfer) (\<lambda>allowed.
      thenS (guardS allowed (apierr 429 RATE_LIMITED))
      (bindS (getS g_draining) (\<lambda>draining.
       thenS (guardS (\<not> (draining \<and> name \<noteq> ''health'')) (apierr 503 SERVICE_UNAVAILABLE))
       (identify E name header transfer)))))"

definition wrap :: "env \<Rightarrow> string \<Rightarrow> string \<Rightarrow> string \<Rightarrow> string \<Rightarrow> bool \<Rightarrow> (string \<Rightarrow> 'a gwact) \<Rightarrow> 'a gwact" where
  "wrap E name key ip header transfer handler =
     bindS (admission E name key ip header transfer) handler"

section \<open>Only an authenticated request reaches its handler\<close>

text \<open>A step that changes nothing but the budgets.\<close>

definition only_rates :: "'a gwact \<Rightarrow> bool" where
  "only_rates m \<longleftrightarrow> (\<forall>g. \<exists>R. snd (m g) = g\<lparr>g_rates := R\<rparr>)"

named_theorems rates_rules \<open>steps that change nothing but the budgets\<close>

lemma only_ratesD: "only_rates m \<Longrightarrow> m g = (r, h) \<Longrightarrow> \<exists>R. h = g\<lparr>g_rates := R\<rparr>"
  unfolding only_rates_def by (metis snd_conv)

lemma only_rates_refl: "\<exists>R. g = g\<lparr>g_rates := R\<rparr>"
  by (rule exI [of _ "g_rates g"]) simp

lemma only_rates_return [rates_rules]: "only_rates (returnS x)"
  by (simp add: only_rates_def run_simps only_rates_refl)

lemma only_rates_guard [rates_rules]: "only_rates (guardS b e)"
  by (simp add: only_rates_def run_simps only_rates_refl)

lemma only_rates_get [rates_rules]: "only_rates (getS f)"
  by (simp add: only_rates_def run_simps only_rates_refl)

lemma only_rates_rate [rates_rules]: "only_rates (rateS E key limit)"
  by (auto simp: only_rates_def rateS_def)

lemma only_rates_bind [rates_rules]:
  assumes "only_rates m" and "\<And>x. only_rates (f x)"
  shows "only_rates (bindS m f)"
  unfolding only_rates_def
proof
  fix g
  obtain r h where m: "m g = (r, h)" by (cases "m g")
  from only_ratesD [OF assms(1) m] obtain R where h: "h = g\<lparr>g_rates := R\<rparr>" by auto
  show "\<exists>R. snd (bindS m f g) = g\<lparr>g_rates := R\<rparr>"
  proof (cases r)
    case (Inl e)
    then show ?thesis using m h by (auto simp: bindS_run)
  next
    case (Inr x)
    then show ?thesis using m h assms(2) [of x] by (auto simp: bindS_run only_rates_def dest!: spec [of _ h])
  qed
qed

lemma only_rates_then [rates_rules]: "only_rates m \<Longrightarrow> only_rates k \<Longrightarrow> only_rates (thenS m k)"
  by (simp add: thenS_def only_rates_bind)

lemma only_rates_if [rates_rules]: "only_rates m \<Longrightarrow> only_rates k \<Longrightarrow> only_rates (if b then m else k)"
  by simp

lemma only_rates_address [rates_rules]: "only_rates (charge_address E name ip transfer)"
  unfolding charge_address_def by (intro rates_rules)

lemma only_rates_user [rates_rules]: "only_rates (charge_user E name uid transfer)"
  unfolding charge_user_def by (intro rates_rules)

lemma authenticate_run:
  "authenticate E header d =
     (case find (live_token E (bearer header)) (t_user_tokens d) of
        Some t \<Rightarrow> if bearer header = [] then (Inl (apierr 401 UNAUTHENTICATED), d)
                  else (Inr (ut_user t, ut_expires t), d)
      | None \<Rightarrow> (Inl (apierr 401 UNAUTHENTICATED), d))"
  by (simp add: authenticate_def run_simps Let_def split: option.split)

lemma only_rates_authenticate [rates_rules]: "only_rates (dbS (authenticate E header))"
  by (auto simp: only_rates_def dbS_run authenticate_run only_rates_refl split: option.split)

lemma only_rates_identify [rates_rules]: "only_rates (identify E name header transfer)"
  unfolding identify_def by (intro rates_rules) (auto split: prod.split intro: rates_rules)

lemma only_rates_admission [rates_rules]: "only_rates (admission E name key ip header transfer)"
  unfolding admission_def by (intro rates_rules)

text \<open>Who the request is run for.\<close>

definition identified :: "env \<Rightarrow> db \<Rightarrow> string \<Rightarrow> string \<Rightarrow> string \<Rightarrow> bool" where
  "identified E d name header uid =
     (if isPublic name \<or> name = ''pollEnrollment'' then uid = []
      else bearer header \<noteq> [] \<and>
        has_row (\<lambda>t. live_token E (bearer header) t \<and> ut_user t = uid) (t_user_tokens d))"

lemma identify_Inr:
  "identify E name header transfer g = (Inr uid, h) \<Longrightarrow> identified E (g_db g) name header uid"
  by (auto simp: identify_def identified_def run_iff authenticate_run has_row_iff
      split: if_splits option.splits dest!: find_SomeD)

lemma identify_Inl:
  "identify E name header transfer g = (Inl e, h) \<Longrightarrow> e \<in> {apierr 401 UNAUTHENTICATED, apierr 429 RATE_LIMITED}"
  by (auto simp: identify_def charge_user_def bindS_run thenS_run run_simps authenticate_run rateS_def
      split: if_splits option.splits)

lemma admission_Inr:
  assumes "admission E name key ip header transfer g = (Inr uid, h)"
  shows "\<not> (requiresKey name \<and> \<not> operationKey key) \<and> \<not> (g_draining g \<and> name \<noteq> ''health'')
    \<and> identified E (g_db g) name header uid"
proof -
  from assms obtain a h' where "charge_address E name ip transfer g = (Inr a, h')"
    and *: "\<not> (requiresKey name \<and> \<not> operationKey key)" "\<not> (g_draining h' \<and> name \<noteq> ''health'')"
    "identify E name header transfer h' = (Inr uid, h)"
    by (auto simp: admission_def run_iff)
  moreover obtain R where "h' = g\<lparr>g_rates := R\<rparr>"
    using only_ratesD [OF only_rates_address] calculation(1) by blast
  ultimately show ?thesis using identify_Inr [OF *(3)] by auto
qed

lemma rateS_Inr: "\<exists>b h. rateS E key limit g = (Inr b, h)"
  by (simp add: rateS_def)

lemma charge_address_Inr: "\<exists>b h. charge_address E name ip transfer g = (Inr b, h)"
  by (auto simp: charge_address_def run_simps rateS_def)

lemma admission_Inl:
  assumes "admission E name key ip header transfer g = (Inl e, h)"
  shows "e \<in> {invalid, apierr 429 RATE_LIMITED, apierr 503 SERVICE_UNAVAILABLE, apierr 401 UNAUTHENTICATED}"
proof -
  obtain a h' where "charge_address E name ip transfer g = (Inr a, h')" using charge_address_Inr by blast
  with assms have "e \<in> {invalid, apierr 429 RATE_LIMITED, apierr 503 SERVICE_UNAVAILABLE}
      \<or> identify E name header transfer h' = (Inl e, h)"
    by (auto simp: admission_def bindS_run thenS_run run_simps split: if_splits)
  then show ?thesis using identify_Inl by blast
qed

text \<open>
  A handler runs only for a request with a well-formed idempotency key (where one is needed), while
  the server is not stopping, and, unless the operation is public, for the user of an unexpired and
  unrevoked token; it starts in the state the request found, budgets apart. A request that is refused
  before leaves everything but the budgets alone and gets one of four errors.
\<close>

theorem wrap_authenticates:
  assumes "wrap E name key ip header transfer handler g = (r, h)"
  shows "(\<exists>uid R. handler uid (g\<lparr>g_rates := R\<rparr>) = (r, h)
      \<and> \<not> (requiresKey name \<and> \<not> operationKey key) \<and> \<not> (g_draining g \<and> name \<noteq> ''health'')
      \<and> identified E (g_db g) name header uid)
    \<or> (\<exists>e R. r = Inl e \<and> h = g\<lparr>g_rates := R\<rparr> \<and>
         e \<in> {invalid, apierr 429 RATE_LIMITED, apierr 503 SERVICE_UNAVAILABLE, apierr 401 UNAUTHENTICATED})"
proof (cases "admission E name key ip header transfer g")
  case (Pair q k)
  from only_ratesD [OF only_rates_admission Pair] obtain R where k: "k = g\<lparr>g_rates := R\<rparr>" by blast
  show ?thesis
  proof (cases q)
    case (Inl e)
    then show ?thesis using Pair assms k admission_Inl [of E name key ip header transfer g e k]
      by (auto simp: wrap_def bindS_run)
  next
    case (Inr uid)
    then show ?thesis using Pair assms k admission_Inr [of E name key ip header transfer g uid k]
      by (auto simp: wrap_def bindS_run)
  qed
qed

definition gw0 :: gw where
  "gw0 = \<lparr>g_db = db0, g_nodes = [], g_clients = [], g_rates = [], g_draining = False\<rparr>"

theorem wrap_authenticates_witness:
  "\<exists>r h. wrap env0 ''bootstrap'' [] ''ip'' ''Bearer x'' False (\<lambda>uid. returnS uid) gw0 = (r, h)
     \<and> \<not> (\<exists>uid. r = Inr (uid :: string))"
proof -
  obtain r h where "wrap env0 ''bootstrap'' [] ''ip'' ''Bearer x'' False (\<lambda>uid. returnS uid) gw0 = (r :: err + string, h)"
    by (cases "wrap env0 ''bootstrap'' [] ''ip'' ''Bearer x'' False (\<lambda>uid. returnS uid) gw0 :: (err + string) \<times> gw")
  then show ?thesis
    using wrap_authenticates [of env0 "''bootstrap''" "[]" "''ip''" "''Bearer x''" False "\<lambda>uid. returnS uid" gw0 r h]
    by (auto simp: identified_def isPublic_def gw0_def db0_def has_row_def run_simps)
qed

end
