(* ===== verification/Realtime.thy ===== *)
theory Realtime
  imports Rates
begin

text \<open>
  \<open>internal/gateway/realtime.go\<close>: the connections. A socket is registered under the server's mutex
  (\<open>socket\<close>), its writer hands out the queued frames (\<open>writer\<close>), its reader runs the handlers
  (\<open>reader\<close>, \<open>clientFrame\<close>), and \<open>pump\<close> moves new changes and events into the queues of the
  watching clients. Each of these is one critical section of \<open>s.mu\<close> and so one step on the state.
\<close>

section \<open>Client connections\<close>

definition heartbeat_seconds :: "env \<Rightarrow> int" where
  "heartbeat_seconds E = cf_heartbeat (cfg E) div 1000000000"

definition clientS :: "nat \<Rightarrow> peer gwact" where
  "clientS cid = (\<lambda>g. case map_of (g_clients g) cid of None \<Rightarrow> (Inl NoRows, g) | Some p \<Rightarrow> (Inr p, g))"

definition set_client :: "nat \<Rightarrow> (peer \<Rightarrow> peer) \<Rightarrow> unit gwact" where
  "set_client cid f = modS (\<lambda>g. g\<lparr>g_clients := upd_key cid f (g_clients g)\<rparr>)"

definition error_body :: "err \<Rightarrow> string \<Rightarrow> op_error" where
  "error_body e trace = (case e of
       Api st code retry \<Rightarrow> \<lparr>oe_code = code, oe_retry = retry, oe_trace = trace\<rparr>
     | _ \<Rightarrow> \<lparr>oe_code = error_code_of e, oe_retry = False, oe_trace = trace\<rparr>)"

definition error_frame :: "env \<Rightarrow> err \<Rightarrow> frame dbact" where
  "error_frame E e = bindS (new_id E ''trace'') (\<lambda>t. returnS (F_error (error_body (normalizeError e) t)))"

section \<open>The writer\<close>

definition take_frame :: "peer \<Rightarrow> (outbound \<times> peer) option" where
  "take_frame p =
     (case pr_queue p of
        [] \<Rightarrow> None
      | x # q \<Rightarrow> Some (x, p\<lparr>pr_queue := q, pr_bytes := pr_bytes p - out_size x\<rparr>))"

fun command_of :: "frame \<Rightarrow> node_command option" where
  "command_of (F_command c) = Some c"
| "command_of f = None"

text \<open>
  One round of the writer of a node's socket: the frame it handed to the connection, if any;
  \<open>sent\<close> is what \<open>conn.Write\<close> said. A command that came too late fails instead of being written.
\<close>

definition writer_node :: "env \<Rightarrow> string \<Rightarrow> bool \<Rightarrow> frame option gwact" where
  "writer_node E nid sent =
     bindS (nodeS nid) (\<lambda>p.
     case take_frame p of
       None \<Rightarrow> returnS None
     | Some (x, q) \<Rightarrow>
         thenS (set_node nid (\<lambda>_. q))
         (bindS (getS (\<lambda>g. g_draining g \<or> pr_closed q)) (\<lambda>over.
          if over then thenS (set_node nid stop) (returnS None)
          else bindS (getS (\<lambda>g. case command_of (out_frame x) of
                   None \<Rightarrow> None
                 | Some c \<Rightarrow> if \<not> parse_time E (c_deadline c) > now E \<or> \<not> online E g nid
                            then Some (c_op c) else None)) (\<lambda>late.
            case late of
              Some op \<Rightarrow> bindS (tryS (dbS (failUnsent E (pr_user q) op (apierr 503 NODE_OFFLINE)))) (\<lambda>_. returnS None)
            | None \<Rightarrow> thenS (if sent then returnS () else set_node nid stop) (returnS (Some (out_frame x)))))))"

definition writer_client :: "nat \<Rightarrow> bool \<Rightarrow> frame option gwact" where
  "writer_client cid sent =
     bindS (clientS cid) (\<lambda>p.
     case take_frame p of
       None \<Rightarrow> returnS None
     | Some (x, q) \<Rightarrow>
         thenS (set_client cid (\<lambda>_. q))
         (bindS (getS (\<lambda>g. g_draining g \<or> pr_closed q)) (\<lambda>over.
          if over then thenS (set_client cid stop) (returnS None)
          else thenS (if sent then returnS () else set_client cid stop) (returnS (Some (out_frame x))))))"

section \<open>The pump\<close>

fun push_changes :: "env \<Rightarrow> change_row list \<Rightarrow> peer \<Rightarrow> peer dbact" where
  "push_changes E [] p = returnS p"
| "push_changes E (c # cs) p =
     (let (queued, q) = enqueue E (F_change c) p in
      if \<not> queued then returnS q
      else
        (let q' = q\<lparr>pr_revision := cg_revision c\<rparr> in
         if cg_type c = Rt_operation
         then bindS (tryS (operation (pr_user q') (cg_resource c))) (\<lambda>r.
                case r of
                  Inl e \<Rightarrow> push_changes E cs q'
                | Inr r \<Rightarrow> push_changes E cs (snd (enqueue E (F_operation r) q')))
         else push_changes E cs q'))"

fun push_events :: "env \<Rightarrow> string \<Rightarrow> event_row list \<Rightarrow> peer \<Rightarrow> peer" where
  "push_events E sid [] p = p"
| "push_events E sid (e # es) p =
     (let (queued, q) = enqueue E (F_event e) p in
      if \<not> queued then q
      else push_events E sid es (q\<lparr>pr_watched := upd_key sid (\<lambda>_. ev_seq e) (pr_watched q)\<rparr>))"

definition unwatch :: "string \<Rightarrow> peer \<Rightarrow> peer" where
  "unwatch sid p = p\<lparr>pr_watched := filter (\<lambda>(k, v). k \<noteq> sid) (pr_watched p)\<rparr>"

fun pump_sessions :: "env \<Rightarrow> (string \<times> int) list \<Rightarrow> peer \<Rightarrow> peer dbact" where
  "pump_sessions E [] p = returnS p"
| "pump_sessions E ((sid, after) # ws) p =
     bindS (tryS (ownSession (pr_user p) sid)) (\<lambda>owner.
     case owner of
       Inl e \<Rightarrow> returnS (stop p)
     | Inr nid \<Rightarrow>
         bindS (getS (\<lambda>d. find_session d sid)) (\<lambda>s.
         case s of
           None \<Rightarrow> returnS (stop p)
         | Some s \<Rightarrow>
             bindS (getS (readEvents E sid after (se_last_seq s) 200)) (\<lambda>events.
             case events of
               Inl e \<Rightarrow> bindS (error_frame E e) (\<lambda>f. pump_sessions E ws (unwatch sid (snd (enqueue E f p))))
             | Inr es \<Rightarrow> pump_sessions E ws (push_events E sid es p))))"

definition pump_client :: "env \<Rightarrow> peer \<Rightarrow> peer dbact" where
  "pump_client E p =
     (if \<not> pr_watching p \<or> pr_closed p then returnS p
      else bindS (getS (\<lambda>d. find (\<lambda>u. us_id u = pr_user p) (t_users d))) (\<lambda>u.
        case u of
          None \<Rightarrow> returnS (stop p)
        | Some u \<Rightarrow>
            bindS (getS (readChanges (pr_user p) (pr_revision p) (us_last_rev u) 200)) (\<lambda>changes.
            case changes of
              Inl e \<Rightarrow> bindS (error_frame E e) (\<lambda>f. returnS ((snd (enqueue E f p))\<lparr>pr_watching := False\<rparr>))
            | Inr cs \<Rightarrow> bindS (push_changes E cs p) (\<lambda>q. pump_sessions E (pr_watched q) q))))"

definition pump :: "env \<Rightarrow> unit gwact" where
  "pump E =
     bindS (getS (\<lambda>g. map fst (g_clients g))) (\<lambda>cids.
     forS cids (\<lambda>cid.
       bindS (clientS cid) (\<lambda>p.
       bindS (dbS (pump_client E p)) (\<lambda>q. set_client cid (\<lambda>_. q)))))"

section \<open>Messages of a client\<close>

datatype client_message =
    Cm_heartbeat string
  | Cm_unwatch "string list"
  | Cm_watch int "(string \<times> int) list"

definition check_watch ::
  "string \<Rightarrow> string \<times> int \<Rightarrow> (string \<times> int) list \<Rightarrow> (string \<times> int) list dbact" where
  "check_watch uid q watched =
     (case q of (sid, after) \<Rightarrow>
        thenS (guardS (sid \<notin> fst ` set watched) invalid)
        (bindS (ownSession uid sid) (\<lambda>_.
         bindS (oneS (\<lambda>d. find_session d sid)) (\<lambda>s.
         thenS (guardS (\<not> after > se_last_seq s) (apierr 409 CURSOR_AHEAD))
         (thenS (guardS (se_history s \<noteq> Purged) (apierr 410 HISTORY_PURGED))
         (thenS (guardS (\<not> after < se_earliest s - 1) (apierr 410 CURSOR_EXPIRED))
         (returnS (watched @ [(sid, se_last_seq s)]))))))))"

definition watch :: "env \<Rightarrow> string \<Rightarrow> int \<Rightarrow> (string \<times> int) list \<Rightarrow> (int \<times> (string \<times> int) list) dbact" where
  "watch E uid revision sessions =
     bindS (oneS (\<lambda>d. find (\<lambda>u. us_id u = uid) (t_users d))) (\<lambda>u.
     let rev' = us_last_rev u in
     thenS (guardS (\<not> revision > rev') (apierr 409 CURSOR_AHEAD))
     (bindS (liftS (readChanges uid revision rev' 1)) (\<lambda>_.
      bindS (foldS (check_watch uid) sessions []) (\<lambda>watched.
      returnS (rev', watched)))))"

fun clientFrame :: "env \<Rightarrow> nat \<Rightarrow> client_message \<Rightarrow> unit gwact" where
  "clientFrame E cid (Cm_heartbeat nonce) = set_client cid (\<lambda>p. snd (enqueue E (F_heartbeat nonce) p))"
| "clientFrame E cid (Cm_unwatch sids) =
     set_client cid (\<lambda>p. p\<lparr>pr_watched := filter (\<lambda>(k, v). k \<notin> set sids) (pr_watched p)\<rparr>)"
| "clientFrame E cid (Cm_watch revision sessions) =
     bindS (clientS cid) (\<lambda>p.
     bindS (dbS (watch E (pr_user p) revision sessions)) (\<lambda>(rev', watched).
     set_client cid (\<lambda>p. snd (enqueue E (F_ready rev' watched (heartbeat_seconds E))
       (p\<lparr>pr_watched := watched, pr_revision := rev', pr_watching := True\<rparr>)))))"

section \<open>Registration\<close>

definition new_peer :: "env \<Rightarrow> string \<Rightarrow> string \<Rightarrow> string \<Rightarrow> int \<Rightarrow> int \<Rightarrow> string list \<Rightarrow> peer" where
  "new_peer E uid nid token epoch expiry fence =
     \<lparr>pr_user = uid, pr_node = nid, pr_token = token, pr_epoch = epoch, pr_expires = expiry,
      pr_last_seen = now E, pr_queue = [], pr_bytes = 0, pr_closed = False, pr_revision = 0,
      pr_watching = False, pr_watched = [], pr_inventory = [], pr_projects = [], pr_agents = [],
      pr_complete = False, pr_ready = False, pr_needs_sync = fence\<rparr>"

definition hour :: int where
  "hour = 60 * minute"

definition connections :: "gw \<Rightarrow> nat" where
  "connections g = length (g_nodes g) + length (g_clients g)"

text \<open>Origin, attempts and capacity, before the identity of the connection is looked at.\<close>

definition admit_socket :: "env \<Rightarrow> string \<Rightarrow> string \<Rightarrow> unit gwact" where
  "admit_socket E origin ip =
     thenS (guardS (origin = [] \<or> origin \<in> set (cf_origins (cfg E))) (apierr 403 FORBIDDEN))
     (bindS (rateS E (''socket:'' @ ip) 120) (\<lambda>allowed.
      thenS (guardS allowed (apierr 429 RATE_LIMITED))
      (bindS (getS (\<lambda>g. g_draining g \<or> connections g \<ge> cf_max_connections (cfg E))) (\<lambda>full.
       guardS (\<not> full) (apierr 503 SERVICE_UNAVAILABLE)))))"

definition node_identity :: "env \<Rightarrow> string \<Rightarrow> db \<Rightarrow> (string \<times> string) option" where
  "node_identity E token d =
     (case find (\<lambda>t. nk_hash t = token_hash E token \<and> nk_expires t > now E \<and> nk_revoked t = None
            \<and> has_row (\<lambda>n. nd_id n = nk_node t \<and> nk_credential t = nd_credential n \<and> nd_revoked n = None) (t_nodes d)
            \<and> has_row (\<lambda>a. ac_node a = nk_node t \<and> ac_revoked a = None) (t_access d)) (t_node_tokens d) of
        None \<Rightarrow> None
      | Some t \<Rightarrow> map_option (\<lambda>a. (nk_node t, ac_user a))
                   (find (\<lambda>a. ac_node a = nk_node t \<and> ac_revoked a = None) (t_access d)))"

definition next_epoch :: "env \<Rightarrow> string \<Rightarrow> int dbact" where
  "next_epoch E nid =
     bindS (oneS (\<lambda>d. find (\<lambda>n. nd_id n = nid) (t_nodes d))) (\<lambda>n.
     thenS (modS (\<lambda>d. d\<lparr>t_nodes := upd_rows (\<lambda>n. nd_id n = nid)
        (\<lambda>n. n\<lparr>nd_epoch := nd_epoch n + 1, nd_revision := nd_revision n + 1, nd_last_seen := Some (now E)\<rparr>)
        (t_nodes d)\<rparr>))
     (returnS (nd_epoch n + 1)))"

text \<open>The sessions that a node has to report before it is ready.\<close>

definition fenced :: "db \<Rightarrow> string \<Rightarrow> string list" where
  "fenced d nid =
     map se_id (filter (\<lambda>r. se_node r = nid \<and> se_state r \<noteq> S_closed \<and> se_history r = Available \<and>
        \<not> (se_last_source r = 0 \<and> se_state r = S_failed \<and> failed_create d (se_id r))) (t_sessions d))"

definition open_ops :: "db \<Rightarrow> string \<Rightarrow> string list" where
  "open_ops d nid =
     map op_id (take 200 (sort_key op_created
       (filter (\<lambda>r. op_node r = Some nid \<and> unresolved (op_state r)) (t_ops d))))"

definition connect_node :: "env \<Rightarrow> string \<Rightarrow> string \<Rightarrow> string \<Rightarrow> string gwact" where
  "connect_node E origin ip header =
     thenS (admit_socket E origin ip)
     (bindS (getS (\<lambda>g. node_identity E (bearer header) (g_db g))) (\<lambda>who.
      case who of
        None \<Rightarrow> failS (apierr 401 UNAUTHENTICATED)
      | Some (nid, uid) \<Rightarrow>
          bindS (dbS (transaction uid (next_epoch E nid))) (\<lambda>epoch.
          bindS (getS (\<lambda>g. (fenced (g_db g) nid, open_ops (g_db g) nid))) (\<lambda>(fence, ops).
          thenS (modS (\<lambda>g. g\<lparr>g_nodes := (nid, new_peer E uid nid (bearer header) epoch (now E + hour) fence)
                    # filter (\<lambda>(k, p). k \<noteq> nid) (g_nodes g)\<rparr>))
          (thenS (send_node E nid (F_node_ready nid epoch (heartbeat_seconds E) (timestamp E (now E))))
          (thenS (forS ops (\<lambda>op. send_node E nid (F_command_query epoch op)))
          (returnS nid)))))))"

definition fresh_client :: "gw \<Rightarrow> nat" where
  "fresh_client g = Suc (foldr max (map fst (g_clients g)) 0)"

definition connect_client :: "env \<Rightarrow> string \<Rightarrow> string \<Rightarrow> string \<Rightarrow> nat gwact" where
  "connect_client E origin ip header =
     thenS (admit_socket E origin ip)
     (bindS (tryS (dbS (authenticate E header))) (\<lambda>who.
      bindS (getS (\<lambda>g. length (filter (\<lambda>(c, p). pr_user p = (case who of Inl e \<Rightarrow> [] | Inr (uid, x) \<Rightarrow> uid))
                          (g_clients g)))) (\<lambda>count.
      thenS (guardS (\<not> count \<ge> 3) (apierr 429 RATE_LIMITED))
      (case who of
         Inl e \<Rightarrow> failS (apierr 401 UNAUTHENTICATED)
       | Inr (uid, expiry) \<Rightarrow>
           bindS (getS fresh_client) (\<lambda>cid.
           thenS (modS (\<lambda>g. g\<lparr>g_clients := g_clients g @ [(cid, new_peer E uid [] (bearer header) 0 expiry [])]\<rparr>))
             (returnS cid))))))"

section \<open>The reader\<close>

text \<open>The result is whether the reader goes on; if not, it leaves through \<open>node_exit\<close>.\<close>

definition node_receive :: "env \<Rightarrow> string \<Rightarrow> int \<Rightarrow> node_message \<Rightarrow> bool gwact" where
  "node_receive E nid epoch m =
     bindS (nodeS nid) (\<lambda>p.
     if pr_closed p then returnS False
     else bindS (tryS (if epoch \<noteq> pr_epoch p then failS (apierr 409 PROTOCOL_UNSUPPORTED)
                       else nodeFrame E nid m)) (\<lambda>r.
       case r of
         Inr _ \<Rightarrow> thenS (set_node nid (\<lambda>p. p\<lparr>pr_last_seen := now E\<rparr>)) (thenS (pump E) (returnS True))
       | Inl e \<Rightarrow> bindS (dbS (error_frame E e)) (\<lambda>f.
           thenS (send_node E nid f) (returnS (error_code_of (normalizeError e) \<noteq> PROTOCOL_UNSUPPORTED)))))"

definition client_receive :: "env \<Rightarrow> nat \<Rightarrow> client_message \<Rightarrow> bool gwact" where
  "client_receive E cid m =
     bindS (clientS cid) (\<lambda>p.
     if pr_closed p then returnS False
     else bindS (tryS (clientFrame E cid m)) (\<lambda>r.
       case r of
         Inr _ \<Rightarrow> thenS (set_client cid (\<lambda>p. p\<lparr>pr_last_seen := now E\<rparr>)) (thenS (pump E) (returnS True))
       | Inl e \<Rightarrow> bindS (dbS (error_frame E e)) (\<lambda>f.
           thenS (set_client cid (\<lambda>p. snd (enqueue E f p)))
             (returnS (error_code_of (normalizeError e) \<noteq> PROTOCOL_UNSUPPORTED)))))"

definition nodeDisconnected :: "env \<Rightarrow> peer \<Rightarrow> unit dbact" where
  "nodeDisconnected E p =
     transaction (pr_user p)
       (bindS (getS (\<lambda>d. find (\<lambda>n. nd_id n = pr_node p \<and> nd_epoch n = pr_epoch p) (t_nodes d))) (\<lambda>n.
        case n of
          None \<Rightarrow> returnS ()
        | Some n \<Rightarrow>
            thenS (modS (\<lambda>d. d\<lparr>t_nodes := upd_rows (\<lambda>n. nd_id n = pr_node p \<and> nd_epoch n = pr_epoch p)
                    (\<lambda>n. n\<lparr>nd_revision := nd_revision n + 1\<rparr>) (t_nodes d)\<rparr>))
            (change E (pr_user p) Rt_node (pr_node p) Upsert (nd_revision n + 1))))"

definition node_exit :: "env \<Rightarrow> string \<Rightarrow> unit gwact" where
  "node_exit E nid =
     bindS (nodeS nid) (\<lambda>p.
     thenS (modS (\<lambda>g. g\<lparr>g_nodes := filter (\<lambda>(k, p). k \<noteq> nid) (g_nodes g)\<rparr>))
     (bindS (tryS (dbS (nodeDisconnected E p))) (\<lambda>_. pump E)))"

definition client_exit :: "nat \<Rightarrow> unit gwact" where
  "client_exit cid = modS (\<lambda>g. g\<lparr>g_clients := filter (\<lambda>(k, p). k \<noteq> cid) (g_clients g)\<rparr>)"

section \<open>The logs are kept\<close>

lemma glogs_client [logs_rules]: "keeps (gstore_ok T) (clientS cid)"
  by (simp add: keeps_def clientS_def split: option.split)

lemma glogs_set_client [logs_rules]: "keeps (gstore_ok T) (set_client cid f)"
  by (simp add: keeps_def set_client_def modS_run)

lemma glogs_mod [logs_rules]: "(\<And>g. g_db (f g) = g_db g) \<Longrightarrow> keeps (gstore_ok T) (modS f)"
  by (simp add: keeps_def modS_run)

lemma glogs_rate [logs_rules]: "keeps (gstore_ok (dbnow E)) (rateS E key limit)"
  by (simp add: keeps_def rateS_def)

lemma keeps_authenticate [logs_rules]: "keeps (store_ok (dbnow E)) (authenticate E header)"
  unfolding authenticate_def by (intro keeps_rules)

lemma keeps_operation [logs_rules]: "keeps (store_ok T) (operation uid op)"
  unfolding operation_def by (intro keeps_rules)

lemma keeps_error_frame [logs_rules]: "keeps (store_ok (dbnow E)) (error_frame E e)"
  unfolding error_frame_def by (intro logs_rules keeps_rules)

lemma logs_push_changes [logs_rules]: "keeps (store_ok (dbnow E)) (push_changes E cs p)"
proof (induction cs arbitrary: p)
  case Nil
  show ?case by (simp only: push_changes.simps keeps_return)
next
  case (Cons c cs)
  show ?case unfolding push_changes.simps Let_def split_beta
    by (intro keeps_rules logs_rules Cons.IH)
qed

lemma logs_pump_sessions [logs_rules]: "keeps (store_ok (dbnow E)) (pump_sessions E ws p)"
proof (induction ws arbitrary: p)
  case Nil
  show ?case by (simp only: pump_sessions.simps keeps_return)
next
  case (Cons w ws)
  obtain sid after where "w = (sid, after)" by (cases w)
  then show ?case
    by (simp only: pump_sessions.simps) (intro keeps_rules logs_rules keeps_preserves Cons.IH)
qed

lemma logs_pump_client [logs_rules]: "keeps (store_ok (dbnow E)) (pump_client E p)"
  unfolding pump_client_def by (intro logs_rules keeps_rules)

lemma logs_pump [logs_rules]: "keeps (gstore_ok (dbnow E)) (pump E)"
  unfolding pump_def by (intro logs_rules keeps_rules)

lemma logs_writer_node [logs_rules]: "keeps (gstore_ok (dbnow E)) (writer_node E nid sent)"
  unfolding writer_node_def by (intro logs_rules keeps_rules)

lemma logs_writer_client [logs_rules]: "keeps (gstore_ok T) (writer_client cid sent)"
  unfolding writer_client_def by (intro logs_rules keeps_rules)

lemma keeps_liftS [keeps_rules]: "keeps I (liftS f)"
  by (simp add: keeps_def liftS_run)

lemma logs_watch [logs_rules]: "keeps (store_ok (dbnow E)) (watch E uid revision sessions)"
  unfolding watch_def check_watch_def by (intro logs_rules keeps_rules)

lemma logs_clientFrame [logs_rules]: "keeps (gstore_ok (dbnow E)) (clientFrame E cid m)"
  by (cases m) (auto intro!: logs_rules keeps_rules)

lemma logs_admit_socket [logs_rules]: "keeps (gstore_ok (dbnow E)) (admit_socket E origin ip)"
  unfolding admit_socket_def by (intro logs_rules keeps_rules)

lemma logs_next_epoch [logs_rules]: "preserves (store_ok (dbnow E)) (next_epoch E nid)"
  unfolding next_epoch_def by (intro logs_rules keeps_rules logs_mod) simp_all

lemma logs_connect_node [logs_rules]: "keeps (gstore_ok (dbnow E)) (connect_node E origin ip header)"
  unfolding connect_node_def by (intro logs_rules keeps_rules) simp_all

lemma logs_connect_client [logs_rules]: "keeps (gstore_ok (dbnow E)) (connect_client E origin ip header)"
  unfolding connect_client_def by (intro logs_rules keeps_rules) simp_all

lemma logs_node_receive [logs_rules]: "keeps (gstore_ok (dbnow E)) (node_receive E nid epoch m)"
  unfolding node_receive_def by (intro logs_rules keeps_rules)

lemma logs_client_receive [logs_rules]: "keeps (gstore_ok (dbnow E)) (client_receive E cid m)"
  unfolding client_receive_def by (intro logs_rules keeps_rules)

lemma logs_nodeDisconnected [logs_rules]: "keeps (store_ok (dbnow E)) (nodeDisconnected E p)"
  unfolding nodeDisconnected_def by (intro logs_rules keeps_rules logs_mod) simp_all

lemma logs_node_exit [logs_rules]: "keeps (gstore_ok (dbnow E)) (node_exit E nid)"
  unfolding node_exit_def by (intro logs_rules keeps_rules) simp_all

lemma logs_client_exit [logs_rules]: "keeps (gstore_ok T) (client_exit cid)"
  unfolding client_exit_def by (intro logs_rules keeps_rules) simp_all

end
