(* ===== verification/Lifecycle.thy ===== *)
theory Lifecycle
  imports Realtime
begin

text \<open>
  \<open>internal/gateway/maintenance.go\<close>: what happens to unsettled operations at a restart, at a
  revocation and at their deadline, the retention of content and metadata, and the ticker that
  drives it (\<open>loop\<close>). The foreign keys that refer to \<open>operations\<close> are part of this model, since
  its deletions meet them.
\<close>

section \<open>Unsettled operations\<close>

definition outbox_of :: "db \<Rightarrow> op_row \<Rightarrow> outbox_state option" where
  "outbox_of d r = map_option ob_state (find (\<lambda>x. ob_user x = op_user r \<and> ob_op x = op_id r) (t_outbox d))"

text \<open>A command that may have reached the node: it stays open until the node's journal is asked.\<close>

definition make_uncertain :: "env \<Rightarrow> string \<Rightarrow> string \<Rightarrow> unit dbact" where
  "make_uncertain E uid op =
     transaction uid
       (thenS (set_outbox uid op (\<lambda>st. st \<noteq> Out_delivered) Out_uncertain)
              (finishOp E uid op Op_reconciling None None))"

definition recoverOperations :: "env \<Rightarrow> unit dbact" where
  "recoverOperations E =
     bindS (getS (\<lambda>d. map (\<lambda>r. (r, outbox_of d r)) (filter (\<lambda>r. unresolved (op_state r)) (t_ops d)))) (\<lambda>rows.
     forS rows (\<lambda>(r, outbox).
       if outbox = Some Out_pending
       then failUnsent E (op_user r) (op_id r) (apierr 503 SERVICE_UNAVAILABLE)
       else make_uncertain E (op_user r) (op_id r)))"

definition invalidateNodeOperations :: "env \<Rightarrow> string \<Rightarrow> string \<Rightarrow> unit dbact" where
  "invalidateNodeOperations E uid nid =
     bindS (getS (\<lambda>d. map (\<lambda>r. (r, outbox_of d r))
        (filter (\<lambda>r. op_user r = uid \<and> op_node r = Some nid \<and> unresolved (op_state r) \<and> outbox_of d r \<noteq> None)
          (t_ops d)))) (\<lambda>rows.
     forS rows (\<lambda>(r, outbox).
       if outbox = Some Out_pending
       then failUnsent E uid (op_id r) (apierr 409 FORBIDDEN)
       else transaction uid (finishOp E uid (op_id r) Op_reconciling None None)))"

definition overdue :: "env \<Rightarrow> db \<Rightarrow> op_row list" where
  "overdue E d =
     take 100 (sort_key op_deadline
       (filter (\<lambda>r. (op_state r = Op_accepted \<or> op_state r = Op_delivered) \<and> op_deadline r \<le> now E
                    \<and> outbox_of d r \<noteq> None) (t_ops d)))"

definition query_node :: "env \<Rightarrow> op_row \<Rightarrow> unit gwact" where
  "query_node E r =
     bindS (getS (\<lambda>g. map_of (g_nodes g) (str (op_node r)))) (\<lambda>p.
     case p of
       None \<Rightarrow> returnS ()
     | Some p \<Rightarrow> send_node E (str (op_node r)) (F_command_query (pr_epoch p) (op_id r)))"

definition expireOperations :: "env \<Rightarrow> unit gwact" where
  "expireOperations E =
     bindS (getS (\<lambda>g. map (\<lambda>r. (r, outbox_of (g_db g) r)) (overdue E (g_db g)))) (\<lambda>rows.
     forS rows (\<lambda>(r, outbox).
       if outbox = Some Out_pending
       then dbS (failUnsent E (op_user r) (op_id r) (apierr 503 SERVICE_UNAVAILABLE))
       else thenS (dbS (make_uncertain E (op_user r) (op_id r))) (query_node E r)))"

section \<open>Retention\<close>

definition expire_request :: "env \<Rightarrow> string \<Rightarrow> string \<Rightarrow> unit dbact" where
  "expire_request E uid rid =
     transaction uid
       (bindS (getS (\<lambda>d. find (\<lambda>r. rq_id r = rid \<and> rq_state r = R_pending) (t_requests d))) (\<lambda>r.
        case r of
          None \<Rightarrow> returnS ()
        | Some r \<Rightarrow>
            thenS (modS (\<lambda>d. d\<lparr>t_requests := upd_rows (\<lambda>r. rq_id r = rid \<and> rq_state r = R_pending)
                    (\<lambda>r. r\<lparr>rq_state := R_expired, rq_revision := rq_revision r + 1\<rparr>) (t_requests d)\<rparr>))
            (thenS (change E uid Rt_request rid Upsert (rq_revision r + 1))
            (announce_request E uid rid))))"

definition expire_requests :: "env \<Rightarrow> unit dbact" where
  "expire_requests E =
     bindS (getS (\<lambda>d. take 100 (filter (\<lambda>r. rq_state r = R_pending \<and> rq_expires r \<le> now E) (t_requests d)))) (\<lambda>rows.
     forS rows (\<lambda>r. expire_request E (rq_user r) (rq_id r)))"

definition current_turn :: "db \<Rightarrow> session_row \<Rightarrow> turn_row option" where
  "current_turn d s = find (\<lambda>t. Some (tn_id t) = se_turn s) (t_turns d)"

definition ended_before :: "db \<Rightarrow> session_row \<Rightarrow> int \<Rightarrow> bool" where
  "ended_before d s cutoff =
     (case current_turn d s of
        None \<Rightarrow> False
      | Some t \<Rightarrow> (case tn_ended t of None \<Rightarrow> False | Some e \<Rightarrow> e < cutoff))"

definition open_work :: "db \<Rightarrow> string \<Rightarrow> bool" where
  "open_work d sid \<longleftrightarrow> has_row (\<lambda>r. op_session r = Some sid \<and> unresolved (op_state r)) (t_ops d)"

definition purgeable :: "env \<Rightarrow> db \<Rightarrow> session_row \<Rightarrow> bool" where
  "purgeable E d s \<longleftrightarrow>
     se_history s = Available \<and> se_state s \<in> {S_completed, S_cancelled, S_failed, S_closed} \<and>
     ended_before d s (now E - cf_content_retention (cfg E)) \<and> \<not> open_work d (se_id s) \<and>
     open_queue d (se_id s) = []"

definition title_purged :: string where
  "title_purged = map char_of ([229, 142, 134, 229, 143, 178, 230, 173, 163, 230, 150, 135, 229, 183, 178, 230, 184, 133, 231, 144, 134] :: nat list)"

text \<open>The content of a session: everything but its row, its turns, operations and receipts.\<close>

definition delete_content :: "string \<Rightarrow> db \<Rightarrow> db" where
  "delete_content sid d = d\<lparr>
     t_checkpoint_items := del_rows (\<lambda>i. has_row (\<lambda>c. cp_id c = ci_checkpoint i \<and> cp_session c = sid)
        (t_checkpoints d)) (t_checkpoint_items d),
     t_checkpoints := del_rows (\<lambda>c. cp_session c = sid) (t_checkpoints d),
     t_timeline := del_rows (\<lambda>r. tl_session r = sid) (t_timeline d),
     t_diffs := del_rows (\<lambda>r. dr_session r = sid) (t_diffs d),
     t_events := del_rows (\<lambda>e. ev_session e = sid) (t_events d),
     t_requests := del_rows (\<lambda>r. rq_session r = sid) (t_requests d),
     t_queue := del_rows (\<lambda>q. qu_session q = sid) (t_queue d)\<rparr>"

definition purge_session :: "env \<Rightarrow> string \<Rightarrow> string \<Rightarrow> unit dbact" where
  "purge_session E uid sid =
     transaction uid
       (bindS (oneS (\<lambda>d. find_session d sid)) (\<lambda>s.
        thenS (modS (\<lambda>d. (delete_content sid d)\<lparr>t_sessions := upd_rows (\<lambda>r. se_id r = sid)
                 (\<lambda>r. r\<lparr>se_history := Purged, se_earliest := se_last_seq r + 1, se_title := title_purged,
                        se_revision := se_revision r + 1\<rparr>) (t_sessions d)\<rparr>))
        (change E uid Rt_session sid Upsert (se_revision s + 1))))"

definition purge_sessions :: "env \<Rightarrow> unit dbact" where
  "purge_sessions E =
     bindS (getS (\<lambda>d. take 50 (filter (purgeable E d) (t_sessions d)))) (\<lambda>rows.
     forS rows (\<lambda>s. purge_session E (se_user s) (se_id s)))"

definition retirable :: "env \<Rightarrow> db \<Rightarrow> session_row \<Rightarrow> bool" where
  "retirable E d s \<longleftrightarrow>
     se_history s = Purged \<and> ended_before d s (now E - cf_metadata_retention (cfg E)) \<and>
     \<not> has_row (\<lambda>child. se_parent child = Some (se_id s)) (t_sessions d) \<and> \<not> open_work d (se_id s)"

text \<open>A row of another table that refers to the operation; none of these keys cascades.\<close>

definition referenced :: "db \<Rightarrow> op_row \<Rightarrow> bool" where
  "referenced d r \<longleftrightarrow>
     has_row (\<lambda>x. ob_user x = op_user r \<and> ob_op x = op_id r) (t_outbox d)
     \<or> has_row (\<lambda>q. qu_user q = op_user r \<and> qu_op q = op_id r) (t_queue d)
     \<or> has_row (\<lambda>q. rq_user q = op_user r \<and> rq_decision_op q = Some (op_id r)) (t_requests d)
     \<or> has_row (\<lambda>c. sc_owner c = op_user r \<and> sc_owner_op c = op_id r) (t_share_commands d)"

definition delete_ops :: "(op_row \<Rightarrow> bool) \<Rightarrow> unit dbact" where
  "delete_ops P =
     bindS (getS (\<lambda>d. has_row (\<lambda>r. P r \<and> referenced d r) (t_ops d))) (\<lambda>refused.
     thenS (guardS (\<not> refused) DBError) (modS (\<lambda>d. d\<lparr>t_ops := del_rows P (t_ops d)\<rparr>)))"

text \<open>The rows of a session that stop its deletion; shares go with it, and their commands with them.\<close>

definition session_referenced :: "db \<Rightarrow> string \<Rightarrow> bool" where
  "session_referenced d sid \<longleftrightarrow>
     has_row (\<lambda>e. ev_session e = sid) (t_events d) \<or> has_row (\<lambda>r. tl_session r = sid) (t_timeline d)
     \<or> has_row (\<lambda>c. cp_session c = sid) (t_checkpoints d) \<or> has_row (\<lambda>f. dr_session f = sid) (t_diffs d)
     \<or> has_row (\<lambda>q. qu_session q = sid) (t_queue d) \<or> has_row (\<lambda>q. rq_session q = sid) (t_requests d)
     \<or> has_row (\<lambda>r. op_session r = Some sid) (t_ops d)
     \<or> has_row (\<lambda>r. se_id r \<noteq> sid \<and> se_parent r = Some sid) (t_sessions d)"

definition delete_session :: "string \<Rightarrow> unit dbact" where
  "delete_session sid =
     bindS (getS (\<lambda>d. session_referenced d sid)) (\<lambda>refused.
     thenS (guardS (\<not> refused) DBError)
     (modS (\<lambda>d. d\<lparr>
        t_turns := del_rows (\<lambda>t. tn_session t = sid) (t_turns d),
        t_sessions := del_rows (\<lambda>r. se_id r = sid) (t_sessions d),
        t_share_commands := del_rows (\<lambda>c. has_row (\<lambda>g. sh_id g = sc_share c \<and> sh_session g = sid) (t_shares d))
           (t_share_commands d),
        t_shares := del_rows (\<lambda>g. sh_session g = sid) (t_shares d)\<rparr>)))"

definition retire_session :: "env \<Rightarrow> string \<Rightarrow> string \<Rightarrow> int \<Rightarrow> unit dbact" where
  "retire_session E uid sid revision =
     transaction uid
       (thenS (modS (\<lambda>d. d\<lparr>
          t_pushes := del_rows (\<lambda>p. has_row (\<lambda>n. nt_id n = pu_notice p \<and> nt_session n = Some sid) (t_notices d)) (t_pushes d),
          t_notices := del_rows (\<lambda>n. nt_session n = Some sid) (t_notices d),
          t_receipts := del_rows (\<lambda>r. rc_session r = sid) (t_receipts d),
          t_outbox := del_rows (\<lambda>x. has_row (\<lambda>r. op_user r = ob_user x \<and> op_id r = ob_op x
                         \<and> op_session r = Some sid) (t_ops d)) (t_outbox d)\<rparr>))
       (thenS (delete_ops (\<lambda>r. op_session r = Some sid))
       (thenS (delete_session sid)
       (change E uid Rt_session sid Remove (revision + 1)))))"

definition retire_sessions :: "env \<Rightarrow> unit dbact" where
  "retire_sessions E =
     bindS (getS (\<lambda>d. take 50 (filter (retirable E d) (t_sessions d)))) (\<lambda>rows.
     forS rows (\<lambda>s. retire_session E (se_user s) (se_id s) (se_revision s)))"

definition day :: int where
  "day = 24 * hour"

text \<open>A settled command whose payload nothing will ask for again.\<close>

definition forgettable :: "env \<Rightarrow> db \<Rightarrow> op_row \<Rightarrow> bool" where
  "forgettable E d r \<longleftrightarrow>
     (case op_payload r of
        None \<Rightarrow> False
      | Some c \<Rightarrow>
          settled (op_state r) \<and> op_updated r < dbnow E - day \<and>
          \<not> has_row (\<lambda>q. qu_user q = op_user r \<and> qu_op q = op_id r \<and> qu_state q \<in> {Q_queued, Q_starting}) (t_queue d) \<and>
          \<not> ((op_kind r = K_send \<or> op_kind r = K_native \<and> reserving_payload (c_payload c)) \<and>
             op_state r = Op_confirmed \<and> \<not> has_row (\<lambda>t. tn_id t = c_next_turn c) (t_turns d)))"

definition sweep :: "env \<Rightarrow> db \<Rightarrow> db" where
  "sweep E d = d\<lparr>
     t_checkpoint_items := del_rows (\<lambda>i. has_row (\<lambda>c. cp_id c = ci_checkpoint i \<and> cp_expires c < dbnow E)
        (t_checkpoints d)) (t_checkpoint_items d),
     t_checkpoints := del_rows (\<lambda>c. cp_expires c < dbnow E) (t_checkpoints d),
     t_tickets := del_rows (\<lambda>k. tk_expires k < dbnow E - day) (t_tickets d),
     t_enrollments := del_rows (\<lambda>n. el_expires n < dbnow E - day \<and>
        \<not> has_row (\<lambda>k. tk_enrollment k = el_id n \<and> \<not> tk_expires k < dbnow E - day) (t_tickets d)) (t_enrollments d),
     t_challenges := del_rows (\<lambda>c. cl_expires c < dbnow E - day) (t_challenges d),
     t_user_tokens := del_rows (\<lambda>t. ut_expires t < dbnow E - day) (t_user_tokens d),
     t_node_tokens := del_rows (\<lambda>t. nk_expires t < dbnow E - day) (t_node_tokens d),
     t_ops := upd_rows (forgettable E d) (\<lambda>r. r\<lparr>op_payload := None\<rparr>) (t_ops d)\<rparr>"

definition prune_changes :: "env \<Rightarrow> db \<Rightarrow> db" where
  "prune_changes E d = d\<lparr>t_changes := del_rows (\<lambda>c. cg_created c < now E - cf_changes_retention (cfg E)) (t_changes d)\<rparr>"

definition old_op :: "env \<Rightarrow> op_row \<Rightarrow> bool" where
  "old_op E r \<longleftrightarrow> op_session r = None \<and> settled (op_state r) \<and> op_updated r < now E - cf_metadata_retention (cfg E)"

definition maintenance :: "env \<Rightarrow> unit dbact" where
  "maintenance E =
     thenS (expire_requests E)
     (thenS (purge_sessions E)
     (thenS (retire_sessions E)
     (thenS (modS (sweep E))
     (thenS (modS (prune_changes E))
     (thenS (modS (\<lambda>d. d\<lparr>t_audits := del_rows (\<lambda>a. au_created a < now E - cf_metadata_retention (cfg E)) (t_audits d)\<rparr>))
     (thenS (delete_ops (old_op E))
     (modS (\<lambda>d. d\<lparr>t_receipts := del_rows (\<lambda>r. rc_created r < now E - cf_metadata_retention (cfg E)) (t_receipts d)\<rparr>))))))))"

section \<open>The ticker\<close>

definition stale :: "env \<Rightarrow> peer \<Rightarrow> bool" where
  "stale E p \<longleftrightarrow> \<not> pr_expires p > now E \<or> now E - pr_last_seen p \<ge> cf_offline_after (cfg E)"

definition stop_where :: "(peer \<Rightarrow> bool) \<Rightarrow> gw \<Rightarrow> gw" where
  "stop_where P g = g\<lparr>
     g_clients := map (\<lambda>(k, p). (k, if P p then stop p else p)) (g_clients g),
     g_nodes := map (\<lambda>(k, p). (k, if P p then stop p else p)) (g_nodes g)\<rparr>"

definition close_server :: "gw \<Rightarrow> gw" where
  "close_server g = (stop_where (\<lambda>_. True) g)\<lparr>g_draining := True\<rparr>"

text \<open>
  One tick: without its database lease the server stops for good. The result is the time of the last
  maintenance. Errors of the two sweeps are logged and forgotten.
\<close>

definition tick :: "env \<Rightarrow> bool \<Rightarrow> int \<Rightarrow> int gwact" where
  "tick E lease lastMaintenance =
     (if \<not> lease then thenS (modS close_server) (returnS lastMaintenance)
      else thenS (modS (stop_where (stale E)))
        (bindS (tryS (expireOperations E)) (\<lambda>_.
         bindS (if now E - lastMaintenance \<ge> cf_maintenance_interval (cfg E)
                then bindS (tryS (dbS (maintenance E))) (\<lambda>_. returnS (now E))
                else returnS lastMaintenance) (\<lambda>lastMaintenance.
         thenS (pump E) (returnS lastMaintenance)))))"

section \<open>The logs are kept\<close>

lemma logs_make_uncertain [logs_rules]: "keeps (store_ok (dbnow E)) (make_uncertain E uid op)"
  unfolding make_uncertain_def by (intro logs_rules keeps_rules)

lemma logs_recoverOperations [logs_rules]: "keeps (store_ok (dbnow E)) (recoverOperations E)"
  unfolding recoverOperations_def by (intro logs_rules keeps_rules)

lemma logs_invalidateNodeOperations [logs_rules]:
  "keeps (store_ok (dbnow E)) (invalidateNodeOperations E uid nid)"
  unfolding invalidateNodeOperations_def by (intro logs_rules keeps_rules)

lemma logs_query_node [logs_rules]: "keeps (gstore_ok T) (query_node E r)"
  unfolding query_node_def by (intro logs_rules keeps_rules)

lemma logs_expireOperations [logs_rules]: "keeps (gstore_ok (dbnow E)) (expireOperations E)"
  unfolding expireOperations_def by (intro logs_rules keeps_rules)

lemma logs_expire_requests [logs_rules]: "keeps (store_ok (dbnow E)) (expire_requests E)"
  unfolding expire_requests_def expire_request_def
  by (intro logs_rules keeps_rules logs_mod) (auto simp: request_ok_def intro!: rows_ok_upd)

text \<open>A purge moves the session's low end past its high end and removes every event of it.\<close>

lemma event_seqs_del: "event_seqs (del_rows (\<lambda>e. ev_session e = sid) V) x = (if x = sid then [] else event_seqs V x)"
  by (auto simp: event_seqs_def del_rows_def intro: arg_cong [of _ _ "map ev_seq"] filter_cong)

lemma events_inv_purge:
  assumes "events_inv S V"
  shows "events_inv (upd_rows (\<lambda>r. se_id r = sid)
      (\<lambda>r. r\<lparr>se_history := h, se_earliest := se_last_seq r + 1, se_title := x, se_revision := se_revision r + 1\<rparr>) S)
    (del_rows (\<lambda>e. ev_session e = sid) V)" (is "events_inv ?S ?V")
proof -
  have ids: "map se_id ?S = map se_id S" by (rule map_upd_rows_frame) simp
  have "\<exists>s\<in>set ?S. se_id s = ev_session e" if "e \<in> set ?V" for e
  proof -
    from that have "e \<in> set V" by simp
    then obtain s where "s \<in> set S" "se_id s = ev_session e" using assms by (auto simp: events_inv_def)
    then have "ev_session e \<in> se_id ` set S" by force
    then have "ev_session e \<in> set (map se_id ?S)" unfolding ids by simp
    then show ?thesis by auto
  qed
  moreover have "1 \<le> se_earliest s \<and> se_earliest s \<le> se_last_seq s + 1 \<and> se_last_seq s \<le> max_safe \<and>
      event_seqs ?V (se_id s) = [se_earliest s..se_last_seq s]" if "s \<in> set ?S" for s
    using assms that by (auto simp: events_inv_def set_upd_rows event_seqs_del simp del: upto.simps)
  ultimately show ?thesis using assms ids by (simp add: events_inv_def)
qed

lemma logs_purge_session [logs_rules]: "keeps (store_ok (dbnow E)) (purge_session E uid sid)"
  unfolding purge_session_def
  by (intro logs_rules keeps_rules logs_mod) (simp_all add: delete_content_def events_inv_purge rows_ok_del)

lemma logs_purge_sessions [logs_rules]: "keeps (store_ok (dbnow E)) (purge_sessions E)"
  unfolding purge_sessions_def by (intro logs_rules keeps_rules)

lemma logs_delete_ops [logs_rules]: "preserves (store_ok T) (delete_ops P)"
  unfolding delete_ops_def by (intro logs_rules keeps_rules logs_mod) (simp_all add: rows_ok_del)

lemma event_seqs_none: "\<not> has_row (\<lambda>e. ev_session e = sid) V \<Longrightarrow> e \<in> set V \<Longrightarrow> ev_session e \<noteq> sid"
  by (auto simp: has_row_iff)

lemma events_inv_delete:
  assumes "events_inv S V" and "\<not> has_row (\<lambda>e. ev_session e = sid) V"
  shows "events_inv (del_rows (\<lambda>r. se_id r = sid) S) V"
  using assms by (fastforce simp: events_inv_def has_row_iff distinct_map_del_rows simp del: upto.simps)

lemma logs_delete_session [logs_rules]: "preserves (store_ok T) (delete_session sid)"
  by (rule preservesI)
    (auto simp: delete_session_def run_iff store_ok_def logs_ok_def session_referenced_def events_inv_delete)

lemma logs_retire_session [logs_rules]: "keeps (store_ok (dbnow E)) (retire_session E uid sid revision)"
  unfolding retire_session_def by (intro logs_rules keeps_rules logs_mod) simp_all

lemma logs_retire_sessions [logs_rules]: "keeps (store_ok (dbnow E)) (retire_sessions E)"
  unfolding retire_sessions_def by (intro logs_rules keeps_rules)

text \<open>Retention by age cuts a prefix off a log that is in the order of the clock.\<close>

lemma old_is_prefix:
  "sorted (map cg_created C) \<Longrightarrow> \<exists>n. del_rows (\<lambda>c. cg_created c < k) C = drop n C"
proof (induction C)
  case Nil
  then show ?case by (simp add: del_rows_def)
next
  case (Cons c C)
  show ?case
  proof (cases "cg_created c < k")
    case True
    from Cons obtain n where "del_rows (\<lambda>c. cg_created c < k) C = drop n C" by auto
    then have "del_rows (\<lambda>c. cg_created c < k) (c # C) = drop (Suc n) (c # C)" using True by (simp add: del_rows_def)
    then show ?thesis by blast
  next
    case False
    then have "del_rows (\<lambda>c. cg_created c < k) (c # C) = drop 0 (c # C)"
      using Cons.prems by (auto simp: del_rows_def filter_id_conv)
    then show ?thesis by blast
  qed
qed

lemma filter_drop: "\<exists>m. filter P (drop n xs) = drop m (filter P xs)"
proof (induction n arbitrary: xs)
  case 0
  show ?case by (rule exI [of _ 0]) simp
next
  case (Suc n)
  show ?case
  proof (cases xs)
    case (Cons x ys)
    from Suc [of ys] obtain m where "filter P (drop n ys) = drop m (filter P ys)" by blast
    then show ?thesis using Cons by (cases "P x") (auto intro: exI [of _ "Suc m"] exI [of _ m])
  qed simp
qed

lemma drop_upto: "drop n [a..b] = [a + int n..b]"
proof (induction n arbitrary: a)
  case (Suc n)
  show ?case
  proof (cases "a \<le> b")
    case True
    then have "drop (Suc n) [a..b] = drop n [a + 1..b]" by (simp add: upto_rec1)
    then show ?thesis using Suc [of "a + 1"] by (simp del: upto.simps add: add.assoc)
  qed (simp del: upto.simps)
qed simp

lemma changes_inv_drop:
  assumes "changes_inv U C"
  shows "changes_inv U (drop n C)"
proof -
  have "\<exists>k'. 0 \<le> k' \<and> k' \<le> us_last_rev u \<and> change_revs (drop n C) (us_id u) = [k' + 1..us_last_rev u]"
    if "u \<in> set U" for u
  proof -
    obtain k where k: "0 \<le> k" "k \<le> us_last_rev u" "change_revs C (us_id u) = [k + 1..us_last_rev u]"
      using assms \<open>u \<in> set U\<close> by (auto simp: changes_inv_def)
    obtain m where "change_revs (drop n C) (us_id u) = drop m (change_revs C (us_id u))"
      using filter_drop [of "\<lambda>c. cg_user c = us_id u" n C] by (auto simp: change_revs_def drop_map)
    then have *: "change_revs (drop n C) (us_id u) = [k + int m + 1..us_last_rev u]"
      using k(3) by (simp add: drop_upto algebra_simps del: upto.simps)
    show ?thesis
    proof (cases "k + int m \<le> us_last_rev u")
      case True
      then show ?thesis using k * by (intro exI [of _ "k + int m"]) simp
    next
      case False
      then show ?thesis using k * by (intro exI [of _ "us_last_rev u"]) simp
    qed
  qed
  moreover have "\<forall>c\<in>set (drop n C). cg_user c \<in> us_id ` set U"
    using assms by (auto simp: changes_inv_def dest: in_set_dropD)
  ultimately show ?thesis using assms by (simp add: changes_inv_def)
qed

lemma timed_drop: "timed T C \<Longrightarrow> timed T (drop n C)"
  by (auto simp: timed_def drop_map [symmetric] sorted_wrt_drop dest: in_set_dropD)

lemma logs_prune_changes [logs_rules]: "keeps (store_ok T) (modS (prune_changes E))"
proof (rule keeps_mod)
  fix d assume ok: "store_ok T d"
  then obtain n where "t_changes (prune_changes E d) = drop n (t_changes d)"
    using old_is_prefix [of "t_changes d" "now E - cf_changes_retention (cfg E)"]
    by (auto simp: store_ok_def timed_def prune_changes_def)
  moreover have "t_requests (prune_changes E d) = t_requests d \<and> t_ops (prune_changes E d) = t_ops d
      \<and> t_users (prune_changes E d) = t_users d \<and> t_sessions (prune_changes E d) = t_sessions d
      \<and> t_events (prune_changes E d) = t_events d" by (simp add: prune_changes_def)
  ultimately show "store_ok T (prune_changes E d)"
    using ok by (simp add: store_ok_def logs_ok_def changes_inv_drop timed_drop)
qed

lemma keeps_delete_ops [logs_rules]: "keeps (store_ok T) (delete_ops P)"
  unfolding delete_ops_def
  by (intro logs_rules keeps_rules keeps_mod) (simp add: store_ok_def logs_ok_def rows_ok_del)

lemma rows_ok_forget:
  "rows_ok (\<lambda>r. (op_user r, op_id r)) op_ok P \<Longrightarrow>
     rows_ok (\<lambda>r. (op_user r, op_id r)) op_ok (upd_rows Q (\<lambda>r. r\<lparr>op_payload := None\<rparr>) P)"
  by (rule rows_ok_upd) (simp_all add: op_ok_def)

lemma logs_maintenance [logs_rules]: "keeps (store_ok (dbnow E)) (maintenance E)"
  unfolding maintenance_def
  by (intro logs_rules keeps_rules keeps_mod) (simp_all add: store_ok_def logs_ok_def sweep_def rows_ok_forget)

lemma logs_tick [logs_rules]: "keeps (gstore_ok (dbnow E)) (tick E lease lm)"
  unfolding tick_def
  by (intro logs_rules keeps_rules) (simp_all add: close_server_def stop_where_def)

end
