(* ===== verification/Frames.thy ===== *)
theory Frames
  imports Lifecycle
begin

text \<open>
  What the reporting operations leave alone. \<open>change\<close>, \<open>appendEvent\<close>, \<open>notify\<close> and \<open>audit\<close> run in almost
  every handler; they write the logs, the timeline and the notices, and the counters of the user and
  of the session, but none of the tables that decide what happens next. These are the \<open>core\<close> of the
  database; the properties of the handlers are proved over it.
\<close>

named_theorems core_rules \<open>operations that leave the core of the database alone\<close>

definition still :: "session_row \<Rightarrow> session_row" where
  "still r = r\<lparr>se_last_seq := 0, se_revision := 0, se_updated := 0\<rparr>"

definition core where
  "core d = (map us_id (t_users d), map still (t_sessions d), t_turns d, t_ops d, t_outbox d, t_queue d, t_requests d,
     t_receipts d, t_shares d, t_share_commands d, t_projects d, t_agents d, t_nodes d, t_access d)"

lemma core_eq:
  "core t = core d \<longleftrightarrow>
     map us_id (t_users t) = map us_id (t_users d) \<and> map still (t_sessions t) = map still (t_sessions d) \<and>
     t_turns t = t_turns d \<and> t_ops t = t_ops d \<and>
     t_outbox t = t_outbox d \<and> t_queue t = t_queue d \<and> t_requests t = t_requests d \<and> t_receipts t = t_receipts d \<and>
     t_shares t = t_shares d \<and> t_share_commands t = t_share_commands d \<and> t_projects t = t_projects d \<and>
     t_agents t = t_agents d \<and> t_nodes t = t_nodes d \<and> t_access t = t_access d"
  by (simp add: core_def)

lemma keeps_core_mod: "(\<And>d. core (f d) = core d) \<Longrightarrow> keeps (\<lambda>d. core d = v) (modS f)"
  by (rule keeps_mod) simp

lemma core_change [core_rules]: "keeps (\<lambda>d. core d = v) (change E uid kind rid action n)"
  unfolding change_def Let_def
  by (intro keeps_rules keeps_core_mod) (auto simp: core_eq intro: map_upd_rows_frame)

lemma core_new_id [core_rules]: "keeps (\<lambda>d. core d = v) (new_id E p)"
  by (simp add: keeps_def new_id_def core_def)

lemma core_upsert_item [core_rules]: "keeps (\<lambda>d. core d = v) (upsert_item E sid turn item n)"
  unfolding upsert_item_def by (intro keeps_rules keeps_core_mod) (simp_all add: core_eq)

lemma core_projectItem [core_rules]: "keeps (\<lambda>d. core d = v) (projectItem E sid turn data n)"
  by (cases data)
    (auto simp: project_message_def core_eq intro!: keeps_rules core_rules keeps_core_mod split: option.split)

lemma core_bump [core_rules]: "keeps (\<lambda>d. core d = v) (bump_session E sid)"
  unfolding bump_session_def
  by (intro keeps_rules keeps_core_mod) (auto simp: core_eq still_def intro: map_upd_rows_frame)

lemma core_appendEvent [core_rules]: "keeps (\<lambda>d. core d = v) (appendEvent E uid nid sid turn data)"
  unfolding appendEvent_def insert_event_def Let_def
  by (intro keeps_rules core_rules keeps_core_mod) (simp add: core_eq)

lemma core_queueSubscription [core_rules]:
  "keeps (\<lambda>d. core d = v) (queueSubscription E uid notification sid kind summary)"
  unfolding queueSubscription_def by (intro keeps_rules core_rules keeps_core_mod) (simp_all add: core_eq)

lemma core_notify [core_rules]: "keeps (\<lambda>d. core d = v) (notify E uid sid kind title)"
  unfolding notify_def by (intro keeps_rules core_rules keeps_core_mod) (simp add: core_eq)

lemma core_audit [core_rules]: "keeps (\<lambda>d. core d = v) (audit E uid op kind state nid sid)"
  unfolding audit_def by (intro keeps_rules core_rules keeps_core_mod) (simp add: core_eq)

lemma core_announce_request [core_rules]: "keeps (\<lambda>d. core d = v) (announce_request E uid rid)"
  unfolding announce_request_def ownSession_def by (intro keeps_rules core_rules)

lemma core_entropy [simp]: "core (d\<lparr>entropy := n\<rparr>) = core d"
  by (simp add: core_def)

lemma coreD: "keeps (\<lambda>d. core d = core s) m \<Longrightarrow> m s = (r, t) \<Longrightarrow> core t = core s"
  by (drule keepsD) auto

lemmas core_keeps = keeps_via [where p = core]

text \<open>What holds of every row after an update.\<close>

lemma upd_rows_all:
  assumes "x \<in> set (upd_rows P f t)" and "\<And>r. P r \<Longrightarrow> Q (f r)" and "\<And>r. \<not> P r \<Longrightarrow> Q r"
  shows "Q x"
  using assms by (auto simp: set_upd_rows)

section \<open>Reading through the core\<close>

text \<open>What is looked up in the frozen part of a session does not change either.\<close>

lemma find_map_still:
  assumes "map still S = map still S'"
  shows "map_option still (find (\<lambda>r. se_id r = sid) S) = map_option still (find (\<lambda>r. se_id r = sid) S')"
  using assms
proof (induction S arbitrary: S')
  case (Cons r S)
  then obtain r' T where S': "S' = r' # T" by (cases S') auto
  have r: "still r = still r'" and T: "map still S = map still T" using Cons.prems S' by simp_all
  have "se_id r = se_id r'" using arg_cong [OF r, of se_id] by (simp add: still_def)
  then show ?case using Cons.IH [OF T] r S' by simp
qed simp

lemma core_session:
  assumes "core t = core d" and "find_session d sid = Some r"
  obtains r' where "find_session t sid = Some r'" and "still r' = still r"
  using find_map_still [of "t_sessions t" "t_sessions d" sid] assms
  by (auto simp: core_eq find_session_def)

lemma still_fields:
  "still r' = still r \<Longrightarrow> se_id r' = se_id r \<and> se_user r' = se_user r \<and> se_node r' = se_node r \<and>
     se_state r' = se_state r \<and> se_turn r' = se_turn r \<and> se_history r' = se_history r \<and> se_caps r' = se_caps r \<and>
     se_caprev r' = se_caprev r \<and> se_last_source r' = se_last_source r"
  by (cases r; cases r') (simp add: still_def)

lemma core_accessible: "core t = core d \<Longrightarrow> accessible t uid nid = accessible d uid nid"
  by (simp add: accessible_def core_eq)

end
