(* ===== verification/Retention_Spec.thy ===== *)
theory Retention_Spec
  imports Frames
begin

text \<open>
  What \<open>maintenance\<close> achieves and where it stops. Expiring requests and purging content leave the
  operations and their outbox rows alone, so an operation that the final clean-up may not delete is
  still there when it is reached: both obstacles below stop the whole pass, every time it runs.
\<close>

section \<open>The stages keep what a later one meets\<close>

definition ledger where
  "ledger d = (map us_id (t_users d), t_ops d, t_outbox d, t_shares d, t_share_commands d)"

lemma ledger_core: "(\<And>v. keeps (\<lambda>d. core d = v) m) \<Longrightarrow> keeps (\<lambda>d. ledger d = v) m"
  by (rule core_keeps) (simp_all add: core_eq ledger_def)

lemma keeps_tx_ledger: "keeps (\<lambda>d. ledger d = v) fn \<Longrightarrow> keeps (\<lambda>d. ledger d = v) (transaction uid fn)"
  by (rule keeps_transaction [OF keeps_preserves]) (simp_all add: ledger_def)

lemma ledger_expire_requests: "keeps (\<lambda>d. ledger d = v) (expire_requests E)"
  unfolding expire_requests_def expire_request_def
  by (intro keeps_rules keeps_tx_ledger ledger_core core_rules keeps_mod) (simp_all add: ledger_def)

lemma ledger_purge_sessions: "keeps (\<lambda>d. ledger d = v) (purge_sessions E)"
  unfolding purge_sessions_def purge_session_def delete_content_def
  by (intro keeps_rules keeps_tx_ledger ledger_core core_rules keeps_mod) (simp_all add: ledger_def)

section \<open>An operation without a session that was sent to a node\<close>

text \<open>The row and its outbox row, with the operations keyed as the primary key demands.\<close>

definition sent_op :: "op_row \<Rightarrow> db \<Rightarrow> bool" where
  "sent_op r d \<longleftrightarrow> distinct (map (\<lambda>r. (op_user r, op_id r)) (t_ops d)) \<and> r \<in> set (t_ops d) \<and>
     has_row (\<lambda>x. ob_user x = op_user r \<and> ob_op x = op_id r) (t_outbox d)"

lemma sent_op_ledger: "(\<And>v. keeps (\<lambda>d. ledger d = v) m) \<Longrightarrow> keeps (sent_op r) m"
  by (rule keeps_via [where p = ledger]) (simp_all add: ledger_def sent_op_def)

lemma sent_op_delete:
  "op_session r = None \<Longrightarrow> keeps (sent_op r) (delete_ops (\<lambda>r. op_session r = Some sid))"
  unfolding delete_ops_def
  by (intro keeps_rules keeps_mod) (auto simp: sent_op_def del_rows_def distinct_map_filter)

lemma sent_op_outbox:
  assumes "sent_op r d" and "op_session r = None"
  shows "has_row (\<lambda>x. ob_user x = op_user r \<and> ob_op x = op_id r)
    (del_rows (\<lambda>x. has_row (\<lambda>r. op_user r = ob_user x \<and> op_id r = ob_op x \<and> op_session r = Some sid) (t_ops d))
       (t_outbox d))"
proof -
  from assms obtain x where x: "x \<in> set (t_outbox d)" "ob_user x = op_user r" "ob_op x = op_id r"
    by (auto simp: sent_op_def has_row_iff)
  have "\<not> has_row (\<lambda>q. op_user q = ob_user x \<and> op_id q = ob_op x \<and> op_session q = Some sid) (t_ops d)"
  proof
    assume "has_row (\<lambda>q. op_user q = ob_user x \<and> op_id q = ob_op x \<and> op_session q = Some sid) (t_ops d)"
    then obtain q where q: "q \<in> set (t_ops d)" "op_user q = op_user r" "op_id q = op_id r" "op_session q = Some sid"
      using x by (auto simp: has_row_iff)
    then have "q = r" using assms key_unique [of "\<lambda>r. (op_user r, op_id r)" "t_ops d" q r] by (simp add: sent_op_def)
    then show False using q assms by simp
  qed
  then show ?thesis using x by (auto simp: has_row_iff)
qed

lemma sent_op_tx: "keeps (sent_op r) fn \<Longrightarrow> keeps (sent_op r) (transaction uid fn)"
  by (rule keeps_transaction [OF keeps_preserves]) (simp_all add: sent_op_def)

lemma sent_op_retire:
  assumes "op_session r = None"
  shows "keeps (sent_op r) (retire_sessions E)"
proof -
  have cut: "keeps (sent_op r) (modS (\<lambda>d. d\<lparr>
          t_pushes := del_rows (\<lambda>p. has_row (\<lambda>n. nt_id n = pu_notice p \<and> nt_session n = Some sid) (t_notices d)) (t_pushes d),
          t_notices := del_rows (\<lambda>n. nt_session n = Some sid) (t_notices d),
          t_receipts := del_rows (\<lambda>r. rc_session r = sid) (t_receipts d),
          t_outbox := del_rows (\<lambda>x. has_row (\<lambda>r. op_user r = ob_user x \<and> op_id r = ob_op x
                         \<and> op_session r = Some sid) (t_ops d)) (t_outbox d)\<rparr>))" for sid
    by (rule keeps_mod) (use assms sent_op_outbox in \<open>auto simp: sent_op_def\<close>)
  have drop: "keeps (sent_op r) (delete_session sid)" for sid
    unfolding delete_session_def by (intro keeps_rules keeps_mod) (simp add: sent_op_def)
  have mark: "keeps (sent_op r) (change E uid k i a n)" for uid k i a n
    by (rule sent_op_ledger [OF ledger_core [OF core_change]])
  show ?thesis
    unfolding retire_sessions_def retire_session_def
    by (intro keeps_rules sent_op_tx cut sent_op_delete assms drop mark)
qed

section \<open>The pass stops\<close>

lemma delete_refused: "r \<in> set (t_ops d) \<Longrightarrow> P r \<Longrightarrow> referenced d r \<Longrightarrow> delete_ops P d = (Inl DBError, d)"
  by (auto simp: delete_ops_def run_simps has_row_iff)

lemma sweep_sent_op:
  assumes "sent_op r d" and "old_op E r"
  shows "\<exists>q. sent_op q (sweep E d) \<and> old_op E q"
proof -
  let ?q = "if forgettable E d r then r\<lparr>op_payload := None\<rparr> else r"
  have "map (\<lambda>r. (op_user r, op_id r)) (t_ops (sweep E d)) = map (\<lambda>r. (op_user r, op_id r)) (t_ops d)"
    by (simp add: sweep_def map_upd_rows_frame)
  moreover have "t_ops (sweep E d) = upd_rows (forgettable E d) (\<lambda>r. r\<lparr>op_payload := None\<rparr>) (t_ops d)"
    by (simp add: sweep_def)
  then have "?q \<in> set (t_ops (sweep E d))" using assms(1) by (simp add: sent_op_def set_upd_rows)
  moreover have "t_outbox (sweep E d) = t_outbox d" by (simp add: sweep_def)
  ultimately have "sent_op ?q (sweep E d)" using assms(1) by (simp add: sent_op_def)
  moreover have "old_op E ?q" using assms(2) by (simp add: old_op_def)
  ultimately show ?thesis by blast
qed

text \<open>A pass that succeeds got through its stages.\<close>

lemma maintenance_stages:
  assumes "fst (maintenance E d) = Inr u"
  obtains d1 d2 d3 d4 where "expire_requests E d = (Inr (), d1)" and "purge_sessions E d1 = (Inr (), d2)"
    and "retire_sessions E d2 = (Inr (), d3)" and "t_ops d4 = t_ops (sweep E d3)"
    and "t_outbox d4 = t_outbox d3" and "fst (delete_ops (old_op E) d4) = Inr ()"
proof -
  from thenS_result [OF assms [unfolded maintenance_def]] obtain d1 where 1: "expire_requests E d = (Inr (), d1)"
    and k1: "fst (thenS (purge_sessions E) (thenS (retire_sessions E) (thenS (modS (sweep E)) (thenS (modS (prune_changes E))
      (thenS (modS (\<lambda>d. d\<lparr>t_audits := del_rows (\<lambda>a. au_created a < now E - cf_metadata_retention (cfg E)) (t_audits d)\<rparr>))
      (thenS (delete_ops (old_op E))
      (modS (\<lambda>d. d\<lparr>t_receipts := del_rows (\<lambda>r. rc_created r < now E - cf_metadata_retention (cfg E)) (t_receipts d)\<rparr>)))))))
      d1) = Inr u" by blast
  from thenS_result [OF k1] obtain d2 where 2: "purge_sessions E d1 = (Inr (), d2)"
    and k2: "fst (thenS (retire_sessions E) (thenS (modS (sweep E)) (thenS (modS (prune_changes E))
      (thenS (modS (\<lambda>d. d\<lparr>t_audits := del_rows (\<lambda>a. au_created a < now E - cf_metadata_retention (cfg E)) (t_audits d)\<rparr>))
      (thenS (delete_ops (old_op E))
      (modS (\<lambda>d. d\<lparr>t_receipts := del_rows (\<lambda>r. rc_created r < now E - cf_metadata_retention (cfg E)) (t_receipts d)\<rparr>))))))
      d2) = Inr u" by blast
  from thenS_result [OF k2] obtain d3 where 3: "retire_sessions E d2 = (Inr (), d3)"
    and k3: "fst (thenS (delete_ops (old_op E))
      (modS (\<lambda>d. d\<lparr>t_receipts := del_rows (\<lambda>r. rc_created r < now E - cf_metadata_retention (cfg E)) (t_receipts d)\<rparr>))
      ((prune_changes E (sweep E d3))\<lparr>t_audits := del_rows (\<lambda>a. au_created a < now E - cf_metadata_retention (cfg E))
         (t_audits (prune_changes E (sweep E d3)))\<rparr>)) = Inr u" by (auto simp: thenS_mod)
  let ?d4 = "(prune_changes E (sweep E d3))\<lparr>t_audits := del_rows (\<lambda>a. au_created a < now E - cf_metadata_retention (cfg E))
         (t_audits (prune_changes E (sweep E d3)))\<rparr>"
  have "t_ops ?d4 = t_ops (sweep E d3)" and "t_outbox ?d4 = t_outbox d3"
    by (simp_all add: prune_changes_def sweep_def)
  moreover have "fst (delete_ops (old_op E) ?d4) = Inr ()" using thenS_result [OF k3] by auto
  ultimately show ?thesis using that 1 2 3 by blast
qed

text \<open>
  C32: once an operation without a session (a project history query) is settled and older than the
  metadata retention, and the outbox row of its command is still there, no pass of \<open>maintenance\<close>
  succeeds: the deletion of old operations is refused by the outbox's foreign key.
\<close>

theorem history_operation_stops_maintenance:
  assumes "store_ok T d" and "r \<in> set (t_ops d)" and "old_op E r"
    and "x \<in> set (t_outbox d)" and "ob_user x = op_user r" and "ob_op x = op_id r"
  shows "\<exists>e. fst (maintenance E d) = Inl e"
proof (rule ccontr)
  assume "\<not> ?thesis"
  then obtain u where "fst (maintenance E d) = Inr u" by (cases "fst (maintenance E d)") auto
  then obtain d1 d2 d3 d4 where run: "expire_requests E d = (Inr (), d1)" "purge_sessions E d1 = (Inr (), d2)"
      "retire_sessions E d2 = (Inr (), d3)" and d4: "t_ops d4 = t_ops (sweep E d3)" "t_outbox d4 = t_outbox d3"
      and del: "fst (delete_ops (old_op E) d4) = Inr ()"
    by (rule maintenance_stages)
  have "op_session r = None" using assms(3) by (simp add: old_op_def)
  moreover have "sent_op r d" using assms by (auto simp: sent_op_def store_ok_def rows_ok_def has_row_iff)
  then have "sent_op r d2"
    using run by (blast intro: keepsD [OF sent_op_ledger [OF ledger_expire_requests]]
      keepsD [OF sent_op_ledger [OF ledger_purge_sessions]])
  ultimately have "sent_op r d3" using keepsD [OF sent_op_retire run(3)] by blast
  then obtain q where "sent_op q (sweep E d3)" "old_op E q" using sweep_sent_op assms(3) by blast
  then have "q \<in> set (t_ops d4)" "old_op E q" "referenced d4 q"
    using d4 by (simp_all add: sent_op_def referenced_def sweep_def)
  then have "delete_ops (old_op E) d4 = (Inl DBError, d4)" by (intro delete_refused)
  then show False using del by simp
qed

text \<open>A database in which the obstacle stands: a project history query, sent and confirmed long ago.\<close>

definition old_history :: op_row where
  "old_history = \<lparr>op_user = ''u'', op_id = ''h'', op_kind = K_native, op_hash = ''x'', op_state = Op_confirmed,
     op_node = Some ''n'', op_session = None, op_turn = None, op_epoch = 1, op_payload = None,
     op_result = Some \<lparr>or_session = None, or_turn = None, or_request = None, or_node = Some ''n'',
       or_queue_item = None, or_native = None\<rparr>, op_error = None, op_revision = 3, op_deadline = 20,
     op_created = 5, op_updated = 10\<rparr>"

definition db_history :: db where
  "db_history = db0\<lparr>t_ops := [old_history],
     t_outbox := [\<lparr>ob_user = ''u'', ob_op = ''h'', ob_node = ''n'', ob_epoch = 1, ob_state = Out_delivered,
       ob_deadline = 20\<rparr>]\<rparr>"

theorem history_operation_stops_maintenance_witness:
  "\<exists>e. fst (maintenance (env0\<lparr>now := 8000000\<rparr>) db_history) = Inl e"
proof (rule history_operation_stops_maintenance)
  show "store_ok 200 db_history"
    using store_db0 [of 200] by (simp add: db_history_def store_ok_def logs_ok_def rows_ok_def op_ok_def old_history_def)
  show "old_history \<in> set (t_ops db_history)" by (simp add: db_history_def)
  show "old_op (env0\<lparr>now := 8000000\<rparr>) old_history"
    by (simp add: old_op_def old_history_def settled_def env0_def config0_def)
  show "hd (t_outbox db_history) \<in> set (t_outbox db_history)" by (simp add: db_history_def)
qed (simp_all add: db_history_def old_history_def)

section \<open>A session that was controlled through a share\<close>

text \<open>A command that came through a share of the session, its operation and the share.\<close>

definition delegated :: "string \<Rightarrow> op_row \<Rightarrow> share_command_row \<Rightarrow> share_row \<Rightarrow> db \<Rightarrow> bool" where
  "delegated sid r c g d \<longleftrightarrow> distinct (map sh_id (t_shares d)) \<and>
     r \<in> set (t_ops d) \<and> op_session r = Some sid \<and>
     c \<in> set (t_share_commands d) \<and> sc_owner c = op_user r \<and> sc_owner_op c = op_id r \<and>
     g \<in> set (t_shares d) \<and> sh_id g = sc_share c \<and> sh_session g = sid"

lemma delegated_change: "keeps (delegated sid r c g) (change E uid k i a n)"
  by (rule core_keeps [OF core_change]) (simp add: core_eq delegated_def)

lemma retire_refused:
  assumes "delegated sid r c g d"
  shows "\<exists>e. fst (retire_session E uid sid n d) = Inl e"
proof -
  have stop: "delete_ops (\<lambda>r. op_session r = Some sid) x = (Inl DBError, x)"
    if "t_ops x = t_ops d" "t_share_commands x = t_share_commands d" for x
    using assms that by (intro delete_refused [of r]) (auto simp: delegated_def referenced_def has_row_iff)
  show ?thesis
    unfolding retire_session_def transaction_def
    by (simp add: thenS_mod thenS_stop [OF stop])
qed

lemma delete_session_Inr:
  "delete_session sid d = (Inr x, t) \<Longrightarrow>
     t_ops t = t_ops d \<and> t_shares t = del_rows (\<lambda>g. sh_session g = sid) (t_shares d) \<and>
     t_share_commands t = del_rows (\<lambda>c. has_row (\<lambda>g. sh_id g = sc_share c \<and> sh_session g = sid) (t_shares d))
       (t_share_commands d)"
  by (auto simp: delete_session_def run_iff)

lemma delegated_other:
  assumes "sid' \<noteq> sid"
  shows "preserves (delegated sid r c g) (thenS (delete_ops (\<lambda>r. op_session r = Some sid'))
       (thenS (delete_session sid') (change E uid Rt_session sid' Remove n)))"
proof -
  have "preserves (delegated sid r c g) (delete_ops (\<lambda>r. op_session r = Some sid'))"
    unfolding delete_ops_def
    by (intro keeps_rules preserves_mod) (use assms in \<open>auto simp: delegated_def\<close>)
  moreover have "preserves (delegated sid r c g) (delete_session sid')"
  proof -
    have gone: "\<not> has_row (\<lambda>x. sh_id x = sc_share c \<and> sh_session x = sid') (t_shares d)" if "delegated sid r c g d" for d
      using that assms key_unique [of sh_id "t_shares d" _ g] by (auto simp: has_row_iff delegated_def)
    have dist: "distinct (map sh_id (del_rows P (t_shares d)))" if "delegated sid r c g d" for P d
      using that by (simp add: delegated_def distinct_map_del_rows)
    show ?thesis
    proof (rule preservesI)
      fix d x t assume d: "delegated sid r c g d" and run: "delete_session sid' d = (Inr x, t)"
      have "c \<in> set (t_share_commands t)" and "g \<in> set (t_shares t)"
        using d gone [OF d] assms delete_session_Inr [OF run] by (auto simp: delegated_def)
      then show "delegated sid r c g t"
        using d dist [OF d, of "\<lambda>g. sh_session g = sid'"] delete_session_Inr [OF run] by (simp add: delegated_def)
    qed
  qed
  ultimately show ?thesis by (intro keeps_rules keeps_preserves [OF delegated_change])
qed

lemma delegated_retire: "keeps (delegated sid r c g) (retire_session E uid sid' n)"
proof (cases "sid' = sid")
  case True
  show ?thesis
  proof (rule keepsI)
    fix d assume d: "delegated sid r c g d"
    obtain e where "fst (retire_session E uid sid' n d) = Inl e" using retire_refused [OF d] True by blast
    then have "retire_session E uid sid' n d = (Inl e, snd (retire_session E uid sid' n d))" by (simp add: prod_eq_iff)
    from transaction_Inl [OF this [unfolded retire_session_def], folded retire_session_def]
    obtain k where "snd (retire_session E uid sid' n d) = d\<lparr>entropy := k\<rparr>" by blast
    then show "delegated sid r c g (snd (retire_session E uid sid' n d))" using d by (simp add: delegated_def)
  qed
next
  case False
  show ?thesis
    unfolding retire_session_def
    by (rule keeps_transaction, rule preserves_then [OF preserves_mod delegated_other [OF False]])
      (simp_all add: delegated_def)
qed

text \<open>A loop with a body that fails under an invariant fails.\<close>

lemma forS_fails:
  assumes "\<And>y. keeps J (f y)" and "\<And>s. J s \<Longrightarrow> \<exists>e. fst (f x s) = Inl e" and "x \<in> set xs" and "J s"
  shows "\<exists>e. fst (forS xs f s) = Inl e"
  using assms(3,4)
proof (induction xs arbitrary: s)
  case (Cons y ys)
  obtain q t where run: "f y s = (q, t)" by (cases "f y s")
  then have J: "J t" using keepsD [OF assms(1)] Cons.prems by blast
  show ?case
  proof (cases q)
    case (Inl e)
    then show ?thesis using run by (simp add: bindS_stop)
  next
    case (Inr u)
    then have "x \<noteq> y" using assms(2) [OF Cons.prems(2)] run by auto
    then show ?thesis using Cons J Inr run by (simp add: bindS_step)
  qed
qed simp

text \<open>
  C33: a purged session that is due for retirement cannot be retired once a command came to it through
  a share: its operations cannot be deleted while the row of the share's command refers to them, and
  that row goes only with the session. The whole loop over the sessions to retire fails with it.
\<close>

theorem shared_session_stops_retirement:
  assumes "s \<in> set (take 50 (filter (retirable E d) (t_sessions d)))"
    and "distinct (map sh_id (t_shares d))"
    and "r \<in> set (t_ops d)" and "op_session r = Some (se_id s)"
    and "c \<in> set (t_share_commands d)" and "sc_owner c = op_user r" and "sc_owner_op c = op_id r"
    and "g \<in> set (t_shares d)" and "sh_id g = sc_share c" and "sh_session g = se_id s"
  shows "\<exists>e. fst (retire_sessions E d) = Inl e"
proof -
  have "delegated (se_id s) r c g d" using assms by (simp add: delegated_def)
  then have "\<exists>e. fst (forS (take 50 (filter (retirable E d) (t_sessions d)))
      (\<lambda>s. retire_session E (se_user s) (se_id s) (se_revision s)) d) = Inl e"
    by (intro forS_fails [OF delegated_retire retire_refused assms(1)])
  then show ?thesis by (simp add: retire_sessions_def bindS_get)
qed

text \<open>The same with a session whose history was purged and a share that was used once.\<close>

definition shared_op :: op_row where
  "shared_op = old_history\<lparr>op_id := ''o'', op_session := Some ''s''\<rparr>"

definition used_share :: share_row where
  "used_share = \<lparr>sh_id = ''g'', sh_session = ''s'', sh_owner = ''u'', sh_recipient = Some ''v'', sh_control = True,
     sh_token_hash = [], sh_invite = None, sh_create_op = ''k'', sh_request_hash = [], sh_created = 1,
     sh_expires = 50, sh_accepted = Some 2, sh_revoked = None\<rparr>"

definition share_command0 :: share_command_row where
  "share_command0 = \<lparr>sc_share = ''g'', sc_actor = ''v'', sc_client_op = ''x'', sc_owner = ''u'', sc_owner_op = ''o'',
     sc_hash = [], sc_action = K_send, sc_created = 3\<rparr>"

definition purged0 :: session_row where
  "purged0 = session0\<lparr>se_history := Purged\<rparr>"

definition db_shared :: db where
  "db_shared = db0\<lparr>t_sessions := [purged0], t_ops := [shared_op], t_shares := [used_share],
     t_share_commands := [share_command0]\<rparr>"

lemma shared_defs:
  "t_sessions db_shared = [purged0]" "t_ops db_shared = [shared_op]" "t_shares db_shared = [used_share]"
  "t_share_commands db_shared = [share_command0]" "t_turns db_shared = [turn0]"
  by (simp_all add: db_shared_def db0_def)

theorem shared_session_stops_retirement_witness:
  "\<exists>e. fst (retire_sessions (env0\<lparr>now := 8000000\<rparr>) db_shared) = Inl e"
proof (rule shared_session_stops_retirement [where s = purged0 and r = shared_op and c = share_command0 and g = used_share])
  show "purged0 \<in> set (take 50 (filter (retirable (env0\<lparr>now := 8000000\<rparr>) db_shared) (t_sessions db_shared)))"
    by (simp add: shared_defs retirable_def ended_before_def current_turn_def open_work_def has_row_def
        unresolved_def shared_op_def old_history_def purged0_def session0_def turn0_def env0_def config0_def)
qed (simp_all add: shared_defs shared_op_def old_history_def purged0_def session0_def used_share_def share_command0_def)

end
