(* ===== verification/Sessions_Spec.thy ===== *)
theory Sessions_Spec
  imports Frames
begin

text \<open>
  What a session snapshot may do (\<open>sessionUpdate\<close>): the steps a successful run went through, the
  transitions it allows, the turn it starts, and the request it gets stuck on.
\<close>

section \<open>The steps of a snapshot\<close>

definition open_step ::
  "env \<Rightarrow> string \<Rightarrow> string \<Rightarrow> session_row \<Rightarrow> node_session_state \<Rightarrow> unit dbact" where
  "open_step E uid sid old b =
     (if ns_turn b \<noteq> str (se_turn old) then start_turn E uid sid (se_state old) (ns_turn b) (ns_state b)
      else continue_turn uid sid (se_state old) (ns_turn b) (ns_state b))"

definition store_snapshot :: "string \<Rightarrow> node_session_state \<Rightarrow> db \<Rightarrow> db" where
  "store_snapshot sid b d = d\<lparr>t_sessions := upd_rows (\<lambda>r. se_id r = sid)
     (\<lambda>r. r\<lparr>se_turn := Some (ns_turn b), se_state := ns_state b, se_caps := ns_caps b,
            se_caprev := ns_caprev b\<rparr>) (t_sessions d)\<rparr>"

lemma sessionUpdate_Inr:
  assumes "sessionUpdate E uid nid sid b d = (Inr n, t)"
  obtains old d1 st d2 d3 d4 n5 d5 d6 where
    "own_session_row d uid sid = Some old" and "ns_turn b \<noteq> []"
    and "open_step E uid sid old b d = (Inr (), d1)"
    and "\<not> (ns_caprev b < se_caprev old \<or> ns_caprev b = se_caprev old \<and> ns_caps b \<noteq> se_caps old)"
    and "next_turn_state sid (se_state old) (ns_turn b) (ns_state b) d1 = (Inr st, d2)"
    and "put_turns (upd_rows (\<lambda>t. tn_id t = ns_turn b) (set_turn E st)) d2 = (Inr (), d3)"
    and "queueMirror E uid sid (ns_queue b) (store_snapshot sid b d3) = (Inr (), d4)"
    and "announce_state E uid nid sid old (session_queue E d sid) b d4 = (Inr n5, d5)"
    and "(if \<not> isActive (ns_state b) \<or> ns_state b = S_cancelling
          then cancel_pending E uid nid sid (str (se_turn old)) n5 else returnS n5) d5 = (Inr n, d6)"
    and "(if ns_state b \<noteq> se_state old \<and> (ns_state b = S_completed \<or> ns_state b = S_failed)
          then notify E uid sid (if ns_state b = S_completed then N_completed else N_failed) title_state
          else returnS ()) d6 = (Inr (), t)"
  using assms unfolding sessionUpdate_def getSession_def Let_def open_step_def [symmetric]
  apply (simp only: bindS_Inr thenS_Inr guardS_Inr oneS_Inr modS_iff returnS_iff case_prod_conv split_paired_Ex)
  apply (elim exE conjE)
  apply (simp only: store_snapshot_def [symmetric])
  apply (clarsimp simp only: map_option_eq_Some prod.inject sum.inject)
  by blast

text \<open>None of them but \<open>store_snapshot\<close> writes a session, apart from its counters.\<close>

named_theorems sess_rules \<open>operations that leave the sessions alone, apart from their counters\<close>

definition sess where
  "sess d = map still (t_sessions d)"

lemma sess_core: "(\<And>v. keeps (\<lambda>d. core d = v) m) \<Longrightarrow> keeps (\<lambda>d. sess d = v) m"
  by (rule core_keeps) (simp_all add: core_eq sess_def)

lemma sess_put_turns [sess_rules]: "keeps (\<lambda>d. sess d = v) (put_turns f)"
  unfolding put_turns_def by (intro keeps_rules keeps_mod) (simp add: sess_def)

lemma sess_open_step [sess_rules]: "keeps (\<lambda>d. sess d = v) (open_step E uid sid old b)"
  unfolding open_step_def start_turn_def continue_turn_def insert_turn_def
  by (intro keeps_rules sess_rules keeps_mod) (simp_all add: sess_def)

lemma sess_next_turn_state [sess_rules]: "keeps (\<lambda>d. sess d = v) (next_turn_state sid old turn state)"
  unfolding next_turn_state_def by (intro keeps_rules)

lemma sess_queueMirror [sess_rules]: "keeps (\<lambda>d. sess d = v) (queueMirror E uid sid items)"
  unfolding queueMirror_def mirror_item_def by (intro keeps_rules keeps_mod) (simp_all add: sess_def)

lemma sess_requestCancel [sess_rules]: "keeps (\<lambda>d. sess d = v) (requestCancel E uid nid sid turn rid)"
  unfolding requestCancel_def getRequest_def
  by (intro keeps_rules sess_core core_rules keeps_mod) (simp_all add: sess_def)

lemma sess_cancel_pending [sess_rules]: "keeps (\<lambda>d. sess d = v) (cancel_pending E uid nid sid turn n)"
  unfolding cancel_pending_def by (intro keeps_rules sess_rules)

lemma sess_announce_state [sess_rules]: "keeps (\<lambda>d. sess d = v) (announce_state E uid nid sid old queue b)"
  unfolding announce_state_def by (intro keeps_rules sess_core core_rules)

lemma sess_notify [sess_rules]: "keeps (\<lambda>d. sess d = v) (notify E uid sid kind title)"
  by (intro sess_core core_rules)

lemma sessD:
  assumes "\<And>v. keeps (\<lambda>d. sess d = v) m" and "m s = (r, t)"
  shows "sess t = sess s"
  using keepsD [OF assms] by simp

lemma sess_find:
  assumes "sess t = sess d" and "find_session d sid = Some r"
  obtains r' where "find_session t sid = Some r'" and "still r' = still r"
  using find_map_still [of "t_sessions t" "t_sessions d" sid] assms
  by (auto simp: sess_def find_session_def)

section \<open>The transitions\<close>

text \<open>What entitles a node to report a new turn, and to report a state of the current one.\<close>

definition turn_entitled :: "db \<Rightarrow> string \<Rightarrow> string \<Rightarrow> session_row \<Rightarrow> node_session_state \<Rightarrow> bool" where
  "turn_entitled d uid sid old b \<longleftrightarrow>
     \<not> isActive (se_state old) \<and> se_state old \<noteq> S_closed \<and> ns_state b = S_running \<and>
     (\<exists>r\<in>set (t_ops d). reserves_turn uid sid (ns_turn b) r \<and>
        (op_kind r = K_queue \<longrightarrow> se_state old = S_completed \<and> op_state r = Op_confirmed \<and>
           (\<exists>q qs. open_queue d sid = q # qs \<and> qu_next_turn q = ns_turn b)))"

definition state_entitled :: "db \<Rightarrow> string \<Rightarrow> string \<Rightarrow> session_row \<Rightarrow> node_session_state \<Rightarrow> bool" where
  "state_entitled d uid sid old b \<longleftrightarrow>
     validTransition (se_state old) (ns_state b) \<or>
     se_state old = S_closed \<and> ns_state b = S_completed \<and> has_row (authorizes_resume uid sid (ns_turn b)) (t_ops d)"

lemma start_turn_Inr:
  assumes "start_turn E uid sid old newTurn state d = (Inr x, t)"
  obtains r where "\<not> isActive old" "old \<noteq> S_closed" "state = S_running" "r \<in> set (t_ops d)"
    "reserves_turn uid sid newTurn r"
    "op_kind r = K_queue \<Longrightarrow> old = S_completed \<and> op_state r = Op_confirmed \<and>
       (\<exists>q qs. open_queue d sid = q # qs \<and> qu_next_turn q = newTurn)"
  using assms unfolding start_turn_def
  by (auto simp: run_iff split: option.splits list.splits dest!: find_SomeD)

lemma open_step_Inr:
  assumes "open_step E uid sid old b d = (Inr x, t)"
  shows "if ns_turn b = str (se_turn old) then state_entitled d uid sid old b else turn_entitled d uid sid old b"
  using assms unfolding open_step_def continue_turn_def turn_entitled_def state_entitled_def
  by (auto simp: run_iff split: if_splits elim!: start_turn_Inr)

text \<open>
  C4: a snapshot that is taken over either continues the current turn by a transition the table allows
  (or reopens a closed session that a command to resume is under way for), or starts a turn that an
  accepted command reserved, in a session at rest; a queued message starts its turn only after its
  receipt, at the head of the queue and after a completed turn. The capability revision never goes
  back, and afterwards the session has the reported turn and state.
\<close>

theorem session_update_entitled:
  assumes "sessionUpdate E uid nid sid b d = (Inr n, t)"
  shows "\<exists>old r. own_session_row d uid sid = Some old \<and>
    (if ns_turn b = str (se_turn old) then state_entitled d uid sid old b else turn_entitled d uid sid old b) \<and>
    se_caprev old \<le> ns_caprev b \<and> (ns_caprev b = se_caprev old \<longrightarrow> ns_caps b = se_caps old) \<and>
    find_session t sid = Some r \<and> se_turn r = Some (ns_turn b) \<and> se_state r = ns_state b \<and>
    se_caps r = ns_caps b \<and> se_caprev r = ns_caprev b"
  using assms
proof (rule sessionUpdate_Inr)
  fix old d1 st d2 d3 d4 n5 d5 d6
  assume old: "own_session_row d uid sid = Some old"
    and 1: "open_step E uid sid old b d = (Inr (), d1)"
    and caps: "\<not> (ns_caprev b < se_caprev old \<or> ns_caprev b = se_caprev old \<and> ns_caps b \<noteq> se_caps old)"
    and 2: "next_turn_state sid (se_state old) (ns_turn b) (ns_state b) d1 = (Inr st, d2)"
    and 3: "put_turns (upd_rows (\<lambda>t. tn_id t = ns_turn b) (set_turn E st)) d2 = (Inr (), d3)"
    and 4: "queueMirror E uid sid (ns_queue b) (store_snapshot sid b d3) = (Inr (), d4)"
    and 5: "announce_state E uid nid sid old (session_queue E d sid) b d4 = (Inr n5, d5)"
    and 6: "(if \<not> isActive (ns_state b) \<or> ns_state b = S_cancelling
          then cancel_pending E uid nid sid (str (se_turn old)) n5 else returnS n5) d5 = (Inr n, d6)"
    and 7: "(if ns_state b \<noteq> se_state old \<and> (ns_state b = S_completed \<or> ns_state b = S_failed)
          then notify E uid sid (if ns_state b = S_completed then N_completed else N_failed) title_state
          else returnS ()) d6 = (Inr (), t)"
  have "find_session d sid = Some old" using old by (auto simp: own_session_row_def split: option.splits if_splits)
  moreover have "sess d3 = sess d"
    using sessD [OF sess_open_step 1] sessD [OF sess_next_turn_state 2] sessD [OF sess_put_turns 3] by simp
  ultimately obtain r3 where r3: "find_session d3 sid = Some r3" "still r3 = still old" using sess_find by metis
  let ?r = "r3\<lparr>se_turn := Some (ns_turn b), se_state := ns_state b, se_caps := ns_caps b, se_caprev := ns_caprev b\<rparr>"
  have "find_session (store_snapshot sid b d3) sid = Some ?r"
    using r3(1) by (simp add: find_session_def store_snapshot_def find_upd_rows) (auto dest: find_SomeD)
  moreover have "sess t = sess (store_snapshot sid b d3)"
  proof -
    have "sess d6 = sess d5"
      using sessD [OF sess_cancel_pending, of E uid nid sid "str (se_turn old)" n5 d5] 6
      by (auto simp: run_iff split: if_splits)
    moreover have "sess t = sess d6"
      using sessD [OF sess_notify, of E uid sid _ title_state d6] 7 by (auto simp: run_iff split: if_splits)
    ultimately show ?thesis using sessD [OF sess_queueMirror 4] sessD [OF sess_announce_state 5] by simp
  qed
  ultimately obtain r where "find_session t sid = Some r" "still r = still ?r" using sess_find by metis
  then show ?thesis using old caps open_step_Inr [OF 1] still_fields [of r ?r] by (auto simp del: split_paired_Ex)
qed


text \<open>A running session whose turn completes.\<close>

definition db_running :: db where
  "db_running = db0\<lparr>t_sessions := [session0\<lparr>se_state := S_running\<rparr>], t_turns := [turn0\<lparr>tn_state := T_running, tn_ended := None\<rparr>]\<rparr>"

definition completed0 :: node_session_state where
  "completed0 = \<lparr>ns_session = ''s'', ns_turn = ''t'', ns_state = S_completed, ns_caps = caps0, ns_caprev = 1, ns_queue = []\<rparr>"

definition sample_update :: "(err + int) \<times> db" where
  "sample_update = sessionUpdate env0 ''u'' ''n'' ''s'' completed0 db_running"

lemmas update_eval = sessionUpdate_def getSession_def own_session_row_def accessible_def continue_turn_def
  validTransition_def next_turn_state_def put_turns_def one_active_def set_turn_def queueMirror_def open_queue_def
  session_queue_def announce_state_def cancel_pending_def pending_requests_def notify_def queueSubscription_def
  subscriptions_enabled_def new_id_def

lemma sample_update_eq: "fst sample_update = Inr 1"
  by (simp add: sample_update_def db_running_def completed0_def update_eval append_eval run_simps sample_defs)

theorem session_update_entitled_witness:
  "\<exists>r. find_session (snd sample_update) ''s'' = Some r \<and> se_state r = S_completed"
proof -
  have "sessionUpdate env0 ''u'' ''n'' ''s'' completed0 db_running = (Inr 1, snd sample_update)"
    using sample_update_eq by (simp add: sample_update_def prod_eq_iff)
  from session_update_entitled [OF this] show ?thesis by (auto simp: completed0_def)
qed

section \<open>A request of an earlier turn\<close>

lemma foldS_fails:
  assumes "\<And>y b. preserves J (f y b)" and "\<And>s b. J s \<Longrightarrow> \<exists>e. fst (f x b s) = Inl e" and "x \<in> set xs" and "J s"
  shows "\<exists>e. fst (foldS f xs b s) = Inl e"
  using assms(3,4)
proof (induction xs arbitrary: s b)
  case (Cons y ys)
  obtain q t where run: "f y b s = (q, t)" by (cases "f y b s")
  show ?case
  proof (cases q)
    case (Inl e)
    then show ?thesis using run by (simp add: bindS_stop)
  next
    case (Inr u)
    then have "x \<noteq> y" "J t" using assms(2) [OF Cons.prems(2), of b] run preservesD [OF assms(1)] Cons.prems(2) by auto
    then show ?thesis using Cons Inr run by (simp add: bindS_step)
  qed
qed simp

text \<open>The row of a request that is keyed by its identifier.\<close>

definition stuck :: "request_row \<Rightarrow> db \<Rightarrow> bool" where
  "stuck r d \<longleftrightarrow> distinct (map rq_id (t_requests d)) \<and> r \<in> set (t_requests d)"

lemma stuck_core: "(\<And>v. keeps (\<lambda>d. core d = v) m) \<Longrightarrow> keeps (stuck r) m"
  by (rule core_keeps) (simp_all add: core_eq stuck_def)

lemmas stuck_notes = keeps_preserves [OF stuck_core [OF core_change]]
  keeps_preserves [OF stuck_core [OF core_appendEvent]]

lemma stuck_mod: "(\<And>d. t_requests (f d) = t_requests d) \<Longrightarrow> preserves (stuck r) (modS f)"
  by (rule preserves_mod) (simp add: stuck_def)

lemma cancel_refused:
  assumes "stuck r d" and "rq_turn r \<noteq> turn"
  shows "\<exists>e. fst (requestCancel E uid nid sid turn (rq_id r) d) = Inl e"
proof -
  have "find_request d (rq_id r) = Some r" using assms(1) by (simp add: stuck_def find_request_def find_key)
  then show ?thesis using assms(2)
    by (auto simp: requestCancel_def getRequest_def own_request_row_def request_view_of_def run_simps split: option.split)
qed

lemma stuck_requestCancel:
  assumes "rq_turn r \<noteq> turn"
  shows "preserves (stuck r) (requestCancel E uid nid sid turn rid)"
proof (cases "rid = rq_id r")
  case True
  then show ?thesis using cancel_refused [OF _ assms] by (intro preservesI) (metis Inl_Inr_False fst_conv)
next
  case False
  have cut: "preserves (stuck r) (modS (\<lambda>d. d\<lparr>t_requests := upd_rows (\<lambda>r. rq_id r = rid)
      (\<lambda>r. r\<lparr>rq_state := R_cancelled, rq_revision := rq_revision r + 1\<rparr>) (t_requests d)\<rparr>))"
    by (rule preserves_mod) (use False in \<open>auto simp: stuck_def set_upd_rows map_upd_rows_frame\<close>)
  show ?thesis
    unfolding requestCancel_def getRequest_def by (intro keeps_rules cut stuck_notes)
qed

lemma stuck_queueMirror: "preserves (stuck r) (queueMirror E uid sid items)"
  unfolding queueMirror_def mirror_item_def by (intro keeps_rules stuck_mod) simp_all

lemma stuck_open_step: "preserves (stuck r) (open_step E uid sid old b)"
  unfolding open_step_def start_turn_def continue_turn_def insert_turn_def put_turns_def
  by (intro keeps_rules stuck_mod) simp_all

text \<open>
  C31: a request that is pending for an earlier turn than the session's current one (a decision on it
  was released after the turn had ended) stops every snapshot of the node that would cancel the
  pending requests: all that report an ended or a cancelling turn fail.
\<close>

theorem stale_request_stops_snapshot:
  assumes "store_ok T d" and "r \<in> set (t_requests d)" and "rq_session r = sid" and "rq_state r = R_pending"
    and "own_session_row d uid sid = Some old" and "rq_turn r \<noteq> str (se_turn old)"
    and "\<not> isActive (ns_state b) \<or> ns_state b = S_cancelling"
  shows "\<exists>e. fst (sessionUpdate E uid nid sid b d) = Inl e"
proof (rule ccontr)
  assume "\<not> ?thesis"
  then obtain n where "fst (sessionUpdate E uid nid sid b d) = Inr n" by (cases "fst (sessionUpdate E uid nid sid b d)") auto
  then have "sessionUpdate E uid nid sid b d = (Inr n, snd (sessionUpdate E uid nid sid b d))" by (simp add: prod_eq_iff)
  then show False
  proof (rule sessionUpdate_Inr)
    fix old' d1 st d2 d3 d4 n5 d5 d6
    assume old: "own_session_row d uid sid = Some old'"
      and 1: "open_step E uid sid old' b d = (Inr (), d1)"
      and 2: "next_turn_state sid (se_state old') (ns_turn b) (ns_state b) d1 = (Inr st, d2)"
      and 3: "put_turns (upd_rows (\<lambda>t. tn_id t = ns_turn b) (set_turn E st)) d2 = (Inr (), d3)"
      and 4: "queueMirror E uid sid (ns_queue b) (store_snapshot sid b d3) = (Inr (), d4)"
      and 5: "announce_state E uid nid sid old' (session_queue E d sid) b d4 = (Inr n5, d5)"
      and 6: "(if \<not> isActive (ns_state b) \<or> ns_state b = S_cancelling
            then cancel_pending E uid nid sid (str (se_turn old')) n5 else returnS n5) d5 = (Inr n, d6)"
    have "stuck r d" using assms(1,2) by (simp add: stuck_def store_ok_def rows_ok_def)
    then have "stuck r d1" by (rule preservesD [OF stuck_open_step 1])
    then have "stuck r d2" using 2 by (auto simp: next_turn_state_def run_iff split: if_splits)
    then have "stuck r (store_snapshot sid b d3)"
      using 3 by (auto simp: put_turns_def run_iff stuck_def store_snapshot_def)
    then have "stuck r d4" by (rule preservesD [OF stuck_queueMirror 4])
    moreover have quiet: "preserves (stuck r) (announce_state E uid nid sid old' (session_queue E d sid) b)"
      unfolding announce_state_def by (intro keeps_rules stuck_notes)
    ultimately have s5: "stuck r d5" using preservesD [OF quiet 5] by blast
    then have "rq_id r \<in> set (pending_requests d5 sid)"
      using assms(3,4) by (auto simp: pending_requests_def stuck_def)
    then have "\<exists>e. fst (foldS (\<lambda>rid _. requestCancel E uid nid sid (str (se_turn old)) rid)
        (pending_requests d5 sid) n5 d5) = Inl e"
      by (intro foldS_fails [where J = "stuck r" and x = "rq_id r"] stuck_requestCancel cancel_refused assms(6) s5)
    then show False using 6 assms(5,7) old by (simp add: cancel_pending_def bindS_get)
  qed
qed


definition stale_request :: request_row where
  "stale_request = \<lparr>rq_id = ''r'', rq_session = ''s'', rq_turn = ''before'', rq_user = ''u'', rq_state = R_pending,
     rq_def = \<lparr>nr_id = ''r'', nr_session = ''s'', nr_turn = ''before'', nr_title = [], nr_summary = [],
       nr_created = ''i'', nr_expires = ''i'', nr_body = Approval_body [] [] []\<rparr>,
     rq_decision = None, rq_decision_op = None, rq_revision = 3, rq_created = 1, rq_expires = 900, rq_resolved = None\<rparr>"

theorem stale_request_stops_snapshot_witness:
  "\<exists>e. fst (sessionUpdate env0 ''u'' ''n'' ''s'' completed0 (db_running\<lparr>t_requests := [stale_request]\<rparr>)) = Inl e"
proof (rule stale_request_stops_snapshot [where r = stale_request and T = 200 and old = "session0\<lparr>se_state := S_running\<rparr>"])
  show "store_ok 200 (db_running\<lparr>t_requests := [stale_request]\<rparr>)"
    using store_db0 [of 200]
    by (simp add: store_ok_def logs_ok_def db_running_def rows_ok_def stale_request_def request_ok_def
        events_inv_def db0_def session0_def event_seqs_def)
  show "own_session_row (db_running\<lparr>t_requests := [stale_request]\<rparr>) ''u'' ''s'' = Some (session0\<lparr>se_state := S_running\<rparr>)"
    by (simp add: own_session_row_def find_session_def accessible_def db_running_def db0_def session0_def has_row_def)
qed (simp_all add: stale_request_def completed0_def session0_def)

end
