(* ===== verification/Queue_Spec.thy ===== *)
theory Queue_Spec
  imports Frames "HOL-Library.Sublist"
begin

text \<open>
  The queue of a session as a specification: a sequence of identifiers that a report of the node
  may shorten, item by item, and lengthen at its end. \<open>queueMirror\<close> implements it on the rows of the
  table, their positions and their states.
\<close>

section \<open>Sorting by position\<close>

lemma insort_append_less:
  "(\<And>b. b \<in> set zs \<Longrightarrow> f x < f b) \<Longrightarrow> insort_key f x (ws @ zs) = insort_key f x ws @ zs"
  by (induction ws) (auto simp: insort_is_Cons less_imp_le)

lemma sort_key_append_less:
  "(\<And>a b. a \<in> set xs \<Longrightarrow> b \<in> set ys \<Longrightarrow> f a < f b) \<Longrightarrow> sort_key f (xs @ ys) = sort_key f xs @ sort_key f ys"
proof (induction xs)
  case (Cons x xs)
  have "insort_key f x (sort_key f xs @ sort_key f ys) = insort_key f x (sort_key f xs) @ sort_key f ys"
    using Cons.prems by (intro insort_append_less) simp
  then show ?case using Cons by simp
qed simp

lemma sort_key_map:
  "(\<And>x. x \<in> set xs \<Longrightarrow> f (u x) = f x) \<Longrightarrow> sort_key f (map u xs) = map u (sort_key f xs)"
proof (induction xs)
  case (Cons x xs)
  have "insort_key f (u x) (map u ys) = map u (insort_key f x ys)" if "\<And>y. y \<in> set ys \<Longrightarrow> f (u y) = f y" for ys
    using that Cons.prems by (induction ys) auto
  from this [of "sort_key f xs"] show ?case using Cons by simp
qed simp

section \<open>The specification\<close>

definition fifo_step :: "string list \<Rightarrow> string list \<Rightarrow> bool" where
  "fifo_step Q Q' \<longleftrightarrow> (\<exists>kept new. Q' = kept @ new \<and> subseq kept Q \<and> set new \<inter> set Q = {})"

definition queue_ids :: "db \<Rightarrow> string \<Rightarrow> string list" where
  "queue_ids d sid = map qu_id (open_queue d sid)"

definition waiting :: "string \<Rightarrow> queue_row \<Rightarrow> bool" where
  "waiting sid q \<longleftrightarrow> qu_session q = sid \<and> qu_state q \<in> {Q_queued, Q_starting}"

definition item_waiting :: "queue_item \<Rightarrow> bool" where
  "item_waiting i \<longleftrightarrow> qi_state i \<in> {Q_queued, Q_starting}"

text \<open>
  How the table grows while items are mirrored: rows keep their identifier, session and position, what
  is over stays over, and new rows of the session get ever higher positions.
\<close>

definition growth :: "string \<Rightarrow> queue_row list \<Rightarrow> (queue_row \<Rightarrow> queue_row) \<Rightarrow> queue_row list \<Rightarrow> bool" where
  "growth sid A u B \<longleftrightarrow>
     (\<forall>x\<in>set A. qu_id (u x) = qu_id x \<and> qu_session (u x) = qu_session x \<and> qu_position (u x) = qu_position x \<and>
        (waiting sid (u x) \<longrightarrow> waiting sid x)) \<and>
     (\<forall>b\<in>set B. qu_session b = sid) \<and> sorted_wrt (<) (map qu_position B) \<and>
     (\<forall>a\<in>set A. \<forall>b\<in>set B. qu_session a = sid \<longrightarrow> qu_position a < qu_position b) \<and>
     set (map qu_id B) \<inter> set (map qu_id A) = {}"

definition grown :: "string \<Rightarrow> queue_row list \<Rightarrow> queue_row list \<Rightarrow> bool" where
  "grown sid A Q \<longleftrightarrow> (\<exists>u B. Q = map u A @ B \<and> growth sid A u B)"

lemma growthD:
  assumes "growth sid A u B"
  shows "x \<in> set A \<Longrightarrow> qu_id (u x) = qu_id x" "x \<in> set A \<Longrightarrow> qu_session (u x) = qu_session x"
    "x \<in> set A \<Longrightarrow> qu_position (u x) = qu_position x" "x \<in> set A \<Longrightarrow> waiting sid (u x) \<Longrightarrow> waiting sid x"
    "b \<in> set B \<Longrightarrow> qu_session b = sid" "sorted_wrt (<) (map qu_position B)"
    "x \<in> set A \<Longrightarrow> b \<in> set B \<Longrightarrow> qu_session x = sid \<Longrightarrow> qu_position x < qu_position b"
    "x \<in> set A \<Longrightarrow> b \<in> set B \<Longrightarrow> qu_id x \<noteq> qu_id b"
  using assms by (auto simp: growth_def)

lemma growthI:
  assumes "\<And>x. x \<in> set A \<Longrightarrow> qu_id (u x) = qu_id x \<and> qu_session (u x) = qu_session x
      \<and> qu_position (u x) = qu_position x \<and> (waiting sid (u x) \<longrightarrow> waiting sid x)"
    and "\<And>b. b \<in> set B \<Longrightarrow> qu_session b = sid" and "sorted_wrt (<) (map qu_position B)"
    and "\<And>a b. a \<in> set A \<Longrightarrow> b \<in> set B \<Longrightarrow> qu_session a = sid \<Longrightarrow> qu_position a < qu_position b"
    and "\<And>a b. a \<in> set A \<Longrightarrow> b \<in> set B \<Longrightarrow> qu_id a \<noteq> qu_id b"
  shows "growth sid A u B"
  using assms unfolding growth_def by fastforce

lemma grown_refl: "grown sid A A"
  unfolding grown_def growth_def by (rule exI [of _ id], rule exI [of _ "[]"]) simp

text \<open>A row keyed by its identifier, in a state that is not over, gets a new state.\<close>

lemma grown_upd:
  assumes g: "grown sid A Q" and dist: "distinct (map qu_id Q)"
    and row: "find (\<lambda>q. qu_id q = i) Q = Some r" "waiting sid r"
  shows "grown sid A (upd_rows (\<lambda>q. qu_id q = i) (\<lambda>q. q\<lparr>qu_state := st\<rparr>) Q)"
proof -
  let ?f = "\<lambda>q. if qu_id q = i then q\<lparr>qu_state := st\<rparr> else q"
  obtain u B where Q: "Q = map u A @ B" and gr: "growth sid A u B" using g by (auto simp: grown_def)
  have wait: "waiting sid x" if "x \<in> set A" "qu_id (u x) = i" for x
  proof -
    have "u x = r" using that Q key_unique [OF dist, of "u x" r] find_SomeD [OF row(1)] by simp
    then show ?thesis using row(2) gr that by (auto simp: growth_def)
  qed
  have "upd_rows (\<lambda>q. qu_id q = i) (\<lambda>q. q\<lparr>qu_state := st\<rparr>) Q = map (?f \<circ> u) A @ map ?f B"
    by (simp add: Q upd_rows_def)
  moreover have "growth sid A (?f \<circ> u) (map ?f B)"
  proof -
    have ids: "map qu_position (map ?f B) = map qu_position B" "map qu_id (map ?f B) = map qu_id B" by auto
    have "\<forall>x\<in>set A. waiting sid ((?f \<circ> u) x) \<longrightarrow> waiting sid x" using wait gr by (auto simp: growth_def)
    then show ?thesis using gr unfolding growth_def ids by (auto simp: ids)
  qed
  ultimately show ?thesis unfolding grown_def by blast
qed

lemma next_position_above: "q \<in> set (t_queue d) \<Longrightarrow> qu_session q = sid \<Longrightarrow> qu_position q < next_position d sid"
proof -
  have "x \<in> set xs \<Longrightarrow> x \<le> foldr max xs (0::int)" for x xs by (induction xs) auto
  then have "qu_position q \<le> foldr max (map qu_position (filter (\<lambda>q. qu_session q = sid) (t_queue d))) 0"
    if "q \<in> set (t_queue d)" "qu_session q = sid" using that by auto
  then show "q \<in> set (t_queue d) \<Longrightarrow> qu_session q = sid \<Longrightarrow> qu_position q < next_position d sid"
    by (force simp: next_position_def)
qed

lemma grown_snoc:
  assumes g: "grown sid A Q" and new: "qu_id r \<notin> qu_id ` set Q" and r: "qu_session r = sid"
    and top: "\<And>q. q \<in> set Q \<Longrightarrow> qu_session q = sid \<Longrightarrow> qu_position q < qu_position r"
  shows "grown sid A (Q @ [r])"
proof -
  obtain u B where Q: "Q = map u A @ B" and gr: "growth sid A u B" using g by (auto simp: grown_def)
  have old: "qu_position a < qu_position r" if "a \<in> set A" "qu_session a = sid" for a
    using top [of "u a"] gr Q that by (simp add: growth_def)
  have "qu_id r \<noteq> qu_id a" if "a \<in> set A" for a
  proof -
    have "qu_id (u a) \<in> qu_id ` set Q" using Q that by simp
    then show ?thesis using new growthD(1) [OF gr that] by metis
  qed
  moreover have "sorted_wrt (<) (map qu_position (B @ [r]))"
    using growthD(5,6) [OF gr] top Q by (simp add: sorted_wrt_append)
  ultimately have "growth sid A u (B @ [r])"
  proof (intro growthI)
    fix x assume "x \<in> set A"
    then show "qu_id (u x) = qu_id x \<and> qu_session (u x) = qu_session x
      \<and> qu_position (u x) = qu_position x \<and> (waiting sid (u x) \<longrightarrow> waiting sid x)"
      using growthD(1-4) [OF gr, of x] by blast
  next
    fix b assume "b \<in> set (B @ [r])"
    then show "qu_session b = sid" using growthD(5) [OF gr, of b] r by auto
  next
    fix a b assume "a \<in> set A" "b \<in> set (B @ [r])" "qu_session a = sid"
    then show "qu_position a < qu_position b" using growthD(7) [OF gr, of a b] old [of a] by auto
  next
    fix a b assume "a \<in> set A" "b \<in> set (B @ [r])" "\<And>a. a \<in> set A \<Longrightarrow> qu_id r \<noteq> qu_id a"
    then show "qu_id a \<noteq> qu_id b" using growthD(8) [OF gr, of a b] by fastforce
  qed
  moreover have "Q @ [r] = map u A @ (B @ [r])" by (simp add: Q)
  ultimately show ?thesis unfolding grown_def by blast
qed

text \<open>The open queue of a grown table is what is left of the old one, and then the new items.\<close>

lemma grown_fifo:
  assumes g: "grown sid (t_queue d) (t_queue t)"
  shows "fifo_step (queue_ids d sid) (queue_ids t sid)"
proof -
  obtain u B where Q: "t_queue t = map u (t_queue d) @ B" and gr: "growth sid (t_queue d) u B"
    using g by (auto simp: grown_def)
  let ?A = "filter (waiting sid \<circ> u) (t_queue d)" and ?B = "filter (waiting sid) B"
  have open_eq: "open_queue x sid = sort_key qu_position (filter (waiting sid) (t_queue x))" for x
    by (simp add: open_queue_def waiting_def [abs_def])
  have "sort_key qu_position (map u ?A @ ?B) = sort_key qu_position (map u ?A) @ sort_key qu_position ?B"
  proof (rule sort_key_append_less)
    fix a b assume "a \<in> set (map u ?A)" "b \<in> set ?B"
    then obtain x where "x \<in> set (t_queue d)" "waiting sid (u x)" "a = u x" "b \<in> set B" by auto
    then show "qu_position a < qu_position b"
      using growthD(2,3) [OF gr, of x] growthD(7) [OF gr, of x b] by (simp add: waiting_def)
  qed
  moreover have "sort_key qu_position (map u ?A) = map u (sort_key qu_position ?A)"
    by (rule sort_key_map) (use growthD(3) [OF gr] in simp)
  ultimately have "open_queue t sid = map u (sort_key qu_position ?A) @ sort_key qu_position ?B"
    by (simp add: open_eq Q filter_map)
  moreover have "map (qu_id \<circ> u) (sort_key qu_position ?A) = map qu_id (sort_key qu_position ?A)"
    using growthD(1) [OF gr] by simp
  ultimately have new: "queue_ids t sid = map qu_id (sort_key qu_position ?A) @ map qu_id (sort_key qu_position ?B)"
    by (simp add: queue_ids_def)
  have "filter (\<lambda>x. waiting sid (u x)) (t_queue d) = filter (\<lambda>x. waiting sid (u x)) (filter (waiting sid) (t_queue d))"
    using growthD(4) [OF gr] by (auto intro!: filter_cong)
  then have "sort_key qu_position ?A = filter (\<lambda>x. waiting sid (u x)) (open_queue d sid)"
    by (simp add: open_eq filter_sort comp_def)
  then have "subseq (map qu_id (sort_key qu_position ?A)) (queue_ids d sid)"
    by (simp add: queue_ids_def subseq_map)
  moreover have "set (map qu_id (sort_key qu_position ?B)) \<inter> set (queue_ids d sid) = {}"
    using growthD(8) [OF gr] by (force simp: queue_ids_def open_eq)
  ultimately show ?thesis unfolding fifo_step_def new by blast
qed

section \<open>The mirror\<close>

text \<open>A loop that succeeds, by its steps.\<close>

lemma foldS_steps:
  assumes "foldS f xs b s = (Inr c, t)" and "P [] b s"
    and step: "\<And>ys x b s b' s'. P ys b s \<Longrightarrow> f x b s = (Inr b', s') \<Longrightarrow> P (ys @ [x]) b' s'"
  shows "P xs c t"
proof -
  have "P (zs @ xs) c t" if "foldS f xs b s = (Inr c, t)" "P zs b s" for zs
    using that
  proof (induction xs arbitrary: zs b s)
    case (Cons x xs)
    then obtain b' s' where x: "f x b s = (Inr b', s')" and xs: "foldS f xs b' s' = (Inr c, t)" by (auto simp: bindS_Inr)
    show ?case using Cons.IH [OF xs step [OF Cons.prems(2) x]] by simp
  qed (simp add: returnS_iff)
  from this [of "[]"] show ?thesis using assms by simp
qed

text \<open>A mirrored item: its row is in the reported state, and other rows are as before.\<close>

lemma mirror_item_step:
  assumes run: "mirror_item E uid sid q d = (Inr x, t)" and dist: "distinct (map qu_id (t_queue d))"
    and g: "grown sid A (t_queue d)"
  shows "distinct (map qu_id (t_queue t)) \<and> grown sid A (t_queue t) \<and>
    (\<exists>r\<in>set (t_queue t). qu_id r = qi_id q \<and> qu_session r = sid \<and> qu_state r = qi_state q) \<and>
    (\<forall>r. qu_id r \<noteq> qi_id q \<longrightarrow> r \<in> set (t_queue d) \<longleftrightarrow> r \<in> set (t_queue t))"
proof (cases "find_queue d (qi_id q)")
  case (Some r)
  then have t: "t_queue t = upd_rows (\<lambda>x. qu_id x = qi_id q) (\<lambda>x. x\<lparr>qu_state := qi_state q\<rparr>) (t_queue d)"
    and r: "qu_session r = sid" "qu_state r \<noteq> Q_consumed" "qu_state r \<noteq> Q_cancelled"
    using run by (auto simp: mirror_item_def run_iff split: option.splits)
  have "waiting sid r" using r by (cases "qu_state r") (simp_all add: waiting_def)
  then have "grown sid A (t_queue t)"
    unfolding t using grown_upd [OF g dist] Some by (simp add: find_queue_def)
  moreover have "map qu_id (t_queue t) = map qu_id (t_queue d)" unfolding t by (rule map_upd_rows_frame) simp
  moreover have "r \<in> set (t_queue d)" "qu_id r = qi_id q" using Some by (auto simp: find_queue_def dest: find_SomeD)
  then have "r\<lparr>qu_state := qi_state q\<rparr> \<in> set (t_queue t)" unfolding t set_upd_rows by (auto intro: rev_image_eqI)
  then have "\<exists>r\<in>set (t_queue t). qu_id r = qi_id q \<and> qu_session r = sid \<and> qu_state r = qi_state q"
    using r \<open>qu_id r = qi_id q\<close> by (intro bexI [of _ "r\<lparr>qu_state := qi_state q\<rparr>"]) simp_all
  moreover have "\<forall>r. qu_id r \<noteq> qi_id q \<longrightarrow> r \<in> set (t_queue d) \<longleftrightarrow> r \<in> set (t_queue t)"
    unfolding t set_upd_rows by (auto simp: image_iff)
  ultimately show ?thesis using dist by simp
next
  case None
  then obtain r where t: "t_queue t = t_queue d @ [r]" and r: "qu_id r = qi_id q" "qu_session r = sid" "qu_state r = qi_state q"
      "qu_position r = next_position d sid"
    using run by (auto simp: mirror_item_def run_iff split: option.splits)
  have new: "qu_id r \<notin> qu_id ` set (t_queue d)" using None r by (auto simp: find_queue_def find_None_iff_has has_row_iff)
  have "grown sid A (t_queue t)"
    unfolding t by (rule grown_snoc [OF g new r(2)]) (simp add: r(4) next_position_above)
  then show ?thesis using new dist r t by auto
qed

definition mirrored :: "string \<Rightarrow> db \<Rightarrow> queue_item list \<Rightarrow> string list \<Rightarrow> db \<Rightarrow> bool" where
  "mirrored sid d items ids t \<longleftrightarrow> ids = map qi_id items \<and> distinct (map qi_id items) \<and>
     distinct (map qu_id (t_queue t)) \<and> grown sid (t_queue d) (t_queue t) \<and>
     (\<forall>q\<in>set items. \<exists>r\<in>set (t_queue t). qu_id r = qi_id q \<and> qu_session r = sid \<and> qu_state r = qi_state q) \<and>
     (\<forall>r. qu_id r \<notin> set ids \<longrightarrow> r \<in> set (t_queue d) \<longleftrightarrow> r \<in> set (t_queue t))"

lemma mirrored_step:
  assumes "mirrored sid d items ids s" and "qi_id q \<notin> set ids" and run: "mirror_item E uid sid q s = (Inr x, t)"
  shows "mirrored sid d (items @ [q]) (ids @ [qi_id q]) t"
proof -
  have "distinct (map qu_id (t_queue s))" "grown sid (t_queue d) (t_queue s)"
    using assms(1) by (simp_all add: mirrored_def)
  note step = mirror_item_step [OF run this]
  have "\<exists>r\<in>set (t_queue t). qu_id r = qi_id i \<and> qu_session r = sid \<and> qu_state r = qi_state i" if "i \<in> set (items @ [q])" for i
  proof (cases "i \<in> set items")
    case True
    then obtain r where "r \<in> set (t_queue s)" "qu_id r = qi_id i" "qu_session r = sid" "qu_state r = qi_state i"
      using assms(1) by (auto simp: mirrored_def)
    moreover have "qi_id i \<in> set ids" using True assms(1) by (simp add: mirrored_def)
    then have "qi_id i \<noteq> qi_id q" using assms(2) by metis
    ultimately show ?thesis using step by metis
  next
    case False
    then have "i = q" using that by simp
    then show ?thesis using step by blast
  qed
  then show ?thesis using assms(1,2) step by (simp add: mirrored_def)
qed

lemma prefix_filter: "distinct xs \<Longrightarrow> take n xs = filter (\<lambda>x. x \<in> set (take n xs)) xs"
proof -
  assume d: "distinct (xs :: 'a list)"
  have "filter (\<lambda>x. x \<in> set (take n xs)) (take n xs) = take n xs" by (simp add: filter_id_conv)
  moreover have "filter (\<lambda>x. x \<in> set (take n xs)) (drop n xs) = []"
    using d set_take_disj_set_drop_if_distinct [of xs n n] by (auto simp: filter_empty_conv)
  ultimately show ?thesis
    using filter_append [of "\<lambda>x. x \<in> set (take n xs)" "take n xs" "drop n xs"] by simp
qed

text \<open>
  C15: a report of the queue that is taken over refines the abstract queue: what is left of the old
  items keeps its order, new items go behind them, no open item may be missing from the report, and
  the open queue afterwards is exactly the report's waiting items in the report's order.
\<close>

theorem queue_mirror_refines:
  assumes "distinct (map qu_id (t_queue d))" and "queueMirror E uid sid items d = (Inr x, t)"
  shows "fifo_step (queue_ids d sid) (queue_ids t sid) \<and>
    queue_ids t sid = map qi_id (filter item_waiting items) \<and> set (queue_ids d sid) \<subseteq> set (map qi_id items)"
proof -
  from assms(2) obtain ids where fold: "foldS (\<lambda>q ids. thenS (guardS (qi_id q \<notin> set ids) invalid)
              (thenS (mirror_item E uid sid q) (returnS (ids @ [qi_id q])))) items [] d = (Inr ids, t)"
    and sub: "set (queue_ids t sid) \<subseteq> set ids" and pre: "take (length (queue_ids t sid)) ids = queue_ids t sid"
    unfolding queueMirror_def queue_ids_def by (auto simp: run_iff)
  have m: "mirrored sid d items ids t"
  proof (rule foldS_steps [where P = "mirrored sid d", OF fold])
    show "mirrored sid d [] [] d" using assms(1) by (simp add: mirrored_def grown_refl)
  qed (auto simp: run_iff intro: mirrored_step)
  have in_open: "i \<in> set (queue_ids t sid) \<longleftrightarrow> (\<exists>r\<in>set (t_queue t). qu_id r = i \<and> waiting sid r)" for i
    by (auto simp: queue_ids_def open_queue_def waiting_def)
  have wait: "qi_id q \<in> set (queue_ids t sid) \<longleftrightarrow> item_waiting q" if q: "q \<in> set items" for q
  proof -
    obtain r where r: "r \<in> set (t_queue t)" "qu_id r = qi_id q" "qu_session r = sid" "qu_state r = qi_state q"
      using m q by (auto simp: mirrored_def)
    have "r' = r" if "r' \<in> set (t_queue t)" "qu_id r' = qi_id q" for r'
      using m r that key_unique [of qu_id "t_queue t" r' r] by (simp add: mirrored_def)
    then have "qi_id q \<in> set (queue_ids t sid) \<longleftrightarrow> waiting sid r" unfolding in_open using r(1,2) by metis
    then show ?thesis using r(3,4) by (simp add: waiting_def item_waiting_def)
  qed
  have ids: "ids = map qi_id items" "distinct ids" using m by (auto simp: mirrored_def)
  have "queue_ids t sid = filter (\<lambda>i. i \<in> set (queue_ids t sid)) ids"
    using prefix_filter [OF ids(2), of "length (queue_ids t sid)"] by (simp add: pre)
  also have "\<dots> = map qi_id (filter item_waiting items)"
  proof -
    have "filter ((\<lambda>i. i \<in> set (queue_ids t sid)) \<circ> qi_id) items = filter item_waiting items"
      by (rule filter_cong) (simp_all add: wait)
    then show ?thesis by (simp add: ids(1) filter_map)
  qed
  finally have "queue_ids t sid = map qi_id (filter item_waiting items)" .
  moreover have "set (queue_ids d sid) \<subseteq> set (map qi_id items)"
  proof
    fix i assume "i \<in> set (queue_ids d sid)"
    then obtain r where r: "r \<in> set (t_queue d)" "qu_id r = i" "waiting sid r"
      by (auto simp: queue_ids_def open_queue_def waiting_def)
    show "i \<in> set (map qi_id items)"
    proof (rule ccontr)
      assume no: "i \<notin> set (map qi_id items)"
      then have "r \<in> set (t_queue t)" using m r ids by (auto simp: mirrored_def)
      then have "i \<in> set (queue_ids t sid)" unfolding in_open using r by blast
      then show False using sub no ids by auto
    qed
  qed
  moreover have "fifo_step (queue_ids d sid) (queue_ids t sid)" by (rule grown_fifo) (use m in \<open>simp add: mirrored_def\<close>)
  ultimately show ?thesis by blast
qed

text \<open>Two items are reported where one was open before.\<close>

definition queue_item0 :: "string \<Rightarrow> queue_item" where
  "queue_item0 i = \<lparr>qi_id = i, qi_op = i, qi_text = [], qi_state = Q_queued, qi_created = []\<rparr>"

definition queue_row0 :: "string \<Rightarrow> int \<Rightarrow> queue_row" where
  "queue_row0 i n = \<lparr>qu_id = i, qu_user = ''u'', qu_session = ''s'', qu_op = i, qu_next_turn = [], qu_position = n,
     qu_text = [], qu_state = Q_queued, qu_created = 0\<rparr>"

definition queue_op0 :: "string \<Rightarrow> op_row" where
  "queue_op0 i = \<lparr>op_user = ''u'', op_id = i, op_kind = K_queue, op_hash = [], op_state = Op_confirmed,
     op_node = Some ''n'', op_session = Some ''s'', op_turn = None, op_epoch = 1, op_payload = None,
     op_result = None, op_error = None, op_revision = 1, op_deadline = 20, op_created = 5, op_updated = 10\<rparr>"

definition db_queue :: db where
  "db_queue = db0\<lparr>t_queue := [queue_row0 ''a'' 1], t_ops := [queue_op0 ''a'', queue_op0 ''b'']\<rparr>"

theorem queue_mirror_refines_witness:
  "queue_ids (snd (queueMirror env0 ''u'' ''s'' [queue_item0 ''a'', queue_item0 ''b''] db_queue)) ''s'' = [''a'', ''b'']"
proof -
  have "fst (queueMirror env0 ''u'' ''s'' [queue_item0 ''a'', queue_item0 ''b''] db_queue) = Inr ()"
    by (simp add: queueMirror_def mirror_item_def queue_op_def find_queue_def payload_of_def next_position_def open_queue_def
        has_row_def run_simps db_queue_def queue_item0_def queue_row0_def queue_op0_def env0_def) auto
  then have "queueMirror env0 ''u'' ''s'' [queue_item0 ''a'', queue_item0 ''b''] db_queue
      = (Inr (), snd (queueMirror env0 ''u'' ''s'' [queue_item0 ''a'', queue_item0 ''b''] db_queue))"
    by (simp add: prod_eq_iff)
  from queue_mirror_refines [OF _ this] show ?thesis
    by (simp add: db_queue_def queue_row0_def queue_item0_def item_waiting_def)
qed

end
