(* ===== verification/Commands_Spec.thy ===== *)
theory Commands_Spec
  imports Frames
begin

text \<open>
  What becomes of a command: a replay changes nothing, an accepted command is either handed to the
  node's connection or provably not sent and failed, and taking it back releases what it held.
\<close>

section \<open>The operations and the outbox\<close>

named_theorems work_rules \<open>operations that leave the operations and the outbox alone\<close>

definition work where
  "work d = (t_ops d, t_outbox d)"

lemma work_core: "(\<And>v. keeps (\<lambda>d. core d = v) m) \<Longrightarrow> keeps (\<lambda>d. work d = v) m"
  by (rule core_keeps) (simp_all add: core_eq work_def)

lemmas work_notes [work_rules] = work_core [OF core_change] work_core [OF core_appendEvent]
  work_core [OF core_new_id] work_core [OF core_audit] work_core [OF core_announce_request]

lemma work_mod: "(\<And>d. work (f d) = work d) \<Longrightarrow> keeps (\<lambda>d. work d = v) (modS f)"
  by (rule keeps_mod) simp

lemma workD:
  assumes "\<And>v. keeps (\<lambda>d. work d = v) m" and "m s = (r, t)"
  shows "t_ops t = t_ops s \<and> t_outbox t = t_outbox s"
  using keepsD [OF assms, of "work s"] by (simp add: work_def)

lemma work_put_turns [work_rules]: "keeps (\<lambda>d. work d = v) (put_turns f)"
  unfolding put_turns_def by (intro keeps_rules work_mod) (simp add: work_def)

lemma work_fail_created [work_rules]: "keeps (\<lambda>d. work d = v) (fail_created_session E uid sid)"
  unfolding fail_created_session_def by (intro keeps_rules work_rules work_mod) (simp add: work_def)

lemma work_release_decisions [work_rules]: "keeps (\<lambda>d. work d = v) (release_decisions E uid op)"
  unfolding release_decisions_def by (intro keeps_rules work_rules work_mod) (simp add: work_def)

lemma work_rejectedEffects [work_rules]: "keeps (\<lambda>d. work d = v) (rejectedEffects E uid op)"
  unfolding rejectedEffects_def by (intro keeps_rules work_rules)

lemma work_create_rows [work_rules]: "keeps (\<lambda>d. work d = v) (create_rows E uid p b a)"
  unfolding create_rows_def session_title_def insert_session_def insert_turn_def
  by (intro keeps_rules work_rules work_mod) (simp_all add: work_def)

lemma work_recordShareAdmission [work_rules]: "keeps (\<lambda>d. work d = v) (recordShareAdmission E adm owner op)"
  unfolding recordShareAdmission_def by (intro keeps_rules work_mod) (simp add: work_def)

lemma work_mark_deciding [work_rules]: "keeps (\<lambda>d. work d = v) (mark_deciding E uid p rid dec op)"
  unfolding mark_deciding_def getRequest_def by (intro keeps_rules work_rules work_mod) (simp add: work_def)

section \<open>Settling an operation\<close>

definition settle_row :: "env \<Rightarrow> op_state \<Rightarrow> op_result option \<Rightarrow> op_error option \<Rightarrow> op_row \<Rightarrow> op_row" where
  "settle_row E st res eb r = r\<lparr>op_state := st, op_result := res, op_error := eb,
     op_revision := op_revision r + 1, op_updated := now E\<rparr>"

definition key_is :: "string \<Rightarrow> string \<Rightarrow> op_row \<Rightarrow> bool" where
  "key_is uid op r \<longleftrightarrow> op_user r = uid \<and> op_id r = op"

lemma finishOp_Inr:
  assumes "finishOp E uid op st res reason d = (Inr x, t)"
  obtains r eb where "find_op d uid op = Some r" and "(st = Op_failed) = (eb \<noteq> None)"
    and "t_ops t = upd_rows (key_is uid op) (settle_row E st res eb) (t_ops d)" and "t_outbox t = t_outbox d"
    and "map_option oe_code eb = (case reason of Some (Api status code retry) \<Rightarrow> Some code | _ \<Rightarrow> None)"
proof -
  from assms obtain eb d1 r where 1: "(case reason of
              Some (Api st code retry) \<Rightarrow>
                bindS (new_id E ''trace'') (\<lambda>t. returnS (Some \<lparr>oe_code = code, oe_retry = retry, oe_trace = t\<rparr>))
            | _ \<Rightarrow> returnS None) d = (Inr eb, d1)"
    and r: "find_op d1 uid op = Some r" and eb: "(st = Op_failed) = (eb \<noteq> None)"
    and c: "change E uid Rt_operation op Upsert (op_revision r + 1)
      (d1\<lparr>t_ops := upd_rows (\<lambda>r. op_user r = uid \<and> op_id r = op)
        (\<lambda>r. r\<lparr>op_state := st, op_result := res, op_error := eb,
               op_revision := op_revision r + 1, op_updated := now E\<rparr>) (t_ops d1)\<rparr>) = (Inr x, t)"
    unfolding finishOp_def by (auto simp: bindS_Inr thenS_Inr guardS_Inr oneS_Inr modS_iff)
  have "work d1 = work d" using 1 by (auto simp: run_iff work_def split: option.splits err.splits)
  moreover have "map_option oe_code eb = (case reason of Some (Api status code retry) \<Rightarrow> Some code | _ \<Rightarrow> None)"
    using 1 by (auto simp: run_iff split: option.splits err.splits)
  moreover have "t_ops t = upd_rows (key_is uid op) (settle_row E st res eb) (t_ops d1)" "t_outbox t = t_outbox d1"
    using coreD [OF core_change c] by (simp_all add: core_eq key_is_def [abs_def] settle_row_def [abs_def])
  ultimately show ?thesis using that r eb by (simp add: work_def find_op_def)
qed

lemma failUnsent_Inr:
  assumes "failUnsent E uid op reason d = (Inr x, t)"
  obtains r eb where "find_op d uid op = Some r"
    and "t_ops t = upd_rows (key_is uid op) (settle_row E Op_failed None (Some eb)) (t_ops d)"
    and "t_outbox t = upd_rows (\<lambda>r. ob_user r = uid \<and> ob_op r = op) (\<lambda>r. r\<lparr>ob_state := Out_not_sent\<rparr>) (t_outbox d)"
proof -
  let ?d = "d\<lparr>t_outbox := upd_rows (\<lambda>r. ob_user r = uid \<and> ob_op r = op) (\<lambda>r. r\<lparr>ob_state := Out_not_sent\<rparr>) (t_outbox d)\<rparr>"
  from assms obtain d1 where f: "finishOp E uid op Op_failed None (Some reason) ?d = (Inr (), d1)"
    and e: "rejectedEffects E uid op d1 = (Inr x, t)"
    unfolding failUnsent_def set_outbox_def by (auto simp: transaction_Inr thenS_Inr modS_iff)
  from f obtain r eb where "find_op ?d uid op = Some r" "(Op_failed = Op_failed) = (eb \<noteq> None)"
      "t_ops d1 = upd_rows (key_is uid op) (settle_row E Op_failed None eb) (t_ops ?d)" "t_outbox d1 = t_outbox ?d"
    by (rule finishOp_Inr) blast
  then show ?thesis using workD [OF work_rejectedEffects e] that by (auto simp: find_op_def)
qed

lemma find_op_settled:
  assumes "find_op d uid op = Some r" and "t_ops t = upd_rows (key_is uid op) (settle_row E st res eb) (t_ops d)"
  shows "find_op t uid op = Some (settle_row E st res eb r)"
proof -
  have "find (\<lambda>r. op_user r = uid \<and> op_id r = op) (t_ops t)
      = map_option (\<lambda>r. if key_is uid op r then settle_row E st res eb r else r) (find (\<lambda>r. op_user r = uid \<and> op_id r = op) (t_ops d))"
    unfolding assms(2) by (rule find_upd_rows) (simp add: key_is_def settle_row_def)
  then show ?thesis using assms(1) find_SomeD [of _ "t_ops d" r] by (auto simp: find_op_def key_is_def)
qed

section \<open>Replay\<close>

text \<open>
  C22: a command whose identifier is known has no effect at all: it is answered with the recorded
  operation when the request is the same, and refused with \<open>IDEMPOTENCY_CONFLICT\<close> when it is not.
\<close>

theorem command_replay:
  assumes "find_op (g_db g) uid op = Some r"
  shows "command E adm uid op fp path b g =
    (if op_hash r = fp_hash E fp then Inr r else Inl (apierr 409 IDEMPOTENCY_CONFLICT), g)"
  using assms
  by (simp add: command_def priorOp_def operation_def bindS_run dbS_run getS_run thenS_run guardS_run oneS_run returnS_run)

definition sent_op0 :: op_row where
  "sent_op0 = \<lparr>op_user = ''u'', op_id = ''o'', op_kind = K_send, op_hash = ''POST /x'', op_state = Op_accepted,
     op_node = Some ''n'', op_session = Some ''s'', op_turn = Some ''t'', op_epoch = 1, op_payload = None,
     op_result = None, op_error = None, op_revision = 1, op_deadline = 200, op_created = 5, op_updated = 10\<rparr>"

theorem command_replay_witness:
  "fst (command env0 None ''u'' ''o'' \<lparr>fp_method = ''POST'', fp_path = ''/y'', fp_body = Body_command (P_cancel \<lparr>ct_turn = ''t'', ct_caprev = 1\<rparr>)\<rparr>
     ''s'' (P_cancel \<lparr>ct_turn = ''t'', ct_caprev = 1\<rparr>)
     (gw0\<lparr>g_db := db0\<lparr>t_ops := [sent_op0]\<rparr>\<rparr>)) = Inl (apierr 409 IDEMPOTENCY_CONFLICT)"
proof -
  have "find_op (g_db (gw0\<lparr>g_db := db0\<lparr>t_ops := [sent_op0]\<rparr>\<rparr>)) ''u'' ''o'' = Some sent_op0"
    by (simp add: find_op_def gw0_def sent_op0_def)
  from command_replay [OF this] show ?thesis by (simp add: sent_op0_def env0_def)
qed

section \<open>Acceptance\<close>

definition new_op ::
  "env \<Rightarrow> string \<Rightarrow> string \<Rightarrow> fingerprint \<Rightarrow> plan \<Rightarrow> int \<Rightarrow> int \<Rightarrow> node_command \<Rightarrow> op_row" where
  "new_op E uid op fp p epoch deadline cmd =
     \<lparr>op_user = uid, op_id = op, op_kind = pl_kind p, op_hash = fp_hash E fp, op_state = Op_accepted,
      op_node = nullString (pl_node p), op_session = nullString (pl_session p), op_turn = nullString (pl_turn p),
      op_epoch = epoch, op_payload = Some cmd, op_result = None, op_error = None, op_revision = 1,
      op_deadline = deadline, op_created = now E, op_updated = now E\<rparr>"

lemma insertOp_Inr:
  assumes "insertOp E uid op (pl_kind p) (pl_node p) (pl_session p) (pl_turn p) epoch fp (Some cmd) deadline d = (Inr x, t)"
  shows "find_op d uid op = None" "t_outbox t = t_outbox d"
    "t_ops t = t_ops d @ [new_op E uid op fp p epoch deadline cmd]"
proof -
  from assms have none: "\<not> has_row (\<lambda>r. op_user r = uid \<and> op_id r = op) (t_ops d)"
    and c: "change E uid Rt_operation op Upsert 1 (d\<lparr>t_ops := t_ops d @ [new_op E uid op fp p epoch deadline cmd]\<rparr>) = (Inr x, t)"
    unfolding insertOp_def new_op_def by (auto simp: bindS_Inr thenS_Inr guardS_Inr getS_iff modS_iff)
  show "find_op d uid op = None" using none by (simp add: find_op_def find_None_iff_has)
  show "t_outbox t = t_outbox d" and "t_ops t = t_ops d @ [new_op E uid op fp p epoch deadline cmd]"
    using coreD [OF core_change c] by (simp_all add: core_eq)
qed

definition outbox_row0 :: "string \<Rightarrow> string \<Rightarrow> string \<Rightarrow> int \<Rightarrow> int \<Rightarrow> outbox_row" where
  "outbox_row0 uid op nid epoch deadline = \<lparr>ob_user = uid, ob_op = op, ob_node = nid, ob_epoch = epoch,
     ob_state = Out_pending, ob_deadline = deadline\<rparr>"

lemma insert_outbox_Inr:
  "insert_outbox r d = (Inr x, t) \<Longrightarrow> \<not> has_row (\<lambda>x. ob_user x = ob_user r \<and> ob_op x = ob_op r) (t_outbox d)
     \<and> t_ops t = t_ops d \<and> t_outbox t = t_outbox d @ [r]"
  unfolding insert_outbox_def by (auto simp: bindS_Inr thenS_Inr guardS_Inr getS_iff modS_iff)

lemma accept_command_Inr:
  assumes "accept_command E adm uid op fp p epoch deadline cmd d = (Inr x, t)"
  shows "find_op d uid op = None" "t_ops t = t_ops d @ [new_op E uid op fp p epoch deadline cmd]"
    "t_outbox t = t_outbox d @ [outbox_row0 uid op (pl_node p) epoch deadline]"
    "\<not> has_row (\<lambda>x. ob_user x = uid \<and> ob_op x = op) (t_outbox d)"
proof -
  from assms obtain d1 d2 d3 d4 d5 where
      1: "(case (c_payload cmd, pl_agent p) of (P_create b, Some a) \<Rightarrow> create_rows E uid p b a | _ \<Rightarrow> returnS ()) d = (Inr (), d1)"
    and 2: "insertOp E uid op (pl_kind p) (pl_node p) (pl_session p) (pl_turn p) epoch fp (Some cmd) deadline d1 = (Inr (), d2)"
    and 3: "recordShareAdmission E adm uid op d2 = (Inr (), d3)"
    and 4: "insert_outbox (outbox_row0 uid op (pl_node p) epoch deadline) d3 = (Inr (), d4)"
    and 5: "(case (c_payload cmd, pl_request p) of
                 (P_respond b, Some r) \<Rightarrow> mark_deciding E uid p (rv_id r) (rr_decision b) op | _ \<Rightarrow> returnS ()) d4 = (Inr (), d5)"
    and 6: "audit E uid op (Audit_op (pl_kind p)) Op_accepted (pl_node p) (pl_session p) d5 = (Inr x, t)"
    unfolding accept_command_def transaction_Inr thenS_Inr outbox_row0_def by blast
  have "work d1 = work d"
    using 1 workD [OF work_create_rows] by (auto simp: work_def returnS_iff split: payload.splits option.splits)
  moreover have "work d3 = work d2" using workD [OF work_recordShareAdmission 3] by (simp add: work_def)
  moreover have "work d5 = work d4"
    using 5 workD [OF work_mark_deciding] by (auto simp: work_def returnS_iff split: payload.splits option.splits)
  moreover have "work t = work d5" using workD [OF work_notes(4) 6] by (simp add: work_def)
  ultimately show "find_op d uid op = None" "t_ops t = t_ops d @ [new_op E uid op fp p epoch deadline cmd]"
    "t_outbox t = t_outbox d @ [outbox_row0 uid op (pl_node p) epoch deadline]"
    "\<not> has_row (\<lambda>x. ob_user x = uid \<and> ob_op x = op) (t_outbox d)"
    using insertOp_Inr [OF 2] insert_outbox_Inr [OF 4]
    by (simp_all add: work_def find_op_def outbox_row0_def)
qed

section \<open>Dispatch\<close>

definition queued_frames :: "gw \<Rightarrow> string \<Rightarrow> frame list" where
  "queued_frames g nid = (case map_of (g_nodes g) nid of None \<Rightarrow> [] | Some p \<Rightarrow> map out_frame (pr_queue p))"

definition handed_over :: "gw \<Rightarrow> gw \<Rightarrow> string \<Rightarrow> node_command \<Rightarrow> op_row \<Rightarrow> bool" where
  "handed_over g h nid cmd r \<longleftrightarrow> op_state r = Op_accepted \<and> outbox_of (g_db h) r = Some Out_dispatching \<and>
     queued_frames h nid = queued_frames g nid @ [F_command cmd]"

definition not_sent :: "gw \<Rightarrow> gw \<Rightarrow> string \<Rightarrow> op_row \<Rightarrow> bool" where
  "not_sent g h nid r \<longleftrightarrow> op_state r = Op_failed \<and> outbox_of (g_db h) r = Some Out_not_sent \<and>
     queued_frames h nid = queued_frames g nid"

lemma outbox_of_upd:
  assumes "outbox_of d r = Some st" and "P st" and "\<And>x. Q x = (ob_user x = op_user r \<and> ob_op x = op_id r \<and> P (ob_state x))"
    and "t_outbox t = upd_rows Q (\<lambda>x. x\<lparr>ob_state := st'\<rparr>) (t_outbox d)" and "op_user r' = op_user r" and "op_id r' = op_id r"
  shows "outbox_of t r' = Some st'"
proof -
  have "find (\<lambda>x. ob_user x = op_user r \<and> ob_op x = op_id r) (t_outbox t)
      = map_option (\<lambda>x. if Q x then x\<lparr>ob_state := st'\<rparr> else x) (find (\<lambda>x. ob_user x = op_user r \<and> ob_op x = op_id r) (t_outbox d))"
    unfolding assms(4) by (rule find_upd_rows) simp
  moreover obtain z where "find (\<lambda>x. ob_user x = op_user r \<and> ob_op x = op_id r) (t_outbox d) = Some z" "ob_state z = st"
    using assms(1) by (auto simp: outbox_of_def)
  moreover from this have "Q z" using assms(2) find_SomeD by (fastforce simp: assms(3))
  ultimately show ?thesis using assms(5,6) by (simp add: outbox_of_def)
qed

lemma failed_not_sent:
  assumes "failUnsent E uid op reason d = (Inr x, t)" and "find_op d uid op = Some r" and "outbox_of d r = Some st"
  shows "\<exists>r'. find_op t uid op = Some r' \<and> op_state r' = Op_failed \<and> outbox_of t r' = Some Out_not_sent
    \<and> op_payload r' = op_payload r \<and> op_hash r' = op_hash r \<and> op_session r' = op_session r \<and> op_kind r' = op_kind r"
  using assms(1)
proof (rule failUnsent_Inr)
  fix r0 eb
  assume t: "t_ops t = upd_rows (key_is uid op) (settle_row E Op_failed None (Some eb)) (t_ops d)"
    and ob: "t_outbox t = upd_rows (\<lambda>r. ob_user r = uid \<and> ob_op r = op) (\<lambda>r. r\<lparr>ob_state := Out_not_sent\<rparr>) (t_outbox d)"
  have "op_user r = uid \<and> op_id r = op" using assms(2) by (auto simp: find_op_def dest: find_SomeD)
  then have "outbox_of t (settle_row E Op_failed None (Some eb) r) = Some Out_not_sent"
    by (intro outbox_of_upd [OF assms(3) _ _ ob, where P = "\<lambda>_. True"]) (simp_all add: settle_row_def)
  then show ?thesis using find_op_settled [OF assms(2) t] by (simp add: settle_row_def)
qed

lemma dispatch_outcome:
  assumes run: "dispatch E nid uid op cmd g = (Inr x, h)" and r: "find_op (g_db g) uid op = Some r"
    and st: "op_state r = Op_accepted" and ob: "outbox_of (g_db g) r = Some Out_pending"
  shows "\<exists>r'. find_op (g_db h) uid op = Some r' \<and> op_payload r' = op_payload r \<and> op_hash r' = op_hash r \<and>
    op_session r' = op_session r \<and> op_kind r' = op_kind r \<and>
    (handed_over g h nid cmd r' \<or> not_sent g h nid r')"
proof (cases "\<not> online E g nid \<or> \<not> parse_time E (c_deadline cmd) > now E")
  case True
  then obtain t where "failUnsent E uid op (apierr 503 NODE_OFFLINE) (g_db g) = (Inr (), t)" and "h = g\<lparr>g_db := t\<rparr>"
    using run by (auto simp: dispatch_def bindS_get dbS_iff)
  then show ?thesis using failed_not_sent [OF _ r ob] by (fastforce simp: not_sent_def queued_frames_def)
next
  case False
  let ?d = "(g_db g)\<lparr>t_outbox := upd_rows (\<lambda>r. ob_user r = uid \<and> ob_op r = op \<and> ob_state r = Out_pending)
                 (\<lambda>r. r\<lparr>ob_state := Out_dispatching\<rparr>) (t_outbox (g_db g))\<rparr>"
  have key: "op_user r = uid \<and> op_id r = op" using r by (auto simp: find_op_def dest: find_SomeD)
  have r': "find_op ?d uid op = Some r" using r by (simp add: find_op_def)
  have ob': "outbox_of ?d r = Some Out_dispatching"
    by (rule outbox_of_upd [OF ob, where P = "\<lambda>st. st = Out_pending"]) (simp_all add: key)
  from run False obtain queued g' where enq: "enqueue_node E nid (F_command cmd) (g\<lparr>g_db := ?d\<rparr>) = (Inr queued, g')"
    and rest: "(if queued then returnS () else dbS (failUnsent E uid op (apierr 503 SERVICE_UNAVAILABLE))) g' = (Inr x, h)"
    by (auto simp: dispatch_def set_outbox_def bindS_get thenS_Inr bindS_Inr dbS_iff modS_iff)
  from enq obtain p where p: "map_of (g_nodes g) nid = Some p" and q: "queued = fst (enqueue E (F_command cmd) p)"
    and g': "g' = g\<lparr>g_db := ?d, g_nodes := upd_key nid (\<lambda>_. snd (enqueue E (F_command cmd) p)) (g_nodes g)\<rparr>"
    by (auto simp: enqueue_node_def bindS_Inr thenS_Inr nodeS_iff set_node_iff returnS_iff)
  show ?thesis
  proof (cases queued)
    case True
    then have h: "h = g'" using rest by (simp add: returnS_iff)
    have "map out_frame (pr_queue (snd (enqueue E (F_command cmd) p))) = map out_frame (pr_queue p) @ [F_command cmd]"
      using True q by (auto simp: enqueue_def Let_def split: if_splits)
    then have "handed_over g h nid cmd r" using p st ob' by (simp add: handed_over_def queued_frames_def h g')
    then show ?thesis using r' by (auto simp: h g')
  next
    case False
    then obtain t where t: "failUnsent E uid op (apierr 503 SERVICE_UNAVAILABLE) ?d = (Inr (), t)" and h: "h = g'\<lparr>g_db := t\<rparr>"
      using rest by (auto simp: dbS_iff g')
    have "snd (enqueue E (F_command cmd) p) = stop p" using False q enqueue_False by blast
    then have "queued_frames h nid = queued_frames g nid" using p by (simp add: queued_frames_def h g' stop_def)
    then show ?thesis using failed_not_sent [OF t r' ob'] by (auto simp: not_sent_def h)
  qed
qed

lemma submit_Inr:
  assumes "submit E adm uid op fp b p g = (Inr r, h)"
  shows "online E g (pl_node p) \<and> (is_new_session b \<or> \<not> busy (g_db g) (pl_session p)) \<and>
    find_op (g_db g) uid op = None \<and> find_op (g_db h) uid op = Some r \<and> op_hash r = fp_hash E fp \<and>
    op_session r = nullString (pl_session p) \<and> op_kind r = pl_kind p \<and>
    (\<exists>cmd. op_payload r = Some cmd \<and> c_op cmd = op \<and> c_session cmd = pl_session p \<and> c_payload cmd = b \<and>
       (handed_over g h (pl_node p) cmd r \<or> not_sent g h (pl_node p) r))"
proof -
  let ?deadline = "now E + cf_command_ttl (cfg E)"
  from assms obtain peer :: peer and nt d1 d2 h1 where on: "online E g (pl_node p)"
    and busy: "is_new_session b \<or> \<not> busy (g_db g) (pl_session p)"
    and nt: "next_turn_id E (pl_kind p) b (g_db g) = (Inr nt, d1)"
    and acc: "accept_command E adm uid op fp p (pr_epoch peer) ?deadline
       (build_command E op (pr_epoch peer) ?deadline p b nt) d1 = (Inr (), d2)"
    and disp: "dispatch E (pl_node p) uid op (build_command E op (pr_epoch peer) ?deadline p b nt) (g\<lparr>g_db := d2\<rparr>) = (Inr (), h1)"
    and last: "operation uid op (g_db h1) = (Inr r, g_db h)" "h = h1\<lparr>g_db := g_db h\<rparr>"
    unfolding submit_def Let_def by (auto simp: bindS_Inr thenS_Inr guardS_Inr getS_iff nodeS_iff dbS_iff)
  let ?cmd = "build_command E op (pr_epoch peer) ?deadline p b nt"
  let ?row = "new_op E uid op fp p (pr_epoch peer) ?deadline ?cmd"
  have "work d1 = work (g_db g)" using nt by (auto simp: next_turn_id_def new_id_iff returnS_iff work_def split: if_splits)
  then have none: "find_op (g_db g) uid op = None" and ops: "find_op d2 uid op = Some ?row"
    using accept_command_Inr(1,2) [OF acc] by (simp_all add: find_op_def work_def find_append new_op_def)
  have "find (\<lambda>x. ob_user x = uid \<and> ob_op x = op) (t_outbox d1) = None"
    using accept_command_Inr(4) [OF acc] by (simp add: find_None_iff_has)
  then have "outbox_of d2 ?row = Some Out_pending"
    using accept_command_Inr(3) [OF acc] by (simp add: outbox_of_def new_op_def find_append outbox_row0_def)
  then obtain r' where r': "find_op (g_db h1) uid op = Some r'" "op_payload r' = Some ?cmd" "op_hash r' = fp_hash E fp"
      "op_session r' = nullString (pl_session p)" "op_kind r' = pl_kind p"
      "handed_over (g\<lparr>g_db := d2\<rparr>) h1 (pl_node p) ?cmd r' \<or> not_sent (g\<lparr>g_db := d2\<rparr>) h1 (pl_node p) r'"
    using dispatch_outcome [OF disp, of ?row] ops by (auto simp: new_op_def)
  have "r' = r" and "h = h1" using last r'(1) by (simp_all add: operation_def oneS_Inr)
  moreover have "c_op ?cmd = op" "c_payload ?cmd = b" "c_session ?cmd = pl_session p" by (simp_all add: build_command_def)
  ultimately show ?thesis using on busy none r' by (auto simp: handed_over_def not_sent_def queued_frames_def)
qed

text \<open>
  C2: when a command gets past its checks and its transaction, no control of the session was open, the
  node was online, and the answer is one of two: the operation is accepted, its outbox row says
  \<open>dispatching\<close> and the command is the last frame in the node's queue; or the operation is failed,
  its outbox row says \<open>not_sent\<close> and the queue is as it was.
\<close>

theorem submit_outcome:
  assumes "submit E adm uid op fp b p g = (Inr r, h)"
  shows "online E g (pl_node p) \<and> (is_new_session b \<or> \<not> busy (g_db g) (pl_session p)) \<and>
    find_op (g_db g) uid op = None \<and> find_op (g_db h) uid op = Some r \<and> op_hash r = fp_hash E fp \<and>
    (\<exists>cmd. op_payload r = Some cmd \<and> c_op cmd = op \<and> c_payload cmd = b \<and>
       (handed_over g h (pl_node p) cmd r \<or> not_sent g h (pl_node p) r))"
  using submit_Inr [OF assms] by blast


definition peer0 :: peer where
  "peer0 = (new_peer env0 ''u'' ''n'' [] 1 1000 [])\<lparr>pr_complete := True, pr_ready := True\<rparr>"

definition gw1 :: gw where
  "gw1 = gw0\<lparr>g_nodes := [(''n'', peer0)]\<rparr>"

definition send0 :: payload where
  "send0 = P_send \<lparr>sm_turn = ''t'', sm_text = ''hi'', sm_mode = Mode_send, sm_caprev = 1, sm_attachments = [],
     sm_references = [], sm_command = []\<rparr>"

definition plan0 :: plan where
  "plan0 = \<lparr>pl_node = ''n'', pl_session = ''s'', pl_turn = ''t'', pl_kind = K_send, pl_request = None, pl_agent = None\<rparr>"

definition sample_submit :: "(err + op_row) \<times> gw" where
  "sample_submit = submit env0 None ''u'' ''o'' \<lparr>fp_method = ''POST'', fp_path = ''/m'', fp_body = Body_command send0\<rparr> send0 plan0 gw1"

lemma sample_submit_eq: "\<exists>r. fst sample_submit = Inr r"
  by (simp add: sample_submit_def submit_def gw1_def gw0_def peer0_def new_peer_def plan0_def send0_def
      online_def nodeS_def is_new_session_def busy_def next_turn_id_def new_id_def build_command_def
      accept_command_def transaction_def insertOp_def recordShareAdmission_def insert_outbox_def audit_def
      change_def dispatch_def set_outbox_def enqueue_node_def enqueue_def set_node_def operation_def find_op_def
      has_row_def nullString_def max_safe_def Let_def run_simps sample_defs)

theorem submit_outcome_witness:
  "\<exists>r. fst sample_submit = Inr r \<and> (op_state r = Op_accepted \<or> op_state r = Op_failed) \<and> \<not> busy (g_db gw1) ''s''"
proof -
  obtain r where r: "fst sample_submit = Inr r" using sample_submit_eq by blast
  then have "submit env0 None ''u'' ''o'' \<lparr>fp_method = ''POST'', fp_path = ''/m'', fp_body = Body_command send0\<rparr> send0 plan0 gw1
      = (Inr r, snd sample_submit)" by (simp add: sample_submit_def prod_eq_iff)
  from submit_outcome [OF this] r show ?thesis
    by (auto simp: handed_over_def not_sent_def is_new_session_def send0_def plan0_def)
qed

section \<open>Shares\<close>

lemma accept_shared_Inr:
  assumes "accept_command E (Some v) uid op fp p epoch deadline cmd d = (Inr x, t)"
    and "\<And>b. c_payload cmd \<noteq> P_create b"
  shows "(\<exists>g\<in>set (t_shares d). sh_id g = sa_share v \<and> sh_recipient g = Some (sa_actor v) \<and> sh_control g \<and> live_share E d uid g) \<and>
    t_share_commands t = t_share_commands d @
      [\<lparr>sc_share = sa_share v, sc_actor = sa_actor v, sc_client_op = sa_client_op v, sc_owner = uid, sc_owner_op = op,
        sc_hash = sa_fingerprint v, sc_action = sa_action v, sc_created = now E\<rparr>]"
proof -
  from assms(1) obtain d1 d2 d3 d4 d5 where
      1: "(case (c_payload cmd, pl_agent p) of (P_create b, Some a) \<Rightarrow> create_rows E uid p b a | _ \<Rightarrow> returnS ()) d = (Inr (), d1)"
    and 2: "insertOp E uid op (pl_kind p) (pl_node p) (pl_session p) (pl_turn p) epoch fp (Some cmd) deadline d1 = (Inr (), d2)"
    and 3: "recordShareAdmission E (Some v) uid op d2 = (Inr (), d3)"
    and 4: "insert_outbox \<lparr>ob_user = uid, ob_op = op, ob_node = pl_node p, ob_epoch = epoch,
                  ob_state = Out_pending, ob_deadline = deadline\<rparr> d3 = (Inr (), d4)"
    and 5: "(case (c_payload cmd, pl_request p) of
                 (P_respond b, Some r) \<Rightarrow> mark_deciding E uid p (rv_id r) (rr_decision b) op | _ \<Rightarrow> returnS ()) d4 = (Inr (), d5)"
    and 6: "audit E uid op (Audit_op (pl_kind p)) Op_accepted (pl_node p) (pl_session p) d5 = (Inr x, t)"
    unfolding accept_command_def transaction_Inr thenS_Inr by blast
  have d1: "d1 = d" using 1 assms(2) by (auto simp: returnS_iff split: payload.splits)
  obtain o' where c: "change E uid Rt_operation op Upsert 1 (d\<lparr>t_ops := t_ops d @ [o']\<rparr>) = (Inr (), d2)"
    using 2 unfolding insertOp_def d1 by (auto simp: bindS_Inr thenS_Inr guardS_Inr getS_iff modS_iff)
  have cd: "core d2 = core (d\<lparr>t_ops := t_ops d @ [o']\<rparr>)" by (rule coreD [OF core_change c])
  have sess: "map still (t_sessions d2) = map still (t_sessions d)" and shares: "t_shares d2 = t_shares d"
      and cmds: "t_share_commands d2 = t_share_commands d"
    using cd by (simp_all add: core_eq)
  have live: "live_share E d2 uid g = live_share E d uid g" for g
  proof -
    have acc: "accessible d2 uid nid = accessible d uid nid" for nid using cd by (simp add: core_eq accessible_def)
    have same: "map_option still (find_session d2 (sh_session g)) = map_option still (find_session d (sh_session g))"
      unfolding find_session_def by (rule find_map_still [OF sess])
    show ?thesis
    proof (cases "find_session d (sh_session g)")
      case None
      then show ?thesis using same by (simp add: live_share_def)
    next
      case (Some r)
      then obtain r' where "find_session d2 (sh_session g) = Some r'" "still r' = still r" using same by auto
      then show ?thesis using Some still_fields [of r' r] acc by (simp add: live_share_def)
    qed
  qed
  have "t_share_commands t = t_share_commands d3"
  proof -
    have "t_share_commands d4 = t_share_commands d3"
      using 4 unfolding insert_outbox_def by (auto simp: bindS_Inr thenS_Inr guardS_Inr getS_iff modS_iff)
    moreover have "keeps (\<lambda>d. t_share_commands d = w) (mark_deciding E uid q rid dec op)" for w q rid dec
      unfolding mark_deciding_def getRequest_def
      by (intro keeps_rules keeps_mod core_keeps [OF core_change] core_keeps [OF core_appendEvent]) (simp_all add: core_eq)
    then have "t_share_commands d5 = t_share_commands d4"
      using 5 by (auto simp: returnS_iff split: payload.splits option.splits dest!: keepsD)
    moreover have "t_share_commands t = t_share_commands d5" using coreD [OF core_audit 6] by (simp add: core_eq)
    ultimately show ?thesis by simp
  qed
  then show ?thesis
    using 3 shares cmds live unfolding recordShareAdmission_def
    by (auto simp: bindS_get has_row_iff failS_iff thenS_Inr guardS_Inr modS_iff split: if_splits)
qed

text \<open>
  A command that comes through a share is accepted only while there is a share with that
  identifier for that recipient that grants control and is live (not revoked, not expired, its
  owner's node accessible and the session's history available), and the row that ties the
  recipient's operation to the owner's is written in the same transaction.
\<close>

theorem share_command_authorised:
  assumes "accept_command E (Some v) uid op fp p epoch deadline cmd d = (Inr x, t)"
    and "\<And>b. c_payload cmd \<noteq> P_create b"
  shows "(\<exists>g\<in>set (t_shares d). sh_id g = sa_share v \<and> sh_recipient g = Some (sa_actor v) \<and> sh_control g \<and> live_share E d uid g) \<and>
    t_share_commands t = t_share_commands d @
      [\<lparr>sc_share = sa_share v, sc_actor = sa_actor v, sc_client_op = sa_client_op v, sc_owner = uid, sc_owner_op = op,
        sc_hash = sa_fingerprint v, sc_action = sa_action v, sc_created = now E\<rparr>]"
  using accept_shared_Inr [OF assms] .


definition share1 :: share_row where
  "share1 = \<lparr>sh_id = ''g'', sh_session = ''s'', sh_owner = ''u'', sh_recipient = Some ''v'', sh_control = True,
     sh_token_hash = [], sh_invite = None, sh_create_op = ''k'', sh_request_hash = [], sh_created = 1,
     sh_expires = 500, sh_accepted = Some 2, sh_revoked = None\<rparr>"

definition admission1 :: share_admission where
  "admission1 = \<lparr>sa_share = ''g'', sa_actor = ''v'', sa_client_op = ''x'', sa_fingerprint = [], sa_action = K_send\<rparr>"

definition sample_shared :: "(err + unit) \<times> db" where
  "sample_shared = accept_command env0 (Some admission1) ''u'' ''o'' \<lparr>fp_method = ''POST'', fp_path = ''/m'', fp_body = Body_command send0\<rparr>
     plan0 1 115 (build_command env0 ''o'' 1 115 plan0 send0 ''next'') (db0\<lparr>t_shares := [share1]\<rparr>)"

lemma sample_shared_eq: "fst sample_shared = Inr ()"
  by (simp add: sample_shared_def share1_def admission1_def plan0_def send0_def build_command_def
      accept_command_def transaction_def insertOp_def recordShareAdmission_def live_share_def find_session_def
      accessible_def insert_outbox_def audit_def change_def new_id_def
      has_row_def nullString_def max_safe_def Let_def run_simps sample_defs)

theorem share_command_authorised_witness:
  "length (t_share_commands (snd sample_shared)) = 1"
proof -
  have "accept_command env0 (Some admission1) ''u'' ''o'' \<lparr>fp_method = ''POST'', fp_path = ''/m'', fp_body = Body_command send0\<rparr>
     plan0 1 115 (build_command env0 ''o'' 1 115 plan0 send0 ''next'') (db0\<lparr>t_shares := [share1]\<rparr>)
      = (Inr (), snd sample_shared)"
    using sample_shared_eq by (simp add: sample_shared_def prod_eq_iff)
  from share_command_authorised [OF this] show ?thesis
    by (simp add: build_command_def send0_def db0_def)
qed

section \<open>Taking a command back\<close>

text \<open>
  C18: a command that was not sent and is taken back leaves nothing behind: its operation is failed
  with the error that was given, its outbox row says \<open>not_sent\<close>, and, if it was a decision, no
  request is held by it any more.
\<close>

theorem unsent_command_released:
  assumes "failUnsent E uid op (Api status code retry) d = (Inr x, t)" and "find_op d uid op = Some r"
  shows "\<exists>r'. find_op t uid op = Some r' \<and> op_state r' = Op_failed \<and> op_result r' = None
      \<and> map_option oe_code (op_error r') = Some code \<and> op_revision r' = op_revision r + 1
    \<and> (\<forall>x\<in>set (t_outbox t). ob_user x = uid \<longrightarrow> ob_op x = op \<longrightarrow> ob_state x = Out_not_sent)
    \<and> (op_kind r = K_respond \<and> op_session r \<noteq> None \<longrightarrow> (\<forall>q\<in>set (t_requests t). \<not> decided_by uid op q))"
proof -
  let ?d = "d\<lparr>t_outbox := upd_rows (\<lambda>r. ob_user r = uid \<and> ob_op r = op) (\<lambda>r. r\<lparr>ob_state := Out_not_sent\<rparr>) (t_outbox d)\<rparr>"
  from assms(1) obtain d1 where f: "finishOp E uid op Op_failed None (Some (Api status code retry)) ?d = (Inr (), d1)"
    and e: "rejectedEffects E uid op d1 = (Inr x, t)"
    unfolding failUnsent_def set_outbox_def by (auto simp: transaction_Inr thenS_Inr modS_iff)
  from f obtain eb where t1: "t_ops d1 = upd_rows (key_is uid op) (settle_row E Op_failed None eb) (t_ops d)"
      "t_outbox d1 = t_outbox ?d" and eb: "map_option oe_code eb = Some code"
    by (rule finishOp_Inr) auto
  have find1: "find_op d1 uid op = Some (settle_row E Op_failed None eb r)"
    by (rule find_op_settled [OF assms(2) t1(1)])
  have w: "t_ops t = t_ops d1" "t_outbox t = t_outbox d1" using workD [OF work_rejectedEffects e] by simp_all
  have free: "\<forall>q\<in>set (t_requests t). \<not> decided_by uid op q" if k: "op_kind r = K_respond" "op_session r \<noteq> None"
  proof -
    let ?d2 = "d1\<lparr>t_requests := upd_rows (decided_by uid op) (release_request E) (t_requests d1)\<rparr>"
    from e k find1 have "release_decisions E uid op d1 = (Inr x, t)"
      by (auto simp: rejectedEffects_def bindS_run oneS_run settle_row_def)
    then have "forS (filter (decided_by uid op) (t_requests d1)) (\<lambda>r. thenS (change E uid Rt_request (rq_id r) Upsert (rq_revision r + 1))
        (announce_request E uid (rq_id r))) ?d2 = (Inr x, t)"
      by (simp add: release_decisions_def bindS_get thenS_mod)
    then have "core t = core ?d2" by (rule coreD [rotated]) (intro keeps_rules core_rules)
    then have "t_requests t = upd_rows (decided_by uid op) (release_request E) (t_requests d1)" by (simp add: core_eq)
    then show ?thesis by (simp only:) (intro ballI, erule upd_rows_all; simp add: decided_by_def release_request_def)
  qed
  have "find_op t uid op = Some (settle_row E Op_failed None eb r)" using find1 w by (simp add: find_op_def)
  moreover have "\<forall>x\<in>set (t_outbox t). ob_user x = uid \<longrightarrow> ob_op x = op \<longrightarrow> ob_state x = Out_not_sent"
  proof -
    have ob: "t_outbox t = upd_rows (\<lambda>r. ob_user r = uid \<and> ob_op r = op) (\<lambda>r. r\<lparr>ob_state := Out_not_sent\<rparr>) (t_outbox d)"
      using w(2) t1(2) by simp
    show ?thesis unfolding ob by (intro ballI) (erule upd_rows_all; simp)
  qed
  ultimately show ?thesis
    using eb free by (intro exI [of _ "settle_row E Op_failed None eb r"] conjI) (auto simp: settle_row_def)
qed


definition respond_op0 :: op_row where
  "respond_op0 = sent_op0\<lparr>op_kind := K_respond\<rparr>"

definition decided0 :: request_row where
  "decided0 = \<lparr>rq_id = ''r'', rq_session = ''s'', rq_turn = ''t'', rq_user = ''u'', rq_state = R_deciding,
     rq_def = \<lparr>nr_id = ''r'', nr_session = ''s'', nr_turn = ''t'', nr_title = [], nr_summary = [],
       nr_created = ''i'', nr_expires = ''i'', nr_body = Approval_body [] [] []\<rparr>,
     rq_decision = Some (Choose ''yes''), rq_decision_op = Some ''o'', rq_revision = 2, rq_created = 1, rq_expires = 900,
     rq_resolved = None\<rparr>"

definition sample_unsent :: "(err + unit) \<times> db" where
  "sample_unsent = failUnsent env0 ''u'' ''o'' (Api 503 NODE_OFFLINE True)
     (db0\<lparr>t_ops := [respond_op0], t_requests := [decided0]\<rparr>)"

lemma sample_unsent_eq: "fst sample_unsent = Inr ()"
  by (simp add: sample_unsent_def respond_op0_def sent_op0_def decided0_def failUnsent_def transaction_def set_outbox_def
      finishOp_def find_op_def rejectedEffects_def release_decisions_def decided_by_def release_request_def
      announce_request_def own_request_row_def find_request_def ownSession_def own_session_row_def accessible_def
      new_id_def append_eval run_simps sample_defs)

theorem unsent_command_released_witness:
  "list_all (\<lambda>q. \<not> decided_by ''u'' ''o'' q) (t_requests (snd sample_unsent))"
proof -
  have "failUnsent env0 ''u'' ''o'' (Api 503 NODE_OFFLINE True) (db0\<lparr>t_ops := [respond_op0], t_requests := [decided0]\<rparr>)
      = (Inr (), snd sample_unsent)" using sample_unsent_eq by (simp add: sample_unsent_def prod_eq_iff)
  moreover have "find_op (db0\<lparr>t_ops := [respond_op0], t_requests := [decided0]\<rparr>) ''u'' ''o'' = Some respond_op0"
    by (simp add: find_op_def respond_op0_def sent_op0_def)
  ultimately show ?thesis
    using unsent_command_released by (fastforce simp: respond_op0_def sent_op0_def list_all_iff)
qed

section \<open>The writer\<close>

text \<open>
  C23: a command that the writer hands to the node's socket is the oldest frame of the node's queue; its
  deadline has not passed, the node's connection is open, has reported its state and was heard from
  recently, and the server is not shutting down. A command that came too late is never written.
\<close>

theorem writer_command_fresh:
  assumes "writer_node E nid sent g = (Inr (Some (F_command c)), h)"
  shows "parse_time E (c_deadline c) > now E \<and> \<not> g_draining g \<and>
    (\<exists>p x q. map_of (g_nodes g) nid = Some p \<and> pr_queue p = x # q \<and> out_frame x = F_command c \<and> \<not> pr_closed p \<and>
       pr_ready p \<and> now E - pr_last_seen p < cf_offline_after (cfg E) \<and>
       queued_frames h nid = map out_frame q)"
proof -
  from assms obtain p where p: "map_of (g_nodes g) nid = Some p" by (auto simp: writer_node_def bindS_Inr nodeS_iff)
  with assms obtain x q where q: "pr_queue p = x # q"
    by (cases "pr_queue p") (auto simp: writer_node_def take_frame_def bindS_run nodeS_run returnS_run)
  let ?p = "p\<lparr>pr_queue := q, pr_bytes := pr_bytes p - out_size x\<rparr>"
  let ?g = "g\<lparr>g_nodes := upd_key nid (\<lambda>_. ?p) (g_nodes g)\<rparr>"
  have on: "online E ?g nid \<longleftrightarrow> \<not> pr_closed p \<and> pr_ready p \<and> now E - pr_last_seen p < cf_offline_after (cfg E)"
    using p by (simp add: online_def)
  have take: "take_frame p = Some (x, ?p)" using q by (simp add: take_frame_def)
  have run: "writer_node E nid sent g = (if g_draining g \<or> pr_closed p then thenS (set_node nid stop) (returnS None)
      else bindS (getS (\<lambda>g. case command_of (out_frame x) of
                   None \<Rightarrow> None
                 | Some c \<Rightarrow> if \<not> parse_time E (c_deadline c) > now E \<or> \<not> online E g nid
                            then Some (c_op c) else None)) (\<lambda>late. case late of
              Some op \<Rightarrow> bindS (tryS (dbS (failUnsent E (pr_user ?p) op (apierr 503 NODE_OFFLINE)))) (\<lambda>_. returnS None)
            | None \<Rightarrow> thenS (if sent then returnS () else set_node nid stop) (returnS (Some (out_frame x))))) ?g"
    unfolding writer_node_def bindS_step [of "nodeS nid", OF nodeS_iff [THEN iffD2, OF conjI [OF p refl]]] take option.case prod.case
    by (simp add: thenS_step [OF set_node_run] bindS_get)
  have alive: "\<not> (g_draining g \<or> pr_closed p)"
    using assms unfolding run by (auto simp: thenS_Inr returnS_iff)
  have x: "out_frame x = F_command c"
    using assms alive unfolding run by (auto simp: bindS_get thenS_Inr bindS_Inr returnS_iff split: option.splits if_splits)
  then have late: "parse_time E (c_deadline c) > now E" "online E ?g nid"
    and h: "h = ?g \<or> h = ?g\<lparr>g_nodes := upd_key nid stop (g_nodes ?g)\<rparr>"
    using assms alive unfolding run
    by (auto simp: bindS_get thenS_Inr bindS_Inr returnS_iff set_node_iff split: option.splits if_splits)
  from h have "queued_frames h nid = map out_frame q" using p by (auto simp: queued_frames_def stop_def)
  then show ?thesis using x late on alive p q by auto
qed


definition command0 :: node_command where
  "command0 = build_command env0 ''o'' 1 115 plan0 send0 ''next''"

definition gw2 :: gw where
  "gw2 = gw0\<lparr>g_nodes := [(''n'', peer0\<lparr>pr_queue := [\<lparr>out_frame = F_command command0, out_size = 100\<rparr>], pr_bytes := 100\<rparr>)]\<rparr>"

theorem writer_command_fresh_witness:
  "queued_frames (snd (writer_node env0 ''n'' True gw2)) ''n'' = [] \<and> now env0 < parse_time env0 (c_deadline command0)"
proof -
  have q: "map_of (g_nodes gw2) ''n'' = Some (peer0\<lparr>pr_queue := [\<lparr>out_frame = F_command command0, out_size = 100\<rparr>], pr_bytes := 100\<rparr>)"
    by (simp add: gw2_def)
  have "fst (writer_node env0 ''n'' True gw2) = Inr (Some (F_command command0))"
    by (simp add: writer_node_def gw2_def gw0_def peer0_def new_peer_def take_frame_def online_def command0_def
        build_command_def plan0_def run_simps env0_def config0_def)
  then have "writer_node env0 ''n'' True gw2 = (Inr (Some (F_command command0)), snd (writer_node env0 ''n'' True gw2))"
    by (simp add: prod_eq_iff)
  from writer_command_fresh [OF this] q show ?thesis by auto
qed

end
