(* ===== verification/Receipts_Spec.thy ===== *)
theory Receipts_Spec
  imports Commands_Spec
begin

text \<open>
  What a node's word on a command may do (\<open>acknowledge\<close>): it reaches one operation only, the one it
  names, if that operation was for this node and is still open; a settled operation stays settled.
\<close>

section \<open>The other operations\<close>

named_theorems other_rules \<open>handlers that write no operation but one\<close>

definition others :: "string \<Rightarrow> string \<Rightarrow> db \<Rightarrow> op_row list" where
  "others uid op d = filter (\<lambda>r. \<not> key_is uid op r) (t_ops d)"

lemma others_upd:
  "(\<And>r. op_user (f r) = op_user r \<and> op_id (f r) = op_id r) \<Longrightarrow>
     filter (\<lambda>r. op_user r = uid \<longrightarrow> op_id r \<noteq> op) (upd_rows (\<lambda>r. op_user r = uid \<and> op_id r = op) f rs)
     = filter (\<lambda>r. op_user r = uid \<longrightarrow> op_id r \<noteq> op) rs"
  by (induction rs) auto

lemma others_work: "(\<And>v. keeps (\<lambda>d. work d = v) m) \<Longrightarrow> keeps (\<lambda>d. others uid op d = v) m"
  by (rule keeps_via [where p = work]) (simp_all add: work_def others_def)

lemma others_mod: "(\<And>d. t_ops (f d) = t_ops d) \<Longrightarrow> keeps (\<lambda>d. others uid op d = v) (modS f)"
  by (rule keeps_mod) (simp add: others_def)

lemma others_set_outbox [other_rules]: "keeps (\<lambda>d. others uid op d = v) (set_outbox u i P st)"
  unfolding set_outbox_def by (rule others_mod) simp

lemma others_finishOp [other_rules]: "keeps (\<lambda>d. others uid op d = v) (finishOp E uid op st res reason)"
proof -
  have "keeps (\<lambda>d. others uid op d = v) (modS (\<lambda>d. d\<lparr>t_ops := upd_rows (\<lambda>r. op_user r = uid \<and> op_id r = op)
        (\<lambda>r. r\<lparr>op_state := st, op_result := res, op_error := eb,
               op_revision := op_revision r + 1, op_updated := now E\<rparr>) (t_ops d)\<rparr>))" for eb
    by (rule keeps_mod)
      (simp add: others_def key_is_def others_upd)
  then show ?thesis
    unfolding finishOp_def
    by (intro keeps_rules others_work [OF work_notes(1)])
      (auto intro!: keeps_rules others_work [OF work_notes(3)] split: option.split err.split)
qed

lemma keeps_tx_others:
  "keeps (\<lambda>d. others uid op d = v) fn \<Longrightarrow> keeps (\<lambda>d. others uid op d = v) (transaction u fn)"
  by (rule keeps_transaction [OF keeps_preserves]) (simp_all add: others_def)

lemma others_failUnsent [other_rules]: "keeps (\<lambda>d. others uid op d = v) (failUnsent E uid op reason)"
  unfolding failUnsent_def
  by (intro keeps_tx_others keeps_rules other_rules others_work [OF work_rejectedEffects])

lemma work_queueMirror: "keeps (\<lambda>d. work d = v) (queueMirror E uid sid items)"
  unfolding queueMirror_def mirror_item_def by (intro keeps_rules work_mod) (simp_all add: work_def)

lemma work_confirm_queue: "keeps (\<lambda>d. work d = v) (confirm_queue E uid nid sid op body res)"
  unfolding confirm_queue_def getSession_def Let_def by (intro keeps_rules work_rules work_queueMirror)

lemma work_confirm_respond: "keeps (\<lambda>d. work d = v) (confirm_respond E uid nid sid op rid)"
  unfolding confirm_respond_def getRequest_def by (intro keeps_rules work_rules work_mod) (simp add: work_def)

lemma work_confirm_cancel: "keeps (\<lambda>d. work d = v) (confirm_cancel E uid nid sid turn)"
  unfolding confirm_cancel_def getSession_def by (intro keeps_rules work_rules work_mod) (simp add: work_def)

lemma others_confirm [other_rules]: "keeps (\<lambda>d. others uid op d = v) (confirm E uid nid sid op r res)"
  unfolding confirm_def
  by (intro keeps_tx_others keeps_rules other_rules others_work work_confirm_queue work_confirm_respond
      work_confirm_cancel work_notes(4))

lemma gothers_db [other_rules]:
  "keeps (\<lambda>d. others uid op d = v) m \<Longrightarrow> keeps (\<lambda>g. others uid op (g_db g) = v) (dbS m)"
  by (simp add: keeps_def dbS_run)

lemma gothers_node [other_rules]: "keeps (\<lambda>g. others uid op (g_db g) = v) (nodeS nid)"
  by (simp add: keeps_def nodeS_def split: option.split)

lemma gothers_set_node [other_rules]: "keeps (\<lambda>g. others uid op (g_db g) = v) (set_node nid f)"
  by (simp add: keeps_def set_node_run)

lemma work_touch_node: "keeps (\<lambda>d. work d = v) (touch_node E uid nid)"
  unfolding touch_node_def
  by (rule keeps_transaction, rule keeps_preserves, intro keeps_rules work_rules work_mod) (simp_all add: work_def)

text \<open>Readiness does not touch the operations at all.\<close>

lemma ops_nodeReady: "keeps (\<lambda>g. t_ops (g_db g) = v) (nodeReady E nid)"
proof -
  have "keeps (\<lambda>g. t_ops (g_db g) = v) (dbS (touch_node E u n))" for u n
    using keeps_via [OF work_touch_node, of "\<lambda>d. t_ops d = v"] by (simp add: work_def keeps_def dbS_run)
  then show ?thesis
    unfolding nodeReady_def Let_def
    by (intro keeps_rules) (simp_all add: keeps_def nodeS_def set_node_run split: option.split)
qed

lemma ops_releaseUnstartedSync: "keeps (\<lambda>g. t_ops (g_db g) = v) (releaseUnstartedSync E nid sid)"
  unfolding releaseUnstartedSync_def
  by (intro keeps_rules ops_nodeReady) (simp_all add: keeps_def nodeS_def set_node_run split: option.split)

lemma gothers_release [other_rules]: "keeps (\<lambda>g. others uid op (g_db g) = v) (releaseUnstartedSync E nid sid)"
  by (rule keeps_via [where p = "\<lambda>g. t_ops (g_db g)", OF ops_releaseUnstartedSync]) (simp add: others_def)

lemma others_settle: "keeps (\<lambda>g. others uid op (g_db g) = v) (settle E nid uid sid op r rc isQuery)"
  unfolding settle_def journal_miss_def
  by (cases rc) (auto intro!: keeps_rules other_rules keeps_tx_others)

section \<open>The authority of a receipt\<close>

definition may_settle :: "gw \<Rightarrow> peer \<Rightarrow> op_row \<Rightarrow> bool \<Rightarrow> bool" where
  "may_settle g p r isQuery \<longleftrightarrow> op_node r = Some (pr_node p) \<and> \<not> settled (op_state r) \<and>
     (isQuery \<or> (case op_payload r of None \<Rightarrow> 0 | Some c \<Rightarrow> c_epoch c) = pr_epoch p)"

text \<open>
  C3: a receipt of a node leaves every operation but the one it names as it was, whatever it answers;
  and it leaves that one too, unless the operation exists, was for this node, is not settled yet, and
  the receipt is of the connection the command was sent on, or answers a query of the journal.
\<close>

theorem receipt_authority:
  assumes "map_of (g_nodes g) nid = Some p" and "acknowledge E nid op rc isQuery g = (x, h)"
  shows "others (pr_user p) op (g_db h) = others (pr_user p) op (g_db g) \<and>
    (t_ops (g_db h) = t_ops (g_db g) \<or> (\<exists>r. find_op (g_db g) (pr_user p) op = Some r \<and> may_settle g p r isQuery))"
proof -
  have node: "nodeS nid g = (Inr p, g)" using assms(1) by (simp add: nodeS_def)
  show ?thesis
  proof (cases "find_op (g_db g) (pr_user p) op")
    case None
    then have "h = g" using assms(2)
      by (auto simp: acknowledge_def node bindS_run dbS_run operation_def oneS_run)
    then show ?thesis by simp
  next
    case (Some r)
    let ?sid = "str (op_session r)"
    have op: "dbS (operation (pr_user p) op) g = (Inr r, g)" using Some by (simp add: dbS_run operation_def oneS_run)
    let ?old = "thenS (guardS (\<not> (case rc of Rc_confirmed res \<Rightarrow> op_result r \<noteq> Some res | _ \<Rightarrow> False))
                 (apierr 409 SOURCE_CONFLICT)) (releaseUnstartedSync E nid ?sid)"
    let ?new = "thenS (guardS (isQuery \<or> (case op_payload r of None \<Rightarrow> 0 | Some c \<Rightarrow> c_epoch c) = pr_epoch p)
                 (apierr 409 PROTOCOL_UNSUPPORTED)) (settle E nid (pr_user p) ?sid op r rc isQuery)"
    let ?m = "thenS (guardS (op_node r \<noteq> None) DBError) (thenS (guardS (op_node r = Some (pr_node p)) notFound)
        (if settled (op_state r) then ?old else ?new))"
    have "acknowledge E nid op rc isQuery g = ?m g"
      by (simp add: acknowledge_def bindS_step [of "nodeS nid" g p g, OF node]
          bindS_step [of "dbS (operation (pr_user p) op)" g r g, OF op] Let_def)
    then have run: "?m g = (x, h)" using assms(2) by simp
    have keep: "keeps (\<lambda>g. others (pr_user p) op (g_db g) = v) ?m" for v
      by (intro keeps_rules other_rules others_settle)
    have "others (pr_user p) op (g_db h) = others (pr_user p) op (g_db g)"
      using keepsD [OF keep run, of "others (pr_user p) op (g_db g)"] by simp
    moreover have "t_ops (g_db h) = t_ops (g_db g)" if no: "\<not> may_settle g p r isQuery"
    proof (cases "settled (op_state r)")
      case True
      then have "keeps (\<lambda>h. t_ops (g_db h) = v) ?m" for v
        by (simp only: if_True) (intro keeps_rules ops_releaseUnstartedSync)
      from keepsD [OF this run, of "t_ops (g_db g)"] show ?thesis by simp
    next
      case False
      then have "snd (?m g) = g" using no by (simp add: may_settle_def thenS_run bindS_run guardS_run)
      then show ?thesis using run by simp
    qed
    ultimately show ?thesis using Some by blast
  qed
qed


section \<open>A confirmed command\<close>

lemma confirm_Inr:
  assumes "confirm E uid nid sid op r res d = (Inr x, t)" and "find_op d uid op = Some r"
  shows "find_op t uid op = Some (settle_row E Op_confirmed (Some res) None r)"
    "\<forall>x\<in>set (t_outbox t). ob_user x = uid \<longrightarrow> ob_op x = op \<longrightarrow> ob_state x = Out_delivered"
proof -
  from assms(1) obtain d1 d2 d3 d4 where
      1: "(if op_kind r = K_queue then confirm_queue E uid nid sid op (payload_of r (\<lambda>c. payload_text (c_payload c))) res
           else returnS ()) d = (Inr (), d1)"
    and 2: "(if op_kind r = K_respond then confirm_respond E uid nid sid op (payload_of r c_request) else returnS ()) d1 = (Inr (), d2)"
    and 3: "(if op_kind r = K_cancel then confirm_cancel E uid nid sid (expected_turn (op_kind r) (op_payload r))
           else returnS ()) d2 = (Inr (), d3)"
    and 4: "finishOp E uid op Op_confirmed (Some res) None (d3\<lparr>t_outbox := upd_rows (\<lambda>r. ob_user r = uid \<and> ob_op r = op)
           (\<lambda>r. r\<lparr>ob_state := Out_delivered\<rparr>) (t_outbox d3)\<rparr>) = (Inr (), d4)"
    and 5: "audit E uid op (Audit_op (op_kind r)) Op_confirmed nid sid d4 = (Inr x, t)"
    unfolding confirm_def set_outbox_def transaction_Inr thenS_Inr modS_iff by auto
  have "t_ops d1 = t_ops d" using 1 workD [OF work_confirm_queue] by (auto simp: returnS_iff split: if_splits)
  moreover have "t_ops d2 = t_ops d1" using 2 workD [OF work_confirm_respond] by (auto simp: returnS_iff split: if_splits)
  moreover have "t_ops d3 = t_ops d2" using 3 workD [OF work_confirm_cancel] by (auto simp: returnS_iff split: if_splits)
  ultimately have d3: "find_op d3 uid op = Some r" using assms(2) by (simp add: find_op_def)
  from 4 obtain eb where ops: "t_ops d4 = upd_rows (key_is uid op) (settle_row E Op_confirmed (Some res) eb) (t_ops d3)"
      and eb: "eb = None"
      and ob: "t_outbox d4 = upd_rows (\<lambda>r. ob_user r = uid \<and> ob_op r = op) (\<lambda>r. r\<lparr>ob_state := Out_delivered\<rparr>) (t_outbox d3)"
    by (rule finishOp_Inr) auto
  have t: "t_ops t = t_ops d4" "t_outbox t = t_outbox d4" using workD [OF work_notes(4) 5] by simp_all
  show "find_op t uid op = Some (settle_row E Op_confirmed (Some res) None r)"
    using find_op_settled [OF d3 ops] t eb by (simp add: find_op_def)
  show "\<forall>x\<in>set (t_outbox t). ob_user x = uid \<longrightarrow> ob_op x = op \<longrightarrow> ob_state x = Out_delivered"
    unfolding t ob by (intro ballI) (erule upd_rows_all; simp)
qed

text \<open>
  C17: a confirmation that is accepted for an open operation was checked against the command it
  answers (session, device, turn, request, queue item and kind of native result), and it settles the
  operation: confirmed, with that result and no error, and its command is delivered.
\<close>

theorem receipt_confirms:
  assumes "map_of (g_nodes g) nid = Some p" and "find_op (g_db g) (pr_user p) op = Some r"
    and "\<not> settled (op_state r)" and "acknowledge E nid op (Rc_confirmed res) isQuery g = (Inr x, h)"
  shows "may_settle g p r isQuery \<and> result_ok nid (str (op_session r)) (op_kind r) (op_payload r) res \<and>
    (\<exists>r'. find_op (g_db h) (pr_user p) op = Some r' \<and> op_state r' = Op_confirmed \<and> op_result r' = Some res \<and>
       op_error r' = None \<and> op_revision r' = op_revision r + 1) \<and>
    (\<forall>x\<in>set (t_outbox (g_db h)). ob_user x = pr_user p \<longrightarrow> ob_op x = op \<longrightarrow> ob_state x = Out_delivered)"
proof -
  have node: "nodeS nid g = (Inr p, g)" using assms(1) by (simp add: nodeS_def)
  have op: "dbS (operation (pr_user p) op) g = (Inr r, g)" using assms(2) by (simp add: dbS_run operation_def oneS_run)
  have run: "may_settle g p r isQuery" "settle E nid (pr_user p) (str (op_session r)) op r (Rc_confirmed res) isQuery g = (Inr x, h)"
    using assms(3,4)
    by (auto simp: acknowledge_def bindS_step [of "nodeS nid" g p g, OF node] may_settle_def
        bindS_step [of "dbS (operation (pr_user p) op)" g r g, OF op] Let_def thenS_Inr guardS_Inr)
  then obtain t where ok: "result_ok nid (str (op_session r)) (op_kind r) (op_payload r) res"
    and c: "confirm E (pr_user p) nid (str (op_session r)) op r res (g_db g) = (Inr x, t)" and h: "h = g\<lparr>g_db := t\<rparr>"
    by (auto simp: settle_def thenS_Inr guardS_Inr dbS_iff)
  show ?thesis using run(1) ok confirm_Inr [OF c assms(2)] h by (simp add: settle_row_def)
qed


definition gw_sent :: gw where
  "gw_sent = gw1\<lparr>g_db := db0\<lparr>t_ops := [sent_op0\<lparr>op_payload := Some command0\<rparr>],
     t_outbox := [\<lparr>ob_user = ''u'', ob_op = ''o'', ob_node = ''n'', ob_epoch = 1, ob_state = Out_dispatching,
       ob_deadline = 115\<rparr>]\<rparr>\<rparr>"

definition result0 :: op_result where
  "result0 = \<lparr>or_session = Some ''s'', or_turn = Some ''next'', or_request = None, or_node = Some ''n'',
     or_queue_item = None, or_native = None\<rparr>"

lemma gw_sent_node: "map_of (g_nodes gw_sent) ''n'' = Some peer0" "pr_user peer0 = ''u''" "pr_node peer0 = ''n''"
  by (simp_all add: gw_sent_def gw1_def peer0_def new_peer_def)

lemma gw_sent_op: "find_op (g_db gw_sent) ''u'' ''o'' = Some (sent_op0\<lparr>op_payload := Some command0\<rparr>)"
  by (simp add: find_op_def gw_sent_def gw1_def sent_op0_def)

definition sample_confirm :: "(err + unit) \<times> gw" where
  "sample_confirm = acknowledge env0 ''n'' ''o'' (Rc_confirmed result0) False gw_sent"

lemmas confirm_eval = sample_confirm_def acknowledge_def settle_def result_ok_def expected_turn_def native_ok_def confirm_def
  transaction_def set_outbox_def finishOp_def audit_def change_def operation_def find_op_def has_row_def
  nullString_def max_safe_def Let_def settled_def new_id_def gw_sent_def gw1_def gw0_def peer0_def new_peer_def
  sent_op0_def command0_def build_command_def plan0_def send0_def result0_def run_simps sample_defs

lemma sample_confirm_eq: "fst sample_confirm = Inr ()"
  by (simp add: confirm_eval)

lemma sample_confirm_ops: "t_ops (g_db (snd sample_confirm)) \<noteq> t_ops (g_db gw_sent)"
  by (simp add: confirm_eval)

text \<open>The receipt of the connection the command was sent on settles it, and leaves all other operations alone.\<close>

theorem receipt_authority_witness:
  "t_ops (g_db (snd sample_confirm)) \<noteq> t_ops (g_db gw_sent) \<and>
   others ''u'' ''o'' (g_db (snd sample_confirm)) = others ''u'' ''o'' (g_db gw_sent) \<and>
   may_settle gw_sent peer0 (sent_op0\<lparr>op_payload := Some command0\<rparr>) False"
proof -
  have run: "acknowledge env0 ''n'' ''o'' (Rc_confirmed result0) False gw_sent = (fst sample_confirm, snd sample_confirm)"
    by (simp add: sample_confirm_def)
  from receipt_authority [OF gw_sent_node(1) run] gw_sent_node(2) gw_sent_op sample_confirm_ops show ?thesis by auto
qed

theorem receipt_confirms_witness:
  "\<exists>r. find_op (g_db (snd sample_confirm)) ''u'' ''o'' = Some r \<and> op_state r = Op_confirmed"
proof -
  have "acknowledge env0 ''n'' ''o'' (Rc_confirmed result0) False gw_sent = (Inr (), snd sample_confirm)"
    using sample_confirm_eq by (simp add: sample_confirm_def prod_eq_iff)
  from receipt_confirms [OF gw_sent_node(1) _ _ this] gw_sent_op gw_sent_node show ?thesis
    by (auto simp: sent_op0_def settled_def)
qed

end
