(* ===== verification/Sources_Spec.thy ===== *)
theory Sources_Spec
  imports Sessions_Spec
begin

text \<open>
  The ledger of sources: what a node reports is taken over in the order of its numbers, once; the
  same report again is answered from the ledger, and a different one under the same identifier is
  refused.
\<close>

section \<open>The ledger is written in one place\<close>

named_theorems book_rules \<open>operations that leave the ledger and the users' identifiers alone\<close>

definition book where
  "book d = (map us_id (t_users d), t_receipts d)"

lemma book_core: "(\<And>v. keeps (\<lambda>d. core d = v) m) \<Longrightarrow> keeps (\<lambda>d. book d = v) m"
  by (rule core_keeps) (simp_all add: core_eq book_def)

lemmas book_notes [book_rules] = book_core [OF core_change] book_core [OF core_appendEvent]
  book_core [OF core_notify]

lemma book_mod: "(\<And>d. book (f d) = book d) \<Longrightarrow> keeps (\<lambda>d. book d = v) (modS f)"
  by (rule keeps_mod) simp

lemma book_put_turns [book_rules]: "keeps (\<lambda>d. book d = v) (put_turns f)"
  unfolding put_turns_def by (intro keeps_rules book_mod) (simp add: book_def)

lemma book_queueMirror [book_rules]: "keeps (\<lambda>d. book d = v) (queueMirror E uid sid items)"
  unfolding queueMirror_def mirror_item_def by (intro keeps_rules book_mod) (simp_all add: book_def)

lemma book_requestCancel [book_rules]: "keeps (\<lambda>d. book d = v) (requestCancel E uid nid sid turn rid)"
  unfolding requestCancel_def getRequest_def by (intro keeps_rules book_rules book_mod) (simp add: book_def)

lemma book_start_turn [book_rules]: "keeps (\<lambda>d. book d = v) (start_turn E uid sid old newTurn state)"
  unfolding start_turn_def insert_turn_def by (intro keeps_rules book_rules book_mod) (simp add: book_def)

lemma book_sessionUpdate [book_rules]: "keeps (\<lambda>d. book d = v) (sessionUpdate E uid nid sid b)"
  unfolding sessionUpdate_def getSession_def continue_turn_def next_turn_state_def announce_state_def
    cancel_pending_def Let_def
  by (intro keeps_rules book_rules book_mod) (simp add: book_def)

lemma book_requestCreate [book_rules]: "keeps (\<lambda>d. book d = v) (requestCreate E uid nid b)"
  unfolding requestCreate_def getSession_def getRequest_def insert_request_def Let_def
  by (intro keeps_rules book_rules book_mod) (simp add: book_def)

lemma book_apply_source [book_rules]: "keeps (\<lambda>d. book d = v) (apply_source E uid nid m)"
  by (cases m) (auto intro: book_rules)

lemma book_mark_source [book_rules]: "keeps (\<lambda>d. book d = v) (mark_source nid sid g i n h)"
  unfolding mark_source_def by (intro keeps_rules book_mod) (simp add: book_def)

lemma bookD:
  assumes "\<And>v. keeps (\<lambda>d. book d = v) m" and "m s = (r, t)"
  shows "map us_id (t_users t) = map us_id (t_users s) \<and> t_receipts t = t_receipts s"
  using keepsD [OF assms, of "book s"] by (simp add: book_def)

section \<open>The first sight of a source\<close>

definition source_receipt :: "env \<Rightarrow> string \<Rightarrow> source_message \<Rightarrow> int \<Rightarrow> receipt_row" where
  "source_receipt E nid m n = \<lparr>rc_node = nid, rc_event = src_event m, rc_session = source_session (src_body m),
     rc_source_seq = src_seq m, rc_hash = source_hash E m, rc_gateway_seq = n, rc_created = dbnow E\<rparr>"

lemma record_receipt_Inr:
  assumes "record_receipt E nid sid i n h g d = (Inr x, t)"
  shows "\<not> has_row (\<lambda>r. rc_node r = nid \<and> rc_event r = i \<or> rc_session r = sid \<and> rc_source_seq r = n) (t_receipts d)"
    "t_receipts t = t_receipts d @ [\<lparr>rc_node = nid, rc_event = i, rc_session = sid, rc_source_seq = n,
       rc_hash = h, rc_gateway_seq = g, rc_created = dbnow E\<rparr>]"
    "\<forall>s\<in>set (t_sessions t). se_id s = sid \<longrightarrow> se_last_source s = n" "t_users t = t_users d"
proof -
  from assms have taken: "\<not> has_row (\<lambda>r. rc_node r = nid \<and> rc_event r = i \<or> rc_session r = sid \<and> rc_source_seq r = n) (t_receipts d)"
    and t: "t = d\<lparr>t_receipts := t_receipts d @ [\<lparr>rc_node = nid, rc_event = i, rc_session = sid, rc_source_seq = n,
       rc_hash = h, rc_gateway_seq = g, rc_created = dbnow E\<rparr>],
       t_sessions := upd_rows (\<lambda>r. se_id r = sid) (\<lambda>r. r\<lparr>se_last_source := n\<rparr>) (t_sessions d)\<rparr>"
    unfolding record_receipt_def bindS_Inr thenS_Inr guardS_Inr getS_iff modS_iff by auto
  show "\<not> has_row (\<lambda>r. rc_node r = nid \<and> rc_event r = i \<or> rc_session r = sid \<and> rc_source_seq r = n) (t_receipts d)"
    by (rule taken)
  show "t_receipts t = t_receipts d @ [\<lparr>rc_node = nid, rc_event = i, rc_session = sid, rc_source_seq = n,
       rc_hash = h, rc_gateway_seq = g, rc_created = dbnow E\<rparr>]" and "t_users t = t_users d"
    by (simp_all add: t)
  have "t_sessions t = upd_rows (\<lambda>r. se_id r = sid) (\<lambda>r. r\<lparr>se_last_source := n\<rparr>) (t_sessions d)" by (simp add: t)
  then show "\<forall>s\<in>set (t_sessions t). se_id s = sid \<longrightarrow> se_last_source s = n"
    by (simp only:) (intro ballI, erule upd_rows_all; simp)
qed

lemma new_source_Inr:
  assumes "new_source E uid nid m d = (Inr n, t)"
  obtains s where "find_session d (source_session (src_body m)) = Some s"
    and "src_seq m = se_last_source s + 1"
    and "t_receipts t = t_receipts d @ [source_receipt E nid m n]"
    and "\<forall>s\<in>set (t_sessions t). se_id s = source_session (src_body m) \<longrightarrow> se_last_source s = src_seq m"
    and "\<not> has_row (\<lambda>r. rc_node r = nid \<and> rc_event r = src_event m) (t_receipts d)"
    and "map us_id (t_users t) = map us_id (t_users d)"
proof -
  let ?sid = "source_session (src_body m)"
  from assms obtain s d1 d2 where s: "find_session d ?sid = Some s" and seq: "src_seq m = se_last_source s + 1"
    and 1: "(if se_history s = Purged \<and> closing_snapshot (src_body m)
             then oneS (\<lambda>d. map_option se_last_seq (find (\<lambda>r. se_id r = ?sid \<and> se_state r = S_closed) (t_sessions d)))
             else apply_source E uid nid (src_body m)) d = (Inr n, d1)"
    and 2: "(if se_history s = Purged \<and> closing_snapshot (src_body m) then returnS ()
             else mark_source nid ?sid n (src_event m) (src_seq m) (source_hash E m)) d1 = (Inr (), d2)"
    and 3: "record_receipt E nid ?sid (src_event m) (src_seq m) (source_hash E m) n d2 = (Inr (), t)"
    unfolding new_source_def Let_def bindS_Inr thenS_Inr guardS_Inr getS_iff oneS_Inr returnS_iff by auto
  have "book d1 = book d" using 1 bookD [OF book_apply_source] by (auto simp: book_def oneS_Inr split: if_splits)
  moreover have "book d2 = book d1" using 2 bookD [OF book_mark_source] by (auto simp: book_def returnS_iff split: if_splits)
  ultimately have b: "t_receipts d2 = t_receipts d" "map us_id (t_users d2) = map us_id (t_users d)"
    by (simp_all add: book_def)
  show ?thesis
  proof (rule that)
    show "t_receipts t = t_receipts d @ [source_receipt E nid m n]"
      using record_receipt_Inr(2) [OF 3] b by (simp add: source_receipt_def)
    show "\<not> has_row (\<lambda>r. rc_node r = nid \<and> rc_event r = src_event m) (t_receipts d)"
      using record_receipt_Inr(1) [OF 3] b by (auto simp: has_row_iff)
    show "map us_id (t_users t) = map us_id (t_users d)" using record_receipt_Inr(4) [OF 3] b by simp
  qed (use s seq record_receipt_Inr(3) [OF 3] in simp_all)
qed

text \<open>
  C8: a report that is not in the ledger is taken over only as the next one of its session: its number
  is the session's last source number plus one, which it becomes, and the ledger gains exactly its
  row; so the reports of a session enter in their order, without a gap and once.
\<close>

theorem source_in_order:
  assumes "find_receipt d nid (src_event m) = None" and "source_tx E uid nid m d = (Inr n, t)"
  shows "\<exists>s. find_session d (source_session (src_body m)) = Some s \<and> src_seq m = se_last_source s + 1 \<and>
    t_receipts t = t_receipts d @ [source_receipt E nid m n] \<and>
    (\<forall>s\<in>set (t_sessions t). se_id s = source_session (src_body m) \<longrightarrow> se_last_source s = src_seq m)"
proof -
  have "new_source E uid nid m d = (Inr n, t)"
    using assms by (auto simp: source_tx_def transaction_Inr bindS_get)
  then show ?thesis by (rule new_source_Inr) blast
qed

section \<open>The same source again\<close>

lemma find_receipt_after:
  assumes "source_tx E uid nid m d = (Inr n, t)"
  shows "\<exists>r. find_receipt t nid (src_event m) = Some r \<and> rc_hash r = source_hash E m \<and>
    rc_session r = source_session (src_body m) \<and> rc_source_seq r = src_seq m \<and> rc_gateway_seq r = n"
    and "map us_id (t_users t) = map us_id (t_users d)"
proof -
  have "(\<exists>r. find_receipt t nid (src_event m) = Some r \<and> rc_hash r = source_hash E m \<and>
    rc_session r = source_session (src_body m) \<and> rc_source_seq r = src_seq m \<and> rc_gateway_seq r = n)
    \<and> map us_id (t_users t) = map us_id (t_users d)"
  proof (cases "find_receipt d nid (src_event m)")
    case None
    then have "new_source E uid nid m d = (Inr n, t)"
      using assms by (auto simp: source_tx_def transaction_Inr bindS_get)
    then show ?thesis
      by (rule new_source_Inr) (use None in \<open>simp add: find_receipt_def find_append source_receipt_def\<close>)
  next
    case (Some r)
    then show ?thesis using assms by (auto simp: source_tx_def transaction_Inr bindS_get thenS_Inr guardS_Inr returnS_iff)
  qed
  then show "\<exists>r. find_receipt t nid (src_event m) = Some r \<and> rc_hash r = source_hash E m \<and>
    rc_session r = source_session (src_body m) \<and> rc_source_seq r = src_seq m \<and> rc_gateway_seq r = n"
    and "map us_id (t_users t) = map us_id (t_users d)" by blast+
qed

text \<open>
  C9: once a report has been taken over, any report under the same identifier changes nothing: the
  same one is acknowledged with the same number of the log, another one is refused with
  \<open>SOURCE_CONFLICT\<close>.
\<close>

theorem source_replay:
  assumes "source_tx E uid nid m d = (Inr n, t)" and "src_event m' = src_event m"
  shows "source_tx E uid nid m' t =
    (if source_hash E m' = source_hash E m \<and> source_session (src_body m') = source_session (src_body m) \<and> src_seq m' = src_seq m
     then Inr n else Inl (apierr 409 SOURCE_CONFLICT), t)"
proof -
  obtain r where r: "find_receipt t nid (src_event m') = Some r" "rc_hash r = source_hash E m"
      "rc_session r = source_session (src_body m)" "rc_source_seq r = src_seq m" "rc_gateway_seq r = n"
    using find_receipt_after(1) [OF assms(1)] assms(2) by auto
  have "uid = [] \<or> has_row (\<lambda>u. us_id u = uid) (t_users d)" using assms(1) by (auto simp: source_tx_def transaction_Inr)
  moreover have "has_row (\<lambda>u. us_id u = uid) T = (uid \<in> set (map us_id T))" for T by (auto simp: has_row_iff)
  ultimately have user: "uid = [] \<or> has_row (\<lambda>u. us_id u = uid) (t_users t)"
    using find_receipt_after(2) [OF assms(1)] by metis
  have "t\<lparr>entropy := entropy t\<rparr> = t" by simp
  then show ?thesis using r user
    by (auto simp: source_tx_def transaction_def getS_run thenS_run bindS_run guardS_run returnS_run)
qed

definition source0 :: source_message where
  "source0 = \<lparr>src_event = ''e'', src_seq = 1, src_body = Src_event ''s'' ''t'' (Message_completed ''m'' ''user'' ''hi'' False)\<rparr>"

definition sample_source :: "(err + int) \<times> db" where
  "sample_source = source_tx env0 ''u'' ''n'' source0 db0"

lemma sample_source_eq: "source_tx env0 ''u'' ''n'' source0 db0 = (Inr 1, snd sample_source)"
proof -
  have "fst sample_source = Inr 1"
    by (simp add: sample_source_def source_tx_def new_source_def source0_def find_receipt_def transaction_def
        mark_source_def record_receipt_def append_eval run_simps sample_defs)
  then show ?thesis by (simp add: sample_source_def prod_eq_iff)
qed

theorem source_in_order_witness:
  "t_receipts (snd sample_source) = [source_receipt env0 ''n'' source0 1]"
proof -
  have "find_receipt db0 ''n'' (src_event source0) = None" by (simp add: find_receipt_def db0_def)
  from source_in_order [OF this sample_source_eq] show ?thesis by (auto simp: db0_def)
qed

theorem source_replay_witness:
  "source_tx env0 ''u'' ''n'' source0 (snd sample_source) = (Inr 1, snd sample_source)
   \<and> source_tx env0 ''u'' ''n'' (source0\<lparr>src_seq := 2\<rparr>) (snd sample_source)
     = (Inl (apierr 409 SOURCE_CONFLICT), snd sample_source)"
  using source_replay [OF sample_source_eq, of source0] source_replay [OF sample_source_eq, of "source0\<lparr>src_seq := 2\<rparr>"]
  by (simp add: source0_def)

end
