(* ===== verification/Realtime_Spec.thy ===== *)
theory Realtime_Spec
  imports Commands_Spec
begin

text \<open>
  What a watching client is sent (\<open>pump\<close>), what happens to a node that is no longer the current one,
  and what a restart leaves open (\<open>recoverOperations\<close>).
\<close>

section \<open>Changes that are pushed\<close>

fun change_of :: "frame \<Rightarrow> change_row option" where
  "change_of (F_change c) = Some c"
| "change_of f = None"

definition pushed :: "peer \<Rightarrow> change_row list" where
  "pushed p = List.map_filter (\<lambda>x. change_of (out_frame x)) (pr_queue p)"

lemma pushed_enqueue:
  "pushed (snd (enqueue E f p)) =
     (if fst (enqueue E f p) then pushed p @ (case change_of f of None \<Rightarrow> [] | Some c \<Rightarrow> [c]) else pushed p)"
  by (auto simp: enqueue_def pushed_def stop_def Let_def map_filter_def split: option.split)

lemma enqueue_fields [simp]:
  "pr_user (snd (enqueue E f p)) = pr_user p" "pr_revision (snd (enqueue E f p)) = pr_revision p"
  "pr_watching (snd (enqueue E f p)) = pr_watching p" "pr_watched (snd (enqueue E f p)) = pr_watched p"
  by (simp_all add: enqueue_def stop_def Let_def)

lemma enqueue_closed: "pr_closed (snd (enqueue E f p)) \<longleftrightarrow> \<not> fst (enqueue E f p)"
  by (auto simp: enqueue_def stop_def Let_def)

lemma enqueue_on_closed: "pr_closed p \<Longrightarrow> \<not> fst (enqueue E f p)"
  by (simp add: enqueue_def Let_def)

lemma last_number_Cons: "last_number num a (x # xs) = last_number num (num x) xs"
  by (simp add: last_number_def)

text \<open>A pass over the changes pushes a prefix of them; it pushes all unless the connection closes.\<close>

lemma push_changes_spec:
  assumes "push_changes E cs p d = (r, t)"
  shows "\<exists>q k. r = Inr q \<and> t = d \<and> pushed q = pushed p @ take k cs \<and>
    pr_revision q = last_number cg_revision (pr_revision p) (take k cs) \<and>
    (\<not> pr_closed q \<longrightarrow> take k cs = cs) \<and> (pr_closed p \<longrightarrow> pr_closed q) \<and>
    pr_user q = pr_user p \<and> pr_watching q = pr_watching p \<and> pr_watched q = pr_watched p"
  using assms
proof (induction cs arbitrary: p)
  case Nil
  then show ?case by (intro exI [of _ p] exI [of _ 0]) (simp add: returnS_iff last_number_def)
next
  case (Cons c cs)
  let ?q = "snd (enqueue E (F_change c) p)" and ?q' = "(snd (enqueue E (F_change c) p))\<lparr>pr_revision := cg_revision c\<rparr>"
  show ?case
  proof (cases "fst (enqueue E (F_change c) p)")
    case False
    then have "r = Inr ?q" "t = d" using Cons.prems by (simp_all add: Let_def split_beta returnS_iff)
    then show ?thesis
      using False by (intro exI [of _ ?q] exI [of _ 0]) (simp add: pushed_enqueue last_number_def enqueue_closed)
  next
    case True
    have alive: "\<not> pr_closed p" using True enqueue_on_closed by blast
    have q': "pushed ?q' = pushed p @ [c]" using True pushed_enqueue [of E "F_change c" p] by (simp add: pushed_def)
    have "\<exists>p'. push_changes E cs p' d = (r, t) \<and> pushed p' = pushed p @ [c] \<and> pr_revision p' = cg_revision c \<and>
        pr_user p' = pr_user p \<and> pr_watching p' = pr_watching p \<and> pr_watched p' = pr_watched p"
    proof (cases "cg_type c = Rt_operation")
      case op: True
      show ?thesis
      proof (cases "find_op d (pr_user ?q') (cg_resource c)")
        case None
        then have "push_changes E cs ?q' d = (r, t)"
          using Cons.prems True op by (simp add: Let_def split_beta bindS_run tryS_run operation_def oneS_run)
        then show ?thesis using q' by (intro exI [of _ ?q']) simp
      next
        case (Some o')
        then have "push_changes E cs (snd (enqueue E (F_operation o') ?q')) d = (r, t)"
          using Cons.prems True op by (simp add: Let_def split_beta bindS_run tryS_run operation_def oneS_run)
        then show ?thesis
          using q' by (intro exI [of _ "snd (enqueue E (F_operation o') ?q')"]) (simp add: pushed_enqueue)
      qed
    next
      case False
      then have "push_changes E cs ?q' d = (r, t)" using Cons.prems True by (simp add: Let_def split_beta)
      then show ?thesis using q' by (intro exI [of _ ?q']) simp
    qed
    then obtain p' where run: "push_changes E cs p' d = (r, t)" and p': "pushed p' = pushed p @ [c]" "pr_revision p' = cg_revision c"
        "pr_user p' = pr_user p" "pr_watching p' = pr_watching p" "pr_watched p' = pr_watched p" by blast
    from Cons.IH [OF run] obtain q k where "r = Inr q" "t = d" "pushed q = pushed p' @ take k cs"
        "pr_revision q = last_number cg_revision (pr_revision p') (take k cs)" "\<not> pr_closed q \<longrightarrow> take k cs = cs"
        "pr_user q = pr_user p'" "pr_watching q = pr_watching p'" "pr_watched q = pr_watched p'" by blast
    then show ?thesis
      using p' alive by (intro exI [of _ q] exI [of _ "Suc k"]) (simp add: last_number_Cons)
  qed
qed

text \<open>The events of the watched sessions come behind; they do not touch the cursor of the changes.\<close>

lemma push_events_spec:
  "pushed (push_events E sid es p) = pushed p \<and> pr_revision (push_events E sid es p) = pr_revision p \<and>
   pr_watching (push_events E sid es p) = pr_watching p \<and> (pr_closed p \<longrightarrow> pr_closed (push_events E sid es p))"
proof (induction es arbitrary: p)
  case (Cons e es)
  show ?case
  proof (cases "fst (enqueue E (F_event e) p)")
    case True
    then show ?thesis
      using Cons.IH [of "(snd (enqueue E (F_event e) p))\<lparr>pr_watched := upd_key sid (\<lambda>_. ev_seq e) (pr_watched (snd (enqueue E (F_event e) p)))\<rparr>"]
        pushed_enqueue [of E "F_event e" p] enqueue_on_closed [of p E "F_event e"]
      by (auto simp: Let_def split_beta pushed_def)
  next
    case False
    then show ?thesis using pushed_enqueue [of E "F_event e" p] by (simp add: Let_def split_beta enqueue_closed)
  qed
qed simp

lemma pump_sessions_spec:
  assumes "pump_sessions E ws p d = (r, t)"
  shows "\<exists>q. r = Inr q \<and> pushed q = pushed p \<and> pr_revision q = pr_revision p \<and> pr_watching q = pr_watching p \<and>
    (pr_closed p \<longrightarrow> pr_closed q)"
  using assms
proof (induction ws arbitrary: p d)
  case Nil
  then show ?case by (simp add: returnS_iff)
next
  case (Cons w ws)
  obtain sid after where w: "w = (sid, after)" by (cases w)
  have stop: "pushed (stop p) = pushed p" "pr_revision (stop p) = pr_revision p" "pr_watching (stop p) = pr_watching p"
    "pr_closed (stop p)"
    by (simp_all add: pushed_def stop_def)
  show ?case
  proof (cases "own_session_row d (pr_user p) sid")
    case None
    then show ?thesis using Cons.prems stop w by (simp add: bindS_run tryS_run ownSession_def oneS_run returnS_iff)
  next
    case (Some o')
    then obtain s where s: "find_session d sid = Some s" by (auto simp: own_session_row_def split: option.splits)
    show ?thesis
    proof (cases "readEvents E sid after (se_last_seq s) 200 d")
      case (Inl e)
      let ?f = "fst (error_frame E e d)"
      obtain f d' where f: "error_frame E e d = (Inr (F_error f), d')" by (auto simp: error_frame_def bindS_run new_id_run returnS_run)
      have "pump_sessions E ws (unwatch sid (snd (enqueue E (F_error f) p))) d' = (r, t)"
        using Cons.prems w Some s Inl f by (simp add: bindS_run tryS_run ownSession_def oneS_run getS_run)
      from Cons.IH [OF this] obtain q where "r = Inr q" "pushed q = pushed (snd (enqueue E (F_error f) p))"
          "pr_revision q = pr_revision p" "pr_watching q = pr_watching p"
          "pr_closed (snd (enqueue E (F_error f) p)) \<longrightarrow> pr_closed q" by (auto simp: unwatch_def pushed_def)
      then show ?thesis using pushed_enqueue [of E "F_error f" p] enqueue_on_closed [of p E "F_error f"] by (auto simp: enqueue_closed)
    next
      case (Inr es)
      then have "pump_sessions E ws (push_events E sid es p) d = (r, t)"
        using Cons.prems w Some s by (simp add: bindS_run tryS_run ownSession_def oneS_run getS_run)
      from Cons.IH [OF this] show ?thesis using push_events_spec [of E sid es p] by auto
    qed
  qed
qed

lemma readChanges_at_high:
  assumes "logs_ok d" and "find (\<lambda>u. us_id u = uid) (t_users d) = Some u" and "user_low d uid \<le> after" "after \<le> us_last_rev u"
  shows "readChanges uid after (us_last_rev u) 200 d
    = Inr (take 200 (span cg_revision (user_log d uid) after (user_high d uid)))"
proof (cases "after < us_last_rev u")
  case True
  then show ?thesis using readChanges_page [OF assms(1,2,3)] assms(2) by (simp add: user_high_def)
next
  case False
  then have "span cg_revision (user_log d uid) after (user_high d uid) = []"
    using assms by (auto simp: span_def user_high_def filter_empty_conv)
  moreover have "select_changes d uid after (us_last_rev u) 200 = []"
    using False by (simp add: select_changes_def filter_empty_conv)
  ultimately show ?thesis using False by (simp add: readChanges_def)
qed

section \<open>Why a connection is closed\<close>

text \<open>What a pass can have to send, and what keeps a frame out of a queue.\<close>

fun due :: "env \<Rightarrow> db \<Rightarrow> string \<Rightarrow> (string \<times> int) list \<Rightarrow> frame \<Rightarrow> bool" where
  "due E d uid ws (F_change c) = (c \<in> set (user_log d uid))"
| "due E d uid ws (F_operation r) = (\<exists>op. find_op d uid op = Some r)"
| "due E d uid ws (F_event e) = (e \<in> set (t_events d) \<and> ev_session e \<in> fst ` set ws)"
| "due E d uid ws (F_error b) = (\<exists>(sid, after)\<in>set ws. \<exists>s e trace. find_session d sid = Some s \<and>
     readEvents E sid after (se_last_seq s) 200 d = Inl e \<and> b = error_body (normalizeError e) trace)"
| "due E d uid ws f = False"

definition no_room :: "env \<Rightarrow> frame \<Rightarrow> peer \<Rightarrow> bool" where
  "no_room E f p \<longleftrightarrow> \<not> valid_frame E f \<or> 262144 < frame_size E f \<or>
     cf_queue_bytes (cfg E) < pr_bytes p + frame_size E f \<or> cf_queue_frames (cfg E) \<le> length (pr_queue p)"

text \<open>A connection that is closed lost a session it watches, or has no room for a frame that is due.\<close>

definition closed_for :: "env \<Rightarrow> db \<Rightarrow> string \<Rightarrow> (string \<times> int) list \<Rightarrow> peer \<Rightarrow> bool" where
  "closed_for E d uid ws q \<longleftrightarrow>
     (\<exists>(sid, after)\<in>set ws. own_session_row d uid sid = None) \<or> (\<exists>f. due E d uid ws f \<and> no_room E f q)"

definition explained :: "env \<Rightarrow> db \<Rightarrow> string \<Rightarrow> (string \<times> int) list \<Rightarrow> peer \<Rightarrow> bool" where
  "explained E d uid ws q \<longleftrightarrow> (pr_closed q \<longrightarrow> closed_for E d uid ws q)"

lemma closed_for_same:
  "pr_queue q = pr_queue p \<Longrightarrow> pr_bytes q = pr_bytes p \<Longrightarrow> closed_for E d uid ws q = closed_for E d uid ws p"
  by (simp add: closed_for_def no_room_def)

lemma explained_same:
  "explained E d uid ws p \<Longrightarrow> pr_queue q = pr_queue p \<Longrightarrow> pr_bytes q = pr_bytes p \<Longrightarrow> pr_closed q = pr_closed p \<Longrightarrow>
     explained E d uid ws q"
  using closed_for_same [of q p E d uid ws] by (simp add: explained_def)

lemma explained_enqueue:
  assumes "explained E d uid ws p" and "due E d uid ws f"
  shows "explained E d uid ws (snd (enqueue E f p))"
proof (cases "fst (enqueue E f p)")
  case True
  then show ?thesis by (simp add: explained_def enqueue_closed)
next
  case False
  have "closed_for E d uid ws p"
  proof (cases "pr_closed p")
    case open_: False
    then have "no_room E f p" using False by (auto simp: enqueue_True no_room_def)
    then show ?thesis using assms(2) by (auto simp: closed_for_def)
  qed (use assms(1) in \<open>simp add: explained_def\<close>)
  then show ?thesis
    using closed_for_same [of "stop p" p] by (simp add: explained_def enqueue_False [OF False] stop_def)
qed

lemma explained_push_changes:
  "push_changes E cs p d = (Inr q, t) \<Longrightarrow> explained E d (pr_user p) ws p \<Longrightarrow> set cs \<subseteq> set (user_log d (pr_user p)) \<Longrightarrow>
     explained E d (pr_user p) ws q"
proof (induction cs arbitrary: p)
  case Nil
  then show ?case by (simp add: returnS_iff)
next
  case (Cons c cs)
  let ?uid = "pr_user p" and ?q = "snd (enqueue E (F_change c) p)"
  have q: "explained E d ?uid ws ?q" using Cons.prems by (intro explained_enqueue) simp_all
  show ?case
  proof (cases "fst (enqueue E (F_change c) p)")
    case False
    then show ?thesis using Cons.prems(1) q by (simp add: Let_def split_beta returnS_iff)
  next
    case True
    let ?q' = "?q\<lparr>pr_revision := cg_revision c\<rparr>"
    have q': "explained E d ?uid ws ?q'" by (rule explained_same [OF q]) simp_all
    have rest: "explained E d ?uid ws q" if "push_changes E cs p' d = (Inr q, t)" "explained E d ?uid ws p'" "pr_user p' = ?uid" for p'
      using Cons.IH [OF that(1)] that(2,3) Cons.prems(3) by simp
    show ?thesis
    proof (cases "cg_type c = Rt_operation")
      case op: True
      show ?thesis
      proof (cases "find_op d ?uid (cg_resource c)")
        case None
        then have "push_changes E cs ?q' d = (Inr q, t)"
          using Cons.prems(1) True op by (simp add: Let_def split_beta bindS_run tryS_run operation_def oneS_run)
        then show ?thesis using q' by (rule rest) simp
      next
        case (Some o')
        then have "push_changes E cs (snd (enqueue E (F_operation o') ?q')) d = (Inr q, t)"
          using Cons.prems(1) True op by (simp add: Let_def split_beta bindS_run tryS_run operation_def oneS_run)
        moreover have "due E d ?uid ws (F_operation o')" using Some by auto
        then have "explained E d ?uid ws (snd (enqueue E (F_operation o') ?q'))" by (rule explained_enqueue [OF q'])
        ultimately show ?thesis by (rule rest) simp
      qed
    next
      case False
      then have "push_changes E cs ?q' d = (Inr q, t)" using Cons.prems(1) True by (simp add: Let_def split_beta)
      then show ?thesis using q' by (rule rest) simp
    qed
  qed
qed

lemma explained_push_events:
  "explained E d uid ws p \<Longrightarrow> (\<And>e. e \<in> set es \<Longrightarrow> due E d uid ws (F_event e)) \<Longrightarrow> explained E d uid ws (push_events E sid es p)"
proof (induction es arbitrary: p)
  case (Cons e es)
  let ?q = "snd (enqueue E (F_event e) p)"
  have q: "explained E d uid ws ?q" using Cons.prems by (intro explained_enqueue) simp_all
  then have "explained E d uid ws (?q\<lparr>pr_watched := upd_key sid (\<lambda>_. ev_seq e) (pr_watched ?q)\<rparr>)"
    by (rule explained_same) simp_all
  then show ?case using q Cons.IH Cons.prems(2) by (simp add: Let_def split_beta)
qed simp

lemma read_run_subset: "read_run num sz b n out k rows = Inr es \<Longrightarrow> set es \<subseteq> set out \<union> set rows"
  by (induction rows arbitrary: n out k) (fastforce split: if_splits)+

lemma readEvents_from: "readEvents E sid a u n d = Inr es \<Longrightarrow> e \<in> set es \<Longrightarrow> e \<in> set (t_events d) \<and> ev_session e = sid"
proof -
  assume "readEvents E sid a u n d = Inr es" and e: "e \<in> set es"
  then have "set es \<subseteq> set (select_events d sid a u n)"
    by (auto simp: readEvents_def split: sum.splits if_splits dest!: read_run_subset)
  with e have "e \<in> set (select_events d sid a u n)" by blast
  then show ?thesis by (auto simp: select_events_def dest!: in_set_takeD)
qed

lemma push_events_user [simp]: "pr_user (push_events E sid es p) = pr_user p"
  by (induction es arbitrary: p) (simp_all add: Let_def split_beta)

lemma explained_pump_sessions:
  assumes "pump_sessions E vs p (d\<lparr>entropy := n\<rparr>) = (Inr q, t)"
    and "explained E d (pr_user p) ws p" and "set vs \<subseteq> set ws"
  shows "explained E d (pr_user p) ws q"
  using assms
proof (induction vs arbitrary: p n)
  case Nil
  then show ?case by (simp add: returnS_iff)
next
  case (Cons v vs)
  obtain sid after where v: "v = (sid, after)" by (cases v)
  let ?d = "d\<lparr>entropy := n\<rparr>" and ?uid = "pr_user p"
  have w: "(sid, after) \<in> set ws" using Cons.prems(3) v by simp
  have same: "own_session_row ?d = own_session_row d" "find_session ?d = find_session d"
    "readEvents E sid after m 200 ?d = readEvents E sid after m 200 d" for m
    by (simp_all add: fun_eq_iff own_session_row_def find_session_def accessible_def readEvents_def select_events_def
        cong: option.case_cong)
  show ?case
  proof (cases "own_session_row d ?uid sid")
    case None
    then have "explained E d ?uid ws q" using w by (auto simp: explained_def closed_for_def)
    then show ?thesis .
  next
    case (Some o')
    then obtain s where s: "find_session d sid = Some s" by (auto simp: own_session_row_def split: option.splits)
    show ?thesis
    proof (cases "readEvents E sid after (se_last_seq s) 200 d")
      case (Inl e)
      let ?b = "error_body (normalizeError e) (''trace'' @ ''_'' @ rnd E n)"
      have "pump_sessions E vs (unwatch sid (snd (enqueue E (F_error ?b) p))) (?d\<lparr>entropy := Suc n\<rparr>) = (Inr q, t)"
        using Cons.prems(1) v Some s Inl
        by (simp add: bindS_run tryS_run ownSession_def oneS_run getS_run same error_frame_def new_id_run returnS_run)
      then have run: "pump_sessions E vs (unwatch sid (snd (enqueue E (F_error ?b) p))) (d\<lparr>entropy := Suc n\<rparr>) = (Inr q, t)"
        by simp
      have "due E d ?uid ws (F_error ?b)" using w s Inl by fastforce
      then have "explained E d ?uid ws (snd (enqueue E (F_error ?b) p))" by (rule explained_enqueue [OF Cons.prems(2)])
      then have "explained E d ?uid ws (unwatch sid (snd (enqueue E (F_error ?b) p)))"
        by (rule explained_same) (simp_all add: unwatch_def)
      moreover have "pr_user (unwatch sid (snd (enqueue E (F_error ?b) p))) = ?uid" by (simp add: unwatch_def)
      ultimately show ?thesis using Cons.IH [OF run] Cons.prems(3) by simp
    next
      case (Inr es)
      then have run: "pump_sessions E vs (push_events E sid es p) ?d = (Inr q, t)"
        using Cons.prems(1) v Some s by (simp add: bindS_run tryS_run ownSession_def oneS_run getS_run same)
      have "due E d ?uid ws (F_event e)" if "e \<in> set es" for e
        using readEvents_from [OF Inr that] w by force
      then have "explained E d ?uid ws (push_events E sid es p)" by (rule explained_push_events [OF Cons.prems(2)])
      then show ?thesis using Cons.IH [OF run] Cons.prems(3) by simp
    qed
  qed
qed

text \<open>
  C14: a pass of the pump sends a watching client the changes that follow its cursor, numbered without
  a gap, and moves the cursor to the last one it queued. Afterwards the client still watches, and its cursor
  stands at the user's latest revision, or 200 changes further, unless the connection is closed; and it
  is closed only when a session it watches is no longer the user's, or when a frame that is due (one of
  the user's changes or operations, an event of a watched session, the error of one whose events cannot be
  read) is invalid, too large, or finds the queue at its limit of frames or bytes.
\<close>

theorem pump_catches_up:
  assumes "logs_ok d" and "find (\<lambda>u. us_id u = pr_user p) (t_users d) = Some u"
    and "pr_watching p" and "\<not> pr_closed p" and "user_low d (pr_user p) \<le> pr_revision p" and "pr_revision p \<le> us_last_rev u"
    and "pump_client E p d = (r, t)"
  shows "\<exists>q cs. r = Inr q \<and> pushed q = pushed p @ cs \<and> set cs \<subseteq> set (user_log d (pr_user p)) \<and>
    map cg_revision cs = [pr_revision p + 1..pr_revision q] \<and> pr_watching q \<and>
    (\<not> pr_closed q \<longrightarrow> pr_revision q = min (us_last_rev u) (pr_revision p + 200)) \<and>
    (pr_closed q \<longrightarrow> closed_for E d (pr_user p) (pr_watched p) q)"
proof -
  let ?span = "span cg_revision (user_log d (pr_user p)) (pr_revision p) (user_high d (pr_user p))"
  have high: "user_high d (pr_user p) = us_last_rev u" using assms(2) by (simp add: user_high_def)
  have ys: "map cg_revision ?span = [pr_revision p + 1..us_last_rev u]"
    using span_numbers [OF user_log_numbers [OF assms(1,2)] assms(5), of "user_high d (pr_user p)"] by (simp add: high)
  obtain r1 d1 where 1: "push_changes E (take 200 ?span) p d = (r1, d1)" by (cases "push_changes E (take 200 ?span) p d")
  from push_changes_spec [OF 1] obtain p1 k where p1: "r1 = Inr p1" "d1 = d" "pushed p1 = pushed p @ take k (take 200 ?span)"
      "pr_revision p1 = last_number cg_revision (pr_revision p) (take k (take 200 ?span))"
      "\<not> pr_closed p1 \<longrightarrow> take k (take 200 ?span) = take 200 ?span"
      "pr_user p1 = pr_user p" "pr_watching p1 = pr_watching p" "pr_watched p1 = pr_watched p" by blast
  have 2: "pump_sessions E (pr_watched p1) p1 d = (r, t)"
    using assms(7,3,4,2) readChanges_at_high [OF assms(1,2,5,6)] 1 p1(1,2)
    by (simp add: pump_client_def bindS_run getS_run)
  from pump_sessions_spec [OF this] obtain q where q: "r = Inr q" "pushed q = pushed p1" "pr_revision q = pr_revision p1"
      "pr_watching q = pr_watching p1" "pr_closed p1 \<longrightarrow> pr_closed q" by blast
  have log: "set (take n ?span) \<subseteq> set (user_log d (pr_user p))" for n
    using set_take_subset [of n ?span] by (auto simp: span_def)
  have "explained E d (pr_user p) (pr_watched p) p" using assms(4) by (simp add: explained_def)
  moreover have "push_changes E (take 200 ?span) p d = (Inr p1, d)" using 1 p1(1,2) by simp
  ultimately have "explained E d (pr_user p) (pr_watched p) p1" using explained_push_changes log by blast
  moreover have run: "pump_sessions E (pr_watched p) p1 (d\<lparr>entropy := entropy d\<rparr>) = (Inr q, t)" using 2 q(1) p1(8) by simp
  ultimately have "explained E d (pr_user p) (pr_watched p) q"
    using explained_pump_sessions [OF run _ order_refl] p1(6) by simp
  then have why: "pr_closed q \<longrightarrow> closed_for E d (pr_user p) (pr_watched p) q" by (simp add: explained_def)
  let ?n = "min k 200"
  have cs: "take k (take 200 ?span) = take ?n ?span" by simp
  have nums: "map cg_revision (take ?n ?span) = [pr_revision p + 1..min (us_last_rev u) (pr_revision p + int ?n)]"
    using ys take_upto [of ?n "pr_revision p + 1" "us_last_rev u"] by (simp add: take_map [symmetric] algebra_simps)
  have last: "last_number cg_revision (pr_revision p) (take n ?span) = min (us_last_rev u) (pr_revision p + int n)" for n
  proof (cases "n = 0 \<or> pr_revision p = us_last_rev u")
    case True
    moreover have "take n ?span = []" if "pr_revision p = us_last_rev u" using ys that by simp
    ultimately show ?thesis using assms(6) by (auto simp: last_number_def)
  next
    case False
    then show ?thesis using last_take_span [OF ys, of n] assms(6) by simp
  qed
  have rev': "pr_revision q = min (us_last_rev u) (pr_revision p + int ?n)" using q(3) p1(4) cs last [of ?n] by simp
  have "pr_revision q = min (us_last_rev u) (pr_revision p + 200)" if "\<not> pr_closed q"
  proof -
    have "take ?n ?span = take 200 ?span" using that q(5) p1(5) cs by auto
    then show ?thesis using q(3) p1(4) cs last [of 200] by simp
  qed
  moreover have "pushed q = pushed p @ take ?n ?span" using q(2) p1(3) cs by simp
  moreover have "map cg_revision (take ?n ?span) = [pr_revision p + 1..pr_revision q]" unfolding rev' by (rule nums)
  moreover have "pr_watching q" using q(4) p1(7) assms(3) by simp
  ultimately show ?thesis using q(1) log [of ?n] why by (intro exI [of _ q] exI [of _ "take ?n ?span"]) blast
qed


definition watcher0 :: peer where
  "watcher0 = (new_peer env0 ''u'' [] [] 0 1000 [])\<lparr>pr_watching := True\<rparr>"

lemma watcher0_open: "\<exists>q. fst (pump_client env0 watcher0 (snd sample_append)) = Inr q \<and> \<not> pr_closed q"
  by (simp add: watcher0_def new_peer_def pump_client_def readChanges_def select_changes_def enqueue_def
      sample_append_def append_eval run_simps sample_defs)

theorem pump_catches_up_witness:
  "\<exists>q c. fst (pump_client env0 watcher0 (snd sample_append)) = Inr q \<and> \<not> pr_closed q \<and> pr_revision q = 1 \<and>
     pushed q = [c] \<and> cg_revision c = 1 \<and> c \<in> set (user_log (snd sample_append) ''u'')"
proof -
  obtain u where u: "find (\<lambda>u. us_id u = ''u'') (t_users (snd sample_append)) = Some u" "us_last_rev u = 1"
    using sample_append_user by simp
  then have low: "user_low (snd sample_append) ''u'' = 0"
    using sample_append_changes by (simp add: user_low_def user_high_def)
  have w: "pr_user watcher0 = ''u''" "pr_watching watcher0" "\<not> pr_closed watcher0" "pr_revision watcher0 = 0" "pushed watcher0 = []"
    by (simp_all add: watcher0_def new_peer_def pushed_def map_filter_def)
  have run: "pump_client env0 watcher0 (snd sample_append)
      = (fst (pump_client env0 watcher0 (snd sample_append)), snd (pump_client env0 watcher0 (snd sample_append)))" by simp
  obtain q cs where q: "fst (pump_client env0 watcher0 (snd sample_append)) = Inr q" "pushed q = cs"
      "set cs \<subseteq> set (user_log (snd sample_append) ''u'')" "map cg_revision cs = [1..pr_revision q]"
      "\<not> pr_closed q \<longrightarrow> pr_revision q = 1"
    using pump_catches_up [OF sample_append_logs _ w(2,3) _ _ run, of u] u low w by auto
  moreover from watcher0_open q(1) have "\<not> pr_closed q" by auto
  ultimately show ?thesis by (cases cs) (auto intro!: exI [of _ q])
qed

section \<open>Connections that were replaced\<close>

text \<open>
  A message that arrives under another epoch than that of the node's current connection is not
  handled, whatever it says: the database keeps all its rows, no client's state changes, and the
  reader ends.
\<close>

theorem stale_epoch_refused:
  assumes "map_of (g_nodes g) nid = Some p" and "\<not> pr_closed p" and "epoch \<noteq> pr_epoch p"
  shows "\<exists>h n. node_receive E nid epoch m g = (Inr False, h) \<and> g_db h = (g_db g)\<lparr>entropy := n\<rparr> \<and>
    g_clients h = g_clients g"
  using assms
  by (auto simp: node_receive_def bindS_run nodeS_run tryS_run failS_run dbS_run error_frame_def new_id_run
      send_node_def enqueue_node_def thenS_run set_node_run returnS_run apierr_def)

theorem stale_epoch_refused_witness:
  "\<exists>h. node_receive env0 ''n'' 7 (Nm_heartbeat []) gw1 = (Inr False, h)"
proof -
  have "map_of (g_nodes gw1) ''n'' = Some peer0" "\<not> pr_closed peer0" "(7::int) \<noteq> pr_epoch peer0"
    by (simp_all add: gw1_def peer0_def new_peer_def)
  from stale_epoch_refused [OF this] show ?thesis by blast
qed

end
