(* ===== verification/Recovery_Spec.thy ===== *)
theory Recovery_Spec
  imports Commands_Spec
begin

text \<open>
  After a restart no operation waits for a connection that is gone (\<open>recoverOperations\<close>): what was
  not sent is failed, and what may have been sent waits for the answer of the node's journal.
\<close>

definition op_key :: "op_row \<Rightarrow> string \<times> string" where
  "op_key r = (op_user r, op_id r)"

definition recovered :: "outbox_state option \<Rightarrow> op_state" where
  "recovered ob = (if ob = Some Out_pending then Op_failed else Op_reconciling)"

definition recover_one :: "env \<Rightarrow> op_row \<times> outbox_state option \<Rightarrow> unit dbact" where
  "recover_one E = (\<lambda>(r, outbox).
     if outbox = Some Out_pending
     then failUnsent E (op_user r) (op_id r) (apierr 503 SERVICE_UNAVAILABLE)
     else make_uncertain E (op_user r) (op_id r))"

lemma recover_one_Inr:
  assumes "recover_one E (r, ob) d = (Inr x, t)"
  shows "\<exists>eb. t_ops t = upd_rows (key_is (op_user r) (op_id r)) (settle_row E (recovered ob) None eb) (t_ops d)"
proof (cases "ob = Some Out_pending")
  case True
  then have "failUnsent E (op_user r) (op_id r) (apierr 503 SERVICE_UNAVAILABLE) d = (Inr x, t)"
    using assms by (simp add: recover_one_def)
  then show ?thesis by (rule failUnsent_Inr) (use True in \<open>auto simp: recovered_def\<close>)
next
  case False
  then obtain d1 where fin: "finishOp E (op_user r) (op_id r) Op_reconciling None None d1 = (Inr x, t)" and d1: "t_ops d1 = t_ops d"
    using assms by (auto simp: recover_one_def make_uncertain_def set_outbox_def transaction_Inr thenS_Inr modS_iff)
  from fin obtain eb where "t_ops t = upd_rows (key_is (op_user r) (op_id r)) (settle_row E Op_reconciling None eb) (t_ops d1)"
    by (rule finishOp_Inr) blast
  then show ?thesis using False d1 by (auto simp: recovered_def)
qed

lemma settled_keys: "map op_key (upd_rows P (settle_row E st res eb) T) = map op_key T"
  by (rule map_upd_rows_frame) (simp add: op_key_def settle_row_def)

lemma recover_all:
  assumes "forS rows (recover_one E) d = (Inr x, t)" and "distinct (map (op_key \<circ> fst) rows)"
  shows "map op_key (t_ops t) = map op_key (t_ops d) \<and>
    (\<forall>q\<in>set (t_ops t). (\<exists>z\<in>set rows. op_key q = op_key (fst z) \<and> op_state q = recovered (snd z))
       \<or> q \<in> set (t_ops d) \<and> op_key q \<notin> (op_key \<circ> fst) ` set rows)"
  using assms
proof (induction rows arbitrary: d)
  case Nil
  then show ?case by (simp add: returnS_iff)
next
  case (Cons z rows)
  obtain r ob where z: "z = (r, ob)" by (cases z)
  from Cons.prems(1) obtain d1 where 1: "recover_one E (r, ob) d = (Inr (), d1)" and 2: "forS rows (recover_one E) d1 = (Inr x, t)"
    by (auto simp: z bindS_Inr)
  obtain eb where ops: "t_ops d1 = upd_rows (key_is (op_user r) (op_id r)) (settle_row E (recovered ob) None eb) (t_ops d)"
    using recover_one_Inr [OF 1] by blast
  have IH: "map op_key (t_ops t) = map op_key (t_ops d1)"
    "\<forall>q\<in>set (t_ops t). (\<exists>z\<in>set rows. op_key q = op_key (fst z) \<and> op_state q = recovered (snd z))
       \<or> q \<in> set (t_ops d1) \<and> op_key q \<notin> (op_key \<circ> fst) ` set rows"
    using Cons.IH [OF 2] Cons.prems(2) by simp_all
  have step: "op_key q = op_key r \<and> op_state q = recovered ob \<or> q \<in> set (t_ops d) \<and> op_key q \<noteq> op_key r"
    if "q \<in> set (t_ops d1)" for q
  proof -
    from that obtain q0 where q0: "q0 \<in> set (t_ops d)"
        "q = (if key_is (op_user r) (op_id r) q0 then settle_row E (recovered ob) None eb q0 else q0)"
      unfolding ops set_upd_rows by blast
    show ?thesis
    proof (cases "key_is (op_user r) (op_id r) q0")
      case True
      then have "q = settle_row E (recovered ob) None eb q0" using q0 by simp
      then show ?thesis using True by (simp add: settle_row_def op_key_def key_is_def)
    next
      case False
      then have "q = q0" using q0 by simp
      then show ?thesis using False q0 by (simp add: op_key_def key_is_def)
    qed
  qed
  have "(\<exists>y\<in>set (z # rows). op_key q = op_key (fst y) \<and> op_state q = recovered (snd y))
       \<or> q \<in> set (t_ops d) \<and> op_key q \<notin> (op_key \<circ> fst) ` set (z # rows)" if "q \<in> set (t_ops t)" for q
    using IH(2) [rule_format, OF that] step [of q] z by fastforce
  then show ?case using IH(1) ops settled_keys by metis
qed

text \<open>
  C16: after a recovery that went through, no operation is \<open>accepted\<close> or \<open>delivered\<close> any more: each that
  was open is failed if its command had not been handed to a connection, and reconciling if it had;
  every settled operation is as it was, and none is lost or added.
\<close>

theorem recovery_settles:
  assumes "store_ok T d" and "recoverOperations E d = (Inr x, t)"
  shows "map op_key (t_ops t) = map op_key (t_ops d) \<and>
    (\<forall>q\<in>set (t_ops t). (\<exists>r\<in>set (t_ops d). op_key q = op_key r \<and> unresolved (op_state r) \<and> op_state q = recovered (outbox_of d r))
       \<or> q \<in> set (t_ops d) \<and> settled (op_state q))"
proof -
  let ?rows = "map (\<lambda>r. (r, outbox_of d r)) (filter (\<lambda>r. unresolved (op_state r)) (t_ops d))"
  have "forS ?rows (recover_one E) d = (Inr x, t)"
    using assms(2) by (simp add: recoverOperations_def bindS_get recover_one_def)
  moreover have "distinct (map op_key (t_ops d))"
    using assms(1) by (simp add: store_ok_def rows_ok_def op_key_def [abs_def])
  then have "distinct (map (op_key \<circ> fst) ?rows)" by (simp add: comp_def distinct_map_filter)
  ultimately have all: "map op_key (t_ops t) = map op_key (t_ops d)"
    "\<forall>q\<in>set (t_ops t). (\<exists>z\<in>set ?rows. op_key q = op_key (fst z) \<and> op_state q = recovered (snd z))
       \<or> q \<in> set (t_ops d) \<and> op_key q \<notin> (op_key \<circ> fst) ` set ?rows"
    using recover_all by blast+
  have "(\<exists>r\<in>set (t_ops d). op_key q = op_key r \<and> unresolved (op_state r) \<and> op_state q = recovered (outbox_of d r))
       \<or> q \<in> set (t_ops d) \<and> settled (op_state q)" if q: "q \<in> set (t_ops t)" for q
  proof (cases "\<exists>z\<in>set ?rows. op_key q = op_key (fst z) \<and> op_state q = recovered (snd z)")
    case True
    then show ?thesis by auto
  next
    case False
    then have "q \<in> set (t_ops d)" "op_key q \<notin> (op_key \<circ> fst) ` set ?rows" using all(2) q by blast+
    then have "\<not> unresolved (op_state q)" by (auto simp: image_iff)
    then show ?thesis using \<open>q \<in> set (t_ops d)\<close> by (cases "op_state q") (simp_all add: unresolved_def settled_def)
  qed
  then show ?thesis using all(1) by blast
qed

definition sample_recover :: "(err + unit) \<times> db" where
  "sample_recover = recoverOperations env0 (db0\<lparr>t_ops := [sent_op0]\<rparr>)"

lemma sample_recover_eq: "fst sample_recover = Inr ()"
  by (simp add: sample_recover_def recoverOperations_def outbox_of_def unresolved_def make_uncertain_def transaction_def
      set_outbox_def finishOp_def find_op_def change_def has_row_def max_safe_def sent_op0_def Let_def run_simps sample_defs)

theorem recovery_settles_witness:
  "map op_key (t_ops (snd sample_recover)) = [op_key sent_op0] \<and>
   list_all (\<lambda>q. op_state q \<noteq> Op_accepted) (t_ops (snd sample_recover))"
proof -
  have ok: "store_ok 200 (db0\<lparr>t_ops := [sent_op0]\<rparr>)"
    using store_db0 [of 200] by (simp add: store_ok_def logs_ok_def rows_ok_def op_ok_def sent_op0_def)
  have "recoverOperations env0 (db0\<lparr>t_ops := [sent_op0]\<rparr>) = (Inr (), snd sample_recover)"
    using sample_recover_eq by (simp add: sample_recover_def prod_eq_iff)
  from recovery_settles [OF ok this] show ?thesis
    by (auto simp: recovered_def settled_def list_all_iff split: if_splits)
qed

end
