(* ===== verification/Keyset.thy ===== *)
theory Keyset
  imports Cursor "HOL-Library.Multiset" "HOL-Library.Product_Lexorder" "HOL-Library.List_Lexorder"
begin

text \<open>
  The contract between a listing in descending order of a key and the client that walks through it with
  page tokens: a page begins behind the key of its token, and its own token carries the key of the last
  row it shows. The lists of shares, of their activity and of a user's resources keep it, and so do the
  pages of a checkpoint, whose items come in ascending order of their numbers.
\<close>

text \<open>\<^verbatim>\<open>ORDER BY key DESC\<close>, and the rows behind a position.\<close>

definition descending :: "('r \<Rightarrow> 'k::linorder) \<Rightarrow> 'r list \<Rightarrow> 'r list" where
  "descending key rows = rev (sort_key key rows)"

definition behind :: "('r \<Rightarrow> 'k::linorder) \<Rightarrow> 'k option \<Rightarrow> 'r \<Rightarrow> bool" where
  "behind key c r = (case c of None \<Rightarrow> True | Some k \<Rightarrow> key r < k)"

text \<open>A client that follows the tokens, with a number of requests.\<close>

fun follow :: "('t option \<Rightarrow> 's \<Rightarrow> err + 'v list \<times> 't option) \<Rightarrow> nat \<Rightarrow> 't option \<Rightarrow> 's \<Rightarrow> (err + 'v list) option" where
  "follow fetch 0 t s = None"
| "follow fetch (Suc n) t s =
     (case fetch t s of
        Inl e \<Rightarrow> Some (Inl e)
      | Inr (xs, None) \<Rightarrow> Some (Inr xs)
      | Inr (xs, Some u) \<Rightarrow>
          (case follow fetch n (Some u) s of
             Some (Inr ys) \<Rightarrow> Some (Inr (xs @ ys))
           | r \<Rightarrow> r))"

lemma set_descending [simp]: "set (descending key rows) = set rows"
  by (simp add: descending_def)

lemma length_descending [simp]: "length (descending key rows) = length rows"
  by (simp add: descending_def)

lemma descending_sorted:
  assumes "distinct (map key rows)"
  shows "sorted_wrt (\<lambda>a b. key b < key a) (descending key rows)"
proof -
  have "distinct (map key (sort_key key rows))" using assms by (simp add: distinct_map)
  then have "sorted_wrt (<) (map key (sort_key key rows))" by (simp add: strict_sorted_iff)
  then show ?thesis by (simp add: descending_def sorted_wrt_rev sorted_wrt_map)
qed

text \<open>Rows that descend already are left as they are.\<close>

lemma descending_id:
  assumes "sorted_wrt (\<lambda>a b. key b < key a) rows"
  shows "descending key rows = rows"
proof -
  have "sorted (map key (rev rows))" "distinct (map key rows)"
    using assms by (induction rows) (auto simp: sorted_append)
  then have "sort_key key rows = rev rows"
    by (intro sort_key_inj_key_eq) (auto simp: distinct_map)
  then show ?thesis by (simp add: descending_def)
qed

text \<open>Behind the n-th row of a descending list is the rest of it.\<close>

lemma filter_behind_nth:
  "sorted_wrt (\<lambda>a b. key b < key a) rs \<Longrightarrow> i < length rs \<Longrightarrow>
     filter (\<lambda>r. key r < (key (rs ! i) :: 'k::linorder)) rs = drop (Suc i) rs"
proof (induction rs arbitrary: i)
  case (Cons x rs)
  show ?case
  proof (cases i)
    case 0
    then show ?thesis using Cons.prems by (simp add: filter_True)
  next
    case (Suc j)
    then have "key (rs ! j) < key x" using Cons.prems by simp
    then have "\<not> key x < key (rs ! j)" by simp
    then show ?thesis using Suc Cons.prems Cons.IH [of j] by simp
  qed
qed simp

lemma behind_next:
  assumes "distinct (map key rows)" and "rs = filter (behind key c) (descending key rows)" and "0 < n" and "n \<le> length rs"
  shows "filter (behind key (Some (key (rs ! (n - 1))))) (descending key rows) = drop n rs"
proof -
  have "sorted_wrt (\<lambda>a b. key b < key a) rs"
    using descending_sorted [OF assms(1)] by (simp add: assms(2) sorted_wrt_filter)
  then have rest: "filter (\<lambda>r. key r < key (rs ! (n - 1))) rs = drop n rs"
    using filter_behind_nth [of key rs "n - 1"] assms(3,4) by simp
  have "rs ! (n - 1) \<in> set rs" using assms(3,4) by simp
  then have "behind key c (rs ! (n - 1))" by (simp add: assms(2))
  then have "behind key c r" if "key r < key (rs ! (n - 1))" for r
    using that by (auto simp: behind_def split: option.splits)
  then have "filter (\<lambda>r. key r < key (rs ! (n - 1))) rs
      = filter (behind key (Some (key (rs ! (n - 1))))) (descending key rows)"
    unfolding assms(2) filter_filter by (intro filter_cong) (auto simp: behind_def)
  then show ?thesis using rest by simp
qed

locale keyset_listing =
  fixes ok :: "'s \<Rightarrow> bool"
    and rows :: "'s \<Rightarrow> 'r list"
    and key :: "'r \<Rightarrow> 'k::linorder"
    and view :: "'s \<Rightarrow> 'r \<Rightarrow> 'v"
    and token :: "'k \<Rightarrow> 't"
    and fetch :: "'t option \<Rightarrow> 's \<Rightarrow> err + 'v list \<times> 't option"
  assumes keys: "ok s \<Longrightarrow> distinct (map key (rows s))"
    and page: "ok s \<Longrightarrow> set_option c \<subseteq> key ` set (rows s) \<Longrightarrow> rs = filter (behind key c) (descending key (rows s)) \<Longrightarrow>
      \<exists>n>0. fetch (map_option token c) s = Inr (map (view s) (take n rs),
         if n < length rs then Some (token (key (rs ! (n - 1)))) else None)"
begin

text \<open>The client gets every row once, in descending order of the key, in at most one request more than there are rows.\<close>

lemma follow_from:
  assumes "ok s"
  shows "set_option c \<subseteq> key ` set (rows s) \<Longrightarrow> length (filter (behind key c) (descending key (rows s))) < m \<Longrightarrow>
    follow fetch m (map_option token c) s = Some (Inr (map (view s) (filter (behind key c) (descending key (rows s)))))"
proof (induction m arbitrary: c)
  case (Suc m)
  let ?rs = "filter (behind key c) (descending key (rows s))"
  obtain n where n: "0 < n" and f: "fetch (map_option token c) s = Inr (map (view s) (take n ?rs),
      if n < length ?rs then Some (token (key (?rs ! (n - 1)))) else None)"
    using page [OF assms Suc.prems(1) refl] by blast
  show ?case
  proof (cases "n < length ?rs")
    case False
    then show ?thesis using f by simp
  next
    case True
    let ?c = "Some (key (?rs ! (n - 1)))"
    have "?rs ! (n - 1) \<in> set ?rs" by (rule nth_mem) (use True n in simp)
    then have c: "set_option ?c \<subseteq> key ` set (rows s)" by auto
    have rest: "filter (behind key ?c) (descending key (rows s)) = drop n ?rs"
      using behind_next [OF keys [OF assms] refl n] True by simp
    have "follow fetch m (map_option token ?c) s = Some (Inr (map (view s) (filter (behind key ?c) (descending key (rows s)))))"
      by (rule Suc.IH [OF c]) (use rest n True Suc.prems in simp)
    then have "follow fetch m (Some (token (key (?rs ! (n - 1))))) s = Some (Inr (map (view s) (drop n ?rs)))"
      unfolding rest by simp
    then show ?thesis using f True by (simp flip: map_append)
  qed
qed simp

lemma follow_all:
  assumes "ok s" and "length (rows s) < m"
  shows "follow fetch m None s = Some (Inr (map (view s) (descending key (rows s))))"
proof -
  have "filter (behind key None) (descending key (rows s)) = descending key (rows s)"
    by (simp add: behind_def filter_True)
  then show ?thesis using follow_from [OF assms(1), of None m] assms(2) by simp
qed

end

text \<open>
  A page as the lists of shares cut it: one row more than asked for is read, to know whether there is
  another page.
\<close>

definition token_page :: "('r \<Rightarrow> 'k::linorder) \<Rightarrow> nat \<Rightarrow> 'k option \<Rightarrow> 'r list \<Rightarrow> 'r list \<times> 'k option" where
  "token_page key limit c rows =
     (let rs = take (limit + 1) (filter (behind key c) (descending key rows)) in
      if limit < length rs then (take limit rs, Some (key (last (take limit rs)))) else (rs, None))"

lemma token_page_cut:
  assumes "0 < n"
  shows "token_page key n c rows =
    (let rs = filter (behind key c) (descending key rows) in
     (take n rs, if n < length rs then Some (key (rs ! (n - 1))) else None))"
proof -
  let ?rs = "filter (behind key c) (descending key rows)"
  have "last (take n ?rs) = ?rs ! (n - 1)" if "n < length ?rs"
    using that assms by (subst last_conv_nth) (auto simp: min_absorb2)
  then show ?thesis by (auto simp: token_page_def Let_def take_all min_def)
qed

end
