(* ===== verification/Checkpoints.thy ===== *)
theory Checkpoints
  imports Events Keyset
begin

text \<open>
  Checkpoints of \<open>history.go\<close>: a snapshot of a session's timeline at one sequence number
  (\<open>checkpoint\<close>), and its items read page by page under a signed cursor (\<open>checkpointItems\<close>). A client that
  follows the cursors gets the snapshot.
\<close>

section \<open>Operations\<close>

definition session_items :: "db \<Rightarrow> string \<Rightarrow> timeline_row list" where
  "session_items d sid = filter (\<lambda>r. tl_session r = sid) (t_timeline d)"

definition total_size :: "env \<Rightarrow> timeline_row list \<Rightarrow> nat" where
  "total_size E rows = sum_list (map (\<lambda>r. item_column_size E (tl_body r)) rows)"

text \<open>\<open>row_number() OVER (ORDER BY first_sequence, turn_id, item_id)\<close>.\<close>

definition number_items :: "string \<Rightarrow> timeline_row list \<Rightarrow> checkpoint_item_row list" where
  "number_items cid rows =
     map (\<lambda>(n, r). \<lparr>ci_checkpoint = cid, ci_ordinal = n, ci_body = tl_body r\<rparr>)
       (zip [1..int (length rows)] (sort_key (\<lambda>r. (tl_first r, tl_turn r, tl_item r)) rows))"

definition insert_checkpoint :: "checkpoint_row \<Rightarrow> checkpoint_item_row list \<Rightarrow> unit dbact" where
  "insert_checkpoint c items =
     bindS (getS (\<lambda>d. has_row (\<lambda>x. cp_id x = cp_id c) (t_checkpoints d)
                \<or> has_row (\<lambda>x. ci_checkpoint x = cp_id c) (t_checkpoint_items d))) (\<lambda>taken.
     thenS (guardS (\<not> taken) DBError)
     (modS (\<lambda>d. d\<lparr>t_checkpoints := t_checkpoints d @ [c],
                 t_checkpoint_items := t_checkpoint_items d @ items\<rparr>)))"

definition ten_minutes :: int where
  "ten_minutes = 600 * 1000000000"

definition checkpoint :: "env \<Rightarrow> string \<Rightarrow> string \<Rightarrow> checkpoint_row dbact" where
  "checkpoint E uid sid =
     bindS (ownSession uid sid) (\<lambda>_.
     bindS (new_id E ''checkpoint'') (\<lambda>cid.
     thenS (transaction uid
       (bindS (oneS (\<lambda>d. find_session d sid)) (\<lambda>r.
        thenS (guardS (se_history r \<noteq> Purged) (apierr 410 HISTORY_PURGED))
        (bindS (getS (\<lambda>d. session_items d sid)) (\<lambda>rows.
         thenS (guardS (\<not> (length rows > 10000 \<or> total_size E rows > 33554432)) (apierr 413 PAYLOAD_TOO_LARGE))
         (insert_checkpoint
            \<lparr>cp_id = cid, cp_session = sid, cp_seq = se_last_seq r, cp_count = int (length rows),
             cp_created = dbnow E, cp_expires = now E + ten_minutes\<rparr>
            (number_items cid rows)))))))
     (oneS (\<lambda>d. find (\<lambda>c. cp_id c = cid) (t_checkpoints d)))))"

text \<open>The page stops before the item that would take it over a mebibyte, but has at least one.\<close>

fun take_budget :: "('r \<Rightarrow> nat) \<Rightarrow> nat \<Rightarrow> 'r list \<Rightarrow> nat \<Rightarrow> 'r list \<Rightarrow> 'r list" where
  "take_budget sz budget out used [] = out"
| "take_budget sz budget out used (m # rows) =
     (if out \<noteq> [] \<and> used + sz m > budget then out
      else take_budget sz budget (out @ [m]) (used + sz m) rows)"

definition select_items :: "env \<Rightarrow> db \<Rightarrow> string \<Rightarrow> int \<Rightarrow> nat \<Rightarrow> checkpoint_item_row list" where
  "select_items E d cid after limit =
     take_budget (\<lambda>r. item_size E (ci_body r)) 1048576 [] 0
       (take limit (sort_key ci_ordinal
          (filter (\<lambda>r. ci_checkpoint r = cid \<and> after < ci_ordinal r) (t_checkpoint_items d))))"

text \<open>The cursor of a checkpoint page binds user, checkpoint and position.\<close>

definition checkpoint_cursor :: "env \<Rightarrow> string \<Rightarrow> string \<Rightarrow> int \<Rightarrow> int \<Rightarrow> cursor" where
  "checkpoint_cursor E uid cid after expiry =
     \<lparr>cu_user = uid, cu_kind = ''checkpoint'', cu_filter = [], cu_sort = [], cu_id = cid,
      cu_after = after, cu_scope = [], cu_before = [], cu_item = [], cu_expires = unix E expiry\<rparr>"

definition checkpoint_after :: "env \<Rightarrow> string \<Rightarrow> string \<Rightarrow> string \<Rightarrow> err + int" where
  "checkpoint_after E uid cid token =
     (if token = [] then Inr 0
      else case decodeCursor (codec_of E) (unix E (now E)) token of
        Inl e \<Rightarrow> Inl e
      | Inr c \<Rightarrow> (if cu_user c \<noteq> uid \<or> cu_kind c \<noteq> ''checkpoint'' \<or> cu_id c \<noteq> cid then Inl invalid
                 else Inr (cu_after c)))"

record items_page =
  ip_checkpoint :: string
  ip_seq :: int
  ip_items :: "timeline_item list"
  ip_next :: "string option"

definition checkpointItems :: "env \<Rightarrow> string \<Rightarrow> string \<Rightarrow> string \<Rightarrow> string \<Rightarrow> items_page dbact" where
  "checkpointItems E uid cid limit_q token =
     bindS (oneS (\<lambda>d. find (\<lambda>c. cp_id c = cid) (t_checkpoints d))) (\<lambda>c.
     bindS (ownSession uid (cp_session c)) (\<lambda>_.
     thenS (guardS (cp_expires c > now E) (apierr 410 CURSOR_EXPIRED))
     (bindS (liftS (\<lambda>_. parseLimit limit_q 50 100)) (\<lambda>limit.
      bindS (liftS (\<lambda>_. checkpoint_after E uid cid token)) (\<lambda>after.
      bindS (getS (\<lambda>d. select_items E d cid after (nat limit))) (\<lambda>rows.
        let nxt = last_number ci_ordinal after rows in
        returnS \<lparr>ip_checkpoint = cid, ip_seq = cp_seq c, ip_items = map ci_body rows,
                 ip_next = (if nxt < cp_count c
                   then Some (sign_cursor (codec_of E) (checkpoint_cursor E uid cid nxt (cp_expires c)))
                   else None)\<rparr>))))))"

section \<open>A checkpoint is a log of its items\<close>

definition checkpoint_log :: "db \<Rightarrow> string \<Rightarrow> checkpoint_item_row list" where
  "checkpoint_log d cid = filter (\<lambda>r. ci_checkpoint r = cid) (t_checkpoint_items d)"

lemma take_budget_prefix:
  "\<exists>n. take_budget sz budget out used rows = out @ take n rows \<and> (out = [] \<and> rows \<noteq> [] \<longrightarrow> 0 < n)"
proof (induction rows arbitrary: out used)
  case Nil
  then show ?case by simp
next
  case (Cons m rows)
  show ?case
  proof (cases "out \<noteq> [] \<and> used + sz m > budget")
    case True
    then show ?thesis by (auto intro: exI [of _ 0])
  next
    case False
    obtain n where "take_budget sz budget (out @ [m]) (used + sz m) rows = (out @ [m]) @ take n rows"
      using Cons.IH by blast
    then show ?thesis using False by (intro exI [of _ "Suc n"]) simp
  qed
qed

lemma number_items_ordinals: "map ci_ordinal (number_items cid rows) = [1..int (length rows)]"
  by (simp add: number_items_def comp_def split_beta flip: map_map [of ci_ordinal])

lemma number_items_bodies:
  "map ci_body (number_items cid rows)
     = map tl_body (sort_key (\<lambda>r. (tl_first r, tl_turn r, tl_item r)) rows)"
proof -
  have "map (\<lambda>p. tl_body (snd p)) (zip [1..int (length rows)] ys) = map tl_body ys"
    if "length ys = length rows" for ys
  proof -
    have "map snd (zip [1..int (length rows)] ys) = ys"
      by (rule map_snd_zip) (simp add: that)
    then show ?thesis by (metis (no_types, lifting) comp_apply map_eq_conv map_map)
  qed
  from this [of "sort_key (\<lambda>r. (tl_first r, tl_turn r, tl_item r)) rows"]
  show ?thesis by (simp add: number_items_def comp_def split_beta)
qed

lemma select_items_take:
  assumes "map ci_ordinal (checkpoint_log d cid) = [1..n]" and "0 \<le> after" and "after < n" and "0 < limit"
  shows "\<exists>k>0. k \<le> limit \<and>
    select_items E d cid after limit = take k (span ci_ordinal (checkpoint_log d cid) after n)"
proof -
  let ?ys = "span ci_ordinal (checkpoint_log d cid) after n"
  have nums: "map ci_ordinal (filter (\<lambda>r. ci_checkpoint r = cid) (t_checkpoint_items d)) = [0 + 1..n]"
    using assms(1) by (simp add: checkpoint_log_def)
  have le: "ci_ordinal r \<le> n" if "r \<in> set (t_checkpoint_items d)" "ci_checkpoint r = cid" for r
  proof -
    have "ci_ordinal r \<in> set (map ci_ordinal (filter (\<lambda>r. ci_checkpoint r = cid) (t_checkpoint_items d)))"
      using that by simp
    then show ?thesis unfolding nums by simp
  qed
  have "filter (\<lambda>r. ci_checkpoint r = cid \<and> after < ci_ordinal r) (t_checkpoint_items d)
      = filter (\<lambda>r. ci_checkpoint r = cid \<and> after < ci_ordinal r \<and> ci_ordinal r \<le> n) (t_checkpoint_items d)"
    using le by (intro filter_cong) auto
  then have rows: "take limit (sort_key ci_ordinal
        (filter (\<lambda>r. ci_checkpoint r = cid \<and> after < ci_ordinal r) (t_checkpoint_items d)))
      = take limit ?ys"
    using select_span [OF nums assms(2) order_refl, of limit] by (simp add: checkpoint_log_def)
  have ys: "map ci_ordinal ?ys = [after + 1..n]"
    by (rule span_numbers [of _ _ 0 n]) (use assms in simp_all)
  have ne: "take limit ?ys \<noteq> []" by (rule take_nonempty [OF ys assms(3,4)])
  obtain k where "select_items E d cid after limit = take k (take limit ?ys)" and "0 < k"
    using take_budget_prefix [of "\<lambda>r. item_size E (ci_body r)" 1048576 "[]" 0 "take limit ?ys"] ne rows
    by (auto simp: select_items_def)
  then show ?thesis using assms(4) by (intro exI [of _ "min k limit"]) simp
qed

section \<open>A client that follows the tokens\<close>

text \<open>
  A page as the client reads it, with the number of items it asks for: the items and the next token. The pages
  are a listing in descending order of the negated ordinals.
\<close>

definition checkpoint_fetch :: "env \<Rightarrow> string \<Rightarrow> string \<Rightarrow> nat \<Rightarrow> string option \<Rightarrow> db
    \<Rightarrow> err + timeline_item list \<times> string option" where
  "checkpoint_fetch E uid cid n t d =
     (case fst (checkpointItems E uid cid (decimal n) (case t of None \<Rightarrow> [] | Some x \<Rightarrow> x) d) of
        Inl e \<Rightarrow> Inl e | Inr p \<Rightarrow> Inr (ip_items p, ip_next p))"

text \<open>The checkpoint can be read: it has not expired, its session is the user's, and tokens are read back.\<close>

definition readable :: "env \<Rightarrow> string \<Rightarrow> checkpoint_row \<Rightarrow> nat \<Rightarrow> db \<Rightarrow> bool" where
  "readable E uid c n d \<longleftrightarrow>
     1 \<le> n \<and> n \<le> 100 \<and> (\<forall>x. unmarshal (codec_of E) (marshal (codec_of E) x) = Some x)
     \<and> now E < cp_expires c \<and> unix E (now E) \<le> unix E (cp_expires c) \<and> own_session_row d uid (cp_session c) \<noteq> None
     \<and> find (\<lambda>x. cp_id x = cp_id c) (t_checkpoints d) = Some c
     \<and> map ci_ordinal (checkpoint_log d (cp_id c)) = [1..cp_count c]"

definition position_of :: "int option \<Rightarrow> int" where
  "position_of k = (case k of None \<Rightarrow> 0 | Some x \<Rightarrow> - x)"

definition position_token :: "env \<Rightarrow> string \<Rightarrow> checkpoint_row \<Rightarrow> int \<Rightarrow> string" where
  "position_token E uid c k = sign_cursor (codec_of E) (checkpoint_cursor E uid (cp_id c) (- k) (cp_expires c))"

lemma checkpoint_after_token:
  assumes "readable E uid c n d"
  shows "checkpoint_after E uid (cp_id c) (case map_option (position_token E uid c) k of None \<Rightarrow> [] | Some x \<Rightarrow> x)
    = Inr (position_of k)"
  using assms
  by (cases k) (auto simp: checkpoint_after_def position_token_def position_of_def sign_cursor_nonempty
      decode_sign_cursor checkpoint_cursor_def readable_def)

lemma log_ordinal:
  assumes "map ci_ordinal (checkpoint_log d cid) = [1..n]" and "r \<in> set (checkpoint_log d cid)"
  shows "0 < ci_ordinal r \<and> ci_ordinal r \<le> n"
proof -
  have "ci_ordinal r \<in> set (map ci_ordinal (checkpoint_log d cid))" using assms(2) by simp
  then show ?thesis unfolding assms(1) by simp
qed

lemma checkpoint_rows:
  assumes "map ci_ordinal (checkpoint_log d cid) = [1..n]" and "set_option k \<subseteq> (\<lambda>r. - ci_ordinal r) ` set (checkpoint_log d cid)"
  shows "filter (behind (\<lambda>r. - ci_ordinal r) k) (descending (\<lambda>r. - ci_ordinal r) (checkpoint_log d cid))
      = span ci_ordinal (checkpoint_log d cid) (position_of k) n"
    and "0 \<le> position_of k" and "position_of k \<le> n \<or> k = None"
proof -
  note nums = log_ordinal [OF assms(1)]
  have "sorted_wrt (<) (map ci_ordinal (checkpoint_log d cid))" unfolding assms(1) by (rule sorted_wrt_upto)
  then have "sorted_wrt (\<lambda>a b. - ci_ordinal b < - ci_ordinal a) (checkpoint_log d cid)" by (simp add: sorted_wrt_map)
  then have "descending (\<lambda>r. - ci_ordinal r) (checkpoint_log d cid) = checkpoint_log d cid" by (rule descending_id)
  then show "filter (behind (\<lambda>r. - ci_ordinal r) k) (descending (\<lambda>r. - ci_ordinal r) (checkpoint_log d cid))
      = span ci_ordinal (checkpoint_log d cid) (position_of k) n"
    using nums by (auto simp: span_def behind_def position_of_def intro!: filter_cong split: option.split)
  show "0 \<le> position_of k" "position_of k \<le> n \<or> k = None"
    using assms(2) nums by (auto simp: position_of_def less_imp_le split: option.split)
qed

lemma checkpoint_all:
  assumes "map ci_ordinal (checkpoint_log d cid) = [1..n]"
  shows "span ci_ordinal (checkpoint_log d cid) 0 n = checkpoint_log d cid"
  using log_ordinal [OF assms] by (simp add: span_def filter_True)

lemma checkpoint_page:
  assumes "readable E uid c n d" and "set_option k \<subseteq> (\<lambda>r. - ci_ordinal r) ` set (checkpoint_log d (cp_id c))"
    and "rs = filter (behind (\<lambda>r. - ci_ordinal r) k) (descending (\<lambda>r. - ci_ordinal r) (checkpoint_log d (cp_id c)))"
  shows "\<exists>m>0. checkpoint_fetch E uid (cp_id c) n (map_option (position_token E uid c) k) d
    = Inr (map ci_body (take m rs), if m < length rs then Some (position_token E uid c (- ci_ordinal (rs ! (m - 1)))) else None)"
proof -
  let ?a = "position_of k" and ?log = "checkpoint_log d (cp_id c)"
  have nums: "map ci_ordinal ?log = [1..cp_count c]" and n: "1 \<le> n" "n \<le> 100"
    and c: "find (\<lambda>x. cp_id x = cp_id c) (t_checkpoints d) = Some c" "own_session_row d uid (cp_session c) \<noteq> None"
      "now E < cp_expires c"
    using assms(1) by (simp_all add: readable_def)
  note rs = checkpoint_rows [OF nums assms(2), folded assms(3)]
  have ords: "map ci_ordinal rs = [?a + 1..cp_count c]"
    unfolding rs(1) by (rule span_numbers [of _ _ 0 "cp_count c"]) (use nums rs(2) in simp_all)
  then have "length (map ci_ordinal rs) = nat (cp_count c - ?a)" by simp
  then have len: "length rs = nat (cp_count c - ?a)" by simp
  let ?sel = "select_items E d (cp_id c) ?a n"
  have fetch: "checkpoint_fetch E uid (cp_id c) n (map_option (position_token E uid c) k) d
    = Inr (map ci_body ?sel, if last_number ci_ordinal ?a ?sel < cp_count c
        then Some (position_token E uid c (- last_number ci_ordinal ?a ?sel)) else None)"
    using c n checkpoint_after_token [OF assms(1), of k]
    by (auto simp: checkpoint_fetch_def checkpointItems_def ownSession_def run_simps parseLimit_decimal max_int64_def
        Let_def position_token_def)
  show ?thesis
  proof (cases "?a < cp_count c")
    case True
    obtain m where m: "0 < m" "?sel = take m rs"
      using select_items_take [OF nums rs(2) True, of n E] n rs(1) by auto
    have last: "last_number ci_ordinal ?a (take m rs) = min (cp_count c) (?a + int m)"
      by (rule last_take_span [OF ords m(1) True])
    have "ci_ordinal (rs ! (m - 1)) = ?a + int m" if "m < length rs"
    proof -
      have "ci_ordinal (rs ! (m - 1)) = map ci_ordinal rs ! (m - 1)" using that by simp
      also have "\<dots> = ?a + int m" unfolding ords using that m(1) by (simp add: len nth_upto)
      finally show ?thesis .
    qed
    then show ?thesis using fetch last m True by (intro exI [of _ m]) (auto simp: len min_def)
  next
    case False
    then have e: "rs = []" using len by simp
    have "r \<notin> set ?log" if "?a < ci_ordinal r" for r
      using log_ordinal [OF nums, of r] that False by auto
    then have "filter (\<lambda>r. ci_checkpoint r = cp_id c \<and> ?a < ci_ordinal r) (t_checkpoint_items d) = []"
      by (auto simp: filter_empty_conv checkpoint_log_def)
    then have "?sel = []" by (simp add: select_items_def)
    then show ?thesis using fetch e False by (intro exI [of _ 1]) (simp add: last_number_def)
  qed
qed

interpretation checkpoint_pages: keyset_listing "readable E uid c n" "\<lambda>d. checkpoint_log d (cp_id c)" "\<lambda>r. - ci_ordinal r"
    "\<lambda>d. ci_body" "position_token E uid c" "checkpoint_fetch E uid (cp_id c) n"
  for E uid c n
proof unfold_locales
  show "distinct (map (\<lambda>r. - ci_ordinal r) (checkpoint_log d (cp_id c)))" if "readable E uid c n d" for d
  proof -
    have "distinct (map ci_ordinal (checkpoint_log d (cp_id c)))" using that by (simp add: readable_def)
    then show ?thesis by (simp add: distinct_map inj_on_def)
  qed
qed (rule checkpoint_page)

section \<open>Properties\<close>

lemma checkpoint_Inr:
  assumes "checkpoint E uid sid d = (Inr c, t)"
  obtains r where "own_session_row d uid sid \<noteq> None" and "find_session d sid = Some r"
    and "se_history r \<noteq> Purged" and "length (session_items d sid) \<le> 10000"
    and "cp_seq c = se_last_seq r" and "cp_count c = int (length (session_items d sid))"
    and "cp_session c = sid" and "cp_expires c = now E + ten_minutes"
    and "find (\<lambda>x. cp_id x = cp_id c) (t_checkpoints t) = Some c"
    and "checkpoint_log t (cp_id c) = number_items (cp_id c) (session_items d sid)"
proof -
  let ?cid = "''checkpoint_'' @ rnd E (entropy d)"
  obtain r where own: "own_session_row d uid sid \<noteq> None" and r: "find_session d sid = Some r"
    and hist: "se_history r \<noteq> Purged" and len: "length (session_items d sid) \<le> 10000"
    and fresh: "\<not> has_row (\<lambda>x. cp_id x = ?cid) (t_checkpoints d)"
      "\<not> has_row (\<lambda>x. ci_checkpoint x = ?cid) (t_checkpoint_items d)"
    and t: "t = d\<lparr>entropy := entropy d + 1,
        t_checkpoints := t_checkpoints d @ [\<lparr>cp_id = ?cid, cp_session = sid,
          cp_seq = se_last_seq r, cp_count = int (length (session_items d sid)),
          cp_created = dbnow E, cp_expires = now E + ten_minutes\<rparr>],
        t_checkpoint_items := t_checkpoint_items d @ number_items ?cid (session_items d sid)\<rparr>"
    and c: "find (\<lambda>x. cp_id x = ?cid) (t_checkpoints t) = Some c"
    using assms by (auto simp: checkpoint_def ownSession_def run_iff insert_checkpoint_def
        find_session_def session_items_def)
  have "find (\<lambda>x. cp_id x = ?cid) (t_checkpoints d) = None"
    using fresh(1) by (simp add: find_None_iff_has)
  then have c': "c = \<lparr>cp_id = ?cid, cp_session = sid, cp_seq = se_last_seq r,
      cp_count = int (length (session_items d sid)), cp_created = dbnow E,
      cp_expires = now E + ten_minutes\<rparr>"
    using c by (simp add: t find_append)
  have "filter (\<lambda>x. ci_checkpoint x = ?cid) (t_checkpoint_items d) = []"
    using fresh(2) by (auto simp: has_row_iff filter_empty_conv)
  moreover have "\<forall>x\<in>set (number_items ?cid rows). ci_checkpoint x = ?cid" for rows
    by (auto simp: number_items_def)
  ultimately have "checkpoint_log t ?cid = number_items ?cid (session_items d sid)"
    by (simp add: checkpoint_log_def t)
  then show ?thesis using that own r hist len c c' by simp
qed


text \<open>A session with two messages, and its snapshot read in pages of one item each.\<close>

definition two_messages :: db where
  "two_messages = snd (appendEvent env0 ''u'' ''n'' ''s'' ''t'' (Message_completed ''k'' ''agent'' ''ho'' False) (snd sample_append))"

text \<open>The snapshot, read by a client that asks for one item at a time.\<close>

definition sample_checkpoint :: "(err + checkpoint_row) \<times> db" where
  "sample_checkpoint = checkpoint env1 ''u'' ''s'' two_messages"

lemma two_items:
  "map (\<lambda>r. (tl_first r, tl_turn r, tl_item r)) (session_items two_messages ''s'') = [(1, ''t'', ''m''), (2, ''t'', ''k'')]"
  "find_session two_messages ''s'' = Some (session0\<lparr>se_last_seq := 2, se_revision := 3, se_updated := 100\<rparr>)"
  by (simp_all add: two_messages_def session_items_def sample_append_def append_eval run_simps sample_defs)

lemma sample_checkpoint_eq:
  "\<exists>c t. sample_checkpoint = (Inr c, t) \<and> cp_expires c = 100 + ten_minutes \<and> own_session_row t ''u'' ''s'' \<noteq> None"
  by (simp add: sample_checkpoint_def checkpoint_def ownSession_def own_session_row_def accessible_def
      transaction_def session_items_def total_size_def insert_checkpoint_def number_items_def two_messages_def env1_def
      ten_minutes_def run_simps sample_append_def append_eval sample_defs)


end
