(* ===== verification/Shares.thy ===== *)
theory Shares
  imports Lifecycle Checkpoints Keyset
begin

text \<open>
  \<open>internal/gateway/shares.go\<close>: a session's owner invites another user by a secret link; the recipient
  reads the session through the grant and, where it gives control, sends commands that run as
  operations of the owner. Postgres orders identifiers of one prefix as their bytes are ordered.
\<close>

section \<open>Rows as the API shows them\<close>

definition unavailableShare :: err where
  "unavailableShare = apierr 404 SHARE_UNAVAILABLE"

record share_view =
  sv_id :: string
  sv_session :: string
  sv_title :: string
  sv_control :: bool
  sv_created :: string
  sv_expires :: string
  sv_revoked :: "string option"
  sv_accepted :: "string option"
  sv_recipient :: "string option"

definition user_name :: "db \<Rightarrow> string \<Rightarrow> string option" where
  "user_name d uid = map_option us_name (find (\<lambda>u. us_id u = uid) (t_users d))"

text \<open>\<open>shareExpr\<close> on a share and its session.\<close>

definition share_view_of :: "env \<Rightarrow> db \<Rightarrow> share_row \<Rightarrow> session_row \<Rightarrow> share_view" where
  "share_view_of E d g s =
     \<lparr>sv_id = sh_id g, sv_session = sh_session g, sv_title = se_title s, sv_control = sh_control g,
      sv_created = pg_time E (sh_created g), sv_expires = pg_time E (sh_expires g),
      sv_revoked = map_option (pg_time E) (sh_revoked g), sv_accepted = map_option (pg_time E) (sh_accepted g),
      sv_recipient = (case sh_recipient g of None \<Rightarrow> None | Some u \<Rightarrow> user_name d u)\<rparr>"

definition find_share :: "db \<Rightarrow> string \<Rightarrow> share_row option" where
  "find_share d gid = find (\<lambda>g. sh_id g = gid) (t_shares d)"

definition shareRow :: "env \<Rightarrow> string \<Rightarrow> share_view dbact" where
  "shareRow E gid =
     oneS (\<lambda>d. case find_share d gid of
                 None \<Rightarrow> None
               | Some g \<Rightarrow> map_option (share_view_of E d g) (find_session d (sh_session g)))"

section \<open>Invitations\<close>

text \<open>The next random value; AES-GCM has nonces of 12 bytes and tags of 16.\<close>

definition drawS :: "(nat \<Rightarrow> 'a) \<Rightarrow> 'a dbact" where
  "drawS f = (\<lambda>d. (Inr (f (entropy d)), d\<lparr>entropy := entropy d + 1\<rparr>))"

definition share_data :: "string \<Rightarrow> string \<Rightarrow> string" where
  "share_data owner gid = ''weagent-share:'' @ owner @ '':'' @ gid"

definition sealShareSecret :: "env \<Rightarrow> string \<Rightarrow> string \<Rightarrow> string \<Rightarrow> string dbact" where
  "sealShareSecret E owner gid plain =
     bindS (drawS (vt_nonce (vault_of E))) (\<lambda>nonce.
     returnS (nonce @ vt_seal (vault_of E) [] nonce plain (share_data owner gid)))"

definition openShareSecret :: "env \<Rightarrow> string \<Rightarrow> string \<Rightarrow> string \<Rightarrow> err + string" where
  "openShareSecret E owner gid sealed =
     (if length sealed < 12 + 16 then Inl DBError
      else case vt_open (vault_of E) [] (take 12 sealed) (drop 12 sealed) (share_data owner gid) of
        None \<Rightarrow> Inl DBError
      | Some plain \<Rightarrow> Inr plain)"

record invitation =
  iv_share :: share_view
  iv_token :: "string option"
  iv_time :: string

definition shareInvitation :: "env \<Rightarrow> string \<Rightarrow> string \<Rightarrow> invitation dbact" where
  "shareInvitation E uid gid =
     bindS (shareRow E gid) (\<lambda>v.
     bindS (if sv_accepted v = None \<and> sv_revoked v = None \<and> parse_time E (sv_expires v) > now E
            then bindS (oneS (\<lambda>d. map_option sh_invite
                   (find (\<lambda>g. sh_id g = gid \<and> sh_owner g = uid) (t_shares d)))) (\<lambda>sealed.
                 if str sealed \<noteq> []
                 then (case openShareSecret E uid gid (str sealed) of
                         Inl e \<Rightarrow> failS (apierr 503 SERVICE_UNAVAILABLE)
                       | Inr plain \<Rightarrow> returnS (Some plain))
                 else returnS None)
            else returnS None) (\<lambda>token.
     returnS \<lparr>iv_share = v, iv_token = token, iv_time = timestamp E (now E)\<rparr>))"

section \<open>Creating, redeeming and revoking\<close>

definition second :: int where
  "second = 1000000000"

definition insert_share :: "share_row \<Rightarrow> unit dbact" where
  "insert_share r =
     bindS (getS (\<lambda>d. has_row (\<lambda>g. sh_id g = sh_id r \<or> sh_token_hash g = sh_token_hash r
                 \<or> sh_owner g = sh_owner r \<and> sh_create_op g = sh_create_op r) (t_shares d))) (\<lambda>taken.
     thenS (guardS (\<not> taken) DBError)
     (thenS (guardS (sh_created r + 15 * minute \<le> sh_expires r \<and> sh_expires r \<le> sh_created r + 7 * day) DBError)
     (modS (\<lambda>d. d\<lparr>t_shares := t_shares d @ [r]\<rparr>))))"

definition live_shares :: "env \<Rightarrow> db \<Rightarrow> string \<Rightarrow> nat" where
  "live_shares E d sid =
     length (filter (\<lambda>g. sh_session g = sid \<and> sh_revoked g = None \<and> sh_expires g > now E) (t_shares d))"

definition createShare :: "env \<Rightarrow> string \<Rightarrow> string \<Rightarrow> fingerprint \<Rightarrow> string \<Rightarrow> create_share \<Rightarrow> invitation dbact" where
  "createShare E uid op fp sid b =
     bindS (getSession E uid sid) (\<lambda>(s, q).
     thenS (guardS (se_history s \<noteq> Purged) unavailableShare)
     (bindS (getS (\<lambda>d. find (\<lambda>g. sh_owner g = uid \<and> sh_create_op g = op) (t_shares d))) (\<lambda>previous.
      case previous of
        Some g \<Rightarrow>
          thenS (guardS (sh_request_hash g = fp_hash E fp) (apierr 409 IDEMPOTENCY_CONFLICT))
            (shareInvitation E uid (sh_id g))
      | None \<Rightarrow>
          thenS (guardS (\<not> (csr_control b \<and> (se_mode s \<noteq> Managed \<or> se_state s = S_closed))) (apierr 409 READ_ONLY))
          (bindS (getS (\<lambda>d. live_shares E d sid)) (\<lambda>count.
           thenS (guardS (count < 20) (apierr 409 CAPABILITY_UNSUPPORTED))
           (bindS (new_id E ''share'') (\<lambda>gid.
            bindS (drawS (vt_secret (vault_of E))) (\<lambda>token.
            bindS (sealShareSecret E uid gid token) (\<lambda>sealed.
            thenS (insert_share
              \<lparr>sh_id = gid, sh_session = sid, sh_owner = uid, sh_recipient = None, sh_control = csr_control b,
               sh_token_hash = token_hash E token, sh_invite = Some sealed, sh_create_op = op,
               sh_request_hash = fp_hash E fp, sh_created = now E, sh_expires = now E + csr_ttl b * second,
               sh_accepted = None, sh_revoked = None\<rparr>)
              (shareInvitation E uid gid))))))))))"

text \<open>The share that a token opens to a user, and the conditional update that accepts it.\<close>

definition redeemable :: "env \<Rightarrow> db \<Rightarrow> string \<Rightarrow> string \<Rightarrow> share_row \<Rightarrow> bool" where
  "redeemable E d uid token g \<longleftrightarrow>
     sh_token_hash g = token_hash E token \<and> sh_owner g \<noteq> uid \<and> sh_recipient g \<in> {None, Some uid}
     \<and> live_share E d (sh_owner g) g"

definition acceptable :: "env \<Rightarrow> string \<Rightarrow> string \<Rightarrow> share_row \<Rightarrow> bool" where
  "acceptable E uid gid g \<longleftrightarrow>
     sh_id g = gid \<and> sh_revoked g = None \<and> sh_expires g > now E \<and> sh_recipient g \<in> {None, Some uid}"

definition accept_share :: "env \<Rightarrow> string \<Rightarrow> share_row \<Rightarrow> share_row" where
  "accept_share E uid g = g\<lparr>sh_recipient := Some uid,
     sh_accepted := (case sh_accepted g of None \<Rightarrow> Some (now E) | Some t \<Rightarrow> Some t), sh_invite := None\<rparr>"

definition redeem :: "env \<Rightarrow> string \<Rightarrow> string \<Rightarrow> share_view dbact" where
  "redeem E uid token =
     bindS (getS (\<lambda>d. find (redeemable E d uid token) (t_shares d))) (\<lambda>g.
     case g of
       None \<Rightarrow> failS unavailableShare
     | Some g \<Rightarrow>
         bindS (getS (\<lambda>d. length (filter (acceptable E uid (sh_id g)) (t_shares d)))) (\<lambda>affected.
         thenS (modS (\<lambda>d. d\<lparr>t_shares := upd_rows (acceptable E uid (sh_id g)) (accept_share E uid) (t_shares d)\<rparr>))
         (thenS (guardS (affected = 1) unavailableShare)
         (shareRow E (sh_id g)))))"

definition redeemShare :: "env \<Rightarrow> string \<Rightarrow> string \<Rightarrow> share_view gwact" where
  "redeemShare E uid token =
     bindS (rateS E (''share-redeem:'' @ uid) 10) (\<lambda>allowed.
     thenS (guardS allowed (apierr 429 RATE_LIMITED)) (dbS (redeem E uid token)))"

definition revokeShare :: "env \<Rightarrow> string \<Rightarrow> string \<Rightarrow> share_view dbact" where
  "revokeShare E uid gid =
     bindS (getS (\<lambda>d. has_row (\<lambda>g. sh_id g = gid \<and> sh_owner g = uid) (t_shares d))) (\<lambda>found.
     thenS (guardS found unavailableShare)
     (thenS (modS (\<lambda>d. d\<lparr>t_shares := upd_rows (\<lambda>g. sh_id g = gid)
        (\<lambda>g. g\<lparr>sh_revoked := (case sh_revoked g of None \<Rightarrow> Some (now E) | Some t \<Rightarrow> Some t), sh_invite := None\<rparr>)
        (t_shares d)\<rparr>))
     (shareRow E gid)))"

section \<open>What a grant allows\<close>

record share_grant =
  gr_id :: string
  gr_owner :: string
  gr_session :: string
  gr_control :: bool
  gr_expires :: int

definition granted_to :: "env \<Rightarrow> db \<Rightarrow> string \<Rightarrow> string \<Rightarrow> share_row \<Rightarrow> bool" where
  "granted_to E d uid gid g \<longleftrightarrow>
     sh_id g = gid \<and> sh_recipient g = Some uid \<and> live_share E d (sh_owner g) g"

definition authorizeShare :: "env \<Rightarrow> string \<Rightarrow> string \<Rightarrow> bool \<Rightarrow> share_grant dbact" where
  "authorizeShare E uid gid write =
     bindS (getS (\<lambda>d. find (granted_to E d uid gid) (t_shares d))) (\<lambda>g.
     case g of
       None \<Rightarrow> failS unavailableShare
     | Some g \<Rightarrow>
         thenS (guardS (\<not> (write \<and> \<not> sh_control g)) (apierr 403 READ_ONLY))
         (returnS \<lparr>gr_id = gid, gr_owner = sh_owner g, gr_session = sh_session g, gr_control = sh_control g,
                   gr_expires = sh_expires g\<rparr>))"

record shared_session =
  ss_share :: share_view
  ss_session :: "session_row \<times> queue_item list"
  ss_owner :: string
  ss_agent :: string
  ss_project :: string
  ss_node :: string
  ss_online :: bool
  ss_requests :: "request_view list"
  ss_time :: string

text \<open>The session without the properties that refer to other sessions or to the owner's labels.\<close>

definition without_origin :: "session_row \<Rightarrow> session_row" where
  "without_origin s = s\<lparr>se_parent := None, se_origin_point := None, se_tags := []\<rparr>"

definition session_names :: "db \<Rightarrow> string \<Rightarrow> (string \<times> string \<times> string \<times> string) option" where
  "session_names d sid =
     (case find_session d sid of
        None \<Rightarrow> None
      | Some s \<Rightarrow>
          (case (user_name d (se_user s), find (\<lambda>a. ag_id (ar_body a) = se_agent s) (t_agents d),
                 find (\<lambda>p. np_id (pj_body p) = se_project s) (t_projects d),
                 find (\<lambda>n. nd_id n = se_node s) (t_nodes d)) of
             (Some u, Some a, Some p, Some n) \<Rightarrow> Some (u, ag_name (ar_body a), np_name (pj_body p), nd_name n)
           | _ \<Rightarrow> None))"

definition shown_requests :: "env \<Rightarrow> db \<Rightarrow> session_row \<Rightarrow> request_view list" where
  "shown_requests E d s =
     map (request_view_of E) (take 20 (rev (sort_key rq_created
       (filter (\<lambda>r. rq_session r = se_id s \<and> se_turn s = Some (rq_turn r) \<and> rq_state r \<in> {R_pending, R_deciding})
         (t_requests d)))))"

definition sharedSession :: "env \<Rightarrow> string \<Rightarrow> string \<Rightarrow> shared_session gwact" where
  "sharedSession E uid gid =
     bindS (dbS (authorizeShare E uid gid False)) (\<lambda>g.
     bindS (dbS (getSession E (gr_owner g) (gr_session g))) (\<lambda>(s, q).
     bindS (dbS (oneS (\<lambda>d. session_names d (gr_session g)))) (\<lambda>(u, a, p, n).
     bindS (dbS (getS (\<lambda>d. shown_requests E d s))) (\<lambda>requests.
     bindS (dbS (shareRow E gid)) (\<lambda>share.
     bindS (getS (\<lambda>h. online E h (se_node s))) (\<lambda>on.
     returnS \<lparr>ss_share = share, ss_session = (without_origin s, q), ss_owner = u, ss_agent = a, ss_project = p,
              ss_node = n, ss_online = on, ss_requests = requests, ss_time = timestamp E (now E)\<rparr>))))))"

section \<open>Reads through a grant\<close>

definition diffFile :: "env \<Rightarrow> string \<Rightarrow> string \<Rightarrow> diff_row dbact" where
  "diffFile E uid fid =
     oneS (\<lambda>d. case find (\<lambda>f. df_id (dr_file f) = fid) (t_diffs d) of
        None \<Rightarrow> None
      | Some f \<Rightarrow> (case find_session d (dr_session f) of
                     None \<Rightarrow> None
                   | Some s \<Rightarrow> if se_user s = uid \<and> accessible d uid (se_node s) then Some f else None))"

datatype shared_read =
    Sr_events string string string
  | Sr_checkpoint
  | Sr_items string string string
  | Sr_diff string
  | Sr_request string
  | Sr_other

datatype shared_answer =
    Sa_events int "event_row page"
  | Sa_checkpoint checkpoint_row
  | Sa_items items_page
  | Sa_diff diff_row
  | Sa_request request_view

fun read_granted :: "env \<Rightarrow> share_grant \<Rightarrow> shared_read \<Rightarrow> shared_answer dbact" where
  "read_granted E g (Sr_events after limit until) =
     bindS (eventsPage E (gr_owner g) (gr_session g) after limit until) (\<lambda>(n, p). returnS (Sa_events n p))"
| "read_granted E g Sr_checkpoint =
     bindS (checkpoint E (gr_owner g) (gr_session g)) (\<lambda>c. returnS (Sa_checkpoint c))"
| "read_granted E g (Sr_items cid limit token) =
     bindS (oneS (\<lambda>d. find (\<lambda>c. cp_id c = cid) (t_checkpoints d))) (\<lambda>c.
     thenS (guardS (cp_session c = gr_session g) unavailableShare)
     (bindS (checkpointItems E (gr_owner g) cid limit token) (\<lambda>p. returnS (Sa_items p))))"
| "read_granted E g (Sr_diff fid) =
     bindS (oneS (\<lambda>d. find (\<lambda>f. df_id (dr_file f) = fid) (t_diffs d))) (\<lambda>f.
     thenS (guardS (dr_session f = gr_session g) unavailableShare)
     (bindS (diffFile E (gr_owner g) fid) (\<lambda>f. returnS (Sa_diff f))))"
| "read_granted E g (Sr_request rid) =
     bindS (getRequest E (gr_owner g) rid) (\<lambda>r.
     thenS (guardS (rv_session r = gr_session g) unavailableShare) (returnS (Sa_request r)))"
| "read_granted E g Sr_other = failS notFound"

definition sharedRead :: "env \<Rightarrow> string \<Rightarrow> string \<Rightarrow> shared_read \<Rightarrow> shared_answer dbact" where
  "sharedRead E uid gid rd = bindS (authorizeShare E uid gid False) (\<lambda>g. read_granted E g rd)"

section \<open>Commands through a grant\<close>

definition hex_digit :: "nat \<Rightarrow> char" where
  "hex_digit n = (if n < 10 then char_of (48 + n) else char_of (87 + n))"

definition hex :: "string \<Rightarrow> string" where
  "hex s = concat (map (\<lambda>c. [hex_digit (byte c div 16), hex_digit (byte c mod 16)]) s)"

definition delegated_op :: "env \<Rightarrow> string \<Rightarrow> string \<Rightarrow> string \<Rightarrow> string" where
  "delegated_op E uid gid clientOp =
     ''delegated_'' @ hex (vt_digest (vault_of E) ''session-share-command'' (uid @ '':'' @ gid @ '':'' @ clientOp))"

definition sharedOperation :: "env \<Rightarrow> string \<Rightarrow> string \<Rightarrow> string \<Rightarrow> op_row dbact" where
  "sharedOperation E uid gid clientOp =
     bindS (authorizeShare E uid gid False) (\<lambda>g.
     bindS (oneS (\<lambda>d. map_option sc_owner_op (find (\<lambda>c. sc_share c = gid \<and> sc_actor c = uid
        \<and> sc_client_op c = clientOp \<and> sc_owner c = gr_owner g) (t_share_commands d)))) (\<lambda>ownerOp.
     bindS (operation (gr_owner g) ownerOp) (\<lambda>r. returnS (r\<lparr>op_id := clientOp\<rparr>))))"

text \<open>The owner's command that the recipient's stands for: its kind, target and payload.\<close>

fun delegate :: "env \<Rightarrow> share_grant \<Rightarrow> shared_command \<Rightarrow> (op_kind \<times> string \<times> payload) dbact" where
  "delegate E g (Sc_send b) = returnS (K_send, gr_session g, P_send b)"
| "delegate E g (Sc_cancel b) = returnS (K_cancel, gr_session g, P_cancel b)"
| "delegate E g (Sc_respond rid b) =
     bindS (getRequest E (gr_owner g) rid) (\<lambda>r.
     thenS (guardS (rv_session r = gr_session g) unavailableShare)
     (thenS (guardS (rv_decision r = None) (apierr 409 REQUEST_ALREADY_DECIDED))
     (returnS (K_respond, rid, P_respond b))))"
| "delegate E g (Sc_other action) = failS (apierr 403 FORBIDDEN)"

definition sharedCommand :: "env \<Rightarrow> string \<Rightarrow> string \<Rightarrow> string \<Rightarrow> string \<Rightarrow> shared_command \<Rightarrow> op_row gwact" where
  "sharedCommand E uid gid clientOp url b =
     bindS (dbS (authorizeShare E uid gid True)) (\<lambda>g.
     let fp = fp_hash E \<lparr>fp_method = ''POST'', fp_path = url, fp_body = Body_shared b\<rparr> in
     bindS (dbS (getS (\<lambda>d. find (\<lambda>c. sc_actor c = uid \<and> sc_client_op c = clientOp) (t_share_commands d)))) (\<lambda>old.
     case old of
       Some c \<Rightarrow>
         thenS (guardS (sc_share c = gid \<and> sc_hash c = fp) (apierr 409 IDEMPOTENCY_CONFLICT))
           (dbS (sharedOperation E uid gid clientOp))
     | None \<Rightarrow>
         bindS (dbS (delegate E g b)) (\<lambda>(kind, target, payload).
         bindS (command E
             (Some \<lparr>sa_share = gid, sa_actor = uid, sa_client_op = clientOp, sa_fingerprint = fp, sa_action = kind\<rparr>)
             (gr_owner g) (delegated_op E uid gid clientOp)
             \<lparr>fp_method = ''POST'', fp_path = url, fp_body = Body_command payload\<rparr> target payload) (\<lambda>r.
         returnS (r\<lparr>op_id := clientOp\<rparr>)))))"

section \<open>The invariant of the database\<close>

text \<open>A write to the other tables keeps it, inside a transaction or not.\<close>

lemma logs_write:
  assumes "\<And>d. (t_users (f d), t_changes (f d), t_sessions (f d), t_events (f d), t_requests (f d), t_ops (f d))
      = (t_users d, t_changes d, t_sessions d, t_events d, t_requests d, t_ops d)"
  shows "keeps (store_ok T) (modS f)"
  using assms by (intro keeps_mod) (simp add: store_ok_def logs_ok_def)

lemmas logs_write_pre = logs_write [THEN keeps_preserves]

lemma logs_draw [logs_rules]: "keeps (store_ok T) (drawS f)" "preserves (store_ok T) (drawS f)"
  by (simp_all add: keeps_def preserves_def drawS_def)

lemma logs_entropy_id [logs_rules]: "keeps (store_ok T) (new_id E p)"
  by (simp add: keeps_def new_id_def)

lemma logs_createShare [logs_rules]: "keeps (store_ok T) (createShare E uid op fp sid b)"
  unfolding createShare_def insert_share_def sealShareSecret_def shareInvitation_def shareRow_def getSession_def
  by (intro logs_rules keeps_rules logs_write) (auto intro!: logs_rules keeps_rules split: sum.split)

lemma logs_redeem [logs_rules]: "keeps (store_ok T) (redeem E uid token)"
  unfolding redeem_def shareRow_def by (intro logs_rules keeps_rules logs_write) simp_all

lemma logs_revokeShare [logs_rules]: "keeps (store_ok T) (revokeShare E uid gid)"
  unfolding revokeShare_def shareRow_def by (intro logs_rules keeps_rules logs_write) simp_all

lemma logs_authorize [logs_rules]: "keeps (store_ok T) (authorizeShare E uid gid wr)"
  unfolding authorizeShare_def by (intro logs_rules keeps_rules)


lemma logs_read_granted [logs_rules]: "keeps (store_ok (dbnow E)) (read_granted E g rd)"
  by (cases rd)
    (auto simp: eventsPage_def checkpointItems_def checkpoint_def insert_checkpoint_def diffFile_def getRequest_def
      intro!: logs_rules keeps_rules logs_write logs_write_pre)

lemma logs_sharedRead [logs_rules]: "keeps (store_ok (dbnow E)) (sharedRead E uid gid rd)"
  unfolding sharedRead_def by (intro logs_rules keeps_rules)

lemma logs_delegate [logs_rules]: "keeps (store_ok T) (delegate E g b)"
  by (cases b) (auto simp: getRequest_def intro!: logs_rules keeps_rules)

lemma logs_sharedOperation [logs_rules]: "keeps (store_ok T) (sharedOperation E uid gid op)"
  unfolding sharedOperation_def operation_def by (intro logs_rules keeps_rules)

lemma logs_sharedSession [logs_rules]: "keeps (gstore_ok T) (sharedSession E uid gid)"
  unfolding sharedSession_def getSession_def shareRow_def by (intro logs_rules keeps_rules)

lemma logs_redeemShare [logs_rules]: "keeps (gstore_ok (dbnow E)) (redeemShare E uid token)"
  unfolding redeemShare_def by (intro logs_rules keeps_rules)

lemma logs_sharedCommand [logs_rules]: "keeps (gstore_ok (dbnow E)) (sharedCommand E uid gid op url b)"
  unfolding sharedCommand_def Let_def by (intro logs_rules keeps_rules)

end
