(* ===== verification/Shares_Spec.thy ===== *)
theory Shares_Spec
  imports Commands_Spec Shares
begin

text \<open>
  What a share promises: the rights of a grant never grow, and a command through a share is an operation
  of the owner in the shared session, recorded once.
\<close>

section \<open>The tables of the shares\<close>

text \<open>
  The shares and the rows that tie a recipient's operations to the owner's: a command leaves the shares alone, and
  the dispatch the ties as well.
\<close>

definition ties :: "db \<Rightarrow> share_row list \<times> share_command_row list" where
  "ties d = (t_shares d, t_share_commands d)"

named_theorems ties_rules \<open>operations that leave the tables of the shares alone\<close>

lemma ties_core: "(\<And>v. keeps (\<lambda>d. core d = v) m) \<Longrightarrow> keeps (\<lambda>d. ties d = w) m"
  by (rule core_keeps) (simp_all add: core_eq ties_def)

lemmas ties_notes [ties_rules] = ties_core [OF core_change] ties_core [OF core_appendEvent] ties_core [OF core_new_id]
  ties_core [OF core_audit] ties_core [OF core_announce_request]

lemma ties_mod: "(\<And>d. ties (f d) = ties d) \<Longrightarrow> keeps (\<lambda>d. ties d = w) (modS f)"
  by (rule keeps_mod) simp

lemma ties_finishOp [ties_rules]: "keeps (\<lambda>d. ties d = w) (finishOp E uid op st res reason)"
proof -
  have mod: "keeps (\<lambda>d. ties d = w) (modS (\<lambda>d. d\<lparr>t_ops := f d\<rparr>))" for f
    by (rule ties_mod) (simp add: ties_def)
  show ?thesis unfolding finishOp_def
    by (intro keeps_rules ties_rules mod) (auto intro!: keeps_rules ties_rules mod split: err.split)
qed

lemma ties_rejected [ties_rules]: "keeps (\<lambda>d. ties d = w) (rejectedEffects E uid op)"
  unfolding rejectedEffects_def fail_created_session_def release_decisions_def put_turns_def
  by (intro keeps_rules ties_rules ties_mod) (simp_all add: ties_def)

lemma ties_transaction [ties_rules]: "keeps (\<lambda>d. ties d = w) m \<Longrightarrow> keeps (\<lambda>d. ties d = w) (transaction uid m)"
  by (intro keeps_transaction keeps_preserves) (simp_all add: ties_def)

lemma ties_failUnsent [ties_rules]: "keeps (\<lambda>d. ties d = w) (failUnsent E uid op reason)"
  unfolding failUnsent_def set_outbox_def by (intro ties_rules keeps_rules ties_mod) (simp add: ties_def)

lemma ties_node: "keeps (\<lambda>d. ties d = w) m \<Longrightarrow> keeps (\<lambda>g. ties (g_db g) = w) (dbS m)"
  by (simp add: keeps_def dbS_run)

lemma ties_dispatch: "keeps (\<lambda>g. ties (g_db g) = w) (dispatch E nid uid op cmd)"
proof -
  have enq: "keeps (\<lambda>g. ties (g_db g) = w) (enqueue_node E nid f)" for f
    by (auto simp: keeps_def enqueue_node_def run_simps split: option.split)
  show ?thesis unfolding dispatch_def set_outbox_def
    by (intro keeps_rules enq ties_node ties_rules ties_mod) (simp add: ties_def)
qed

text \<open>A promise about the shares alone.\<close>

lemma ties_read: "keeps (\<lambda>d. ties d = w) (getSession E uid sid)" "keeps (\<lambda>d. ties d = w) (getRequest E uid rid)"
  "keeps (\<lambda>d. ties d = w) (operation uid op)" "keeps (\<lambda>d. ties d = w) (priorOp E uid op fp)"
  "keeps (\<lambda>d. ties d = w) (liftS f)"
  unfolding getSession_def getRequest_def operation_def priorOp_def by (intro keeps_rules)+

lemmas ties_reads [ties_rules] = ties_read

lemma ties_admit_session [ties_rules]: "keeps (\<lambda>d. ties d = w) (admit_session E uid sid rq b)"
proof -
  have t: "keeps (\<lambda>d. ties d = w) (admit_turn E s q rq b)" for s q rq b
    unfolding admit_turn_def by (intro keeps_rules ties_rules)
  show ?thesis unfolding admit_session_def
    by (cases rq; cases b) (auto intro!: keeps_rules ties_rules t split: option.split)
qed

lemma ties_admit [ties_rules]: "keeps (\<lambda>d. ties d = w) (admit E uid path b)"
proof -
  have s: "keeps (\<lambda>d. ties d = w) (check_source_session E uid nid pid aid sid)" for nid pid aid sid
    unfolding check_source_session_def by (intro keeps_rules ties_rules)
  have a: "keeps (\<lambda>d. ties d = w) (check_agent uid nid pid aid v h)" for nid pid aid v h
    unfolding check_agent_def ownNode_def getProject_def getAgent_def by (intro keeps_rules)
  have o: "keeps (\<lambda>d. ties d = w) (check_origin E uid c)" for c
    unfolding check_origin_def by (intro keeps_rules s)
  show ?thesis unfolding admit_def admit_create_def admit_history_def
    by (cases b) (auto intro!: keeps_rules ties_rules a o)
qed

lemma shares_accept: "keeps (\<lambda>d. t_shares d = w) (accept_command E adm uid op fp p epoch deadline cmd)"
proof -
  have ties: "keeps (\<lambda>d. t_shares d = w) m" if "\<And>v. keeps (\<lambda>d. ties d = v) m" for m :: "unit dbact"
    using that unfolding keeps_def ties_def by (metis prod.inject)
  have c: "keeps (\<lambda>d. ties d = v) (create_rows E uid p b a)" for v b a
    unfolding create_rows_def session_title_def insert_session_def insert_turn_def put_turns_def
    by (intro keeps_rules ties_rules ties_mod) (simp_all add: ties_def)
  have i: "keeps (\<lambda>d. ties d = v) (insertOp E uid op k n s t e f c l)" for v k n s t e f c l
    unfolding insertOp_def by (intro keeps_rules ties_rules ties_mod) (simp add: ties_def)
  have r: "keeps (\<lambda>d. t_shares d = w) (recordShareAdmission E adm uid op)"
    unfolding recordShareAdmission_def by (intro keeps_rules keeps_mod) simp
  have x: "keeps (\<lambda>d. ties d = v) (insert_outbox row)" for v row
    unfolding insert_outbox_def by (intro keeps_rules ties_mod) (simp add: ties_def)
  have m: "keeps (\<lambda>d. ties d = v) (mark_deciding E uid p rid dec op)" for v rid dec
    unfolding mark_deciding_def by (intro keeps_rules ties_rules ties_mod) (simp add: ties_def)
  have 1: "keeps (\<lambda>d. t_shares d = w) (case (c_payload cmd, pl_agent p) of
        (P_create b, Some a) \<Rightarrow> create_rows E uid p b a | _ \<Rightarrow> returnS ())"
    by (cases "c_payload cmd"; cases "pl_agent p") (auto intro: keeps_rules ties c)
  have 2: "keeps (\<lambda>d. t_shares d = w) (case (c_payload cmd, pl_request p) of
        (P_respond b, Some r) \<Rightarrow> mark_deciding E uid p (rv_id r) (rr_decision b) op | _ \<Rightarrow> returnS ())"
    by (cases "c_payload cmd"; cases "pl_request p") (auto intro: keeps_rules ties m)
  show ?thesis unfolding accept_command_def
    by (intro keeps_transaction keeps_preserves keeps_rules 1 2 r ties i x ties_rules) simp
qed

lemma shares_command: "keeps (\<lambda>g. t_shares (g_db g) = w) (command E adm uid op fp path b)"
proof -
  have db: "keeps (\<lambda>g. t_shares (g_db g) = w) (dbS m)" if "keeps (\<lambda>d. t_shares d = w) m" for m :: "'a dbact"
    using that by (simp add: keeps_def dbS_run)
  have ties: "keeps (\<lambda>g. t_shares (g_db g) = w) m" if "\<And>v. keeps (\<lambda>g. ties (g_db g) = v) m" for m :: "'a gwact"
    using that unfolding keeps_def ties_def by (metis prod.inject)
  have n: "keeps (\<lambda>d. ties d = v) (next_turn_id E k b)" for v k
    unfolding next_turn_id_def by (intro keeps_rules ties_rules)
  have node: "keeps (\<lambda>g. t_shares (g_db g) = w) (nodeS nid)" for nid
    by (auto simp: keeps_def nodeS_def split: option.split)
  have s: "keeps (\<lambda>g. t_shares (g_db g) = w) (submit E adm uid op fp b p)" for p
    unfolding submit_def Let_def
    by (intro keeps_rules node db shares_accept ties [OF ties_node [OF n]] ties [OF ties_dispatch]
        ties [OF ties_node [OF ties_read(3)]])
  show ?thesis unfolding command_def
    by (intro keeps_rules s ties [OF ties_node [OF ties_read(4)]] ties [OF ties_node [OF ties_admit]])
qed

section \<open>A grant keeps its rights\<close>

text \<open>
  The later life of a share: the columns that name its rights and its origin are fixed; a recipient, the date
  of acceptance and a revocation stay once they are there, and an invitation that was used or withdrawn does
  not come back.
\<close>

definition later_share :: "share_row \<Rightarrow> share_row \<Rightarrow> bool" where
  "later_share g g' \<longleftrightarrow>
     sh_id g' = sh_id g \<and> sh_session g' = sh_session g \<and> sh_owner g' = sh_owner g \<and> sh_control g' = sh_control g
     \<and> sh_token_hash g' = sh_token_hash g \<and> sh_expires g' = sh_expires g \<and> sh_created g' = sh_created g
     \<and> sh_create_op g' = sh_create_op g \<and> sh_request_hash g' = sh_request_hash g
     \<and> (sh_invite g = None \<longrightarrow> sh_invite g' = None)
     \<and> (sh_recipient g \<noteq> None \<longrightarrow> sh_recipient g' = sh_recipient g)
     \<and> (sh_accepted g \<noteq> None \<longrightarrow> sh_accepted g' = sh_accepted g)
     \<and> (sh_revoked g \<noteq> None \<longrightarrow> sh_revoked g' = sh_revoked g)"

lemma later_share_refl: "later_share g g"
  by (simp add: later_share_def)

lemma later_share_trans: "later_share g g' \<Longrightarrow> later_share g' g'' \<Longrightarrow> later_share g g''"
  by (auto simp: later_share_def)

text \<open>
  The gateway after any requests on shares and commands through them, of anybody and at any time, and any other
  step that leaves the table of shares alone: all but the removal of a session together with its shares.
\<close>

inductive sharing :: "gw \<Rightarrow> gw \<Rightarrow> bool" for g where
  here: "sharing g g"
| create: "sharing g h \<Longrightarrow> dbS (createShare E uid op fp sid b) h = (r, k) \<Longrightarrow> sharing g k"
| redeem: "sharing g h \<Longrightarrow> redeemShare E uid token h = (r, k) \<Longrightarrow> sharing g k"
| revoke: "sharing g h \<Longrightarrow> dbS (revokeShare E uid gid) h = (r, k) \<Longrightarrow> sharing g k"
| command: "sharing g h \<Longrightarrow> sharedCommand E uid gid clientOp url b h = (r', k) \<Longrightarrow> sharing g k"
| other: "sharing g h \<Longrightarrow> t_shares (g_db k) = t_shares (g_db h) \<Longrightarrow> sharing g k"

text \<open>Every share is still there, as its later self.\<close>

definition shares_kept :: "share_row list \<Rightarrow> db \<Rightarrow> bool" where
  "shares_kept S d \<longleftrightarrow>
     distinct (map sh_id (t_shares d)) \<and> (\<forall>g\<in>set S. \<exists>g'\<in>set (t_shares d). later_share g g')"

lemma kept_write: "(\<And>d. t_shares (f d) = t_shares d) \<Longrightarrow> keeps (shares_kept S) (modS f)"
  by (rule keeps_mod) (simp add: shares_kept_def)

lemma kept_upd:
  assumes "\<And>g. P g \<Longrightarrow> later_share g (f g)"
  shows "keeps (shares_kept S) (modS (\<lambda>d. d\<lparr>t_shares := upd_rows P f (t_shares d)\<rparr>))"
proof (rule keeps_mod)
  fix d assume ok: "shares_kept S d"
  have ids: "map sh_id (upd_rows P f (t_shares d)) = map sh_id (t_shares d)"
    by (rule map_upd_rows_frame) (use assms in \<open>simp add: later_share_def\<close>)
  have "\<exists>g'\<in>set (upd_rows P f (t_shares d)). later_share g g'" if g: "g \<in> set S" for g
  proof -
    obtain g' where g': "g' \<in> set (t_shares d)" "later_share g g'" using ok g by (auto simp: shares_kept_def)
    have "later_share g (if P g' then f g' else g')" using g'(2) assms later_share_trans by auto
    then show ?thesis using g'(1) unfolding set_upd_rows by blast
  qed
  then show "shares_kept S (d\<lparr>t_shares := upd_rows P f (t_shares d)\<rparr>)" using ok ids by (simp add: shares_kept_def)
qed

lemma kept_new_id [keeps_rules]: "keeps (shares_kept S) (new_id E p)"
  by (simp add: keeps_def new_id_def shares_kept_def)

lemma kept_draw [keeps_rules]: "keeps (shares_kept S) (drawS f)"
  by (simp add: keeps_def drawS_def shares_kept_def)

lemma kept_insert [keeps_rules]: "keeps (shares_kept S) (insert_share r)"
proof (rule keepsI)
  fix d assume ok: "shares_kept S d"
  show "shares_kept S (snd (insert_share r d))"
  proof (cases "has_row (\<lambda>g. sh_id g = sh_id r \<or> sh_token_hash g = sh_token_hash r
                 \<or> sh_owner g = sh_owner r \<and> sh_create_op g = sh_create_op r) (t_shares d)")
    case True
    then show ?thesis using ok by (simp add: insert_share_def run_simps)
  next
    case False
    then have "sh_id r \<notin> sh_id ` set (t_shares d)" by (auto simp: has_row_iff)
    then show ?thesis using ok False by (auto simp: insert_share_def run_simps shares_kept_def)
  qed
qed

lemma kept_create: "keeps (shares_kept S) (createShare E uid op fp sid b)"
  unfolding createShare_def sealShareSecret_def shareInvitation_def shareRow_def getSession_def
  by (intro keeps_rules)

lemma kept_redeem: "keeps (shares_kept S) (redeem E uid token)"
  unfolding redeem_def shareRow_def
  by (intro keeps_rules kept_upd) (auto simp: acceptable_def accept_share_def later_share_def split: option.split)

lemma kept_revoke: "keeps (shares_kept S) (revokeShare E uid gid)"
  unfolding revokeShare_def shareRow_def
  by (intro keeps_rules kept_upd) (auto simp: later_share_def split: option.split)

lemma kept_db: "keeps (shares_kept S) m \<Longrightarrow> keeps (\<lambda>g. shares_kept S (g_db g)) (dbS m)"
  by (simp add: keeps_def dbS_run)

lemma kept_redeemShare: "keeps (\<lambda>g. shares_kept S (g_db g)) (redeemShare E uid token)"
proof -
  have "keeps (\<lambda>g. shares_kept S (g_db g)) (rateS E key limit)" for key limit
    by (simp add: keeps_def rateS_def)
  then show ?thesis unfolding redeemShare_def by (intro keeps_rules kept_db kept_redeem)
qed

lemma kept_sharedCommand: "keeps (\<lambda>g. shares_kept S (g_db g)) (sharedCommand E uid gid clientOp url b)"
proof -
  have c: "keeps (\<lambda>g. shares_kept S (g_db g)) (command E adm owner op fp path p)" for adm owner op fp path p
    using shares_command [of _ E adm owner op fp path p] by (auto simp: keeps_def shares_kept_def)
  have d: "keeps (shares_kept S) (delegate E gr b)" for gr
    by (cases b) (auto simp: getRequest_def intro!: keeps_rules)
  show ?thesis unfolding sharedCommand_def sharedOperation_def authorizeShare_def operation_def Let_def
    by (intro keeps_rules kept_db c d)
qed

lemma sharing_kept:
  "sharing g h \<Longrightarrow> distinct (map sh_id (t_shares (g_db g))) \<Longrightarrow> shares_kept (t_shares (g_db g)) (g_db h)"
proof (induction rule: sharing.induct)
  case here
  then show ?case using later_share_refl by (auto simp: shares_kept_def)
next
  case (create h E uid op fp sid b r k)
  then show ?case using keepsD [OF kept_db [OF kept_create]] by blast
next
  case (redeem h E uid token r k)
  then show ?case using keepsD [OF kept_redeemShare] by blast
next
  case (revoke h E uid gid r k)
  then show ?case using keepsD [OF kept_db [OF kept_revoke]] by blast
next
  case (command h E uid gid clientOp url b r k)
  then show ?case using keepsD [OF kept_sharedCommand] by blast
next
  case (other h k)
  then show ?case by (simp add: shares_kept_def)
qed

lemma authorizeShare_Inr:
  assumes "authorizeShare E uid gid write d = (Inr gr, t)"
  obtains g where "g \<in> set (t_shares d)" and "granted_to E d uid gid g" and "write \<longrightarrow> sh_control g" and "t = d"
    and "gr = \<lparr>gr_id = gid, gr_owner = sh_owner g, gr_session = sh_session g, gr_control = sh_control g, gr_expires = sh_expires g\<rparr>"
  using assms by (auto simp: authorizeShare_def run_iff split: option.splits dest!: find_SomeD)

text \<open>
  C6: whatever happens to the shares later, by any requests and commands of any users at any time: a share is
  still there, under its own identifier and no other's, with its session, owner, permission, secret and dates; the
  recipient it is bound to, its date of acceptance and its revocation stay once they are there, and a used or
  withdrawn invitation does not come back. It then admits nobody but that recipient, nobody once it was
  revoked or has expired, only to its own session of its own owner, and to commands only if it was created
  to grant control.
\<close>

theorem share_rights_never_grow:
  assumes "distinct (map sh_id (t_shares (g_db g)))" and "s \<in> set (t_shares (g_db g))" and "sharing g h"
  shows "distinct (map sh_id (t_shares (g_db h))) \<and> (\<exists>s'\<in>set (t_shares (g_db h)). later_share s s' \<and>
    (\<forall>E uid wr gr t. authorizeShare E uid (sh_id s) wr (g_db h) = (Inr gr, t) \<longrightarrow>
       sh_recipient s' = Some uid \<and> (\<forall>u. sh_recipient s = Some u \<longrightarrow> uid = u) \<and>
       sh_revoked s = None \<and> sh_revoked s' = None \<and> now E < sh_expires s \<and>
       gr_session gr = sh_session s \<and> gr_owner gr = sh_owner s \<and> (wr \<longrightarrow> sh_control s)))"
proof -
  have kept: "shares_kept (t_shares (g_db g)) (g_db h)" by (rule sharing_kept [OF assms(3,1)])
  then obtain s' where s': "s' \<in> set (t_shares (g_db h))" "later_share s s'" using assms(2) by (auto simp: shares_kept_def)
  have "sh_recipient s' = Some uid \<and> (\<forall>u. sh_recipient s = Some u \<longrightarrow> uid = u) \<and>
       sh_revoked s = None \<and> sh_revoked s' = None \<and> now E < sh_expires s \<and>
       gr_session gr = sh_session s \<and> gr_owner gr = sh_owner s \<and> (wr \<longrightarrow> sh_control s)"
    if "authorizeShare E uid (sh_id s) wr (g_db h) = (Inr gr, t)" for E uid wr gr t
    using that
  proof (rule authorizeShare_Inr)
    fix x
    assume x: "x \<in> set (t_shares (g_db h))" "granted_to E (g_db h) uid (sh_id s) x" "wr \<longrightarrow> sh_control x"
      and gr: "gr = \<lparr>gr_id = sh_id s, gr_owner = sh_owner x, gr_session = sh_session x, gr_control = sh_control x,
        gr_expires = sh_expires x\<rparr>"
    have "x = s'"
      using key_unique [of sh_id "t_shares (g_db h)"] kept x s' by (auto simp: shares_kept_def granted_to_def later_share_def)
    then show ?thesis using x s'(2) gr by (auto simp: granted_to_def live_share_def later_share_def)
  qed
  then show ?thesis using kept s' by (auto simp: shares_kept_def)
qed

definition shared_db :: db where
  "shared_db = db0\<lparr>t_shares := [share1]\<rparr>"

text \<open>The share is taken back: it is still there, revoked, and admits its recipient no longer.\<close>

definition revoked_gw :: gw where
  "revoked_gw = snd (dbS (revokeShare env0 ''u'' ''g'') (gw0\<lparr>g_db := shared_db\<rparr>))"

lemma revoked_share: "\<forall>s'\<in>set (t_shares (g_db revoked_gw)). sh_revoked s' \<noteq> None"
  by (simp add: revoked_gw_def gw0_def revokeShare_def shared_db_def share1_def shareRow_def upd_rows_def has_row_def find_share_def
      find_session_def share_view_of_def
      run_simps sample_defs)

theorem share_rights_never_grow_witness:
  "\<exists>s'\<in>set (t_shares (g_db revoked_gw)). later_share share1 s' \<and> sh_revoked s' \<noteq> None \<and>
     isl (fst (authorizeShare env0 ''v'' ''g'' True (g_db revoked_gw)))"
proof -
  let ?g = "gw0\<lparr>g_db := shared_db\<rparr>"
  have g: "distinct (map sh_id (t_shares (g_db ?g)))" "share1 \<in> set (t_shares (g_db ?g))" "sh_id share1 = ''g''"
    by (simp_all add: shared_db_def share1_def)
  have later: "sharing ?g revoked_gw"
    unfolding revoked_gw_def by (rule sharing.revoke [OF sharing.here prod.collapse [symmetric]])
  obtain s' where s': "s' \<in> set (t_shares (g_db revoked_gw))" "later_share share1 s'"
    and none: "\<And>E uid wr gr t. authorizeShare E uid (sh_id share1) wr (g_db revoked_gw) = (Inr gr, t) \<Longrightarrow> sh_revoked s' = None"
    using share_rights_never_grow [OF g(1,2) later] by blast
  have r: "sh_revoked s' \<noteq> None" using revoked_share s'(1) by blast
  obtain x t where x: "authorizeShare env0 ''v'' ''g'' True (g_db revoked_gw) = (x, t)" by (cases "authorizeShare env0 ''v'' ''g'' True (g_db revoked_gw)")
  have "isl x" using none r x g(3) by (cases x) auto
  then show ?thesis using s' r x by auto
qed

section \<open>A command through a share\<close>

lemma getSession_id: "getSession E uid sid d = (Inr (s, q), t) \<Longrightarrow> se_id s = sid \<and> t = d"
  by (auto simp: getSession_def own_session_row_def find_session_def oneS_Inr split: option.splits if_splits
      dest!: find_SomeD)

fun shareable_kind :: "payload \<Rightarrow> op_kind \<Rightarrow> bool" where
  "shareable_kind (P_send b) k = (k = K_send \<or> k = K_queue)"
| "shareable_kind (P_cancel b) k = (k = K_cancel)"
| "shareable_kind (P_respond b) k = (k = K_respond)"
| "shareable_kind b k = False"

lemma admit_payload_kind:
  "admit_payload E s q rq (P_send b) = Inr k \<Longrightarrow> k = K_send \<or> k = K_queue"
  "admit_payload E s q rq (P_cancel c) = Inr k \<Longrightarrow> k = K_cancel"
  "admit_payload E s q rq (P_respond r) = Inr k \<Longrightarrow> k = K_respond"
    apply (cases "sm_mode b"; cases rq; simp split: if_splits option.splits)
   apply (cases rq; simp split: if_splits option.splits)
  apply (cases rq; simp split: if_splits option.splits)
  done

lemma admit_turn_plan:
  assumes "admit_turn E s q rq b d = (Inr a, t)"
  obtains k where "admit_payload E s q rq b = Inr k" and "t = d"
    and "a = Inr \<lparr>pl_node = se_node s, pl_session = se_id s, pl_turn = str (se_turn s), pl_kind = k,
                 pl_request = rq, pl_agent = None\<rparr>"
  using assms by (auto simp: admit_turn_def liftS_def thenS_Inr bindS_Inr guardS_Inr returnS_iff)

lemma admit_shared:
  assumes "admit_session E uid sid rq b d = (Inr a, t)" and "b = P_send x \<or> b = P_cancel y \<or> b = P_respond z"
  shows "t = d \<and> (\<forall>p. a = Inr p \<longrightarrow> pl_session p = sid \<and> shareable_kind b (pl_kind p))"
proof -
  from assms(1) obtain s q where g: "getSession E uid sid d = (Inr (s, q), d)" and "se_id s = sid"
    and "(case (rq, b) of
       (Some r, P_respond body) \<Rightarrow>
         (case rv_decision r of
            Some dec \<Rightarrow>
              if same_decision dec (rr_decision body)
              then bindS (operation uid (str (rv_decision_op r))) (\<lambda>o'. returnS (Inl o'))
              else failS (apierr 409 REQUEST_ALREADY_DECIDED)
          | None \<Rightarrow> admit_turn E s q rq b)
     | _ \<Rightarrow> admit_turn E s q rq b) d = (Inr a, t)"
    using getSession_id unfolding admit_session_def bindS_Inr by fast
  moreover have "t = d \<and> (\<forall>p. a = Inr p \<longrightarrow> pl_session p = sid \<and> shareable_kind b (pl_kind p))"
    if "admit_turn E s q rq b d = (Inr a, t)" "se_id s = sid" for s q
    using that(1) by (rule admit_turn_plan) (use that(2) assms(2) admit_payload_kind in auto)
  ultimately show ?thesis using assms(2)
    by (cases rq; cases b) (auto simp: bindS_Inr operation_def oneS_Inr returnS_iff failS_iff split: option.splits if_splits)
qed

lemma submit_shared:
  assumes "submit E (Some v) uid op fp b p g = (Inr r, h)" and "shareable_kind b k"
  shows "\<lparr>sc_share = sa_share v, sc_actor = sa_actor v, sc_client_op = sa_client_op v, sc_owner = uid, sc_owner_op = op,
        sc_hash = sa_fingerprint v, sc_action = sa_action v, sc_created = now E\<rparr> \<in> set (t_share_commands (g_db h))"
proof -
  let ?deadline = "now E + cf_command_ttl (cfg E)"
  from assms(1) obtain peer :: peer and nt d1 d2 h1 where
        acc: "accept_command E (Some v) uid op fp p (pr_epoch peer) ?deadline
       (build_command E op (pr_epoch peer) ?deadline p b nt) d1 = (Inr (), d2)"
    and disp: "dispatch E (pl_node p) uid op (build_command E op (pr_epoch peer) ?deadline p b nt) (g\<lparr>g_db := d2\<rparr>) = (Inr (), h1)"
    and last: "operation uid op (g_db h1) = (Inr r, g_db h)" "h = h1\<lparr>g_db := g_db h\<rparr>"
    unfolding submit_def Let_def by (auto simp: bindS_Inr thenS_Inr guardS_Inr getS_iff nodeS_iff dbS_iff)
  have "t_share_commands (g_db h1) = t_share_commands d2"
    using keepsD [OF ties_dispatch disp, of "ties d2"] by (simp add: ties_def)
  moreover have "g_db h = g_db h1" using last(1) by (auto simp: operation_def oneS_Inr)
  moreover have "\<And>c. c_payload (build_command E op (pr_epoch peer) ?deadline p b nt) \<noteq> P_create c"
    using assms(2) by (auto simp: build_command_def)
  ultimately show ?thesis using accept_shared_Inr [OF acc] by simp
qed

text \<open>The operation that a command through a share leaves for the owner.\<close>

definition shared_effect :: "gw \<Rightarrow> string \<Rightarrow> string \<Rightarrow> string \<Rightarrow> payload \<Rightarrow> op_row \<Rightarrow> gw \<Rightarrow> bool" where
  "shared_effect g owner sid op b r h \<longleftrightarrow>
     find_op (g_db g) owner op = None \<and> find_op (g_db h) owner op = Some r \<and> op_session r = nullString sid
     \<and> shareable_kind b (op_kind r) \<and> (\<exists>cmd. op_payload r = Some cmd \<and> c_session cmd = sid \<and> c_payload cmd = b)"

lemma getRequest_state: "getRequest E uid rid d = (r, t) \<Longrightarrow> t = d"
  by (auto simp: getRequest_def oneS_run split: option.splits)

lemma admit_through_share:
  assumes "admit E uid path b d = (Inr a, t)"
    and "(\<exists>x y. b = P_send x \<or> b = P_cancel y) \<and> path = sid
       \<or> (\<exists>z rq t'. b = P_respond z \<and> getRequest E uid path d = (Inr rq, t') \<and> rv_session rq = sid)"
  shows "t = d \<and> (\<forall>p. a = Inr p \<longrightarrow> pl_session p = sid \<and> shareable_kind b (pl_kind p))"
  using assms(2)
proof (elim disjE exE conjE)
  fix x y assume "b = P_send x" and p: "path = sid"
  then show ?thesis using assms(1) admit_shared [of E uid sid None b d a t x] by (simp add: admit_def)
next
  fix x y assume "b = P_cancel y" and p: "path = sid"
  then show ?thesis using assms(1) admit_shared [of E uid sid None b d a t _ y] by (simp add: admit_def)
next
  fix z rq t'
  assume b: "b = P_respond z" and rq: "getRequest E uid path d = (Inr rq, t')" "rv_session rq = sid"
  then have "admit_session E uid sid (Some rq) b d = (Inr a, t)"
    using assms(1) getRequest_state [OF rq(1)] by (simp add: admit_def bindS_Inr)
  then show ?thesis using b by (intro admit_shared) auto
qed

lemma command_through_share:
  assumes run: "command E (Some v) uid op fp path b g = (Inr r, h)"
    and path: "(\<exists>x y. b = P_send x \<or> b = P_cancel y) \<and> path = sid
       \<or> (\<exists>z rq t'. b = P_respond z \<and> getRequest E uid path (g_db g) = (Inr rq, t') \<and> rv_session rq = sid)"
  shows "h = g \<or> shared_effect g uid sid op b r h \<and>
    \<lparr>sc_share = sa_share v, sc_actor = sa_actor v, sc_client_op = sa_client_op v, sc_owner = uid, sc_owner_op = op,
        sc_hash = sa_fingerprint v, sc_action = sa_action v, sc_created = now E\<rparr> \<in> set (t_share_commands (g_db h))"
proof (cases "find_op (g_db g) uid op")
  case (Some r0)
  have "command E (Some v) uid op fp path b g =
    (if op_hash r0 = fp_hash E fp then Inr r0 else Inl (apierr 409 IDEMPOTENCY_CONFLICT), g)"
    using Some by (simp add: command_def priorOp_def operation_def bindS_run dbS_run getS_run thenS_run guardS_run oneS_run returnS_run)
  then show ?thesis using run by simp
next
  case None
  then have e: "command E (Some v) uid op fp path b g =
      bindS (dbS (admit E uid path b)) (\<lambda>a. case a of Inl r \<Rightarrow> returnS r | Inr p \<Rightarrow> submit E (Some v) uid op fp b p) g"
    by (simp add: command_def priorOp_def bindS_run dbS_run getS_run returnS_run)
  from run [unfolded e] obtain a t where a: "admit E uid path b (g_db g) = (Inr a, t)"
    and rest: "(case a of Inl r \<Rightarrow> returnS r | Inr p \<Rightarrow> submit E (Some v) uid op fp b p) (g\<lparr>g_db := t\<rparr>) = (Inr r, h)"
    by (auto simp: bindS_Inr dbS_iff)
  have t: "t = g_db g" and p: "a = Inr p \<Longrightarrow> pl_session p = sid \<and> shareable_kind b (pl_kind p)" for p
    using admit_through_share [OF a path] by auto
  show ?thesis
  proof (cases a)
    case (Inl r0)
    then show ?thesis using rest t by (simp add: returnS_iff)
  next
    case (Inr pl)
    then have s: "submit E (Some v) uid op fp b pl g = (Inr r, h)" using rest t by simp
    have "shared_effect g uid sid op b r h"
      using submit_Inr [OF s] p [OF Inr] by (auto simp: shared_effect_def)
    then show ?thesis using submit_shared [OF s] p [OF Inr] by blast
  qed
qed

lemma delegate_Inr:
  assumes "delegate E gr b d = (Inr (kind, target, payload), t)"
  shows "t = d \<and> ((\<exists>x y. payload = P_send x \<or> payload = P_cancel y) \<and> target = gr_session gr
       \<or> (\<exists>z rq t'. payload = P_respond z \<and> getRequest E (gr_owner gr) target d = (Inr rq, t') \<and> rv_session rq = gr_session gr))"
  using assms by (cases b) (auto simp: run_iff dest: getRequest_state)

text \<open>A recipient's identifier that is recorded is used up.\<close>

lemma authorizeShare_state: "authorizeShare E uid gid wr d = (r, t) \<Longrightarrow> t = d"
proof -
  have "keeps (\<lambda>x. x = d) (authorizeShare E uid gid wr)" unfolding authorizeShare_def by (intro keeps_rules)
  then show "authorizeShare E uid gid wr d = (r, t) \<Longrightarrow> t = d" by (auto simp: keeps_def)
qed

lemma sharedOperation_state: "sharedOperation E uid gid op d = (r, t) \<Longrightarrow> t = d"
proof -
  have "keeps (\<lambda>x. x = d) (sharedOperation E uid gid op)"
    unfolding sharedOperation_def authorizeShare_def operation_def by (intro keeps_rules)
  then show "sharedOperation E uid gid op d = (r, t) \<Longrightarrow> t = d" by (auto simp: keeps_def)
qed

lemma recorded_is_final:
  assumes "c \<in> set (t_share_commands (g_db g))" and "sc_actor c = uid" and "sc_client_op c = clientOp"
    and "sharedCommand E uid gid clientOp url b g = (r, h)"
  shows "h = g"
proof -
  obtain c' where c': "find (\<lambda>c. sc_actor c = uid \<and> sc_client_op c = clientOp) (t_share_commands (g_db g)) = Some c'"
    using assms(1-3) find_None_iff_has [of _ "t_share_commands (g_db g)"] by (fastforce simp: has_row_iff)
  obtain x d where a: "authorizeShare E uid gid True (g_db g) = (x, d)" by (cases "authorizeShare E uid gid True (g_db g)")
  obtain y d' where o': "sharedOperation E uid gid clientOp (g_db g) = (y, d')"
    by (cases "sharedOperation E uid gid clientOp (g_db g)")
  have "d = g_db g" "d' = g_db g" by (rule authorizeShare_state [OF a], rule sharedOperation_state [OF o'])
  then show ?thesis using assms(4) a o' c'
    by (auto simp: sharedCommand_def Let_def bindS_run thenS_run guardS_run dbS_run getS_run failS_run returnS_run
        split: sum.splits if_splits)
qed

text \<open>
  C5: a command through a share that goes through was sent by the recipient of a live share that grants
  control. It either repeats what is recorded and changes nothing, or it becomes a new operation of the
  owner in the shared session and in no other: a message, a queued message, a cancellation or a decision
  on a request of that session. The recipient's identifier is then used up: no later request under it
  changes anything, whatever it asks.
\<close>

theorem shared_command_confined:
  assumes "sharedCommand E uid gid clientOp url b g = (Inr r, h)"
  shows "\<exists>s\<in>set (t_shares (g_db g)). granted_to E (g_db g) uid gid s \<and> sh_control s \<and> op_id r = clientOp
    \<and> (h = g \<or>
       (\<exists>o' payload. r = o'\<lparr>op_id := clientOp\<rparr>
          \<and> shared_effect g (sh_owner s) (sh_session s) (delegated_op E uid gid clientOp) payload o' h
          \<and> (\<forall>F gid' url' c y k. sharedCommand F uid gid' clientOp url' c h = (y, k) \<longrightarrow> k = h)))"
proof -
  let ?fp = "fp_hash E \<lparr>fp_method = ''POST'', fp_path = url, fp_body = Body_shared b\<rparr>"
  let ?op = "delegated_op E uid gid clientOp"
  let ?old = "find (\<lambda>c. sc_actor c = uid \<and> sc_client_op c = clientOp) (t_share_commands (g_db g))"
  obtain x d where run: "authorizeShare E uid gid True (g_db g) = (x, d)" by (cases "authorizeShare E uid gid True (g_db g)")
  have d: "g\<lparr>g_db := d\<rparr> = g" using authorizeShare_state [OF run] by simp
  from assms run obtain gr where "x = Inr gr" by (cases x) (auto simp: sharedCommand_def bindS_run dbS_run)
  then have a: "authorizeShare E uid gid True (g_db g) = (Inr gr, d)" and db: "dbS (authorizeShare E uid gid True) g = (Inr gr, g)"
    using run d by (simp_all add: dbS_run)
  have rest: "(case ?old of
       Some c \<Rightarrow>
         thenS (guardS (sc_share c = gid \<and> sc_hash c = ?fp) (apierr 409 IDEMPOTENCY_CONFLICT))
           (dbS (sharedOperation E uid gid clientOp))
     | None \<Rightarrow>
         bindS (dbS (delegate E gr b)) (\<lambda>(kind, target, payload).
         bindS (command E
             (Some \<lparr>sa_share = gid, sa_actor = uid, sa_client_op = clientOp, sa_fingerprint = ?fp, sa_action = kind\<rparr>)
             (gr_owner gr) ?op \<lparr>fp_method = ''POST'', fp_path = url, fp_body = Body_command payload\<rparr> target payload) (\<lambda>r.
         returnS (r\<lparr>op_id := clientOp\<rparr>)))) g = (Inr r, h)"
    using assms unfolding sharedCommand_def Let_def bindS_step [of "dbS (authorizeShare E uid gid True)", OF db]
    by (simp add: bindS_run dbS_run getS_run)
  from a obtain s where s: "s \<in> set (t_shares (g_db g))" "granted_to E (g_db g) uid gid s" "sh_control s"
    and gr: "gr_owner gr = sh_owner s" "gr_session gr = sh_session s"
    by (rule authorizeShare_Inr) auto
  show ?thesis
  proof (cases ?old)
    case (Some c)
    then have "sharedOperation E uid gid clientOp (g_db g) = (Inr r, g_db h)" and h: "h = g\<lparr>g_db := g_db h\<rparr>"
      using rest by (auto simp: thenS_Inr guardS_Inr dbS_iff)
    moreover from this(1) have "op_id r = clientOp" by (auto simp: sharedOperation_def bindS_Inr returnS_iff)
    ultimately have "op_id r = clientOp" "g_db h = g_db g" using sharedOperation_state by blast+
    then show ?thesis using s h by (intro bexI [of _ s]) simp_all
  next
    case None
    then obtain kind target payload t o' where d: "delegate E gr b (g_db g) = (Inr (kind, target, payload), t)"
      and c: "command E
             (Some \<lparr>sa_share = gid, sa_actor = uid, sa_client_op = clientOp, sa_fingerprint = ?fp, sa_action = kind\<rparr>)
             (gr_owner gr) ?op \<lparr>fp_method = ''POST'', fp_path = url, fp_body = Body_command payload\<rparr> target payload
             (g\<lparr>g_db := t\<rparr>) = (Inr o', h)"
      and r: "r = o'\<lparr>op_id := clientOp\<rparr>"
      using rest by (auto simp: bindS_Inr dbS_iff returnS_iff)
    have t: "g\<lparr>g_db := t\<rparr> = g" using delegate_Inr [OF d] by simp
    have "(\<exists>x y. payload = P_send x \<or> payload = P_cancel y) \<and> target = sh_session s
       \<or> (\<exists>z rq t'. payload = P_respond z \<and> getRequest E (gr_owner gr) target (g_db g) = (Inr rq, t') \<and> rv_session rq = sh_session s)"
      using delegate_Inr [OF d] gr(2) by simp
    from command_through_share [OF c [unfolded t] this]
    have "h = g \<or> shared_effect g (sh_owner s) (sh_session s) ?op payload o' h
        \<and> (\<exists>c\<in>set (t_share_commands (g_db h)). sc_actor c = uid \<and> sc_client_op c = clientOp)"
      unfolding gr(1) by (elim disjE conjE) (rule disjI1, assumption, rule disjI2, rule conjI, assumption, erule bexI [rotated], simp)
    then have "h = g \<or> shared_effect g (sh_owner s) (sh_session s) ?op payload o' h
        \<and> (\<forall>F gid' url' c y k. sharedCommand F uid gid' clientOp url' c h = (y, k) \<longrightarrow> k = h)"
      using recorded_is_final by blast
    moreover have "op_id r = clientOp" using r by simp
    ultimately show ?thesis using s r by blast
  qed
qed

definition message0 :: shared_command where
  "message0 = Sc_send \<lparr>sm_turn = ''t'', sm_text = ''hi'', sm_mode = Mode_send, sm_caprev = 1, sm_attachments = [],
     sm_references = [], sm_command = []\<rparr>"

definition shared_gw :: gw where
  "shared_gw = gw1\<lparr>g_db := shared_db\<rparr>"

definition sample_message :: "(err + op_row) \<times> gw" where
  "sample_message = sharedCommand env0 ''v'' ''g'' ''k'' ''/c'' message0 shared_gw"

lemma sample_message_eq: "\<not> isl (fst sample_message)"
  by (simp add: sample_message_def sharedCommand_def message0_def authorizeShare_def granted_to_def command_def priorOp_def
      admit_def admit_session_def admit_turn_def getSession_def own_session_row_def capability_def session_queue_def
      submit_def gw1_def gw0_def peer0_def new_peer_def shared_gw_def shared_db_def share1_def liftS_def
      online_def nodeS_def is_new_session_def busy_def next_turn_id_def new_id_def build_command_def
      accept_command_def transaction_def insertOp_def recordShareAdmission_def insert_outbox_def audit_def
      change_def dispatch_def set_outbox_def enqueue_node_def enqueue_def set_node_def operation_def find_op_def
      live_share_def find_session_def accessible_def
      has_row_def nullString_def max_safe_def Let_def run_simps sample_defs)

theorem shared_command_confined_witness:
  "\<exists>r. fst sample_message = Inr r \<and> op_id r = ''k''"
proof -
  obtain r where r: "fst sample_message = Inr r" using sample_message_eq by (cases "fst sample_message") simp_all
  then have "sharedCommand env0 ''v'' ''g'' ''k'' ''/c'' message0 shared_gw = (Inr r, snd sample_message)"
    by (simp add: sample_message_def prod_eq_iff)
  from shared_command_confined [OF this] r show ?thesis by auto
qed

end
