(* ===== verification/Base64.thy ===== *)
theory Base64
  imports Cursor
begin

text \<open>
  The padded base64 of the standard library (\<^verbatim>\<open>StdEncoding\<close>, its \<^verbatim>\<open>Strict\<close> and unpadded variants), in
  which keys, signatures and pictures travel: the alphabet of the cursors with two other symbols.
\<close>

definition std_char :: "char \<Rightarrow> char" where
  "std_char c = (if c = CHR ''-'' then CHR ''+'' else if c = CHR ''_'' then CHR ''/'' else c)"

definition url_char :: "char \<Rightarrow> char option" where
  "url_char c = (if c = CHR ''+'' then Some (CHR ''-'') else if c = CHR ''/'' then Some (CHR ''_'')
                 else if c = CHR ''-'' \<or> c = CHR ''_'' then None else Some c)"

definition std_raw :: "string \<Rightarrow> string" where
  "std_raw s = map std_char (b64_encode s)"

definition std_encode :: "string \<Rightarrow> string" where
  "std_encode s = (let t = std_raw s in t @ replicate ((4 - length t mod 4) mod 4) CHR ''='')"

text \<open>Line breaks are skipped; padding stands at the end and fills the last group.\<close>

definition line_break :: "char \<Rightarrow> bool" where
  "line_break c \<longleftrightarrow> byte c = 10 \<or> byte c = 13"

definition std_decode :: "string \<Rightarrow> string option" where
  "std_decode s =
     (let t = filter (\<lambda>c. \<not> line_break c) s;
          body = takeWhile (\<lambda>c. c \<noteq> CHR ''='') t;
          pad = dropWhile (\<lambda>c. c \<noteq> CHR ''='') t in
      if length t mod 4 \<noteq> 0 \<or> pad \<notin> {[], ''='', ''==''} then None
      else case all_some (map url_char body) of None \<Rightarrow> None | Some u \<Rightarrow> b64_decode u)"

text \<open>\<^verbatim>\<open>Strict\<close>: the bits that do not belong to a byte have to be zero.\<close>

definition std_decode_strict :: "string \<Rightarrow> string option" where
  "std_decode_strict s =
     (case std_decode s of
        None \<Rightarrow> None
      | Some r \<Rightarrow> (if std_encode r = filter (\<lambda>c. \<not> line_break c) s then Some r else None))"

lemma url_std_char: "c \<in> set b64_alphabet \<Longrightarrow> url_char (std_char c) = Some c \<and> std_char c \<noteq> CHR ''='' \<and> \<not> line_break (std_char c)"
proof -
  have "list_all (\<lambda>c. url_char (std_char c) = Some c \<and> std_char c \<noteq> CHR ''='' \<and> \<not> line_break (std_char c)) b64_alphabet"
    by code_simp
  then show "c \<in> set b64_alphabet \<Longrightarrow> ?thesis" by (simp add: list_all_iff)
qed

lemma b64_split_length: "length (b64_split xs) mod 4 \<noteq> 1"
  by (induction xs rule: b64_split.induct) auto

lemma encode_alphabet: "set (b64_encode s) \<subseteq> set b64_alphabet"
proof -
  have "\<forall>n\<in>set (b64_split (map byte s)). n < 64"
    by (rule b64_split_less) (use byte_less in auto)
  moreover have "b64_char n \<in> set b64_alphabet" if "n < 64" for n
    unfolding b64_char_def by (rule nth_mem) (simp add: that length_alphabet)
  ultimately show ?thesis by (auto simp: b64_encode_def)
qed

lemma std_decode_encode: "std_decode (std_encode s) = Some s"
proof -
  let ?t = "std_raw s"
  let ?k = "(4 - length ?t mod 4) mod 4"
  have ok: "\<forall>c\<in>set ?t. c \<noteq> CHR ''='' \<and> \<not> line_break c"
    using encode_alphabet [of s] url_std_char by (auto simp: std_raw_def)
  have plain: "filter (\<lambda>c. \<not> line_break c) (std_encode s) = std_encode s"
    using ok by (auto simp: std_encode_def Let_def line_break_def byte_def intro!: filter_True)
  have body: "takeWhile (\<lambda>c. c \<noteq> CHR ''='') (std_encode s) = ?t" and pad: "dropWhile (\<lambda>c. c \<noteq> CHR ''='') (std_encode s) = replicate ?k CHR ''=''"
    using ok by (cases ?k; simp add: std_encode_def Let_def takeWhile_append dropWhile_append)+
  have m: "length ?t mod 4 \<noteq> 1" using b64_split_length [of "map byte s"] by (simp add: std_raw_def b64_encode_def)
  moreover have "length ?t mod 4 < 4" by simp
  ultimately have m4: "length ?t mod 4 = 0 \<or> length ?t mod 4 = 2 \<or> length ?t mod 4 = 3" by linarith
  then have k: "?k \<in> {0, 1, 2}" by (elim disjE) simp_all
  have len: "length (std_encode s) mod 4 = 0"
  proof -
    have "length (std_encode s) mod 4 = (length ?t mod 4 + ?k) mod 4"
      by (simp only: std_encode_def Let_def length_append length_replicate mod_add_left_eq)
    then show ?thesis using m4 by (elim disjE) simp_all
  qed
  have "all_some (map url_char ?t) = Some (b64_encode s)"
  proof -
    have "map url_char ?t = map Some (b64_encode s)"
      using encode_alphabet [of s] url_std_char by (auto simp: std_raw_def)
    then show ?thesis by (simp add: all_some_map)
  qed
  moreover have "replicate ?k CHR ''='' \<in> {[], ''='', ''==''}" using k by (auto simp: numeral_2_eq_2)
  ultimately show ?thesis
    unfolding std_decode_def Let_def plain body pad by (simp add: len b64_decode_encode del: insert_iff)
qed

lemma std_decode_strict_encode: "std_decode_strict (std_encode s) = Some s"
proof -
  have "\<not> line_break c" if "c \<in> set (std_encode s)" for c
    using that encode_alphabet [of s] url_std_char
    by (auto simp: std_encode_def std_raw_def Let_def line_break_def byte_def split: if_splits)
  then have "filter (\<lambda>c. \<not> line_break c) (std_encode s) = std_encode s" by (simp add: filter_True)
  then show ?thesis by (simp add: std_decode_strict_def std_decode_encode)
qed

end
