(* ===== verification/Pairing.thy ===== *)
theory Pairing
  imports Lifecycle Base64 Shares
begin

text \<open>
  \<open>internal/gateway/pairing.go\<close>: logging in, pairing a device with a user by a short code, and the
  proof of a device's key against a challenge; with \<open>retainSubscriptionIdentity\<close> of
  \<open>subscriptions.go\<close>, which a login calls.
\<close>

section \<open>Login\<close>

record user_view =
  uv_id :: string
  uv_name :: string
  uv_created :: string

definition userJSON :: "env \<Rightarrow> string \<Rightarrow> user_view dbact" where
  "userJSON E uid =
     oneS (\<lambda>d. map_option (\<lambda>u. \<lparr>uv_id = us_id u, uv_name = us_name u, uv_created = pg_time E (us_created u)\<rparr>)
       (find (\<lambda>u. us_id u = uid) (t_users d)))"

record login_result =
  lg_token :: string
  lg_expires :: string
  lg_user :: user_view

text \<open>\<open>subjectCipher\<close> derives its key under this label.\<close>

definition subject_label :: string where
  "subject_label = ''weagent-subscription-identity/v1'' @ [char_of (0 :: nat)]"

definition retainSubscriptionIdentity :: "env \<Rightarrow> string \<Rightarrow> string \<Rightarrow> unit dbact" where
  "retainSubscriptionIdentity E uid subject =
     (let prefix = cf_app_id (cfg E) @ '':'' in
      if \<not> subscriptions_enabled E then returnS ()
      else thenS (guardS (take (length prefix) subject = prefix \<and> length prefix < length subject) DBError)
        (bindS (drawS (vt_nonce (vault_of E))) (\<lambda>nonce.
         let encrypted = nonce @ vt_seal (vault_of E) subject_label nonce (drop (length prefix) subject) uid in
         modS (\<lambda>d. d\<lparr>t_identities :=
           (if uid \<in> fst ` set (t_identities d)
            then map (\<lambda>(u, x). (u, if u = uid then encrypted else x)) (t_identities d)
            else t_identities d @ [(uid, encrypted)])\<rparr>))))"

definition insert_user :: "env \<Rightarrow> string \<Rightarrow> string \<Rightarrow> string \<Rightarrow> unit dbact" where
  "insert_user E uid subject name =
     bindS (getS (\<lambda>d. has_row (\<lambda>u. us_subject u = subject) (t_users d))) (\<lambda>known.
     if known then returnS ()
     else bindS (getS (\<lambda>d. has_row (\<lambda>u. us_id u = uid) (t_users d))) (\<lambda>taken.
       thenS (guardS (\<not> taken) DBError)
       (modS (\<lambda>d. d\<lparr>t_users := t_users d @ [\<lparr>us_id = uid, us_subject = subject, us_name = name, us_last_rev = 0,
          us_created = dbnow E, us_avatar = None, us_profile_rev = 0\<rparr>]\<rparr>))))"

definition insert_user_token :: "user_token_row \<Rightarrow> unit dbact" where
  "insert_user_token r =
     bindS (getS (\<lambda>d. has_row (\<lambda>t. ut_hash t = ut_hash r) (t_user_tokens d))) (\<lambda>taken.
     thenS (guardS (\<not> taken) DBError) (modS (\<lambda>d. d\<lparr>t_user_tokens := t_user_tokens d @ [r]\<rparr>)))"

definition login :: "env \<Rightarrow> string \<Rightarrow> string \<Rightarrow> login_result dbact" where
  "login E identity name =
     (let subject = vt_digest (vault_of E) ''wechat-subject'' identity;
          expiry = now E + cf_user_ttl (cfg E) in
      bindS (getS (\<lambda>d. find (\<lambda>u. us_subject u = subject) (t_users d))) (\<lambda>known.
      bindS (case known of Some u \<Rightarrow> returnS (us_id u) | None \<Rightarrow> new_id E ''user'') (\<lambda>uid.
      bindS (drawS (vt_secret (vault_of E))) (\<lambda>token.
      bindS (transaction []
        (thenS (insert_user E uid subject name)
        (bindS (oneS (\<lambda>d. map_option us_id (find (\<lambda>u. us_subject u = subject) (t_users d)))) (\<lambda>uid.
         thenS (insert_user_token \<lparr>ut_hash = token_hash E token, ut_user = uid, ut_expires = expiry, ut_revoked = None\<rparr>)
         (thenS (retainSubscriptionIdentity E uid identity)
         (thenS (audit E uid [] Audit_login Op_confirmed [] []) (returnS uid))))))) (\<lambda>uid.
      bindS (userJSON E uid) (\<lambda>user.
      returnS \<lparr>lg_token = token, lg_expires = timestamp E expiry, lg_user = user\<rparr>))))))"

definition logout :: "env \<Rightarrow> string \<Rightarrow> unit gwact" where
  "logout E header =
     (let token = bearer header in
      thenS (dbS (modS (\<lambda>d. d\<lparr>t_user_tokens := upd_rows (\<lambda>t. ut_hash t = token_hash E token)
         (\<lambda>t. t\<lparr>ut_revoked := Some (now E)\<rparr>) (t_user_tokens d)\<rparr>)))
      (modS (\<lambda>g. g\<lparr>g_clients := map (\<lambda>(k, p). (k, if pr_token p = token then stop p else p)) (g_clients g)\<rparr>)))"

section \<open>Enrolment\<close>

definition pair_alphabet :: string where
  "pair_alphabet = ''ABCDEFGHJKLMNPQRSTUVWXYZ23456789''"

text \<open>
  Rejection sampling of a random byte. The alphabet has 32 symbols, a divisor of 256, so that no byte is
  ever rejected; the bytes of the first, biased pass are drawn and overwritten.
\<close>

definition accepted_byte :: "char \<Rightarrow> bool" where
  "accepted_byte x \<longleftrightarrow> byte x < 256 - 256 mod length pair_alphabet"

lemma every_byte_accepted: "accepted_byte x"
  using byte_less [of x] by (simp add: accepted_byte_def pair_alphabet_def)

function code_char :: "env \<Rightarrow> nat \<Rightarrow> char \<times> nat" where
  "code_char E n =
     (let x = vt_byte (vault_of E) n in
      if accepted_byte x then (pair_alphabet ! (byte x mod length pair_alphabet), n + 1) else code_char E (n + 1))"
  by pat_completeness auto
termination
  by (relation "measure (\<lambda>_. 0)") (simp_all add: every_byte_accepted)

declare code_char.simps [simp del]

fun pair_code :: "env \<Rightarrow> nat \<Rightarrow> nat \<Rightarrow> string \<times> nat" where
  "pair_code E 0 n = ([], n)"
| "pair_code E (Suc k) n = (let (c, m) = code_char E n; (cs, l) = pair_code E k m in (c # cs, l))"

definition draw_code :: "env \<Rightarrow> string dbact" where
  "draw_code E = (\<lambda>d. let (c, n) = pair_code E 12 (entropy d + 12) in (Inr c, d\<lparr>entropy := n\<rparr>))"

record enrollment =
  ev_enrollment :: string
  ev_code :: string
  ev_poll :: string
  ev_fingerprint :: string
  ev_expires :: string

definition key_fingerprint :: "env \<Rightarrow> string \<Rightarrow> string" where
  "key_fingerprint E key = ''SHA256:'' @ std_raw (token_hash E key)"

definition enroll :: "env \<Rightarrow> enrollment_input \<Rightarrow> enrollment dbact" where
  "enroll E b =
     (case std_decode (en_key b) of
        None \<Rightarrow> failS invalid
      | Some key \<Rightarrow>
          thenS (guardS (length key = 32) invalid)
          (bindS (draw_code E) (\<lambda>code.
           bindS (new_id E ''enrollment'') (\<lambda>eid.
           bindS (drawS (vt_secret (vault_of E))) (\<lambda>poll.
           let expiry = now E + 5 * minute;
               r = \<lparr>el_id = eid, el_key = key, el_code_hash = vt_digest (vault_of E) ''pair-code'' code,
                    el_poll_hash = token_hash E poll, el_name = en_name b, el_platform = en_platform b,
                    el_version = en_version b, el_state = Enroll_pending, el_node = None, el_expires = expiry\<rparr> in
           bindS (getS (\<lambda>d. has_row (\<lambda>n. el_id n = eid \<or> el_code_hash n = el_code_hash r \<or> el_poll_hash n = el_poll_hash r)
                       (t_enrollments d))) (\<lambda>taken.
           thenS (guardS (\<not> taken) DBError)
           (thenS (modS (\<lambda>d. d\<lparr>t_enrollments := t_enrollments d @ [r]\<rparr>))
           (returnS \<lparr>ev_enrollment = eid, ev_code = code, ev_poll = poll, ev_fingerprint = key_fingerprint E key,
                     ev_expires = timestamp E expiry\<rparr>))))))))"

record enrollment_status =
  es_state :: enrollment_state
  es_node :: "string option"
  es_expires :: string

definition pollEnrollment :: "env \<Rightarrow> string \<Rightarrow> string \<Rightarrow> enrollment_status dbact" where
  "pollEnrollment E eid poll =
     oneS (\<lambda>d. map_option (\<lambda>n. \<lparr>es_state = (if el_state n = Enroll_pending \<and> el_expires n \<le> dbnow E then Enroll_expired
                                        else el_state n), es_node = el_node n, es_expires = pg_time E (el_expires n)\<rparr>)
       (find (\<lambda>n. el_id n = eid \<and> el_poll_hash n = token_hash E poll) (t_enrollments d)))"

record pair_preview =
  pp_ticket :: string
  pp_name :: string
  pp_platform :: string
  pp_fingerprint :: string
  pp_expires :: string

definition preview :: "env \<Rightarrow> string \<Rightarrow> string \<Rightarrow> pair_preview gwact" where
  "preview E uid code =
     bindS (rateS E (''pair-preview:'' @ uid) 5) (\<lambda>allowed.
     thenS (guardS allowed (apierr 429 RATE_LIMITED))
     (bindS (dbS (getS (\<lambda>d. find (\<lambda>n. el_code_hash n = vt_digest (vault_of E) ''pair-code'' code
                  \<and> el_state n = Enroll_pending \<and> el_expires n > now E) (t_enrollments d)))) (\<lambda>n.
      case n of
        None \<Rightarrow> failS (apierr 410 PAIRING_INVALID)
      | Some n \<Rightarrow>
          dbS (bindS (new_id E ''ticket'') (\<lambda>ticket.
            bindS (getS (\<lambda>d. has_row (\<lambda>k. tk_id k = ticket) (t_tickets d))) (\<lambda>taken.
            thenS (guardS (\<not> taken) DBError)
            (thenS (modS (\<lambda>d. d\<lparr>t_tickets := t_tickets d @ [\<lparr>tk_id = ticket, tk_enrollment = el_id n, tk_user = uid,
                 tk_expires = el_expires n, tk_consumed = None\<rparr>]\<rparr>))
            (returnS \<lparr>pp_ticket = ticket, pp_name = el_name n, pp_platform = el_platform n,
                      pp_fingerprint = key_fingerprint E (el_key n), pp_expires = timestamp E (el_expires n)\<rparr>))))))))"

section \<open>Proving a device's identity\<close>

text \<open>A device that is not revoked, by anyone.\<close>

definition live_node :: "db \<Rightarrow> string \<Rightarrow> bool" where
  "live_node d nid \<longleftrightarrow>
     has_row (\<lambda>n. nd_id n = nid \<and> nd_revoked n = None) (t_nodes d)
     \<and> has_row (\<lambda>a. ac_node a = nid \<and> ac_revoked a = None) (t_access d)"

record node_challenge =
  nh_id :: string
  nh_input :: string
  nh_expires :: string

definition signing_input :: "env \<Rightarrow> string \<Rightarrow> string \<Rightarrow> string \<Rightarrow> int \<Rightarrow> string" where
  "signing_input E nid cid nonce expiry =
     (let nl = [char_of (10 :: nat)] in
      ''weagent-node-auth/v1'' @ nl @ nid @ nl @ cid @ nl @ nonce @ nl @ timestamp E expiry)"

definition challenge :: "env \<Rightarrow> string \<Rightarrow> node_challenge dbact" where
  "challenge E nid =
     bindS (getS (\<lambda>d. live_node d nid)) (\<lambda>found.
     thenS (guardS found notFound)
     (bindS (new_id E ''challenge'') (\<lambda>cid.
      bindS (drawS (vt_secret (vault_of E))) (\<lambda>nonce.
      let expiry = now E + minute; input = signing_input E nid cid nonce expiry in
      bindS (getS (\<lambda>d. has_row (\<lambda>c. cl_id c = cid) (t_challenges d))) (\<lambda>taken.
      thenS (guardS (\<not> taken) DBError)
      (thenS (modS (\<lambda>d. d\<lparr>t_challenges := t_challenges d @ [\<lparr>cl_id = cid, cl_node = nid,
           cl_nonce_hash = token_hash E nonce, cl_input = input, cl_expires = expiry, cl_consumed = None\<rparr>]\<rparr>))
      (returnS \<lparr>nh_id = cid, nh_input = input, nh_expires = timestamp E expiry\<rparr>)))))))"

text \<open>The challenge that can still be answered, with its device.\<close>

definition open_challenge :: "env \<Rightarrow> string \<Rightarrow> db \<Rightarrow> (challenge_row \<times> node_row) option" where
  "open_challenge E cid d =
     (case find (\<lambda>c. cl_id c = cid) (t_challenges d) of
        None \<Rightarrow> None
      | Some c \<Rightarrow>
          (if cl_consumed c = None \<and> cl_expires c > now E \<and> live_node d (cl_node c)
           then map_option (\<lambda>n. (c, n)) (find (\<lambda>n. nd_id n = cl_node c) (t_nodes d)) else None))"

record node_token =
  nt_token :: string
  nt_token_expires :: string

definition insert_node_token :: "node_token_row \<Rightarrow> unit dbact" where
  "insert_node_token r =
     bindS (getS (\<lambda>d. has_row (\<lambda>t. nk_hash t = nk_hash r) (t_node_tokens d))) (\<lambda>taken.
     thenS (guardS (\<not> taken) DBError) (modS (\<lambda>d. d\<lparr>t_node_tokens := t_node_tokens d @ [r]\<rparr>)))"

text \<open>The transaction: the challenge is used up and the token stored.\<close>

definition answer_challenge :: "env \<Rightarrow> string \<Rightarrow> string \<Rightarrow> string \<Rightarrow> int \<Rightarrow> unit dbact" where
  "answer_challenge E cid sig token expiry =
     bindS (getS (open_challenge E cid)) (\<lambda>found.
     case found of
       None \<Rightarrow> failS (apierr 401 UNAUTHENTICATED)
     | Some (c, n) \<Rightarrow>
         thenS (guardS (vt_verify (vault_of E) (nd_key n) (cl_input c) sig) (apierr 401 UNAUTHENTICATED))
         (thenS (modS (\<lambda>d. d\<lparr>t_challenges := upd_rows (\<lambda>x. cl_id x = cid)
             (\<lambda>x. x\<lparr>cl_consumed := Some (now E)\<rparr>) (t_challenges d)\<rparr>))
         (insert_node_token \<lparr>nk_hash = token_hash E token, nk_node = nd_id n, nk_credential = nd_credential n,
            nk_expires = expiry, nk_revoked = None\<rparr>)))"

definition prove :: "env \<Rightarrow> node_proof \<Rightarrow> node_token dbact" where
  "prove E b =
     (case std_decode (pf_signature b) of
        None \<Rightarrow> failS invalid
      | Some sig \<Rightarrow>
          bindS (drawS (vt_secret (vault_of E))) (\<lambda>token.
          let expiry = now E + cf_node_ttl (cfg E) in
          thenS (transaction [] (answer_challenge E (pf_challenge b) sig token expiry))
          (returnS \<lparr>nt_token = token, nt_token_expires = timestamp E expiry\<rparr>)))"

section \<open>Commands of the user on a device or a notice\<close>

datatype local_command = Lc_confirm string | Lc_revoke string | Lc_read string

fun local_kind :: "local_command \<Rightarrow> op_kind" where
  "local_kind (Lc_confirm t) = K_pair"
| "local_kind (Lc_revoke n) = K_revoke"
| "local_kind (Lc_read n) = K_mark_read"

definition emptyResult :: op_result where
  "emptyResult = \<lparr>or_session = None, or_turn = None, or_request = None, or_node = None, or_queue_item = None,
     or_native = None\<rparr>"

text \<open>The ticket of a user with the enrolment it previews.\<close>

definition find_ticket :: "db \<Rightarrow> string \<Rightarrow> string \<Rightarrow> (ticket_row \<times> enrollment_row) option" where
  "find_ticket d uid tid =
     (case find (\<lambda>k. tk_id k = tid) (t_tickets d) of
        None \<Rightarrow> None
      | Some k \<Rightarrow> (if tk_user k = uid
                   then map_option (\<lambda>n. (k, n)) (find (\<lambda>n. el_id n = tk_enrollment k) (t_enrollments d)) else None))"

definition insert_node :: "env \<Rightarrow> enrollment_row \<Rightarrow> string \<Rightarrow> string \<Rightarrow> unit dbact" where
  "insert_node E n uid nid =
     bindS (getS (\<lambda>d. has_row (\<lambda>x. nd_id x = nid \<or> nd_key x = el_key n) (t_nodes d)
                 \<or> has_row (\<lambda>a. ac_node a = nid) (t_access d))) (\<lambda>taken.
     thenS (guardS (\<not> taken) DBError)
     (modS (\<lambda>d. d\<lparr>
        t_nodes := t_nodes d @ [\<lparr>nd_id = nid, nd_key = el_key n, nd_name = el_name n, nd_platform = el_platform n,
          nd_version = el_version n, nd_epoch = 0, nd_credential = 1, nd_revision = 1, nd_last_seen = None,
          nd_revoked = None, nd_created = dbnow E\<rparr>],
        t_access := t_access d @ [\<lparr>ac_user = uid, ac_node = nid, ac_revoked = None\<rparr>]\<rparr>)))"

definition confirm_pairing :: "env \<Rightarrow> string \<Rightarrow> string \<Rightarrow> string dbact" where
  "confirm_pairing E uid tid =
     bindS (getS (\<lambda>d. find_ticket d uid tid)) (\<lambda>found.
     case found of
       None \<Rightarrow> failS notFound
     | Some (k, n) \<Rightarrow>
         thenS (guardS (min (el_expires n) (tk_expires k) > now E) (apierr 410 PAIRING_INVALID))
         (thenS (guardS (el_state n = Enroll_pending \<and> tk_consumed k = None) (apierr 409 PAIRING_CONFLICT))
         (bindS (getS (\<lambda>d. has_row (\<lambda>x. nd_key x = el_key n) (t_nodes d))) (\<lambda>exists.
          thenS (guardS (\<not> exists) (apierr 409 PAIRING_CONFLICT))
          (bindS (new_id E ''node'') (\<lambda>nid.
           thenS (insert_node E n uid nid)
           (thenS (modS (\<lambda>d. d\<lparr>
               t_enrollments := upd_rows (\<lambda>x. el_id x = el_id n)
                 (\<lambda>x. x\<lparr>el_state := Enroll_confirmed, el_node := Some nid\<rparr>) (t_enrollments d),
               t_tickets := upd_rows (\<lambda>x. tk_id x = tid) (\<lambda>x. x\<lparr>tk_consumed := Some (now E)\<rparr>) (t_tickets d)\<rparr>))
           (thenS (change E uid Rt_node nid Upsert 1) (returnS nid)))))))))"

definition revoke_node :: "env \<Rightarrow> string \<Rightarrow> string \<Rightarrow> string dbact" where
  "revoke_node E uid nid =
     bindS (ownNode uid nid True) (\<lambda>_.
     bindS (oneS (\<lambda>d. find (\<lambda>n. nd_id n = nid) (t_nodes d))) (\<lambda>n.
     thenS (guardS (nd_epoch n + 1 \<le> max_safe) DBError)
     (thenS (modS (\<lambda>d. d\<lparr>
        t_nodes := upd_rows (\<lambda>n. nd_id n = nid)
          (\<lambda>n. n\<lparr>nd_revoked := (case nd_revoked n of None \<Rightarrow> Some (now E) | Some t \<Rightarrow> Some t),
                 nd_credential := nd_credential n + 1, nd_epoch := nd_epoch n + 1, nd_revision := nd_revision n + 1\<rparr>)
          (t_nodes d),
        t_access := upd_rows (\<lambda>a. ac_node a = nid)
          (\<lambda>a. a\<lparr>ac_revoked := (case ac_revoked a of None \<Rightarrow> Some (now E) | Some t \<Rightarrow> Some t)\<rparr>) (t_access d),
        t_pushes := upd_rows (\<lambda>p. pu_state p = Push_pending \<and>
            has_row (\<lambda>m. nt_id m = pu_notice p \<and>
              has_row (\<lambda>s. nt_session m = Some (se_id s) \<and> se_node s = nid) (t_sessions d)) (t_notices d))
          (\<lambda>p. p\<lparr>pu_state := Push_failed\<rparr>) (t_pushes d),
        t_node_tokens := upd_rows (\<lambda>t. nk_node t = nid) (\<lambda>t. t\<lparr>nk_revoked := Some (now E)\<rparr>) (t_node_tokens d)\<rparr>))
     (thenS (change E uid Rt_node nid Remove (nd_revision n + 1)) (returnS nid)))))"

definition own_notice :: "db \<Rightarrow> string \<Rightarrow> notice_row \<Rightarrow> bool" where
  "own_notice d uid n \<longleftrightarrow> nt_user n = uid \<and>
     (case nt_session n of
        None \<Rightarrow> True
      | Some sid \<Rightarrow> (case find_session d sid of
                       None \<Rightarrow> False | Some s \<Rightarrow> se_user s = uid \<and> accessible d uid (se_node s)))"

definition mark_read :: "env \<Rightarrow> string \<Rightarrow> string \<Rightarrow> string dbact" where
  "mark_read E uid target =
     bindS (oneS (\<lambda>d. find (\<lambda>n. nt_id n = target \<and> own_notice d uid n) (t_notices d))) (\<lambda>n.
     thenS (modS (\<lambda>d. d\<lparr>t_notices := upd_rows (\<lambda>n. nt_id n = target)
        (\<lambda>n. n\<lparr>nt_read := (case nt_read n of None \<Rightarrow> Some (now E) | Some t \<Rightarrow> Some t), nt_revision := nt_revision n + 1\<rparr>)
        (t_notices d)\<rparr>))
     (thenS (change E uid Rt_notification target Upsert (nt_revision n + 1)) (returnS [])))"

fun local_effect :: "env \<Rightarrow> string \<Rightarrow> local_command \<Rightarrow> string dbact" where
  "local_effect E uid (Lc_confirm ticket) = confirm_pairing E uid ticket"
| "local_effect E uid (Lc_revoke nid) = revoke_node E uid nid"
| "local_effect E uid (Lc_read target) = mark_read E uid target"

definition drop_node :: "string \<Rightarrow> string \<Rightarrow> gw \<Rightarrow> gw" where
  "drop_node uid nid g = g\<lparr>
     g_nodes := filter (\<lambda>(k, p). k \<noteq> nid) (g_nodes g),
     g_clients := map (\<lambda>(k, p). (k, if pr_user p = uid then stop p else p)) (g_clients g)\<rparr>"

definition localCommand :: "env \<Rightarrow> string \<Rightarrow> string \<Rightarrow> fingerprint \<Rightarrow> local_command \<Rightarrow> op_row gwact" where
  "localCommand E uid op fp c =
     bindS (dbS (priorOp E uid op fp)) (\<lambda>prior.
     case prior of
       Some r \<Rightarrow> returnS r
     | None \<Rightarrow>
         thenS (dbS (transaction uid
           (bindS (local_effect E uid c) (\<lambda>nid.
            thenS (insertOp E uid op (local_kind c) nid [] [] 0 fp None (now E))
            (thenS (finishOp E uid op Op_confirmed (Some (emptyResult\<lparr>or_node := nullString nid\<rparr>)) None)
            (audit E uid op (Audit_op (local_kind c)) Op_confirmed nid []))))))
         (thenS (case c of
                   Lc_revoke nid \<Rightarrow> thenS (modS (drop_node uid nid)) (dbS (invalidateNodeOperations E uid nid))
                 | _ \<Rightarrow> returnS ())
         (dbS (operation uid op))))"

section \<open>The invariant of the database\<close>

lemma logs_insert_user [logs_rules]: "preserves (store_ok T) (insert_user E uid subject name)"
  by (rule preservesI)
    (auto simp: insert_user_def run_iff store_ok_def logs_ok_def has_row_iff intro!: changes_inv_new split: if_splits)

lemma logs_login [logs_rules]: "keeps (store_ok (dbnow E)) (login E identity name)"
  unfolding login_def Let_def userJSON_def insert_user_token_def retainSubscriptionIdentity_def
  by (intro logs_rules keeps_rules logs_write logs_write_pre) simp_all

lemma logs_logout [logs_rules]: "keeps (gstore_ok T) (logout E header)"
  unfolding logout_def Let_def by (intro logs_rules keeps_rules logs_write) simp_all

lemma logs_enroll [logs_rules]: "keeps (store_ok T) (enroll E b)"
proof -
  have "keeps (store_ok T) (draw_code E)" by (simp add: keeps_def draw_code_def split: prod.split)
  then show ?thesis unfolding enroll_def Let_def by (intro logs_rules keeps_rules logs_write) simp_all
qed

lemma logs_pollEnrollment [logs_rules]: "keeps (store_ok T) (pollEnrollment E eid poll)"
  unfolding pollEnrollment_def by (intro logs_rules keeps_rules)

lemma logs_preview [logs_rules]: "keeps (gstore_ok (dbnow E)) (preview E uid code)"
  unfolding preview_def by (intro logs_rules keeps_rules logs_write) simp_all

lemma logs_challenge [logs_rules]: "keeps (store_ok T) (challenge E nid)"
  unfolding challenge_def Let_def by (intro logs_rules keeps_rules logs_write) simp_all

lemma logs_prove [logs_rules]: "keeps (store_ok T) (prove E b)"
  unfolding prove_def answer_challenge_def Let_def insert_node_token_def by (intro logs_rules keeps_rules logs_write logs_write_pre) simp_all

lemma logs_local_effect [logs_rules]: "preserves (store_ok (dbnow E)) (local_effect E uid c)"
  by (cases c)
    (auto simp: confirm_pairing_def insert_node_def revoke_node_def mark_read_def ownNode_def
      intro!: logs_rules keeps_rules logs_write_pre)

lemma logs_localCommand [logs_rules]: "keeps (gstore_ok (dbnow E)) (localCommand E uid op fp c)"
proof -
  have after: "keeps (gstore_ok (dbnow E)) (case c of
                   Lc_revoke nid \<Rightarrow> thenS (modS (drop_node uid nid)) (dbS (invalidateNodeOperations E uid nid))
                 | _ \<Rightarrow> returnS ())"
    by (cases c) (auto simp: drop_node_def intro!: logs_rules keeps_rules)
  show ?thesis
    unfolding localCommand_def priorOp_def operation_def by (intro logs_rules keeps_rules after)
qed

end
