(* ===== verification/Pairing_Spec.thy ===== *)
theory Pairing_Spec
  imports Pairing Frames
begin

text \<open>
  What the pairing of a device and the proof of its key promise: a key is paired once, a challenge is
  answered once.
\<close>

section \<open>Pairing\<close>

definition paired_node :: "env \<Rightarrow> enrollment_row \<Rightarrow> string \<Rightarrow> node_row" where
  "paired_node E n nid = \<lparr>nd_id = nid, nd_key = el_key n, nd_name = el_name n, nd_platform = el_platform n,
     nd_version = el_version n, nd_epoch = 0, nd_credential = 1, nd_revision = 1, nd_last_seen = None, nd_revoked = None,
     nd_created = dbnow E\<rparr>"

lemma insert_node_Inr:
  "insert_node E n uid nid d = (Inr x, t) \<longleftrightarrow>
     \<not> has_row (\<lambda>x. nd_id x = nid \<or> nd_key x = el_key n) (t_nodes d) \<and> \<not> has_row (\<lambda>a. ac_node a = nid) (t_access d)
     \<and> t = d\<lparr>t_nodes := t_nodes d @ [paired_node E n nid],
             t_access := t_access d @ [\<lparr>ac_user = uid, ac_node = nid, ac_revoked = None\<rparr>]\<rparr>"
  by (auto simp: insert_node_def run_iff paired_node_def)

lemma confirm_pairing_Inr:
  assumes "confirm_pairing E uid tid d = (Inr nid, t)"
  obtains k n where "find_ticket d uid tid = Some (k, n)" and "now E < el_expires n" and "now E < tk_expires k"
    and "el_state n = Enroll_pending" and "tk_consumed k = None" and "\<forall>x\<in>set (t_nodes d). nd_key x \<noteq> el_key n"
    and "t_nodes t = t_nodes d @ [paired_node E n nid]"
    and "t_access t = t_access d @ [\<lparr>ac_user = uid, ac_node = nid, ac_revoked = None\<rparr>]"
    and "\<forall>x\<in>set (t_nodes d). nd_id x \<noteq> nid" and "\<forall>a\<in>set (t_access d). ac_node a \<noteq> nid"
proof -
  from assms obtain k n where f: "find_ticket d uid tid = Some (k, n)"
    by (auto simp: confirm_pairing_def bindS_get failS_iff split: option.splits)
  with assms obtain d1 d2 d3 where new: "new_id E ''node'' d = (Inr nid, d1)" and ins: "insert_node E n uid nid d1 = (Inr (), d2)"
    and c: "change E uid Rt_node nid Upsert 1 d3 = (Inr (), t)"
    and d3: "d3 = d2\<lparr>t_enrollments := upd_rows (\<lambda>x. el_id x = el_id n)
                 (\<lambda>x. x\<lparr>el_state := Enroll_confirmed, el_node := Some nid\<rparr>) (t_enrollments d2),
               t_tickets := upd_rows (\<lambda>x. tk_id x = tid) (\<lambda>x. x\<lparr>tk_consumed := Some (now E)\<rparr>) (t_tickets d2)\<rparr>"
    and g: "now E < el_expires n" "now E < tk_expires k" "el_state n = Enroll_pending" "tk_consumed k = None"
      "\<not> has_row (\<lambda>x. nd_key x = el_key n) (t_nodes d)"
    by (auto simp: confirm_pairing_def bindS_get bindS_Inr thenS_Inr guardS_Inr modS_iff returnS_iff)
  have "t_nodes t = t_nodes d3" "t_access t = t_access d3" using coreD [OF core_change c] by (simp_all add: core_eq)
  moreover have "t_nodes d1 = t_nodes d" "t_access d1 = t_access d" using new by (auto simp: new_id_iff)
  ultimately show ?thesis
    using that [OF f g(1-4)] g(5) ins d3 by (auto simp: insert_node_Inr has_row_iff)
qed

text \<open>
  C20: a pairing that is confirmed was previewed by the same user: the ticket is theirs, unused and
  unexpired, and so is the enrolment; no device had its key. The user gets sole access to the new device.
  The key is then taken for good: while the device is on record, nobody can confirm any ticket for an
  enrolment of that key.
\<close>

theorem pairing_once:
  assumes "confirm_pairing E uid tid d = (Inr nid, t)"
  shows "\<exists>k n. find_ticket d uid tid = Some (k, n) \<and> tk_user k = uid
    \<and> now E < el_expires n \<and> now E < tk_expires k \<and> el_state n = Enroll_pending \<and> tk_consumed k = None
    \<and> t_nodes t = t_nodes d @ [paired_node E n nid]
    \<and> filter (\<lambda>a. ac_node a = nid) (t_access t) = [\<lparr>ac_user = uid, ac_node = nid, ac_revoked = None\<rparr>]
    \<and> (\<forall>F v tid' s k' n' x s'. nd_key ` set (t_nodes t) \<subseteq> nd_key ` set (t_nodes s) \<longrightarrow>
         find_ticket s v tid' = Some (k', n') \<longrightarrow> el_key n' = el_key n \<longrightarrow>
         confirm_pairing F v tid' s = (x, s') \<longrightarrow> (\<exists>e. x = Inl e))"
  using assms
proof (rule confirm_pairing_Inr)
  fix k n
  assume f: "find_ticket d uid tid = Some (k, n)" and g: "now E < el_expires n" "now E < tk_expires k"
      "el_state n = Enroll_pending" "tk_consumed k = None"
    and nodes: "t_nodes t = t_nodes d @ [paired_node E n nid]"
    and acc: "t_access t = t_access d @ [\<lparr>ac_user = uid, ac_node = nid, ac_revoked = None\<rparr>]"
    and old: "\<forall>a\<in>set (t_access d). ac_node a \<noteq> nid"
  have user: "tk_user k = uid" using f by (auto simp: find_ticket_def split: option.splits if_splits)
  have sole: "filter (\<lambda>a. ac_node a = nid) (t_access t) = [\<lparr>ac_user = uid, ac_node = nid, ac_revoked = None\<rparr>]"
    using acc old by (simp add: filter_empty_conv)
  have taken: "\<exists>e. x = Inl e"
    if keys: "nd_key ` set (t_nodes t) \<subseteq> nd_key ` set (t_nodes s)" and f': "find_ticket s v tid' = Some (k', n')"
      and key: "el_key n' = el_key n" and run: "confirm_pairing F v tid' s = (x, s')"
    for F v tid' s k' n' x s'
  proof (cases x)
    case (Inr nid')
    have "el_key n \<in> nd_key ` set (t_nodes t)" unfolding nodes by (simp add: paired_node_def)
    then have "el_key n' \<in> nd_key ` set (t_nodes s)" using keys key by auto
    then show ?thesis using run [unfolded Inr] f' by (auto elim!: confirm_pairing_Inr)
  qed simp
  show ?thesis
    by (rule exI, rule exI, intro conjI, rule f, rule user, (rule g)+, rule nodes, rule sole,
      intro allI impI, rule taken)
qed

definition enrollment0 :: enrollment_row where
  "enrollment0 = \<lparr>el_id = ''e'', el_key = ''key'', el_code_hash = ''c'', el_poll_hash = ''q'', el_name = ''box'',
     el_platform = ''linux'', el_version = ''1'', el_state = Enroll_pending, el_node = None, el_expires = 300\<rparr>"

definition ticket0 :: ticket_row where
  "ticket0 = \<lparr>tk_id = ''t'', tk_enrollment = ''e'', tk_user = ''u'', tk_expires = 300, tk_consumed = None\<rparr>"

definition sample_pairing :: "(err + string) \<times> db" where
  "sample_pairing = confirm_pairing env0 ''u'' ''t'' (db0\<lparr>t_enrollments := [enrollment0], t_tickets := [ticket0]\<rparr>)"

lemma sample_pairing_eq: "fst sample_pairing = Inr ''node_''"
  by (simp add: sample_pairing_def confirm_pairing_def find_ticket_def ticket0_def enrollment0_def insert_node_def
      change_def new_id_def has_row_def max_safe_def Let_def run_simps sample_defs)

theorem pairing_once_witness:
  "length (t_nodes (snd sample_pairing)) = 2"
proof -
  have "confirm_pairing env0 ''u'' ''t'' (db0\<lparr>t_enrollments := [enrollment0], t_tickets := [ticket0]\<rparr>)
      = (Inr ''node_'', snd sample_pairing)" using sample_pairing_eq by (simp add: sample_pairing_def prod_eq_iff)
  from pairing_once [OF this] show ?thesis by (auto simp: db0_def)
qed

section \<open>Proof of a key\<close>

text \<open>
  What happens to the challenges later: new ones are issued (with random identifiers, from the numbers \<open>R\<close>),
  answered, and removed; other code leaves them alone.
\<close>

inductive answering :: "(nat \<Rightarrow> string) \<Rightarrow> db \<Rightarrow> db \<Rightarrow> bool" for R t where
  here: "answering R t t"
| issue: "answering R t s \<Longrightarrow> rnd E = R \<Longrightarrow> challenge E nid s = (r, u) \<Longrightarrow> answering R t u"
| answer: "answering R t s \<Longrightarrow> prove E b s = (r, u) \<Longrightarrow> answering R t u"
| other: "answering R t s \<Longrightarrow> entropy s \<le> entropy u \<Longrightarrow> set (t_challenges u) \<subseteq> set (t_challenges s) \<Longrightarrow> answering R t u"

definition challenge_id :: "(nat \<Rightarrow> string) \<Rightarrow> nat \<Rightarrow> string" where
  "challenge_id R n = ''challenge'' @ ''_'' @ R n"

text \<open>The identifiers of the challenges come from the numbers that were drawn.\<close>

definition challenges_drawn :: "(nat \<Rightarrow> string) \<Rightarrow> db \<Rightarrow> bool" where
  "challenges_drawn R d \<longleftrightarrow> (\<forall>c\<in>set (t_challenges d). \<exists>m<entropy d. cl_id c = challenge_id R m)"

text \<open>A challenge that is used up: no row of its name is open, and no new row gets its name.\<close>

definition used_up :: "(nat \<Rightarrow> string) \<Rightarrow> string \<Rightarrow> db \<Rightarrow> bool" where
  "used_up R cid d \<longleftrightarrow> (\<exists>m<entropy d. cid = challenge_id R m) \<and>
     (\<forall>c\<in>set (t_challenges d). cl_id c = cid \<longrightarrow> cl_consumed c \<noteq> None)"

lemma used_up_less:
  "used_up R cid d \<Longrightarrow> entropy d \<le> entropy t \<Longrightarrow> set (t_challenges t) \<subseteq> set (t_challenges d) \<Longrightarrow> used_up R cid t"
  by (auto simp: used_up_def intro: less_le_trans)

lemma used_up_issue:
  assumes "inj R" and "rnd E = R" and "challenge E nid d = (r, t)" and "used_up R cid d"
  shows "used_up R cid t"
proof -
  have new: "challenge_id R (entropy d) \<noteq> cid" using assms(1,4) by (auto simp: used_up_def challenge_id_def dest: injD)
  have "entropy d \<le> entropy t \<and> (\<forall>c\<in>set (t_challenges t). c \<in> set (t_challenges d) \<or> cl_id c = challenge_id R (entropy d))"
    using assms(2,3)
    by (auto simp: challenge_def Let_def challenge_id_def drawS_def bindS_run thenS_run getS_run guardS_run new_id_run modS_run
        returnS_run failS_run split: if_splits)
  then show ?thesis using assms(4) new by (auto simp: used_up_def intro: less_le_trans)
qed

text \<open>What \<open>prove\<close> does: nothing but draw a token, or use up the challenge.\<close>

lemma answer_challenge_Inr:
  assumes "answer_challenge E cid sig token expiry d = (Inr x, t)"
  obtains c n where "open_challenge E cid d = Some (c, n)" and "vt_verify (vault_of E) (nd_key n) (cl_input c) sig"
    and "t = d\<lparr>t_challenges := upd_rows (\<lambda>x. cl_id x = cid) (\<lambda>x. x\<lparr>cl_consumed := Some (now E)\<rparr>) (t_challenges d),
        t_node_tokens := t_node_tokens d @ [\<lparr>nk_hash = token_hash E token, nk_node = nd_id n,
         nk_credential = nd_credential n, nk_expires = expiry, nk_revoked = None\<rparr>]\<rparr>"
  using assms
  by (auto simp: answer_challenge_def insert_node_token_def bindS_Inr thenS_Inr guardS_Inr getS_iff modS_iff failS_iff
      split: option.splits)

lemma answer_challenge_entropy: "keeps (\<lambda>d. entropy d = n) (answer_challenge E cid sig token expiry)"
  unfolding answer_challenge_def insert_node_token_def by (intro keeps_rules keeps_mod) simp_all

lemma prove_cases:
  assumes "prove E b d = (r, t)"
  obtains (failed) "entropy d \<le> entropy t" "t_challenges t = t_challenges d" "isl r"
  | (proved) tok c n sig where "r = Inr tok" "std_decode (pf_signature b) = Some sig"
      "open_challenge E (pf_challenge b) (d\<lparr>entropy := entropy d + 1\<rparr>) = Some (c, n)"
      "vt_verify (vault_of E) (nd_key n) (cl_input c) sig"
      "t = d\<lparr>entropy := entropy d + 1,
        t_challenges := upd_rows (\<lambda>x. cl_id x = pf_challenge b) (\<lambda>x. x\<lparr>cl_consumed := Some (now E)\<rparr>) (t_challenges d),
        t_node_tokens := t_node_tokens d @ [\<lparr>nk_hash = token_hash E (nt_token tok), nk_node = nd_id n,
         nk_credential = nd_credential n, nk_expires = now E + cf_node_ttl (cfg E), nk_revoked = None\<rparr>]\<rparr>"
proof (cases "std_decode (pf_signature b)")
  case None
  then have "t = d \<and> isl r" using assms by (auto simp: prove_def failS_run)
  then show ?thesis using failed by simp
next
  case (Some sig)
  let ?d = "d\<lparr>entropy := entropy d + 1\<rparr>" and ?token = "vt_secret (vault_of E) (entropy d)"
  let ?expiry = "now E + cf_node_ttl (cfg E)"
  obtain q u where a: "answer_challenge E (pf_challenge b) sig ?token ?expiry ?d = (q, u)"
    by (cases "answer_challenge E (pf_challenge b) sig ?token ?expiry ?d")
  have run: "prove E b d = thenS (transaction [] (answer_challenge E (pf_challenge b) sig ?token ?expiry))
      (returnS \<lparr>nt_token = ?token, nt_token_expires = timestamp E ?expiry\<rparr>) ?d"
    using Some by (simp add: prove_def drawS_def bindS_run Let_def)
  show ?thesis
  proof (cases q)
    case (Inl e)
    have "entropy u = entropy ?d" using keepsD [OF answer_challenge_entropy a] by simp
    then have "t = ?d \<and> isl r" using assms run a Inl by (auto simp: transaction_def bindS_run thenS_run)
    then show ?thesis using failed by simp
  next
    case (Inr x)
    then have r: "r = Inr \<lparr>nt_token = ?token, nt_token_expires = timestamp E ?expiry\<rparr>" "t = u"
      using assms run a by (auto simp: transaction_def bindS_run thenS_run returnS_run)
    from answer_challenge_Inr [OF a [unfolded Inr]] obtain c n where "open_challenge E (pf_challenge b) ?d = Some (c, n)"
      and "vt_verify (vault_of E) (nd_key n) (cl_input c) sig"
      and "u = ?d\<lparr>t_challenges := upd_rows (\<lambda>x. cl_id x = pf_challenge b) (\<lambda>x. x\<lparr>cl_consumed := Some (now E)\<rparr>) (t_challenges ?d),
        t_node_tokens := t_node_tokens ?d @ [\<lparr>nk_hash = token_hash E ?token, nk_node = nd_id n,
         nk_credential = nd_credential n, nk_expires = ?expiry, nk_revoked = None\<rparr>]\<rparr>" by blast
    then show ?thesis using proved [OF r(1) Some] r(2) by simp
  qed
qed

lemma used_up_answer: "prove E b d = (r, t) \<Longrightarrow> used_up R cid d \<Longrightarrow> used_up R cid t"
  by (erule prove_cases) (auto simp: used_up_def set_upd_rows intro: less_le_trans less_SucI exI)

lemma used_up_later:
  assumes "answering R t s" and "inj R" and "used_up R cid t"
  shows "used_up R cid s"
  using assms(1,3)
proof induction
  case (issue s E nid r u)
  then show ?case using used_up_issue assms(2) by blast
next
  case (answer s E b r u)
  then show ?case using used_up_answer by blast
next
  case (other s u)
  then show ?case using used_up_less by blast
qed

lemma used_up_refused: "used_up R (pf_challenge b) d \<Longrightarrow> prove E b d = (r, t) \<Longrightarrow> isl r"
  by (erule prove_cases) (auto simp: used_up_def open_challenge_def split: option.splits if_splits dest!: find_SomeD)

text \<open>
  C21: a device gets a token only for a signature that verifies, under the key it was paired with, what
  the challenge asked to be signed; the challenge had not expired or been answered before, and the device
  and its owner's access are not revoked. The token names that device and its current credential. The
  challenge is used up: whatever challenges are issued, answered and removed later, by anybody and at any time, no
  answer to it is accepted again (random identifiers do not repeat).
\<close>

theorem challenge_once:
  assumes "prove E b d = (Inr tok, t)"
  shows "\<exists>c n sig. find (\<lambda>c. cl_id c = pf_challenge b) (t_challenges d) = Some c \<and> cl_consumed c = None \<and> now E < cl_expires c
    \<and> find (\<lambda>n. nd_id n = cl_node c) (t_nodes d) = Some n \<and> live_node d (nd_id n)
    \<and> std_decode (pf_signature b) = Some sig \<and> vt_verify (vault_of E) (nd_key n) (cl_input c) sig
    \<and> t_node_tokens t = t_node_tokens d @ [\<lparr>nk_hash = token_hash E (nt_token tok), nk_node = nd_id n,
         nk_credential = nd_credential n, nk_expires = now E + cf_node_ttl (cfg E), nk_revoked = None\<rparr>]
    \<and> (\<forall>R s F b' x s'. inj R \<longrightarrow> challenges_drawn R d \<longrightarrow> answering R t s \<longrightarrow> pf_challenge b' = pf_challenge b \<longrightarrow>
         prove F b' s = (x, s') \<longrightarrow> (\<exists>e. x = Inl e))"
  using assms
proof (cases rule: prove_cases)
  case (proved tok' c n sig)
  have c: "find (\<lambda>c. cl_id c = pf_challenge b) (t_challenges d) = Some c" "cl_consumed c = None" "now E < cl_expires c"
    and n: "find (\<lambda>n. nd_id n = cl_node c) (t_nodes d) = Some n" "live_node d (cl_node c)"
    using proved(3) by (auto simp: open_challenge_def live_node_def split: option.splits if_splits)
  have "nd_id n = cl_node c" using find_SomeD [OF n(1)] by simp
  moreover have "\<exists>e. x = Inl e"
    if R: "inj R" "challenges_drawn R d" and later: "answering R t s" and b': "pf_challenge b' = pf_challenge b"
      and run: "prove F b' s = (x, s')" for R F b' s x s'
  proof -
    have "c \<in> set (t_challenges d)" "cl_id c = pf_challenge b" using find_SomeD [OF c(1)] by simp_all
    then obtain m where "m < entropy d" "pf_challenge b = challenge_id R m" using R(2) by (auto simp: challenges_drawn_def)
    then have "used_up R (pf_challenge b) t"
      by (auto simp: used_up_def proved(5) set_upd_rows intro!: exI [of _ m])
    then have "used_up R (pf_challenge b') s" using used_up_later [OF later R(1)] b' by simp
    then have "isl x" using run by (rule used_up_refused)
    then show ?thesis by (cases x) simp_all
  qed
  ultimately show ?thesis using proved(1,2,4,5) c n by (intro exI [of _ c] exI [of _ n] exI [of _ sig]) auto
qed simp

definition challenge0 :: challenge_row where
  "challenge0 = \<lparr>cl_id = ''challenge_'', cl_node = ''n'', cl_nonce_hash = [], cl_input = ''sign'', cl_expires = 150,
     cl_consumed = None\<rparr>"

definition proof0 :: node_proof where
  "proof0 = \<lparr>pf_challenge = ''challenge_'', pf_signature = []\<rparr>"

definition sample_proof :: "(err + node_token) \<times> db" where
  "sample_proof = prove env0 proof0 (db0\<lparr>t_challenges := [challenge0], entropy := 1\<rparr>)"

lemma decode_empty: "std_decode [] = Some []"
  by code_simp

lemma sample_proof_eq: "\<not> isl (fst sample_proof)"
  by (simp add: decode_empty sample_proof_def prove_def answer_challenge_def proof0_def challenge0_def open_challenge_def live_node_def drawS_def
      insert_node_token_def transaction_def has_row_def Let_def run_simps sample_defs)

text \<open>The challenge is answered, another one is issued, and the first is answered again.\<close>

theorem challenge_once_witness:
  "length (t_node_tokens (snd sample_proof)) = 1 \<and>
     isl (fst (prove env0 proof0 (snd (challenge env0 ''n'' (snd sample_proof)))))"
proof -
  obtain tok where "fst sample_proof = Inr tok" using sample_proof_eq by (cases "fst sample_proof") simp_all
  then have run: "prove env0 proof0 (db0\<lparr>t_challenges := [challenge0], entropy := 1\<rparr>) = (Inr tok, snd sample_proof)"
    by (simp add: sample_proof_def prod_eq_iff)
  have i: "inj (rnd env0)" by (rule injI) (simp add: env0_def)
  have drawn: "challenges_drawn (rnd env0) (db0\<lparr>t_challenges := [challenge0], entropy := 1\<rparr>)"
    by (simp add: challenges_drawn_def challenge_id_def challenge0_def env0_def)
  let ?s = "snd (challenge env0 ''n'' (snd sample_proof))"
  have later: "answering (rnd env0) (snd sample_proof) ?s"
    by (rule answering.issue [OF answering.here refl prod.collapse [symmetric]])
  have "length (t_node_tokens (snd sample_proof)) = 1"
    using challenge_once [OF run] by (elim exE conjE) (simp add: db0_def)
  moreover have "\<exists>e. fst (prove env0 proof0 ?s) = Inl e"
    using challenge_once [OF run] i drawn later prod.collapse [of "prove env0 proof0 ?s"] by (elim exE conjE) metis
  ultimately show ?thesis by auto
qed

end
