(* ===== verification/Subscriptions.thy ===== *)
theory Subscriptions
  imports Pairing
begin

text \<open>
  \<open>internal/gateway/subscriptions.go\<close>: the user's consent to one-time pushes, and the loop that delivers
  them. A push is reserved in a transaction, posted outside the mutex, and settled by what the push
  service answers; one whose answer is not known is never posted again.
\<close>

section \<open>Consent\<close>

record template_view =
  tv_id :: string
  tv_title :: string
  tv_kind :: notice_kind

definition subscriptionConfig :: "env \<Rightarrow> bool \<times> template_view list" where
  "subscriptionConfig E =
     (let enabled = subscriptions_enabled E in
      (enabled, if enabled then map (\<lambda>t. \<lparr>tv_id = st_id t, tv_title = st_title t, tv_kind = st_kind t\<rparr>)
                                  (cf_subscriptions (cfg E)) else []))"

text \<open>The insert of a decision, and its update of the one that is there.\<close>

definition fresh_consent :: "string \<Rightarrow> string \<Rightarrow> consent_decision \<Rightarrow> consent_row" where
  "fresh_consent uid key decision =
     \<lparr>cn_user = uid, cn_template = key, cn_credits = (if decision = Accept then 1 else 0), cn_decision = decision\<rparr>"

definition renew_consent :: "consent_decision \<Rightarrow> consent_row \<Rightarrow> consent_row" where
  "renew_consent decision c =
     c\<lparr>cn_credits := (if decision = Accept then min 100 (cn_credits c + 1) else 0), cn_decision := decision\<rparr>"

definition put_consent :: "string \<Rightarrow> string \<Rightarrow> consent_decision \<Rightarrow> consent_row list \<Rightarrow> consent_row list" where
  "put_consent uid key decision t =
     (if has_row (\<lambda>c. cn_user c = uid \<and> cn_template c = key) t
      then upd_rows (\<lambda>c. cn_user c = uid \<and> cn_template c = key) (renew_consent decision) t
      else t @ [fresh_consent uid key decision])"

definition decide_template :: "env \<Rightarrow> string \<Rightarrow> string \<times> consent_decision \<Rightarrow> string list \<Rightarrow> string list dbact" where
  "decide_template E uid choice seen =
     (let (key, decision) = choice in
      thenS (guardS (key \<in> st_id ` set (cf_subscriptions (cfg E)) \<and> key \<notin> set seen) invalid)
      (thenS (modS (\<lambda>d. d\<lparr>t_consents := put_consent uid key decision (t_consents d)\<rparr>))
      (thenS (if decision = Accept then returnS ()
              else modS (\<lambda>d. d\<lparr>t_pushes := upd_rows
                     (\<lambda>p. pu_user p = uid \<and> pu_template p = key \<and> pu_state p = Push_pending)
                     (\<lambda>p. p\<lparr>pu_state := Push_failed\<rparr>) (t_pushes d)\<rparr>))
      (returnS (key # seen)))))"

definition subscriptionConsent :: "env \<Rightarrow> string \<Rightarrow> string \<Rightarrow> fingerprint \<Rightarrow> consent_input \<Rightarrow> op_row dbact" where
  "subscriptionConsent E uid op fp b =
     bindS (priorOp E uid op fp) (\<lambda>prior.
     case prior of
       Some r \<Rightarrow> returnS r
     | None \<Rightarrow>
         thenS (guardS (fst (subscriptionConfig E)) (apierr 409 CAPABILITY_UNSUPPORTED))
         (thenS (guardS (co_nonce b = op) invalid)
         (thenS (transaction uid
           (bindS (getS (\<lambda>d. uid \<in> fst ` set (t_identities d))) (\<lambda>identity.
            thenS (guardS identity (apierr 409 READ_ONLY))
            (bindS (foldS (decide_template E uid) (co_choices b) []) (\<lambda>seen.
             thenS (insertOp E uid op K_subscribe [] [] [] 0 fp None (now E))
             (thenS (finishOp E uid op Op_confirmed (Some emptyResult) None)
             (audit E uid op (Audit_op K_subscribe) Op_confirmed [] [])))))))
         (operation uid op))))"

section \<open>The push service\<close>

text \<open>
  The access token of \<open>subscriptionHTTP\<close>, and the state that a delivery works on: the database, the token, and
  the messages that were handed to the push service, which no crash takes back. A round can fail, or the
  process can be killed in it.
\<close>

record sender =
  sd_token :: string
  sd_expires :: int

record delivery =
  dl_db :: db
  dl_sender :: sender
  dl_posted :: "(string \<times> string \<times> string) list"

datatype round_end = Failed err | Died

type_synonym 'a push_act = "(delivery, round_end, 'a) act"

definition storeS :: "'a dbact \<Rightarrow> 'a push_act" where
  "storeS m = (\<lambda>w. case m (dl_db w) of
     (Inl e, t) \<Rightarrow> (Inl (Failed e), w\<lparr>dl_db := t\<rparr>)
   | (Inr x, t) \<Rightarrow> (Inr x, w\<lparr>dl_db := t\<rparr>))"

text \<open>The places of a round at which the process may be killed are numbered.\<close>

definition aliveS :: "(nat \<Rightarrow> bool) \<Rightarrow> nat \<Rightarrow> unit push_act" where
  "aliveS dies k = guardS (\<not> dies k) Died"

text \<open>
  What \<open>post\<close> returns: nothing that can be read, or the members that are used. Of a token those are the
  token (empty when absent) and its seconds (0 when absent); of a send, \<open>errcode\<close> as \<open>number\<close> reads it.
\<close>

datatype 'a reply = Lost | Answer 'a

fun access :: "env \<Rightarrow> (string \<times> int) reply \<Rightarrow> string push_act" where
  "access E reply =
     bindS (getS dl_sender) (\<lambda>h.
     if sd_token h \<noteq> [] \<and> now E < sd_expires h then returnS (sd_token h)
     else (case reply of
         Lost \<Rightarrow> failS (Failed DBError)
       | Answer (token, seconds) \<Rightarrow>
           thenS (guardS (token \<noteq> [] \<and> 1 \<le> seconds \<and> seconds \<le> 7200) (Failed DBError))
           (thenS (modS (\<lambda>w. w\<lparr>dl_sender := \<lparr>sd_token = token, sd_expires = now E + seconds * second - minute\<rparr>\<rparr>))
           (returnS token))))"

section \<open>Delivery\<close>

text \<open>The joins of the reservation: the identity, the consent and the access still hold.\<close>

definition accepted_consent :: "db \<Rightarrow> push_row \<Rightarrow> bool" where
  "accepted_consent d p \<longleftrightarrow>
     has_row (\<lambda>c. cn_user c = pu_user p \<and> cn_template c = pu_template p \<and> cn_decision c = Accept) (t_consents d)"

definition reachable_notice :: "db \<Rightarrow> push_row \<Rightarrow> bool" where
  "reachable_notice d p \<longleftrightarrow>
     has_row (\<lambda>n. nt_id n = pu_notice p \<and> nt_user n = pu_user p \<and>
       has_row (\<lambda>s. nt_session n = Some (se_id s) \<and> se_user s = nt_user n \<and> se_history s \<noteq> Purged \<and>
         has_row (\<lambda>a. ac_node a = se_node s \<and> ac_user a = se_user s \<and> ac_revoked a = None) (t_access d))
       (t_sessions d)) (t_notices d)"

definition sendable :: "db \<Rightarrow> push_row \<Rightarrow> bool" where
  "sendable d p \<longleftrightarrow> pu_state p = Push_pending \<and> pu_user p \<in> fst ` set (t_identities d)
     \<and> accepted_consent d p \<and> reachable_notice d p"

definition next_push :: "db \<Rightarrow> push_row option" where
  "next_push d = (case sort_key pu_created (filter (sendable d) (t_pushes d)) of [] \<Rightarrow> None | p # ps \<Rightarrow> Some p)"

definition mark_push :: "string \<Rightarrow> push_state \<Rightarrow> int option \<Rightarrow> push_row \<Rightarrow> push_row" where
  "mark_push key st code p = (if pu_id p = key \<and> pu_state p = Push_sending then p\<lparr>pu_state := st, pu_code := code\<rparr> else p)"

text \<open>The push that is reserved, with the identity at the push service that receives it.\<close>

definition reserve_push :: "env \<Rightarrow> (push_row \<times> string) option dbact" where
  "reserve_push E = atomicS
     (bindS (getS next_push) (\<lambda>found.
      case found of
        None \<Rightarrow> returnS None
      | Some p \<Rightarrow>
          bindS (oneS (\<lambda>d. map_of (t_identities d) (pu_user p))) (\<lambda>encrypted.
          thenS (guardS (12 \<le> length encrypted) DBError)
          (case vt_open (vault_of E) subject_label (take 12 encrypted) (drop 12 encrypted) (pu_user p) of
             None \<Rightarrow> failS DBError
           | Some plain \<Rightarrow>
               thenS (modS (\<lambda>d. d\<lparr>t_pushes := upd_rows (\<lambda>q. pu_id q = pu_id p)
                   (\<lambda>q. q\<lparr>pu_state := Push_sending\<rparr>) (t_pushes d)\<rparr>))
               (returnS (Some (p, plain)))))))"

definition verdict :: "int option reply \<Rightarrow> push_state \<times> int option" where
  "verdict reply =
     (case reply of
        Answer (Some n) \<Rightarrow> (if n = 0 then Push_sent else Push_failed, Some n)
      | _ \<Rightarrow> (Push_unknown, None))"

definition withdraw_credits :: "push_row \<Rightarrow> unit dbact" where
  "withdraw_credits p =
     modS (\<lambda>d. d\<lparr>t_consents := upd_rows (\<lambda>c. cn_user c = pu_user p \<and> cn_template c = pu_template p)
       (\<lambda>c. c\<lparr>cn_credits := 0\<rparr>) (t_consents d)\<rparr>)"

text \<open>The column \<open>error_code\<close> is an \<open>integer\<close> of 32 bits.\<close>

definition settle_push :: "push_row \<Rightarrow> push_state \<Rightarrow> int option \<Rightarrow> unit dbact" where
  "settle_push p st code =
     thenS (guardS (case code of None \<Rightarrow> True | Some n \<Rightarrow> - (2 ^ 31) \<le> n \<and> n < 2 ^ 31) DBError)
       (modS (\<lambda>d. d\<lparr>t_pushes := map (mark_push (pu_id p) st code) (t_pushes d)\<rparr>))"

definition finish_push :: "(nat \<Rightarrow> bool) \<Rightarrow> push_row \<Rightarrow> int option reply \<Rightarrow> unit push_act" where
  "finish_push dies p reply =
     (let (st, code) = verdict reply in
      thenS (if code = Some 40001 \<or> code = Some 40014
             then modS (\<lambda>w. w\<lparr>dl_sender := (dl_sender w)\<lparr>sd_token := []\<rparr>\<rparr>) else returnS ())
      (thenS (if code = Some 43101 then storeS (withdraw_credits p) else returnS ())
      (thenS (aliveS dies 3)
      (thenS (storeS (settle_push p st code))
      (guardS (reply \<noteq> Lost) (Failed DBError))))))"

text \<open>The request of \<open>post\<close>: the push leaves for its receiver, under the token.\<close>

definition post_push :: "push_row \<Rightarrow> string \<Rightarrow> string \<Rightarrow> unit push_act" where
  "post_push p receiver token = modS (\<lambda>w. w\<lparr>dl_posted := dl_posted w @ [(pu_id p, receiver, token)]\<rparr>)"

text \<open>
  One round of the loop. It may be killed before the reservation is committed, between the commit and the
  request, while the push is being posted, and before the outcome is stored. While the push is posted other
  code runs on the database, \<open>others\<close>; the round returns the push that was posted, with its receiver and the
  token.
\<close>

definition deliverSubscription ::
  "env \<Rightarrow> (nat \<Rightarrow> bool) \<Rightarrow> (string \<times> int) reply \<Rightarrow> int option reply \<Rightarrow> (db \<Rightarrow> db)
     \<Rightarrow> (push_row \<times> string \<times> string) option push_act" where
  "deliverSubscription E dies token_reply send_reply others =
     bindS (storeS (getS (\<lambda>d. has_row (\<lambda>p. pu_state p = Push_pending) (t_pushes d)))) (\<lambda>pending.
     if \<not> pending then returnS None
     else bindS (access E token_reply) (\<lambda>token.
       thenS (aliveS dies 0)
       (bindS (storeS (reserve_push E)) (\<lambda>found.
       case found of
         None \<Rightarrow> returnS None
       | Some (p, receiver) \<Rightarrow>
           thenS (aliveS dies 1)
           (thenS (post_push p receiver token)
           (thenS (aliveS dies 2)
           (thenS (storeS (modS others))
           (thenS (finish_push dies p send_reply) (returnS (Some (p, receiver, token)))))))))))"

text \<open>When the loop starts, a push that was being posted before a crash is not known to have arrived.\<close>

definition recover_pushes :: "db \<Rightarrow> db" where
  "recover_pushes d =
     d\<lparr>t_pushes := upd_rows (\<lambda>p. pu_state p = Push_sending) (\<lambda>p. p\<lparr>pu_state := Push_unknown\<rparr>) (t_pushes d)\<rparr>"

section \<open>The invariant of the database\<close>

lemma logs_subscriptionConsent [logs_rules]: "keeps (store_ok (dbnow E)) (subscriptionConsent E uid op fp b)"
  unfolding subscriptionConsent_def priorOp_def operation_def decide_template_def case_prod_beta Let_def
  by (intro logs_rules keeps_rules logs_write_pre) simp_all

end
