(* ===== verification/Subscriptions_Spec.thy ===== *)
theory Subscriptions_Spec
  imports Subscriptions
begin

text \<open>
  A push is posted at most once, whatever the push service answers and whenever the gateway is restarted.
\<close>

section \<open>The outbox of pushes\<close>

definition push_id :: "(nat \<Rightarrow> string) \<Rightarrow> nat \<Rightarrow> string" where
  "push_id R n = ''push'' @ ''_'' @ R n"

lemma push_id_inj: "inj R \<Longrightarrow> push_id R m = push_id R n \<longleftrightarrow> m = n"
  by (auto simp: push_id_def dest: injD)

definition minted :: "(nat \<Rightarrow> string) \<Rightarrow> nat \<Rightarrow> string \<Rightarrow> bool" where
  "minted R n i \<longleftrightarrow> (\<exists>m<n. i = push_id R m)"

lemma minted_mono: "minted R m i \<Longrightarrow> m \<le> n \<Longrightarrow> minted R n i"
  by (auto simp: minted_def intro: less_le_trans)

lemma not_minted: "inj R \<Longrightarrow> \<not> minted R n (push_id R n)"
  by (simp add: minted_def push_id_inj)

lemma minted_new: "minted R (Suc n) (push_id R n)"
  by (auto simp: minted_def)

text \<open>
  The invariant: identifiers come from the random numbers drawn so far, are those of one row, and a push
  that was posted (one of \<open>P\<close>) is not pending; at least \<open>e\<close> numbers were drawn.
\<close>

definition outbox_ok :: "(nat \<Rightarrow> string) \<Rightarrow> string set \<Rightarrow> nat \<Rightarrow> db \<Rightarrow> bool" where
  "outbox_ok R P e d \<longleftrightarrow>
     (\<forall>i\<in>P \<union> pu_id ` set (t_pushes d). minted R (entropy d) i) \<and> distinct (map pu_id (t_pushes d)) \<and>
     (\<forall>p\<in>set (t_pushes d). pu_id p \<in> P \<longrightarrow> pu_state p \<noteq> Push_pending) \<and> e \<le> entropy d"

named_theorems outbox_rules \<open>handlers that keep the invariant of the outbox\<close>

lemma outbox_write:
  "(\<And>d. t_pushes (f d) = t_pushes d \<and> entropy (f d) = entropy d) \<Longrightarrow> keeps (outbox_ok R P e) (modS f)"
  by (rule keeps_mod) (simp add: outbox_ok_def)

lemma outbox_later:
  assumes "outbox_ok R P e d" and "t_pushes t = t_pushes d" and "entropy d \<le> entropy t"
  shows "outbox_ok R P e t"
proof -
  have "\<forall>i\<in>P \<union> pu_id ` set (t_pushes t). minted R (entropy t) i"
    using assms by (auto simp: outbox_ok_def intro: minted_mono)
  then show ?thesis using assms by (simp add: outbox_ok_def)
qed

lemma outbox_new_id [outbox_rules]: "keeps (outbox_ok R P e) (new_id E p)"
  by (rule keepsI) (auto simp: new_id_def intro: outbox_later)

lemma outbox_change [outbox_rules]: "keeps (outbox_ok R P e) (change E uid kind rid action n)"
  unfolding change_def Let_def by (intro keeps_rules outbox_write) simp

lemma outbox_audit [outbox_rules]: "keeps (outbox_ok R P e) (audit E uid op kind state nid sid)"
  unfolding audit_def by (intro keeps_rules outbox_rules outbox_write) simp_all

lemma outbox_finishOp [outbox_rules]: "keeps (outbox_ok R P e) (finishOp E uid op st res reason)"
  unfolding finishOp_def
  by (intro keeps_rules outbox_rules outbox_write) (auto intro!: keeps_rules outbox_rules split: err.split)

lemma outbox_insertOp [outbox_rules]: "keeps (outbox_ok R P e) (insertOp E uid op kind nid sid turn epoch b c dl)"
  unfolding insertOp_def by (intro keeps_rules outbox_rules outbox_write) simp_all

lemma outbox_transaction [outbox_rules]:
  assumes "\<And>e. keeps (outbox_ok R P e) fn"
  shows "keeps (outbox_ok R P e) (transaction uid fn)"
proof (rule keepsI)
  fix d assume ok: "outbox_ok R P e d"
  obtain r t where fn: "fn d = (r, t)" by (cases "fn d")
  have "outbox_ok R P (entropy d) d" using ok by (simp add: outbox_ok_def)
  then have "outbox_ok R P (entropy d) t" by (rule keepsD [OF assms fn])
  then have "entropy d \<le> entropy t" by (simp add: outbox_ok_def)
  moreover have "outbox_ok R P e t" by (rule keepsD [OF assms fn ok])
  ultimately show "outbox_ok R P e (snd (transaction uid fn d))"
    using ok fn by (auto simp: transaction_def intro: outbox_later split: sum.split)
qed

text \<open>The rows of the outbox change in place.\<close>

lemma outbox_rows:
  assumes "outbox_ok R P e d" and "map pu_id ps = map pu_id (t_pushes d)"
    and "\<And>p. p \<in> set ps \<Longrightarrow> pu_state p = Push_pending \<Longrightarrow> pu_id p \<notin> P"
  shows "outbox_ok R P e (d\<lparr>t_pushes := ps\<rparr>)"
proof -
  have "pu_id ` set ps = pu_id ` set (t_pushes d)" using assms(2) by (metis list.set_map)
  then show ?thesis using assms by (auto simp: outbox_ok_def)
qed

lemma outbox_upd:
  assumes "\<And>p. pu_id (f p) = pu_id p \<and> pu_state (f p) \<noteq> Push_pending"
  shows "keeps (outbox_ok R P e) (modS (\<lambda>d. d\<lparr>t_pushes := upd_rows Q f (t_pushes d)\<rparr>))"
proof (rule keeps_mod)
  fix d assume ok: "outbox_ok R P e d"
  have "map pu_id (upd_rows Q f (t_pushes d)) = map pu_id (t_pushes d)"
    by (rule map_upd_rows_frame) (use assms in blast)
  then show "outbox_ok R P e (d\<lparr>t_pushes := upd_rows Q f (t_pushes d)\<rparr>)"
    by (rule outbox_rows [OF ok]) (use ok assms in \<open>auto simp: outbox_ok_def set_upd_rows split: if_splits\<close>)
qed

lemma outbox_consent [outbox_rules]: "keeps (outbox_ok R P e) (subscriptionConsent E uid op fp b)"
  unfolding subscriptionConsent_def priorOp_def operation_def decide_template_def case_prod_beta Let_def
  by (intro keeps_rules outbox_rules outbox_write outbox_upd) simp_all

text \<open>A new push has an identifier that was never used.\<close>

lemma outbox_insert:
  assumes "inj R" and "rnd E = R" and "\<And>i d. (\<exists>p. t_pushes (f i d) = t_pushes d @ [p] \<and> pu_id p = i) \<and> entropy (f i d) = entropy d"
  shows "keeps (outbox_ok R P e) (bindS (new_id E ''push'') (\<lambda>i. bindS (getS (h i)) (\<lambda>x. thenS (guardS (q x) er) (modS (f i)))))"
proof (rule keepsI)
  fix d assume ok: "outbox_ok R P e d"
  let ?i = "push_id R (entropy d)" and ?d = "d\<lparr>entropy := Suc (entropy d)\<rparr>"
  have id: "''push'' @ ''_'' @ rnd E (entropy d) = ?i" by (simp add: push_id_def assms(2))
  have "\<forall>i\<in>P \<union> pu_id ` set (t_pushes d). minted R (entropy d) i" using ok by (simp add: outbox_ok_def)
  then have fresh: "?i \<notin> P" "?i \<notin> pu_id ` set (t_pushes d)" using not_minted [OF assms(1)] by blast+
  have ok': "outbox_ok R P e ?d" by (rule outbox_later [OF ok]) simp_all
  obtain p where f: "t_pushes (f ?i ?d) = t_pushes d @ [p]" "pu_id p = ?i" "entropy (f ?i ?d) = Suc (entropy d)"
    using assms(3) [of ?i ?d] by auto
  have "outbox_ok R P e (f ?i ?d)"
    using ok' fresh minted_new [of R "entropy d"] by (simp add: outbox_ok_def f)
  then show "outbox_ok R P e (snd (bindS (new_id E ''push'') (\<lambda>i. bindS (getS (h i)) (\<lambda>x. thenS (guardS (q x) er) (modS (f i)))) d))"
    using ok' id by (simp add: bindS_run new_id_run getS_run thenS_run guardS_run returnS_run failS_run modS_run)
qed

lemma outbox_queue [outbox_rules]:
  assumes "inj R" and "rnd E = R"
  shows "keeps (outbox_ok R P e) (queueSubscription E uid n sid kind summary)"
  unfolding queueSubscription_def
  by ((rule outbox_insert [OF assms], simp; fail) | rule keeps_rules outbox_write | (simp; fail))+

section \<open>The steps of a delivery\<close>

lemma next_push_sendable: "next_push d = Some p \<Longrightarrow> p \<in> set (t_pushes d) \<and> sendable d p"
proof -
  assume "next_push d = Some p"
  then obtain ps where e: "sort_key pu_created (filter (sendable d) (t_pushes d)) = p # ps"
    by (auto simp: next_push_def split: list.splits)
  have "p \<in> set (sort_key pu_created (filter (sendable d) (t_pushes d)))" unfolding e by simp
  then show ?thesis by simp
qed

lemma reserve_push_Inr:
  assumes "reserve_push E d = (Inr (Some (p, to)), t)"
  shows "p \<in> set (t_pushes d) \<and> sendable d p \<and>
    t = d\<lparr>t_pushes := upd_rows (\<lambda>q. pu_id q = pu_id p) (\<lambda>q. q\<lparr>pu_state := Push_sending\<rparr>) (t_pushes d)\<rparr>"
  using assms
  by (auto simp: reserve_push_def atomicS_Inr bindS_Inr thenS_Inr guardS_Inr getS_iff modS_iff oneS_Inr returnS_iff failS_iff
      split: option.splits dest!: next_push_sendable)

lemma outbox_reserve:
  assumes "reserve_push E d = (Inr (Some (p, to)), t)" and "outbox_ok R P e d"
  shows "outbox_ok R (insert (pu_id p) P) e t" "pu_id p \<notin> P"
proof -
  have p: "p \<in> set (t_pushes d)" "pu_state p = Push_pending"
    and t: "t = d\<lparr>t_pushes := upd_rows (\<lambda>q. pu_id q = pu_id p) (\<lambda>q. q\<lparr>pu_state := Push_sending\<rparr>) (t_pushes d)\<rparr>"
    using reserve_push_Inr [OF assms(1)] by (simp_all add: sendable_def)
  show new: "pu_id p \<notin> P" using assms(2) p by (auto simp: outbox_ok_def)
  have "outbox_ok R P e t"
    unfolding t using keepsD [OF outbox_upd modS_run assms(2)] by simp
  moreover have "\<forall>q\<in>set (t_pushes t). pu_id q = pu_id p \<longrightarrow> pu_state q \<noteq> Push_pending"
    by (auto simp: t set_upd_rows)
  moreover have "map pu_id (t_pushes t) = map pu_id (t_pushes d)"
    unfolding t by (simp add: map_upd_rows_frame [of _ pu_id])
  then have "pu_id ` set (t_pushes t) = pu_id ` set (t_pushes d)" by (metis list.set_map)
  then have "pu_id p \<in> pu_id ` set (t_pushes t)" using p by simp
  ultimately show "outbox_ok R (insert (pu_id p) P) e t" by (auto simp: outbox_ok_def)
qed

lemma verdict_final: "fst (verdict reply) \<noteq> Push_pending"
  by (auto simp: verdict_def split: reply.split option.split)

lemma outbox_settle: "st \<noteq> Push_pending \<Longrightarrow> keeps (outbox_ok R P e) (settle_push p st code)"
proof -
  assume st: "st \<noteq> Push_pending"
  have "map (mark_push k st code) ps = upd_rows (\<lambda>p. pu_id p = k \<and> pu_state p = Push_sending)
      (\<lambda>p. p\<lparr>pu_state := st, pu_code := code\<rparr>) ps" for k ps
    by (simp add: upd_rows_def mark_push_def)
  then show ?thesis unfolding settle_push_def by (simp only:) (intro keeps_rules outbox_upd, simp add: st)
qed

lemma keeps_storeS: "keeps I m \<Longrightarrow> keeps (\<lambda>w. I (dl_db w)) (storeS m)"
  by (auto simp: keeps_def storeS_def split: prod.split sum.split)

lemma outbox_finish: "keeps (\<lambda>w. outbox_ok R P e (dl_db w)) (finish_push dies p reply)"
proof -
  note db = keeps_storeS [where I = "outbox_ok R P e"]
  obtain st code where v: "verdict reply = (st, code)" "st \<noteq> Push_pending"
    using verdict_final [of reply] by (cases "verdict reply") simp
  show ?thesis unfolding finish_push_def withdraw_credits_def aliveS_def v Let_def prod.case
    by (intro keeps_rules db outbox_settle v outbox_write keeps_mod) simp_all
qed

text \<open>Nothing but the request itself is written to the trace.\<close>

lemma posted_storeS: "keeps (\<lambda>w. dl_posted w = v) (storeS m)"
  by (auto simp: keeps_def storeS_def split: prod.split sum.split)

lemma posted_finish: "keeps (\<lambda>w. dl_posted w = v) (finish_push dies p reply)"
proof -
  obtain st code where v: "verdict reply = (st, code)" by (cases "verdict reply")
  show ?thesis unfolding finish_push_def aliveS_def v Let_def prod.case
    by (intro keeps_rules posted_storeS keeps_mod) simp_all
qed

lemma quiet_access: "keeps (\<lambda>w. dl_posted w = v \<and> dl_db w = d) (access E reply)"
  by (auto simp: keeps_def bindS_run getS_run thenS_run guardS_run modS_run returnS_run failS_run split: reply.split)

lemma outbox_recover: "outbox_ok R P e d \<Longrightarrow> outbox_ok R P e (recover_pushes d)"
  unfolding recover_pushes_def using keepsD [OF outbox_upd modS_run] by fastforce

section \<open>At most once\<close>

text \<open>
  What other code does to the outbox: it queues pushes, takes decisions, removes pushes and fails pending
  ones.
\<close>

definition outbox_shrinks :: "db \<Rightarrow> db \<Rightarrow> bool" where
  "outbox_shrinks d t \<longleftrightarrow> entropy d \<le> entropy t \<and> distinct (map pu_id (t_pushes t)) \<and>
     (\<forall>p\<in>set (t_pushes t). \<exists>q\<in>set (t_pushes d). pu_id q = pu_id p \<and> (pu_state p = pu_state q \<or> pu_state p = Push_failed))"

inductive outbox_steps :: "(nat \<Rightarrow> string) \<Rightarrow> db \<Rightarrow> db \<Rightarrow> bool" for R d where
  here: "outbox_steps R d d"
| queue: "outbox_steps R d t \<Longrightarrow> rnd E = R \<Longrightarrow> queueSubscription E uid n sid kind summary t = (r, u) \<Longrightarrow> outbox_steps R d u"
| consent: "outbox_steps R d t \<Longrightarrow> subscriptionConsent E uid op fp b t = (r, u) \<Longrightarrow> outbox_steps R d u"
| shrink: "outbox_steps R d t \<Longrightarrow> outbox_shrinks t u \<Longrightarrow> outbox_steps R d u"

text \<open>
  The gateway over all its lives: rounds of the loop, whatever the push service answers and whatever else
  runs before, during and between them; a kill in a round or outside of one, after which the loop starts
  again without a token.
\<close>

inductive pushing :: "(nat \<Rightarrow> string) \<Rightarrow> delivery \<Rightarrow> bool" for R where
  start: "outbox_ok R {} 0 d \<Longrightarrow> pushing R \<lparr>dl_db = d, dl_sender = h, dl_posted = []\<rparr>"
| other: "pushing R w \<Longrightarrow> outbox_steps R (dl_db w) d \<Longrightarrow> pushing R (w\<lparr>dl_db := d\<rparr>)"
| round: "pushing R w \<Longrightarrow> \<forall>d. outbox_steps R d (others d) \<Longrightarrow>
    deliverSubscription E dies token_reply send_reply others w = (r, u) \<Longrightarrow> r \<noteq> Inl Died \<Longrightarrow> pushing R u"
| killed: "pushing R w \<Longrightarrow> \<forall>d. outbox_steps R d (others d) \<Longrightarrow>
    deliverSubscription E dies token_reply send_reply others w = (Inl Died, u) \<Longrightarrow>
    pushing R (u\<lparr>dl_db := recover_pushes (dl_db u), dl_sender := h\<rparr>)"
| restart: "pushing R w \<Longrightarrow> pushing R (w\<lparr>dl_db := recover_pushes (dl_db w), dl_sender := h\<rparr>)"

lemma outbox_shrinks_ok: "outbox_ok R P e d \<Longrightarrow> outbox_shrinks d t \<Longrightarrow> outbox_ok R P e t"
proof -
  assume ok: "outbox_ok R P e d" and s: "outbox_shrinks d t"
  have old: "\<exists>q\<in>set (t_pushes d). pu_id q = pu_id p \<and> (pu_state p = pu_state q \<or> pu_state p = Push_failed)"
    if "p \<in> set (t_pushes t)" for p using s that by (simp add: outbox_shrinks_def)
  have "pu_id ` set (t_pushes t) \<subseteq> pu_id ` set (t_pushes d)"
  proof
    fix i assume "i \<in> pu_id ` set (t_pushes t)"
    then obtain p where "p \<in> set (t_pushes t)" "i = pu_id p" by blast
    with old [of p] show "i \<in> pu_id ` set (t_pushes d)" by (metis image_eqI)
  qed
  then have "\<forall>i\<in>P \<union> pu_id ` set (t_pushes t). minted R (entropy t) i"
    using ok s by (auto simp: outbox_ok_def outbox_shrinks_def intro: minted_mono)
  moreover have "pu_state p \<noteq> Push_pending" if "p \<in> set (t_pushes t)" "pu_id p \<in> P" for p
    using old [OF that(1)] ok that(2) by (fastforce simp: outbox_ok_def)
  ultimately show ?thesis using ok s by (auto simp: outbox_ok_def outbox_shrinks_def)
qed

lemma outbox_steps_ok:
  assumes "outbox_steps R d t" and "inj R" and "outbox_ok R P e d"
  shows "outbox_ok R P e t"
  using assms(1,3)
proof induction
  case (queue t E uid n sid kind summary r u)
  then show ?case using keepsD [OF outbox_queue [OF assms(2)]] by blast
next
  case (consent t E uid op fp b r u)
  then show ?case using keepsD [OF outbox_consent] by blast
next
  case (shrink t u)
  then show ?case using outbox_shrinks_ok by blast
qed

text \<open>The state of the gateway: what was posted is not pending, and was posted once.\<close>

definition posted :: "delivery \<Rightarrow> string list" where
  "posted w = map fst (dl_posted w)"

definition sent_once :: "(nat \<Rightarrow> string) \<Rightarrow> delivery \<Rightarrow> bool" where
  "sent_once R w \<longleftrightarrow> outbox_ok R (set (posted w)) 0 (dl_db w) \<and> distinct (posted w)"

lemma reserve_push_none: "reserve_push E d = (r, t) \<Longrightarrow> (\<And>p to. r \<noteq> Inr (Some (p, to))) \<Longrightarrow> t = d"
  by (cases r)
    (auto simp: reserve_push_def atomicS_Inl atomicS_Inr bindS_Inr thenS_Inr guardS_Inr getS_iff modS_iff oneS_Inr
      returnS_iff failS_iff split: option.splits)

lemma reserve_push_receiver:
  assumes "reserve_push E d = (Inr (Some (p, to)), t)"
  obtains c where "map_of (t_identities d) (pu_user p) = Some c"
    and "vt_open (vault_of E) subject_label (take 12 c) (drop 12 c) (pu_user p) = Some to"
  using assms
  by (auto simp: reserve_push_def atomicS_Inr bindS_Inr thenS_Inr guardS_Inr getS_iff modS_iff oneS_Inr returnS_iff
      failS_iff split: option.splits)

text \<open>A round posts nothing, or the push that it has reserved before.\<close>

lemma deliver_cases:
  assumes "deliverSubscription E dies token_reply send_reply others w = (r, u)"
  obtains (idle) "dl_posted u = dl_posted w" "dl_db u = dl_db w"
  | (unsent) p to t where "reserve_push E (dl_db w) = (Inr (Some (p, to)), t)" "dl_posted u = dl_posted w" "dl_db u = t"
  | (unknown) p to token t where "reserve_push E (dl_db w) = (Inr (Some (p, to)), t)"
      "dl_posted u = dl_posted w @ [(pu_id p, to, token)]" "dl_db u = t"
  | (answered) p to token t v where "reserve_push E (dl_db w) = (Inr (Some (p, to)), t)"
      "dl_posted u = dl_posted w @ [(pu_id p, to, token)]" "dl_db v = others t" "dl_posted v = dl_posted u"
      "snd (finish_push dies p send_reply v) = u"
proof (cases "has_row (\<lambda>p. pu_state p = Push_pending) (t_pushes (dl_db w))")
  case False
  then have "u = w" using assms by (simp add: deliverSubscription_def storeS_def bindS_run getS_run returnS_run)
  then show ?thesis using idle by simp
next
  case True
  obtain a v where a: "access E token_reply w = (a, v)" by (cases "access E token_reply w")
  have v: "dl_posted v = dl_posted w" "dl_db v = dl_db w"
    using keepsD [OF quiet_access a] by auto
  obtain q t where q: "reserve_push E (dl_db w) = (q, t)" by (cases "reserve_push E (dl_db w)")
  have e: "dl_posted (v\<lparr>dl_db := x\<rparr>) = dl_posted w" for x using v by simp
  show ?thesis
  proof (cases "isl a \<or> dies 0 \<or> (\<forall>p to. q \<noteq> Inr (Some (p, to)))")
    case True': True
    have "t = dl_db w" if "\<forall>p to. q \<noteq> Inr (Some (p, to))" using reserve_push_none [OF q] that by blast
    then have "dl_posted u = dl_posted w \<and> dl_db u = dl_db w"
      using assms True True' a v q
      by (auto simp: deliverSubscription_def storeS_def aliveS_def bindS_run thenS_run getS_run guardS_run returnS_run
          failS_run split: sum.splits option.splits prod.splits if_splits)
    then show ?thesis using idle by blast
  next
    case False
    then obtain token p to where t: "a = Inr token" "\<not> dies 0" "q = Inr (Some (p, to))" by (cases a) auto
    note s = q [unfolded t(3)]
    let ?v = "v\<lparr>dl_db := t\<rparr>"
    let ?p = "?v\<lparr>dl_posted := dl_posted w @ [(pu_id p, to, token)]\<rparr>"
    have run: "(thenS (aliveS dies 1)
           (thenS (post_push p to token)
           (thenS (aliveS dies 2)
           (thenS (storeS (modS others))
           (thenS (finish_push dies p send_reply) (returnS (Some (p, to, token)))))))) ?v = (r, u)"
      using assms True a t v q
      by (simp add: deliverSubscription_def storeS_def aliveS_def bindS_run thenS_run getS_run guardS_run returnS_run)
    consider "dies 1" | "\<not> dies 1" "dies 2" | "\<not> dies 1" "\<not> dies 2" by blast
    then show ?thesis
    proof cases
      case 1
      then have "u = ?v" using run by (simp add: aliveS_def bindS_run thenS_run guardS_run failS_run)
      then show ?thesis using unsent [OF s] v by simp
    next
      case 2
      then have "u = ?p" using run v by (simp add: aliveS_def post_push_def bindS_run thenS_run guardS_run failS_run returnS_run modS_run)
      then show ?thesis using unknown [OF s] by simp
    next
      case 3
      let ?o = "?p\<lparr>dl_db := others t\<rparr>"
      have "snd (finish_push dies p send_reply ?o) = u"
        using run 3 v by (auto simp: aliveS_def post_push_def storeS_def bindS_run thenS_run guardS_run returnS_run modS_run
            split: sum.splits prod.splits)
      moreover from this have "dl_posted u = dl_posted ?o"
        using keepsD [OF posted_finish, of dies p send_reply ?o] by (metis prod.collapse)
      ultimately show ?thesis using answered [OF s, of token ?o] by simp
    qed
  qed
qed

lemma round_sent_once:
  assumes run: "deliverSubscription E dies token_reply send_reply others w = (r, u)" and w: "sent_once R w"
    and others: "\<forall>d. outbox_steps R d (others d)" and "inj R"
  shows "sent_once R u"
proof -
  have ok: "outbox_ok R (set (posted w)) 0 (dl_db w)" "distinct (posted w)" using w by (simp_all add: sent_once_def)
  note res = outbox_reserve [OF _ ok(1)]
  from run show ?thesis
  proof (cases rule: deliver_cases)
    case idle
    then show ?thesis using w by (simp add: sent_once_def posted_def)
  next
    case (unsent p to t)
    then have "outbox_ok R (insert (pu_id p) (set (posted w))) 0 t" using res by blast
    then have "outbox_ok R (set (posted w)) 0 t" by (auto simp: outbox_ok_def)
    then show ?thesis using unsent ok by (simp add: sent_once_def posted_def)
  next
    case (unknown p to token t)
    then show ?thesis using res [OF unknown(1)] ok by (simp add: sent_once_def posted_def)
  next
    case (answered p to token t v)
    have "outbox_ok R (insert (pu_id p) (set (posted w))) 0 (dl_db v)"
      unfolding answered(3) using others outbox_steps_ok \<open>inj R\<close> res(1) [OF answered(1)] by blast
    then have "outbox_ok R (insert (pu_id p) (set (posted w))) 0 (dl_db u)"
      using keepsD [OF outbox_finish, of dies p send_reply v "fst (finish_push dies p send_reply v)" u] answered(5)
      by (metis prod.collapse)
    then show ?thesis using answered(2) res(2) [OF answered(1)] ok by (simp add: sent_once_def posted_def)
  qed
qed

lemma sent_once_restart: "sent_once R w \<Longrightarrow> sent_once R (w\<lparr>dl_db := recover_pushes (dl_db w), dl_sender := h\<rparr>)"
  using outbox_recover by (simp add: sent_once_def posted_def)

lemma pushing_ok:
  assumes "pushing R w" and "inj R"
  shows "sent_once R w"
  using assms(1)
proof (induction rule: pushing.induct)
  case (start d h)
  then show ?case by (simp add: sent_once_def posted_def)
next
  case (other w d)
  then show ?case using outbox_steps_ok [OF other.hyps(2) assms(2)] by (simp add: sent_once_def posted_def)
next
  case (round w others E dies token_reply send_reply r u)
  then show ?case using round_sent_once assms(2) by blast
next
  case (killed w others E dies token_reply send_reply u h)
  then have "sent_once R u" using round_sent_once assms(2) by blast
  then show ?case by (rule sent_once_restart)
next
  case (restart w h)
  then show ?case using sent_once_restart by blast
qed

text \<open>
  C19: whatever the push service answers, whatever else runs and wherever in a round the gateway is killed,
  no push is handed to the push service twice, over all lives of the gateway (random identifiers do not
  repeat). A push that was handed over is not pending again. Any round of \<open>deliverSubscription\<close> hands over nothing,
  or one push that was not handed over before, that was pending when the round began, whose user's consent,
  identity and access to the session still held then, and it goes to the receiver that the user's stored identity opens to.
\<close>

theorem push_at_most_once:
  assumes "pushing R w" and "inj R"
  shows "distinct (posted w)
    \<and> (\<forall>p\<in>set (t_pushes (dl_db w)). pu_id p \<in> set (posted w) \<longrightarrow> pu_state p \<noteq> Push_pending)
    \<and> (\<forall>E dies token_reply send_reply others r u.
         deliverSubscription E dies token_reply send_reply others w = (r, u) \<longrightarrow>
         dl_posted u = dl_posted w \<or>
         (\<exists>p to token c. dl_posted u = dl_posted w @ [(pu_id p, to, token)] \<and> pu_id p \<notin> set (posted w) \<and>
            p \<in> set (t_pushes (dl_db w)) \<and> sendable (dl_db w) p \<and> map_of (t_identities (dl_db w)) (pu_user p) = Some c \<and>
            vt_open (vault_of E) subject_label (take 12 c) (drop 12 c) (pu_user p) = Some to))"
proof -
  have ok: "outbox_ok R (set (posted w)) 0 (dl_db w)" "distinct (posted w)"
    using pushing_ok [OF assms] by (simp_all add: sent_once_def)
  have sent: "\<exists>c. pu_id p \<notin> set (posted w) \<and> p \<in> set (t_pushes (dl_db w)) \<and> sendable (dl_db w) p \<and>
      map_of (t_identities (dl_db w)) (pu_user p) = Some c \<and>
      vt_open (vault_of E) subject_label (take 12 c) (drop 12 c) (pu_user p) = Some to"
    if "reserve_push E (dl_db w) = (Inr (Some (p, to)), t)" for E p to t
    using outbox_reserve(2) [OF that ok(1)] reserve_push_Inr [OF that] reserve_push_receiver [OF that] by metis
  have "dl_posted u = dl_posted w \<or>
         (\<exists>p to token c. dl_posted u = dl_posted w @ [(pu_id p, to, token)] \<and> pu_id p \<notin> set (posted w) \<and>
            p \<in> set (t_pushes (dl_db w)) \<and> sendable (dl_db w) p \<and> map_of (t_identities (dl_db w)) (pu_user p) = Some c \<and>
            vt_open (vault_of E) subject_label (take 12 c) (drop 12 c) (pu_user p) = Some to)"
    if "deliverSubscription E dies token_reply send_reply others w = (r, u)" for E dies token_reply send_reply others r u
    using that by (cases rule: deliver_cases) (use sent in blast)+
  then show ?thesis using ok by (auto simp: outbox_ok_def)
qed

definition push_random :: "nat \<Rightarrow> string" where
  "push_random n = replicate n CHR ''x''"

definition push0 :: push_row where
  "push0 = \<lparr>pu_id = ''push_'', pu_user = ''u'', pu_notice = ''m'', pu_template = ''p'', pu_session = ''s'', pu_data = [],
     pu_app = [], pu_state = Push_pending, pu_code = None, pu_created = 1\<rparr>"

definition push_db :: db where
  "push_db = db0\<lparr>t_pushes := [push0], t_identities := [(''u'', replicate 28 CHR ''x'')],
     t_consents := [\<lparr>cn_user = ''u'', cn_template = ''p'', cn_credits = 0, cn_decision = Accept\<rparr>],
     t_notices := [\<lparr>nt_id = ''m'', nt_user = ''u'', nt_session = Some ''s'', nt_kind = N_completed, nt_title = [],
       nt_read = None, nt_revision = 1, nt_created = 1\<rparr>], entropy := 1\<rparr>"

lemma push_db_ok: "outbox_ok push_random {} 0 push_db"
  by (simp add: outbox_ok_def push_db_def push0_def minted_def push_id_def push_random_def)

text \<open>The gateway is killed while it posts, and starts again.\<close>

definition push_world :: delivery where
  "push_world = \<lparr>dl_db = push_db, dl_sender = \<lparr>sd_token = [], sd_expires = 0\<rparr>, dl_posted = []\<rparr>"

definition killed_round :: "(round_end + (push_row \<times> string \<times> string) option) \<times> delivery" where
  "killed_round = deliverSubscription env0 (\<lambda>k. k = 2) (Answer (''token'', 7200)) Lost id push_world"

lemma killed_round_eq: "fst killed_round = Inl Died \<and> posted (snd killed_round) = [''push_'']"
  by (simp add: killed_round_def push_world_def deliverSubscription_def storeS_def aliveS_def post_push_def posted_def
      reserve_push_def next_push_def sendable_def accepted_consent_def reachable_notice_def push_db_def push0_def
      has_row_def run_simps sample_defs)

theorem push_at_most_once_witness:
  "\<exists>w. pushing push_random w \<and> posted w = [''push_''] \<and> distinct (posted w) \<and>
     (\<forall>r u. deliverSubscription env0 (\<lambda>k. False) Lost Lost id w = (r, u) \<longrightarrow> dl_posted u = dl_posted w \<or>
        (\<exists>i to token. dl_posted u = dl_posted w @ [(i, to, token)] \<and> i \<noteq> ''push_''))"
proof -
  have i: "inj push_random" by (rule injI) (metis length_replicate push_random_def)
  define w where "w = (snd killed_round)\<lparr>dl_db := recover_pushes (dl_db (snd killed_round)), dl_sender := \<lparr>sd_token = [], sd_expires = 0\<rparr>\<rparr>"
  have "pushing push_random push_world" unfolding push_world_def by (rule pushing.start [OF push_db_ok])
  moreover have "\<forall>d. outbox_steps push_random d (id d)" by (simp add: outbox_steps.here)
  moreover have "deliverSubscription env0 (\<lambda>k. k = 2) (Answer (''token'', 7200)) Lost id push_world = (Inl Died, snd killed_round)"
    using killed_round_eq by (simp add: killed_round_def prod_eq_iff)
  ultimately have c: "pushing push_random w" unfolding w_def by (rule pushing.killed)
  have p: "posted w = [''push_'']" using killed_round_eq by (simp add: w_def posted_def)
  note once = push_at_most_once [OF c i]
  have "dl_posted u = dl_posted w \<or> (\<exists>i to token. dl_posted u = dl_posted w @ [(i, to, token)] \<and> i \<noteq> ''push_'')"
    if "deliverSubscription env0 (\<lambda>k. False) Lost Lost id w = (r, u)" for r u
    using once [THEN conjunct2, THEN conjunct2, rule_format, OF that] unfolding p
    by auto
  then show ?thesis using c p by (intro exI [of _ w]) simp
qed

end
