(* ===== verification/History_Actions.thy ===== *)
theory History_Actions
  imports Pairing
begin

text \<open>
  \<open>internal/gateway/history_actions.go\<close>: renaming and tagging a session, deleting the content of
  sessions, and moving a conversation between gateways as a portable transcript.
\<close>

section \<open>Organising\<close>

definition organizeSession :: "env \<Rightarrow> string \<Rightarrow> session_row \<Rightarrow> session_metadata \<Rightarrow> unit dbact" where
  "organizeSession E uid s b =
     (let sid = se_id s in
      thenS (guardS (se_history s \<noteq> Purged) (apierr 410 HISTORY_PURGED))
      (thenS (guardS (case md_tags b of None \<Rightarrow> True | Some tags \<Rightarrow> distinct tags) invalid)
      (thenS (guardS (case md_title b of None \<Rightarrow> True | Some title \<Rightarrow> trim_space title \<noteq> []) invalid)
      (bindS (oneS (\<lambda>d. find (\<lambda>r. se_id r = sid \<and> se_revision r = md_revision b) (t_sessions d))) (\<lambda>r.
       thenS (modS (\<lambda>d. d\<lparr>t_sessions := upd_rows (\<lambda>r. se_id r = sid \<and> se_revision r = md_revision b)
          (\<lambda>r. r\<lparr>se_title := (case md_title b of None \<Rightarrow> se_title r | Some t \<Rightarrow> t),
                 se_pinned := (case md_pinned b of None \<Rightarrow> se_pinned r | Some p \<Rightarrow> p),
                 se_tags := (case md_tags b of None \<Rightarrow> se_tags r | Some t \<Rightarrow> t),
                 se_archived := (case md_archived b of None \<Rightarrow> se_archived r | Some a \<Rightarrow> a),
                 se_revision := se_revision r + 1, se_updated := now E\<rparr>) (t_sessions d)\<rparr>))
       (change E uid Rt_session sid Upsert (se_revision r + 1)))))))"

section \<open>Deleting\<close>

text \<open>
  The recursive query over the forks of a session, level by level; it stops after 101 rows, and 101
  levels hold as many if there are.
\<close>

definition forks :: "db \<Rightarrow> string \<Rightarrow> string \<Rightarrow> string list" where
  "forks d uid sid = map se_id (filter (\<lambda>c. se_parent c = Some sid \<and> se_user c = uid) (t_sessions d))"

fun fork_levels :: "db \<Rightarrow> string \<Rightarrow> nat \<Rightarrow> string list \<Rightarrow> string list" where
  "fork_levels d uid 0 ids = []"
| "fork_levels d uid (Suc n) ids =
     (if ids = [] then [] else ids @ fork_levels d uid n (concat (map (forks d uid) ids)))"

definition fork_tree :: "db \<Rightarrow> string \<Rightarrow> string \<Rightarrow> string list" where
  "fork_tree d uid sid =
     take 101 (fork_levels d uid 101 (if has_row (\<lambda>s. se_id s = sid \<and> se_user s = uid) (t_sessions d) then [sid] else []))"

definition unresolved_ops :: "db \<Rightarrow> string \<Rightarrow> bool" where
  "unresolved_ops d sid = has_row (\<lambda>r. op_session r = Some sid \<and> unresolved (op_state r)) (t_ops d)"

definition check_deletable :: "env \<Rightarrow> string \<Rightarrow> string \<Rightarrow> unit dbact" where
  "check_deletable E uid sid =
     bindS (getSession E uid sid) (\<lambda>(s, q).
     thenS (guardS (se_state s = S_closed) (apierr 409 READ_ONLY))
     (bindS (getS (\<lambda>d. unresolved_ops d sid)) (\<lambda>pending.
      guardS (\<not> pending) (apierr 409 OPERATION_UNKNOWN))))"

definition title_cleared :: string where
  "title_cleared = ''History content cleared''"

definition delete_notices :: "env \<Rightarrow> string \<Rightarrow> string \<Rightarrow> unit dbact" where
  "delete_notices E uid sid =
     bindS (getS (\<lambda>d. filter (\<lambda>n. nt_session n = Some sid) (t_notices d))) (\<lambda>notices.
     thenS (modS (\<lambda>d. d\<lparr>
        t_pushes := del_rows (\<lambda>p. has_row (\<lambda>n. nt_id n = pu_notice p \<and> nt_session n = Some sid) (t_notices d)) (t_pushes d),
        t_notices := del_rows (\<lambda>n. nt_session n = Some sid) (t_notices d)\<rparr>))
     (forS notices (\<lambda>n. change E uid Rt_notification (nt_id n) Remove (nt_revision n + 1))))"

definition clear_session :: "env \<Rightarrow> string \<Rightarrow> string \<Rightarrow> unit dbact" where
  "clear_session E uid sid =
     thenS (delete_notices E uid sid)
     (bindS (oneS (\<lambda>d. find_session d sid)) (\<lambda>s.
      thenS (modS (\<lambda>d. (delete_content sid d)\<lparr>
         t_ops := upd_rows (\<lambda>r. op_session r = Some sid \<and> settled (op_state r))
           (\<lambda>r. r\<lparr>op_payload := None, op_result := map_option (\<lambda>x. x\<lparr>or_native := None\<rparr>) (op_result r)\<rparr>) (t_ops d),
         t_sessions := upd_rows (\<lambda>r. se_id r = sid)
           (\<lambda>r. r\<lparr>se_history := Purged, se_earliest := se_last_seq r + 1, se_title := title_cleared,
                  se_revision := se_revision r + 1, se_tags := [], se_updated := now E\<rparr>) (t_sessions d)\<rparr>))
      (change E uid Rt_session sid Upsert (se_revision s + 1))))"

definition deleteHistory :: "env \<Rightarrow> string \<Rightarrow> string \<Rightarrow> delete_history \<Rightarrow> unit dbact" where
  "deleteHistory E uid sid b =
     bindS (if dh_descendants b then getS (\<lambda>d. fork_tree d uid sid) else returnS [sid]) (\<lambda>targets.
     thenS (guardS (\<not> (dh_descendants b \<and> length targets > 100)) invalid)
     (thenS (forS targets (check_deletable E uid))
     (forS targets (clear_session E uid))))"

section \<open>Importing\<close>

definition no_caps :: capabilities where
  "no_caps = \<lparr>cap_send = False, cap_cancel = False, cap_approval = False, cap_question = False, cap_diff = False,
     cap_plan = False, cap_usage = False, cap_queue = False, cap_steer = False, cap_models = None, cap_compact = None,
     cap_workspace = Some False, cap_history_import = None, cap_sections = None\<rparr>"

definition imported_session :: "env \<Rightarrow> string \<Rightarrow> string \<Rightarrow> import_history \<Rightarrow> session_row" where
  "imported_session E uid sid b =
     \<lparr>se_id = sid, se_user = uid, se_node = ih_node b, se_project = ih_project b, se_agent = ih_agent b,
      se_title = tr_title (ih_transcript b), se_state = S_closed, se_turn = None, se_mode = Readonly,
      se_history = Available, se_caps = no_caps, se_caprev = 1, se_revision = 1, se_last_seq = 0, se_last_source = 0,
      se_earliest = 1, se_created = dbnow E, se_updated = dbnow E, se_pinned = False, se_tags = [],
      se_archived = False, se_parent = None, se_origin = Import, se_origin_point = None\<rparr>"

definition import_item :: "env \<Rightarrow> string \<Rightarrow> string \<Rightarrow> string \<Rightarrow> string \<Rightarrow> transcript_item \<Rightarrow> unit dbact" where
  "import_item E uid nid sid turn i =
     thenS (guardS (ti_role i = ''user'' \<or> ti_role i = ''assistant'') invalid)
     (bindS (new_id E ''import'') (\<lambda>item.
      bindS (appendEvent E uid nid sid turn (Message_completed item (ti_role i) (ti_text i) False)) (\<lambda>_. returnS ())))"

text \<open>The identifier of the new session is the result.\<close>

definition importHistory :: "env \<Rightarrow> string \<Rightarrow> import_history \<Rightarrow> string dbact" where
  "importHistory E uid b =
     (let nid = ih_node b in
      bindS (ownNode uid nid False) (\<lambda>_.
      bindS (getProject uid (ih_project b)) (\<lambda>p.
      thenS (guardS (pj_node p = nid) invalid)
      (bindS (getAgent uid (ih_agent b)) (\<lambda>a.
       thenS (guardS (ar_node a = nid) invalid)
       (bindS (new_id E ''session'') (\<lambda>sid.
        bindS (new_id E ''turn'') (\<lambda>turn.
        thenS (insert_session (imported_session E uid sid b))
        (thenS (insert_turn \<lparr>tn_id = turn, tn_session = sid, tn_state = T_completed, tn_started = None,
                  tn_ended = Some (now E)\<rparr>)
        (thenS (modS (\<lambda>d. d\<lparr>t_sessions := upd_rows (\<lambda>r. se_id r = sid) (\<lambda>r. r\<lparr>se_turn := Some turn\<rparr>) (t_sessions d)\<rparr>))
        (thenS (forS (tr_items (ih_transcript b)) (import_item E uid nid sid turn))
        (bindS (getSession E uid sid) (\<lambda>(s, q).
         thenS (change E uid Rt_session sid Upsert (se_revision s)) (returnS sid))))))))))))))"

section \<open>The command\<close>

datatype history_command =
    Hc_organize string session_metadata
  | Hc_delete string delete_history
  | Hc_import import_history

fun history_kind :: "history_command \<Rightarrow> op_kind" where
  "history_kind (Hc_organize sid b) = K_organize"
| "history_kind (Hc_delete sid b) = K_delete_history"
| "history_kind (Hc_import b) = K_import_history"

text \<open>The session that is at the revision the user has seen.\<close>

definition current_session :: "env \<Rightarrow> string \<Rightarrow> string \<Rightarrow> int \<Rightarrow> session_row dbact" where
  "current_session E uid sid revision =
     bindS (getSession E uid sid) (\<lambda>(s, q).
     thenS (guardS (se_revision s = revision) (apierr 409 SOURCE_CONFLICT)) (returnS s))"

text \<open>The device and the session of the operation.\<close>

fun history_effect :: "env \<Rightarrow> string \<Rightarrow> history_command \<Rightarrow> (string \<times> string) dbact" where
  "history_effect E uid (Hc_organize sid b) =
     bindS (current_session E uid sid (md_revision b)) (\<lambda>s.
     thenS (organizeSession E uid s b) (returnS (se_node s, sid)))"
| "history_effect E uid (Hc_delete sid b) =
     bindS (current_session E uid sid (dh_revision b)) (\<lambda>s.
     thenS (deleteHistory E uid sid b) (returnS (se_node s, sid)))"
| "history_effect E uid (Hc_import b) =
     bindS (importHistory E uid b) (\<lambda>sid. returnS (ih_node b, sid))"

definition historyCommand :: "env \<Rightarrow> string \<Rightarrow> string \<Rightarrow> fingerprint \<Rightarrow> history_command \<Rightarrow> op_row dbact" where
  "historyCommand E uid op fp c =
     bindS (priorOp E uid op fp) (\<lambda>prior.
     case prior of
       Some r \<Rightarrow> returnS r
     | None \<Rightarrow>
         thenS (transaction uid
           (bindS (history_effect E uid c) (\<lambda>(nid, sid).
            thenS (insertOp E uid op (history_kind c) nid sid [] 0 fp None (now E))
            (thenS (finishOp E uid op Op_confirmed
               (Some (emptyResult\<lparr>or_session := Some sid, or_node := Some nid\<rparr>)) None)
            (audit E uid op (Audit_op (history_kind c)) Op_confirmed nid sid)))))
         (operation uid op))"

section \<open>Exporting\<close>

definition message_role :: "timeline_item \<Rightarrow> string option" where
  "message_role i = (case i of Message_item k t role x c u \<Rightarrow> Some role | _ \<Rightarrow> None)"

definition export_rows :: "db \<Rightarrow> string \<Rightarrow> timeline_row list" where
  "export_rows d sid =
     take 101 (sort_key tl_first (filter (\<lambda>r. tl_session r = sid \<and>
       message_role (tl_body r) \<in> {Some ''user'', Some ''assistant''}) (t_timeline d)))"

text \<open>At most 100 items and 56 KiB; what does not fit ends the export, which then says so.\<close>

fun export_items :: "env \<Rightarrow> transcript_item list \<Rightarrow> nat \<Rightarrow> bool \<Rightarrow> timeline_item list \<Rightarrow> transcript_item list \<times> bool" where
  "export_items E out bytes truncated [] = (out, truncated)"
| "export_items E out bytes truncated (m # ms) =
     (let (text, cut) = truncate_text (item_text m) 4000;
          item = \<lparr>ti_role = str (message_role m), ti_text = text\<rparr>;
          size = vt_size (vault_of E) item in
      if length out \<ge> 100 \<or> bytes + size > 57344 then (out, True)
      else export_items E (out @ [item]) (bytes + size) (truncated \<or> cut \<or> item_truncated m) ms)"

definition exportHistory :: "env \<Rightarrow> string \<Rightarrow> string \<Rightarrow> transcript dbact" where
  "exportHistory E uid sid =
     bindS (getSession E uid sid) (\<lambda>(s, q).
     thenS (guardS (se_history s \<noteq> Purged) (apierr 410 HISTORY_PURGED))
     (bindS (getS (\<lambda>d. map tl_body (export_rows d sid))) (\<lambda>rows.
      bindS (getAgent uid (se_agent s)) (\<lambda>a.
      let (items, truncated) = export_items E [] 0 (length rows > 100) rows in
      returnS \<lparr>tr_exported = timestamp E (now E), tr_title = se_title s, tr_agent = ag_name (ar_body a),
               tr_parent = se_parent s, tr_items = items, tr_truncated = truncated\<rparr>))))"

section \<open>The invariant of the database\<close>

lemma changes_of_sessions [simp]: "changes_inv (t_users (delete_content sid d)) = changes_inv (t_users d)"
  by (rule ext) (simp add: delete_content_def)

lemma logs_organize [logs_rules]: "preserves (store_ok (dbnow E)) (organizeSession E uid s b)"
  unfolding organizeSession_def Let_def
  by (intro logs_rules keeps_rules logs_mod) (simp_all add: events_inv_upd)

lemma logs_delete_notices [logs_rules]: "preserves (store_ok (dbnow E)) (delete_notices E uid sid)"
  unfolding delete_notices_def by (intro logs_rules keeps_rules logs_write_pre) simp_all

lemma rows_ok_clear:
  "rows_ok (\<lambda>r. (op_user r, op_id r)) op_ok P \<Longrightarrow>
     rows_ok (\<lambda>r. (op_user r, op_id r)) op_ok
       (upd_rows Q (\<lambda>r. r\<lparr>op_payload := None, op_result := map_option f (op_result r)\<rparr>) P)"
  by (rule rows_ok_upd) (simp_all add: op_ok_def)

lemma logs_clear_session [logs_rules]: "preserves (store_ok (dbnow E)) (clear_session E uid sid)"
proof -
  have inv: "events_inv (upd_rows (\<lambda>r. se_id r = sid)
       (\<lambda>r. r\<lparr>se_history := Purged, se_earliest := se_last_seq r + 1, se_title := title_cleared,
              se_revision := se_revision r + 1, se_tags := [], se_updated := n\<rparr>) S) (del_rows (\<lambda>e. ev_session e = sid) V)"
    if "events_inv S V" for S V n
  proof -
    have "events_inv (upd_rows (\<lambda>r. se_id r = sid) (\<lambda>r. r\<lparr>se_tags := [], se_updated := n\<rparr>)
        (upd_rows (\<lambda>r. se_id r = sid) (\<lambda>r. r\<lparr>se_history := Purged, se_earliest := se_last_seq r + 1,
          se_title := title_cleared, se_revision := se_revision r + 1\<rparr>) S)) (del_rows (\<lambda>e. ev_session e = sid) V)"
      using events_inv_purge [OF that] by (subst events_inv_upd) simp_all
    then show ?thesis by (simp add: upd_rows_def comp_def if_distrib cong: if_cong)
  qed
  show ?thesis unfolding clear_session_def
    by (intro logs_rules keeps_rules logs_mod) (simp_all add: delete_content_def inv rows_ok_del rows_ok_clear)
qed

lemma logs_delete_history [logs_rules]: "preserves (store_ok (dbnow E)) (deleteHistory E uid sid b)"
  unfolding deleteHistory_def check_deletable_def getSession_def by (intro logs_rules keeps_rules)

lemma logs_import_history [logs_rules]: "preserves (store_ok (dbnow E)) (importHistory E uid b)"
  unfolding importHistory_def import_item_def Let_def ownNode_def getProject_def getAgent_def getSession_def insert_turn_def
  by (intro logs_rules keeps_rules logs_mod) (simp_all add: imported_session_def events_inv_upd)

lemma logs_history_effect [logs_rules]: "preserves (store_ok (dbnow E)) (history_effect E uid c)"
  by (cases c) (auto simp: current_session_def getSession_def intro!: logs_rules keeps_rules)

lemma logs_historyCommand [logs_rules]: "keeps (store_ok (dbnow E)) (historyCommand E uid op fp c)"
  unfolding historyCommand_def priorOp_def operation_def by (intro logs_rules keeps_rules)

lemma logs_exportHistory [logs_rules]: "keeps (store_ok T) (exportHistory E uid sid)"
  unfolding exportHistory_def getSession_def getAgent_def Let_def by (intro logs_rules keeps_rules)

end
