(* ===== verification/History_Spec.thy ===== *)
theory History_Spec
  imports History_Actions Frames
begin

text \<open>
  A transcript that is imported and exported again is the transcript that was imported.
\<close>

section \<open>The timeline an import writes\<close>

definition session_rows :: "db \<Rightarrow> string \<Rightarrow> timeline_row list" where
  "session_rows d sid = filter (\<lambda>r. tl_session r = sid) (t_timeline d)"

lemma change_timeline: "same (\<lambda>d. (t_timeline d, t_sessions d, entropy d)) (change E uid kind rid action n)"
  unfolding change_def same_iff_keeps Let_def by (intro allI keeps_rules keeps_mod) simp

definition message_row :: "string \<Rightarrow> string \<Rightarrow> string \<Rightarrow> string \<Rightarrow> string \<Rightarrow> int \<Rightarrow> timeline_row" where
  "message_row sid turn item role text n =
     \<lparr>tl_session = sid, tl_turn = turn, tl_item = item, tl_first = n, tl_last = n,
      tl_body = projected_message None turn item role text False False\<rparr>"

lemma append_message:
  assumes "appendEvent E uid nid sid turn (Message_completed item role text False) d = (Inr n, t)"
    and "find_item d sid turn item = None"
  shows "t_timeline t = t_timeline d @ [message_row sid turn item role text n] \<and> entropy t = entropy d + 1
    \<and> (\<exists>r r'. find_session d sid = Some r \<and> n = se_last_seq r + 1 \<and> find_session t sid = Some r' \<and> se_last_seq r' = n)"
  using assms(1)
proof (rule appendEvent_Inr)
  fix v d1 eid d3 d4
  let ?e = "\<lparr>ev_session = sid, ev_seq = n, ev_id = eid, ev_node = nid, ev_turn = nullString turn, ev_source = None,
    ev_data = stamp_revision v (Message_completed item role text False), ev_created = now E\<rparr>"
  assume b: "bump_session E sid d = (Inr (n, v), d1)"
    and d3: "d3 = d1\<lparr>entropy := entropy d1 + 1, t_events := t_events d1 @ [?e]\<rparr>"
    and p: "projectItem E sid turn (stamp_revision v (Message_completed item role text False)) n d3 = (Inr (), d4)"
    and c: "change E uid Rt_session sid Upsert v d4 = (Inr (), t)"
  from b obtain r where r: "find_session d sid = Some r" "n = se_last_seq r + 1"
    and d1: "d1 = d\<lparr>t_sessions := upd_rows (\<lambda>r. se_id r = sid)
        (\<lambda>r. r\<lparr>se_last_seq := se_last_seq r + 1, se_revision := se_revision r + 1, se_updated := now E\<rparr>) (t_sessions d)\<rparr>"
    by (auto simp: bump_session_def run_iff)
  have none: "find_item d3 sid turn item = None" using assms(2) by (simp add: find_item_def d3 d1)
  have d4: "d4 = d3\<lparr>t_timeline := t_timeline d3 @ [message_row sid turn item role text n]\<rparr>"
    using p none
    by (auto simp: project_message_def upsert_item_def projected_message_def message_row_def Let_def
        bindS_get thenS_Inr guardS_Inr modS_iff)
  have t: "t_timeline t = t_timeline d4" "t_sessions t = t_sessions d4" "entropy t = entropy d4"
    using sameD [OF change_timeline c] by simp_all
  have "se_id r = sid" using r(1) by (auto simp: find_session_def dest: find_SomeD)
  then have "\<exists>r'. find_session t sid = Some r' \<and> se_last_seq r' = n"
    using r by (simp add: find_session_def t d4 d3 d1 find_upd_rows)
  then show ?thesis using r by (simp add: t d4 d3 d1)
qed

text \<open>Items imported so far carry drawn identifiers, so that the next one is new.\<close>

definition import_id :: "(nat \<Rightarrow> string) \<Rightarrow> nat \<Rightarrow> string" where
  "import_id R n = ''import'' @ ''_'' @ R n"

definition drawn_items :: "(nat \<Rightarrow> string) \<Rightarrow> string \<Rightarrow> db \<Rightarrow> bool" where
  "drawn_items R sid d \<longleftrightarrow> (\<forall>r\<in>set (session_rows d sid). \<exists>n<entropy d. tl_item r = import_id R n)"

lemma drawn_is_new:
  assumes "drawn_items R sid d" and "inj R"
  shows "find_item d sid turn (import_id R (entropy d)) = None"
proof -
  have "tl_item r \<noteq> import_id R (entropy d)" if "r \<in> set (t_timeline d)" "tl_session r = sid" for r
    using assms that by (fastforce simp: drawn_items_def session_rows_def import_id_def dest: injD)
  then show ?thesis by (auto simp: find_item_def find_None_iff)
qed

definition item_of :: "timeline_row \<Rightarrow> transcript_item" where
  "item_of r = \<lparr>ti_role = str (message_role (tl_body r)), ti_text = item_text (tl_body r)\<rparr>"

definition plain_row :: "timeline_row \<Rightarrow> bool" where
  "plain_row r \<longleftrightarrow> message_role (tl_body r) \<in> {Some ''user'', Some ''assistant''} \<and> \<not> item_truncated (tl_body r)"

text \<open>A text within the limit is kept as it is.\<close>

lemma truncate_fits: "rune_count s \<le> n \<Longrightarrow> truncate_text s n = (s, False)"
  by (simp add: truncate_text_def rune_count_def Let_def)

lemma import_item_Inr:
  assumes "import_item E uid nid sid turn i d = (Inr x, t)" and "drawn_items (rnd E) sid d" and "inj (rnd E)"
    and "rune_count (ti_text i) \<le> 48000"
  shows "drawn_items (rnd E) sid t \<and> (\<exists>r r' row. find_session d sid = Some r \<and> find_session t sid = Some r'
     \<and> session_rows t sid = session_rows d sid @ [row] \<and> item_of row = i \<and> plain_row row
     \<and> tl_first row = se_last_seq r + 1 \<and> se_last_seq r' = tl_first row)"
proof -
  let ?i = "import_id (rnd E) (entropy d)" and ?d = "d\<lparr>entropy := entropy d + 1\<rparr>"
  from assms(1) obtain n where role: "ti_role i = ''user'' \<or> ti_role i = ''assistant''"
    and a: "appendEvent E uid nid sid turn (Message_completed ?i (ti_role i) (ti_text i) False) ?d = (Inr n, t)"
    by (auto simp: import_item_def import_id_def thenS_Inr guardS_Inr bindS_Inr new_id_iff returnS_iff)
  have none: "find_item ?d sid turn ?i = None" using drawn_is_new [OF assms(2,3)] by (simp add: find_item_def)
  let ?row = "message_row sid turn ?i (ti_role i) (ti_text i) n"
  from append_message [OF a none] obtain r r' where
      t: "t_timeline t = t_timeline d @ [?row]" "entropy t = entropy d + 2" and r: "find_session d sid = Some r"
      "n = se_last_seq r + 1" "find_session t sid = Some r'" "se_last_seq r' = n"
    by (auto simp: find_session_def)
  have "session_rows t sid = session_rows d sid @ [?row]"
    by (simp add: session_rows_def t message_row_def)
  moreover have "item_of ?row = i" "plain_row ?row" "tl_first ?row = n" "tl_item ?row = ?i"
    using role assms(4) truncate_fits
    by (auto simp: item_of_def plain_row_def message_row_def projected_message_def message_role_def Let_def)
  moreover have "\<exists>m<entropy t. tl_item x = import_id (rnd E) m" if x: "x \<in> set (session_rows d sid)" for x
  proof -
    obtain m where "m < entropy d" "tl_item x = import_id (rnd E) m" using assms(2) x by (auto simp: drawn_items_def)
    then show ?thesis using t(2) by (intro exI [of _ m]) simp
  qed
  moreover have "\<exists>m<entropy t. ?i = import_id (rnd E) m" by (rule exI [of _ "entropy d"]) (simp add: t(2))
  ultimately show ?thesis using t r by (auto simp: drawn_items_def)
qed

lemma import_items_Inr:
  assumes "forS items (import_item E uid nid sid turn) d = (Inr x, t)" and "drawn_items (rnd E) sid d" and "inj (rnd E)"
    and "\<forall>i\<in>set items. rune_count (ti_text i) \<le> 48000" and "find_session d sid = Some r"
  shows "\<exists>rows. session_rows t sid = session_rows d sid @ rows \<and> map item_of rows = items \<and> list_all plain_row rows
     \<and> sorted (map tl_first rows) \<and> (\<forall>row\<in>set rows. se_last_seq r < tl_first row)"
  using assms(1,2,4,5)
proof (induction items arbitrary: d r)
  case Nil
  then show ?case by (simp add: returnS_iff)
next
  case (Cons i items)
  from Cons.prems(1) obtain d1 where 1: "import_item E uid nid sid turn i d = (Inr (), d1)"
    and rest: "forS items (import_item E uid nid sid turn) d1 = (Inr x, t)" by (auto simp: bindS_Inr)
  from import_item_Inr [OF 1 Cons.prems(2) assms(3)] Cons.prems(3,4) obtain r' row where
      dr: "drawn_items (rnd E) sid d1" and r': "find_session d1 sid = Some r'"
      and row: "session_rows d1 sid = session_rows d sid @ [row]" "item_of row = i" "plain_row row"
        "tl_first row = se_last_seq r + 1" "se_last_seq r' = tl_first row" by auto
  from Cons.IH [OF rest dr _ r'] Cons.prems(3) obtain rows where
      "session_rows t sid = session_rows d1 sid @ rows" "map item_of rows = items" "list_all plain_row rows"
      "sorted (map tl_first rows)" "\<forall>row\<in>set rows. se_last_seq r' < tl_first row" by auto
  then show ?case using row by (intro exI [of _ "row # rows"]) auto
qed

section \<open>What an export reads\<close>

lemma export_items_all:
  assumes "length out + length rows \<le> 100" and "bytes + sum_list (map (\<lambda>r. vt_size (vault_of F) (item_of r)) rows) \<le> 57344"
    and "list_all plain_row rows" and "\<forall>r\<in>set rows. rune_count (item_text (tl_body r)) \<le> 4000"
  shows "export_items F out bytes False (map tl_body rows) = (out @ map item_of rows, False)"
  using assms
proof (induction rows arbitrary: out bytes)
  case (Cons r rows)
  then have "truncate_text (item_text (tl_body r)) 4000 = (item_text (tl_body r), False)" by (simp add: truncate_fits)
  moreover have "\<not> item_truncated (tl_body r)" using Cons.prems(3) by (simp add: plain_row_def)
  moreover have "export_items F (out @ [item_of r]) (bytes + vt_size (vault_of F) (item_of r)) False (map tl_body rows)
      = ((out @ [item_of r]) @ map item_of rows, False)"
    by (rule Cons.IH) (use Cons.prems in auto)
  ultimately show ?case using Cons.prems(1,2) by (simp add: item_of_def)
qed simp

lemma export_rows_session:
  assumes "session_rows d sid = rows" and "list_all plain_row rows" and "sorted (map tl_first rows)" and "length rows \<le> 101"
  shows "export_rows d sid = rows"
proof -
  have "filter (\<lambda>r. tl_session r = sid \<and> message_role (tl_body r) \<in> {Some ''user'', Some ''assistant''}) (t_timeline d)
      = filter (\<lambda>r. message_role (tl_body r) \<in> {Some ''user'', Some ''assistant''}) rows"
    unfolding assms(1) [symmetric] session_rows_def filter_filter ..
  also have "\<dots> = rows" using assms(2) by (simp add: filter_id_conv list_all_iff plain_row_def)
  finally show ?thesis using assms(3,4) by (simp add: export_rows_def sort_key_id_if_sorted)
qed

section \<open>The round trip\<close>

definition portable :: "env \<Rightarrow> transcript \<Rightarrow> bool" where
  "portable F tr \<longleftrightarrow> length (tr_items tr) \<le> 100 \<and> (\<forall>i\<in>set (tr_items tr). rune_count (ti_text i) \<le> 4000)
     \<and> sum_list (map (vt_size (vault_of F)) (tr_items tr)) \<le> 57344"

text \<open>The import up to the messages, the messages, and the rest.\<close>

lemma import_history_Inr:
  assumes "importHistory E uid b d = (Inr sid, t)"
  obtains a turn d1 d2 where "getAgent uid (ih_agent b) d = (Inr a, d)" and "accessible d uid (ih_node b)"
    and "\<not> has_row (\<lambda>x. se_id x = sid) (t_sessions d)"
    and "t_agents d1 = t_agents d" and "t_access d1 = t_access d" and "t_nodes d1 = t_nodes d" and "t_timeline d1 = t_timeline d"
    and "t_sessions d1 = upd_rows (\<lambda>r. se_id r = sid) (\<lambda>r. r\<lparr>se_turn := Some turn\<rparr>)
          (t_sessions d @ [imported_session E uid sid b])"
    and "forS (tr_items (ih_transcript b)) (import_item E uid (ih_node b) sid turn) d1 = (Inr (), d2)"
    and "t_timeline t = t_timeline d2" and "core t = core d2"
  using assms unfolding importHistory_def Let_def bindS_Inr thenS_Inr guardS_Inr returnS_iff case_prod_beta
proof (elim exE conjE, goal_cases)
  case (1 nid d' p d'' d3 a d4 d5 sid' d6 turn d7 d8 d9 d1 d2 s d10 d11)
  have "d' = d" "d'' = d'" and d4: "d4 = d3" and acc: "accessible d uid (ih_node b)"
    using 1(2,3,6) by (auto simp: ownNode_def getProject_def getAgent_def oneS_Inr split: if_splits)
  then have d5: "d5 = d" and ag: "getAgent uid (ih_agent b) d = (Inr a, d)" using 1(5,6,8) by simp_all
  have d7: "d7 = d\<lparr>entropy := entropy d + 2\<rparr>" and sid: "sid' = sid" using 1(9,10,17) d5 by (auto simp: new_id_iff)
  have d8: "d8 = d7\<lparr>t_sessions := t_sessions d7 @ [imported_session E uid sid b]\<rparr>"
      and new: "\<not> has_row (\<lambda>x. se_id x = sid) (t_sessions d7)"
    using 1(11) sid by (auto simp: insert_session_def run_iff imported_session_def)
  have d9: "\<exists>T. d9 = d8\<lparr>t_turns := T\<rparr>" using 1(12) by (auto simp: insert_turn_def put_turns_def run_iff)
  have d1: "d1 = d9\<lparr>t_sessions := upd_rows (\<lambda>r. se_id r = sid) (\<lambda>r. r\<lparr>se_turn := Some turn\<rparr>) (t_sessions d9)\<rparr>"
    using 1(13) sid by (simp add: modS_iff)
  have c: "change E uid Rt_session sid Upsert (se_revision (fst s)) d2 = (Inr (), t)"
    using 1(15,16,18) sid by (auto simp: getSession_def oneS_Inr)
  have "t_timeline t = t_timeline d2" "core t = core d2"
    using sameD [OF change_timeline c] coreD [OF core_change c] by simp_all
  then show ?case using 1(1) [OF ag acc, of d1 turn d2] 1(14) new d7 d8 d9 d1 sid by auto
qed

lemma import_items_core: "keeps (\<lambda>d. core d = v) (forS items (import_item E uid nid sid turn))"
  unfolding import_item_def by (intro keeps_rules core_rules)

lemma still_labels:
  "still r' = still r \<Longrightarrow> se_title r' = se_title r \<and> se_agent r' = se_agent r \<and> se_parent r' = se_parent r"
  by (cases r; cases r') (simp add: still_def)

text \<open>
  C30: a transcript that is imported and then exported, at any later time before anything else happens to
  the session, comes back as it was: the same title, the same messages in the same order, complete. It
  has to be within the limits of an export (100 messages of 4000 characters, 56 KiB).
\<close>

theorem import_export_roundtrip:
  assumes "importHistory E uid b d = (Inr sid, t)" and "inj (rnd E)" and "portable F (ih_transcript b)"
    and "\<forall>r\<in>set (t_timeline d). has_row (\<lambda>s. se_id s = tl_session r) (t_sessions d)"
  shows "\<exists>e. exportHistory F uid sid t = (Inr e, t) \<and> tr_title e = tr_title (ih_transcript b)
     \<and> tr_items e = tr_items (ih_transcript b) \<and> \<not> tr_truncated e \<and> tr_parent e = None"
  using assms(1)
proof (rule import_history_Inr)
  fix a turn d1 d2
  assume ag: "getAgent uid (ih_agent b) d = (Inr a, d)" and acc: "accessible d uid (ih_node b)"
    and new: "\<not> has_row (\<lambda>x. se_id x = sid) (t_sessions d)"
    and same: "t_agents d1 = t_agents d" "t_access d1 = t_access d" "t_nodes d1 = t_nodes d" "t_timeline d1 = t_timeline d"
    and s1: "t_sessions d1 = upd_rows (\<lambda>r. se_id r = sid) (\<lambda>r. r\<lparr>se_turn := Some turn\<rparr>)
          (t_sessions d @ [imported_session E uid sid b])"
    and items: "forS (tr_items (ih_transcript b)) (import_item E uid (ih_node b) sid turn) d1 = (Inr (), d2)"
    and t: "t_timeline t = t_timeline d2" "core t = core d2"
  let ?s = "imported_session E uid sid b\<lparr>se_turn := Some turn\<rparr>" and ?its = "tr_items (ih_transcript b)"
  have "find (\<lambda>x. se_id x = sid) (t_sessions d) = None" using new by (simp add: find_None_iff_has)
  then have f1: "find_session d1 sid = Some ?s"
    by (simp add: find_session_def s1 find_append find_upd_rows imported_session_def)
  have "session_rows d1 sid = []"
    using assms(4) new same(4) by (auto simp: session_rows_def has_row_iff filter_empty_conv)
  moreover from this have "drawn_items (rnd E) sid d1" by (simp add: drawn_items_def)
  moreover have "\<forall>i\<in>set ?its. rune_count (ti_text i) \<le> 48000" using assms(3) by (fastforce simp: portable_def)
  ultimately obtain rows where rows: "session_rows d2 sid = rows" "map item_of rows = ?its" "list_all plain_row rows"
      "sorted (map tl_first rows)"
    using import_items_Inr [OF items _ assms(2) _ f1] by auto
  have len: "length rows = length ?its" using rows(2) by (metis length_map)
  have er: "export_rows t sid = rows"
    by (rule export_rows_session [OF _ rows(3,4)]) (use rows(1) t(1) len assms(3) in \<open>simp_all add: session_rows_def portable_def\<close>)
  have words: "ti_text (item_of r) = item_text (tl_body r)" for r by (simp add: item_of_def)
  have ei: "export_items F [] 0 False (map tl_body rows) = (?its, False)"
  proof -
    have "\<forall>r\<in>set rows. rune_count (ti_text (item_of r)) \<le> 4000"
      using assms(3) unfolding portable_def rows(2) [symmetric] by simp
    moreover have "sum_list (map (\<lambda>r. vt_size (vault_of F) (item_of r)) rows) \<le> 57344"
      using assms(3) unfolding portable_def rows(2) [symmetric] by (simp add: comp_def)
    ultimately show ?thesis
      using export_items_all [of "[]" rows 0 F] len assms(3) rows(2,3) by (simp add: portable_def words)
  qed
  have "core t = core d1" using coreD [OF import_items_core items] t(2) by simp
  then obtain s where s: "find_session t sid = Some s" "still s = still ?s" by (rule core_session [OF _ f1])
  have acct: "accessible t uid nid = accessible d uid nid" for nid
    using \<open>core t = core d1\<close> same by (simp add: accessible_def core_eq)
  have sf: "se_user s = uid" "se_node s = ih_node b" "se_history s = Available" "se_title s = tr_title (ih_transcript b)"
      "se_agent s = ih_agent b" "se_parent s = None"
    using still_fields [OF s(2)] still_labels [OF s(2)] by (simp_all add: imported_session_def)
  have "getSession F uid sid t = (Inr (s, session_queue F t sid), t)"
    using s(1) sf acc by (simp add: getSession_def own_session_row_def oneS_run acct)
  moreover have "getAgent uid (ih_agent b) t = (Inr a, t)"
    using ag same(1) \<open>core t = core d1\<close> by (simp add: getAgent_def oneS_run acct core_eq split: option.splits)
  moreover have "\<not> length rows > 100" using len assms(3) by (simp add: portable_def)
  ultimately show ?thesis
    using sf er ei
    by (simp add: exportHistory_def bindS_run thenS_run guardS_run getS_run returnS_run Let_def)
qed

definition transcript0 :: transcript where
  "transcript0 = \<lparr>tr_exported = [], tr_title = ''talk'', tr_agent = [], tr_parent = None,
     tr_items = [\<lparr>ti_role = ''user'', ti_text = ''hi''\<rparr>], tr_truncated = False\<rparr>"

definition import0 :: import_history where
  "import0 = \<lparr>ih_node = ''n'', ih_project = ''p'', ih_agent = ''a'', ih_transcript = transcript0\<rparr>"

definition sample_import :: "(err + string) \<times> db" where
  "sample_import = importHistory env0 ''u'' import0 db0"

lemma sample_import_eq: "fst sample_import = Inr ''session_''"
  by (simp add: sample_import_def importHistory_def import0_def transcript0_def import_item_def imported_session_def
      insert_session_def insert_turn_def put_turns_def one_active_def ownNode_def getProject_def getAgent_def getSession_def
      own_session_row_def accessible_def new_id_def append_eval run_simps sample_defs)

theorem import_export_roundtrip_witness:
  "\<exists>e. fst (exportHistory env0 ''u'' ''session_'' (snd sample_import)) = Inr e \<and> tr_items e = [\<lparr>ti_role = ''user'', ti_text = ''hi''\<rparr>]"
proof -
  have run: "importHistory env0 ''u'' import0 db0 = (Inr ''session_'', snd sample_import)"
    using sample_import_eq by (simp add: sample_import_def prod_eq_iff)
  have i: "inj (rnd env0)"
    by (rule injI) (auto simp: env0_def dest: arg_cong [where f = length])
  have p: "portable env0 (ih_transcript import0)"
    by (simp add: portable_def import0_def transcript0_def rune_count_def continuation_def byte_def env0_def vault0_def)
  have "\<forall>r\<in>set (t_timeline db0). has_row (\<lambda>s. se_id s = tl_session r) (t_sessions db0)" by (simp add: db0_def)
  from import_export_roundtrip [OF run i p this] show ?thesis by (auto simp: import0_def transcript0_def)
qed

end
