(* ===== verification/Share_Lists.thy ===== *)
theory Share_Lists
  imports Shares
begin

text \<open>
  The two listings of \<open>shares.go\<close>: \<open>shareList\<close>, the shares of a session or those a user has received,
  and \<open>shareActivity\<close>, the commands that came to a session through its shares. Both hand out signed
  tokens that carry the time and the identifier of the last row.
\<close>

definition five_minutes :: int where
  "five_minutes = 5 * minute"

text \<open>The position of a token, which has to be of the same user, listing and session.\<close>

definition list_position :: "env \<Rightarrow> string \<Rightarrow> string \<Rightarrow> string \<Rightarrow> string \<Rightarrow> err + (int \<times> string) option" where
  "list_position E uid kind scope token =
     (if token = [] then Inr None
      else case decodeCursor (codec_of E) (unix E (now E)) token of
        Inl e \<Rightarrow> Inl e
      | Inr c \<Rightarrow> (if cu_user c \<noteq> uid \<or> cu_kind c \<noteq> kind \<or> cu_scope c \<noteq> scope then Inl invalid
                 else Inr (Some (parse_time E (cu_before c), cu_item c))))"

definition list_token :: "env \<Rightarrow> string \<Rightarrow> string \<Rightarrow> string \<Rightarrow> int \<times> string \<Rightarrow> string" where
  "list_token E uid kind scope k =
     sign_cursor (codec_of E)
       \<lparr>cu_user = uid, cu_kind = kind, cu_filter = [], cu_sort = [], cu_id = [], cu_after = 0, cu_scope = scope,
        cu_before = pg_time E (fst k), cu_item = snd k, cu_expires = unix E (now E + five_minutes)\<rparr>"

section \<open>Shares\<close>

text \<open>The join with the session, the owner's access and the node, whatever their state.\<close>

definition share_joined :: "db \<Rightarrow> share_row \<Rightarrow> bool" where
  "share_joined d g \<longleftrightarrow>
     (case find_session d (sh_session g) of
        None \<Rightarrow> False
      | Some s \<Rightarrow> se_user s = sh_owner g
          \<and> has_row (\<lambda>a. ac_user a = se_user s \<and> ac_node a = se_node s) (t_access d)
          \<and> has_row (\<lambda>n. nd_id n = se_node s) (t_nodes d))"

definition listed_share :: "env \<Rightarrow> db \<Rightarrow> string \<Rightarrow> string \<Rightarrow> bool \<Rightarrow> share_row \<Rightarrow> bool" where
  "listed_share E d uid sid received g \<longleftrightarrow>
     (if received then sh_recipient g = Some uid \<and> sid = [] \<and> live_share E d (sh_owner g) g
      else sh_owner g = uid \<and> sh_session g = sid \<and> share_joined d g)
     \<and> sh_created g \<le> now E"

definition share_rows :: "env \<Rightarrow> string \<Rightarrow> string \<Rightarrow> bool \<Rightarrow> db \<Rightarrow> share_row list" where
  "share_rows E uid sid received d = filter (listed_share E d uid sid received) (t_shares d)"

definition share_key :: "share_row \<Rightarrow> int \<times> string" where
  "share_key g = (sh_created g, sh_id g)"

definition list_kind :: "bool \<Rightarrow> string" where
  "list_kind received = (if received then ''received-shares'' else ''owner-shares'')"

definition listed_view :: "env \<Rightarrow> db \<Rightarrow> share_row \<Rightarrow> share_view option" where
  "listed_view E d g = map_option (share_view_of E d g) (find_session d (sh_session g))"

record 'v token_list =
  tl_items :: "'v list"
  tl_next :: "string option"
  tl_time :: string

definition shareList :: "env \<Rightarrow> string \<Rightarrow> string \<Rightarrow> bool \<Rightarrow> string \<Rightarrow> string \<Rightarrow> share_view option token_list dbact" where
  "shareList E uid sid received limit_q token =
     thenS (if received then returnS () else bindS (ownSession uid sid) (\<lambda>_. returnS ()))
     (bindS (liftS (\<lambda>_. parseLimit limit_q 30 100)) (\<lambda>limit.
      bindS (liftS (\<lambda>_. list_position E uid (list_kind received) sid token)) (\<lambda>c.
      bindS (getS (\<lambda>d. let (rows, nxt) = token_page share_key (nat limit) c (share_rows E uid sid received d) in
                       (map (listed_view E d) rows, nxt))) (\<lambda>(items, nxt).
      returnS \<lparr>tl_items = items, tl_next = map_option (list_token E uid (list_kind received) sid) nxt,
               tl_time = timestamp E (now E)\<rparr>))))"

section \<open>Activity\<close>

record activity =
  av_id :: string
  av_share :: string
  av_actor :: string
  av_action :: op_kind
  av_state :: op_state
  av_created :: string

definition activity_key :: "share_command_row \<Rightarrow> int \<times> string" where
  "activity_key c = (sc_created c, sc_owner_op c)"

definition activity_view :: "env \<Rightarrow> db \<Rightarrow> share_command_row \<Rightarrow> activity option" where
  "activity_view E d c =
     (case (user_name d (sc_actor c), find_op d (sc_owner c) (sc_owner_op c)) of
        (Some name, Some r) \<Rightarrow> Some \<lparr>av_id = op_id r, av_share = sc_share c, av_actor = name,
           av_action = sc_action c, av_state = op_state r, av_created = pg_time E (sc_created c)\<rparr>
      | _ \<Rightarrow> None)"

definition activity_rows :: "env \<Rightarrow> string \<Rightarrow> string \<Rightarrow> db \<Rightarrow> share_command_row list" where
  "activity_rows E uid sid d =
     filter (\<lambda>c. (case find_share d (sc_share c) of None \<Rightarrow> False | Some g \<Rightarrow> sh_owner g = uid \<and> sh_session g = sid)
                 \<and> activity_view E d c \<noteq> None) (t_share_commands d)"

definition shareActivity :: "env \<Rightarrow> string \<Rightarrow> string \<Rightarrow> string \<Rightarrow> string \<Rightarrow> activity option token_list dbact" where
  "shareActivity E uid sid limit_q token =
     bindS (ownSession uid sid) (\<lambda>_.
     bindS (liftS (\<lambda>_. parseLimit limit_q 30 100)) (\<lambda>limit.
     bindS (liftS (\<lambda>_. list_position E uid ''share-activity'' sid token)) (\<lambda>c.
     bindS (getS (\<lambda>d. let (rows, nxt) = token_page activity_key (nat limit) c (activity_rows E uid sid d) in
                      (map (activity_view E d) rows, nxt))) (\<lambda>(items, nxt).
     returnS \<lparr>tl_items = items, tl_next = map_option (list_token E uid ''share-activity'' sid) nxt,
              tl_time = timestamp E (now E)\<rparr>))))"

section \<open>The listings keep the contract\<close>

text \<open>
  What the tokens rely on: the codec reads back what it wrote, a stored time reads back from its text,
  and five minutes from now is not before now.
\<close>

definition tokens_work :: "env \<Rightarrow> bool" where
  "tokens_work E \<longleftrightarrow>
     (\<forall>c. unmarshal (codec_of E) (marshal (codec_of E) c) = Some c) \<and> (\<forall>t. parse_time E (pg_time E t) = t)
     \<and> unix E (now E) \<le> unix E (now E + five_minutes)"

lemma list_position_token:
  "tokens_work E \<Longrightarrow> list_position E uid kind scope (case map_option (list_token E uid kind scope) c of None \<Rightarrow> [] | Some t \<Rightarrow> t) = Inr c"
  by (cases c)
    (auto simp: list_position_def list_token_def tokens_work_def decode_sign_cursor sign_cursor_nonempty)

text \<open>The client asks for a page of a fixed size, and keeps what it is shown.\<close>

definition token_fetch :: "(string \<Rightarrow> string \<Rightarrow> 'v token_list dbact) \<Rightarrow> nat \<Rightarrow> string option \<Rightarrow> db
    \<Rightarrow> err + 'v list \<times> string option" where
  "token_fetch lst n t d =
     (case fst (lst (decimal n) (case t of None \<Rightarrow> [] | Some x \<Rightarrow> x) d) of
        Inl e \<Rightarrow> Inl e | Inr p \<Rightarrow> Inr (tl_items p, tl_next p))"

lemma distinct_share_keys: "distinct (map sh_id (t_shares d)) \<Longrightarrow> distinct (map share_key (share_rows E uid sid received d))"
  by (simp add: share_rows_def distinct_map inj_on_def share_key_def)

lemma distinct_activity_keys:
  "distinct (map sc_owner_op (t_share_commands d)) \<Longrightarrow> distinct (map activity_key (activity_rows E uid sid d))"
  by (simp add: activity_rows_def distinct_map inj_on_def activity_key_def)

lemma shareList_page:
  assumes "tokens_work E" and "received \<or> own_session_row d uid sid \<noteq> None" and "1 \<le> n" and "n \<le> 100"
    and "rs = filter (behind share_key c) (descending share_key (share_rows E uid sid received d))"
  shows "token_fetch (shareList E uid sid received) n (map_option (list_token E uid (list_kind received) sid) c) d
    = Inr (map (listed_view E d) (take n rs),
           if n < length rs then Some (list_token E uid (list_kind received) sid (share_key (rs ! (n - 1)))) else None)"
  using assms(2-5) list_position_token [OF assms(1), of uid "list_kind received" sid c]
    parseLimit_decimal [of n 100 30]
  by (auto simp: token_fetch_def shareList_def ownSession_def run_simps token_page_cut Let_def max_int64_def
      split: option.split)

lemma shareActivity_page:
  assumes "tokens_work E" and "own_session_row d uid sid \<noteq> None" and "1 \<le> n" and "n \<le> 100"
    and "rs = filter (behind activity_key c) (descending activity_key (activity_rows E uid sid d))"
  shows "token_fetch (shareActivity E uid sid) n (map_option (list_token E uid ''share-activity'' sid) c) d
    = Inr (map (activity_view E d) (take n rs),
           if n < length rs then Some (list_token E uid ''share-activity'' sid (activity_key (rs ! (n - 1)))) else None)"
  using assms(2-5) list_position_token [OF assms(1), of uid "''share-activity''" sid c]
    parseLimit_decimal [of n 100 30]
  by (auto simp: token_fetch_def shareActivity_def ownSession_def run_simps token_page_cut Let_def max_int64_def
      split: option.split)

definition shares_listed :: "env \<Rightarrow> nat \<Rightarrow> string \<Rightarrow> string \<Rightarrow> bool \<Rightarrow> db \<Rightarrow> bool" where
  "shares_listed E n uid sid received d \<longleftrightarrow>
     tokens_work E \<and> 1 \<le> n \<and> n \<le> 100 \<and> (received \<or> own_session_row d uid sid \<noteq> None)
     \<and> distinct (map sh_id (t_shares d))"

definition activity_listed :: "env \<Rightarrow> nat \<Rightarrow> string \<Rightarrow> string \<Rightarrow> db \<Rightarrow> bool" where
  "activity_listed E n uid sid d \<longleftrightarrow>
     tokens_work E \<and> 1 \<le> n \<and> n \<le> 100 \<and> own_session_row d uid sid \<noteq> None
     \<and> distinct (map sc_owner_op (t_share_commands d))"

interpretation share_listing: keyset_listing "shares_listed E n uid sid received" "share_rows E uid sid received" share_key
    "listed_view E" "list_token E uid (list_kind received) sid" "token_fetch (shareList E uid sid received) n"
  for E n uid sid received
proof unfold_locales
  show "shares_listed E n uid sid received d \<Longrightarrow> distinct (map share_key (share_rows E uid sid received d))" for d
    by (simp add: shares_listed_def distinct_share_keys)
  show "\<exists>m>0. token_fetch (shareList E uid sid received) n (map_option (list_token E uid (list_kind received) sid) c) d =
      Inr (map (listed_view E d) (take m rs),
        if m < length rs then Some (list_token E uid (list_kind received) sid (share_key (rs ! (m - 1)))) else None)"
    if "shares_listed E n uid sid received d" and "set_option c \<subseteq> share_key ` set (share_rows E uid sid received d)"
      and "rs = filter (behind share_key c) (descending share_key (share_rows E uid sid received d))" for d rs c
    using that(1,3) shareList_page [of E received d uid sid n rs c] by (intro exI [of _ n]) (simp add: shares_listed_def)
qed

interpretation activity_listing: keyset_listing "activity_listed E n uid sid" "activity_rows E uid sid" activity_key
    "activity_view E" "list_token E uid ''share-activity'' sid" "token_fetch (shareActivity E uid sid) n"
  for E n uid sid
proof unfold_locales
  show "activity_listed E n uid sid d \<Longrightarrow> distinct (map activity_key (activity_rows E uid sid d))" for d
    by (simp add: activity_listed_def distinct_activity_keys)
  show "\<exists>m>0. token_fetch (shareActivity E uid sid) n (map_option (list_token E uid ''share-activity'' sid) c) d =
      Inr (map (activity_view E d) (take m rs),
        if m < length rs then Some (list_token E uid ''share-activity'' sid (activity_key (rs ! (m - 1)))) else None)"
    if "activity_listed E n uid sid d" and "set_option c \<subseteq> activity_key ` set (activity_rows E uid sid d)"
      and "rs = filter (behind activity_key c) (descending activity_key (activity_rows E uid sid d))" for d rs c
    using that(1,3) shareActivity_page [of E d uid sid n rs c] by (intro exI [of _ n]) (simp add: activity_listed_def)
qed

section \<open>The invariant of the database\<close>

lemma logs_shareList [logs_rules]: "keeps (store_ok T) (shareList E uid sid received l t)"
  unfolding shareList_def ownSession_def by (intro logs_rules keeps_rules)

lemma logs_shareActivity [logs_rules]: "keeps (store_ok T) (shareActivity E uid sid l t)"
  unfolding shareActivity_def ownSession_def by (intro logs_rules keeps_rules)

end
