(* ===== verification/Profile.thy ===== *)
theory Profile
  imports Realtime Base64
begin

text \<open>
  \<open>internal/gateway/profile.go\<close>: the display name and the picture of a user, changed under a revision.
\<close>

section \<open>Names\<close>

text \<open>The code point of a character in UTF-8.\<close>

definition code_point :: "string \<Rightarrow> nat" where
  "code_point r =
     (case map byte r of
        [a] \<Rightarrow> a
      | [a, b] \<Rightarrow> (a - 192) * 64 + (b - 128)
      | [a, b, c] \<Rightarrow> (a - 224) * 4096 + (b - 128) * 64 + (c - 128)
      | [a, b, c, d] \<Rightarrow> (a - 240) * 262144 + (b - 128) * 4096 + (c - 128) * 64 + (d - 128)
      | _ \<Rightarrow> 65533)"

text \<open>\<^verbatim>\<open>unicode.IsControl\<close>, and the format characters \<^verbatim>\<open>unicode.Cf\<close> as ranges.\<close>

definition is_control :: "nat \<Rightarrow> bool" where
  "is_control n \<longleftrightarrow> n < 32 \<or> 127 \<le> n \<and> n < 160"

definition format_ranges :: "(nat \<times> nat) list" where
  "format_ranges =
     [(173, 173), (1536, 1541), (1564, 1564), (1757, 1757), (1807, 1807), (2192, 2193), (2274, 2274), (6158, 6158),
      (8203, 8207), (8234, 8238), (8288, 8292), (8294, 8303), (65279, 65279), (65529, 65531), (69821, 69821),
      (69837, 69837), (78896, 78911), (113824, 113827), (119155, 119162), (917505, 917505), (917536, 917631)]"

definition is_format :: "nat \<Rightarrow> bool" where
  "is_format n \<longleftrightarrow> list_ex (\<lambda>(a, b). a \<le> n \<and> n \<le> b) format_ranges"

definition name_ok :: "string \<Rightarrow> bool" where
  "name_ok name \<longleftrightarrow> name \<noteq> [] \<and> rune_count name \<le> 32
     \<and> list_all (\<lambda>r. \<not> is_control (code_point r) \<and> \<not> is_format (code_point r)) (runes name)"

section \<open>Pictures\<close>

definition max_avatar :: nat where
  "max_avatar = 36864"

definition canonicalAvatar :: "env \<Rightarrow> string \<Rightarrow> err + string" where
  "canonicalAvatar E encoded =
     (if length encoded > 49152 then Inl invalid
      else case std_decode_strict encoded of
        None \<Rightarrow> Inl invalid
      | Some raw \<Rightarrow>
          (if length raw > max_avatar then Inl invalid
           else case vt_image (vault_of E) raw of
             None \<Rightarrow> Inl invalid
           | Some (known, w, h) \<Rightarrow>
               (if \<not> known \<or> w < 1 \<or> h < 1 \<or> w > 512 \<or> h > 512 then Inl invalid
                else case vt_jpeg (vault_of E) raw of
                  None \<Rightarrow> Inl invalid
                | Some out \<Rightarrow> (if length out > max_avatar then Inl invalid else Inr out))))"

section \<open>Reading and changing a profile\<close>

record user_profile =
  uf_name :: string
  uf_avatar :: "string option"
  uf_revision :: int

definition profile_of :: "user_row \<Rightarrow> user_profile" where
  "profile_of u = \<lparr>uf_name = us_name u,
     uf_avatar = (if str (us_avatar u) \<noteq> [] then Some (std_encode (str (us_avatar u))) else None),
     uf_revision = us_profile_rev u\<rparr>"

definition userProfile :: "string \<Rightarrow> user_profile dbact" where
  "userProfile uid = oneS (\<lambda>d. map_option profile_of (find (\<lambda>u. us_id u = uid) (t_users d)))"

definition same_profile :: "string \<Rightarrow> int \<Rightarrow> user_row \<Rightarrow> bool" where
  "same_profile uid revision u \<longleftrightarrow> us_id u = uid \<and> us_profile_rev u = revision \<and> us_profile_rev u < max_safe"

definition set_profile :: "string \<Rightarrow> string option option \<Rightarrow> user_row \<Rightarrow> user_row" where
  "set_profile name avatar u = u\<lparr>us_name := name,
     us_avatar := (case avatar of None \<Rightarrow> us_avatar u | Some a \<Rightarrow> a), us_profile_rev := us_profile_rev u + 1\<rparr>"

text \<open>The picture of an update: none given, removed, or a new one.\<close>

definition new_avatar :: "env \<Rightarrow> profile_update \<Rightarrow> err + string option option" where
  "new_avatar E b =
     (case up_avatar b of
        None \<Rightarrow> Inr None
      | Some None \<Rightarrow> Inr (Some None)
      | Some (Some s) \<Rightarrow> (case canonicalAvatar E s of Inl e \<Rightarrow> Inl e | Inr out \<Rightarrow> Inr (Some (Some out))))"

definition write_profile :: "string \<Rightarrow> int \<Rightarrow> string \<Rightarrow> string option option \<Rightarrow> user_profile dbact" where
  "write_profile uid revision name avatar =
     bindS (getS (\<lambda>d. length (filter (same_profile uid revision) (t_users d)))) (\<lambda>affected.
     thenS (guardS (affected = 0 \<or> avatar \<noteq> Some (Some [])) DBError)
     (thenS (modS (\<lambda>d. d\<lparr>t_users := upd_rows (same_profile uid revision) (set_profile name avatar) (t_users d)\<rparr>))
     (thenS (guardS (affected = 1) (apierr 409 SOURCE_CONFLICT))
     (userProfile uid))))"

definition updateUserProfile :: "env \<Rightarrow> string \<Rightarrow> profile_update \<Rightarrow> user_profile gwact" where
  "updateUserProfile E uid b =
     bindS (rateS E (''profile:'' @ uid) 10) (\<lambda>allowed.
     thenS (guardS allowed (apierr 429 RATE_LIMITED))
     (let name = trim_space (up_name b) in
      thenS (guardS (name_ok name) invalid)
      (bindS (liftS (\<lambda>_. new_avatar E b)) (\<lambda>avatar.
       dbS (write_profile uid (up_revision b) name avatar)))))"

section \<open>What an update does\<close>

lemma canonicalAvatar_bound: "canonicalAvatar E s = Inr out \<Longrightarrow> length out \<le> max_avatar"
  by (auto simp: canonicalAvatar_def split: if_splits option.splits)

lemma write_profile_Inr:
  assumes "distinct (map us_id (t_users d))" and "write_profile uid n name avatar d = (Inr x, t)"
  obtains u where "find (\<lambda>u. us_id u = uid) (t_users d) = Some u" and "us_profile_rev u = n" and "n < max_safe"
    and "x = profile_of (set_profile name avatar u)"
    and "t = d\<lparr>t_users := upd_rows (\<lambda>u. us_id u = uid) (set_profile name avatar) (t_users d)\<rparr>"
proof -
  let ?f = "set_profile name avatar"
  have one: "length (filter (same_profile uid n) (t_users d)) = 1"
    and t: "t = d\<lparr>t_users := upd_rows (same_profile uid n) ?f (t_users d)\<rparr>"
    and x: "Some x = map_option profile_of (find (\<lambda>u. us_id u = uid) (t_users t))"
    using assms(2) by (auto simp: write_profile_def userProfile_def run_iff)
  from one obtain u where "u \<in> set (filter (same_profile uid n) (t_users d))"
    by (cases "filter (same_profile uid n) (t_users d)") auto
  then have u: "u \<in> set (t_users d)" "same_profile uid n u" by simp_all
  have f: "find (\<lambda>v. us_id v = us_id u) (t_users d) = Some u" by (rule find_key [OF assms(1) u(1)])
  have uid: "us_id u = uid" using u(2) by (simp add: same_profile_def)
  have "upd_rows (same_profile uid n) ?f (t_users d) = upd_rows (\<lambda>v. us_id v = uid) ?f (t_users d)"
  proof -
    have "same_profile uid n v \<longleftrightarrow> us_id v = uid" if "v \<in> set (t_users d)" for v
      using key_unique [OF assms(1) that u(1)] u(2) uid by (auto simp: same_profile_def)
    then show ?thesis by (simp add: upd_rows_def)
  qed
  then have t': "t = d\<lparr>t_users := upd_rows (\<lambda>v. us_id v = uid) ?f (t_users d)\<rparr>" using t by simp
  have "find (\<lambda>v. us_id v = uid) (t_users t) = Some (?f u)"
    unfolding t' using f uid by (simp add: find_upd_rows set_profile_def)
  then show ?thesis using that [of u] f uid u(2) x t' by (simp add: same_profile_def)
qed

text \<open>
  C34: an update of a profile that goes through was made against the current revision, which it advances
  by one: the name is the trimmed one, has at most 32 characters and no control or format character; the
  picture is the given one re-encoded, within its bound, or none, or the old one; no other user changes.
  A second update against the same revision is refused with \<open>SOURCE_CONFLICT\<close> or for its budget or its
  input, and changes no user.
\<close>

theorem profile_update_exclusive:
  assumes "distinct (map us_id (t_users (g_db g)))" and "updateUserProfile E uid b g = (Inr x, h)"
  shows "(\<exists>u. find (\<lambda>u. us_id u = uid) (t_users (g_db g)) = Some u \<and> us_profile_rev u = up_revision b
      \<and> x = profile_of (set_profile (trim_space (up_name b)) (projr (new_avatar E b)) u)
      \<and> t_users (g_db h) = upd_rows (\<lambda>u. us_id u = uid)
          (set_profile (trim_space (up_name b)) (projr (new_avatar E b))) (t_users (g_db g)))
    \<and> name_ok (trim_space (up_name b)) \<and> (\<forall>s a. up_avatar b = Some (Some s) \<longrightarrow> canonicalAvatar E s = Inr a \<longrightarrow> length a \<le> max_avatar)
    \<and> (\<forall>F c y k. up_revision c = up_revision b \<longrightarrow> updateUserProfile F uid c h = (y, k) \<longrightarrow>
         (\<exists>e. y = Inl e) \<and> t_users (g_db k) = t_users (g_db h))"
proof -
  let ?name = "trim_space (up_name b)"
  from assms(2) obtain R av where ok: "name_ok ?name" and av: "new_avatar E b = Inr av"
    and w: "write_profile uid (up_revision b) ?name av (g_db (g\<lparr>g_rates := R\<rparr>)) = (Inr x, g_db h)"
    by (auto simp: updateUserProfile_def rateS_def Let_def dbS_iff run_iff)
  have d: "distinct (map us_id (t_users (g_db (g\<lparr>g_rates := R\<rparr>))))" using assms(1) by simp
  obtain u where
    u: "find (\<lambda>u. us_id u = uid) (t_users (g_db g)) = Some u" "us_profile_rev u = up_revision b"
       "x = profile_of (set_profile ?name av u)"
       "t_users (g_db h) = upd_rows (\<lambda>u. us_id u = uid) (set_profile ?name av) (t_users (g_db g))"
    by (rule write_profile_Inr [OF d w]) simp
  have stale: "\<not> same_profile uid (up_revision b) v" if v: "v \<in> set (t_users (g_db h))" for v
  proof -
    from v obtain w where w: "w \<in> set (t_users (g_db g))" "v = (if us_id w = uid then set_profile ?name av w else w)"
      by (auto simp: u(4) upd_rows_def)
    show ?thesis
    proof (cases "us_id w = uid")
      case True
      then have "w = u" using find_SomeD [OF u(1)] key_unique [OF assms(1) w(1)] by auto
      then show ?thesis using w True u(2) by (simp add: same_profile_def set_profile_def)
    qed (use w in \<open>simp add: same_profile_def\<close>)
  qed
  have "(\<exists>e. y = Inl e) \<and> t_users (g_db k) = t_users (g_db h)"
    if c: "up_revision c = up_revision b" and run: "updateUserProfile F uid c h = (y, k)" for F c y k
  proof -
    have none: "filter (same_profile uid (up_revision c)) (t_users (g_db h)) = []"
      using stale c by (simp add: filter_empty_conv)
    have "upd_rows (same_profile uid (up_revision c)) f (t_users (g_db h)) = t_users (g_db h)" for f
      by (rule upd_rows_none) (use stale c in simp)
    then show ?thesis using run none
      by (auto simp: updateUserProfile_def rateS_def write_profile_def dbS_def zoomS_def run_simps Let_def
          split: if_splits sum.splits)
  qed
  then show ?thesis using u ok av canonicalAvatar_bound by auto
qed

definition update0 :: profile_update where
  "update0 = \<lparr>up_name = ''n'', up_avatar = None, up_revision = 0\<rparr>"

lemma update0_name: "trim_space (up_name update0) = ''n''" "name_ok ''n''"
  by (simp_all add: trim_space_def update0_def space_rune_def byte_def continuation_def name_ok_def rune_count_def
      code_point_def is_control_def is_format_def format_ranges_def)

theorem profile_update_exclusive_witness:
  "\<exists>x h. updateUserProfile env0 ''u'' update0 gw0 = (Inr x, h) \<and> fst (updateUserProfile env0 ''u'' update0 h) \<noteq> Inr x"
proof -
  have "\<not> isl (fst (updateUserProfile env0 ''u'' update0 gw0))"
    by (simp add: updateUserProfile_def update0_name Let_def)
      (simp add: update0_def rateS_def rate_def rate_of_def put_rate_def new_avatar_def write_profile_def same_profile_def
        set_profile_def userProfile_def dbS_run run_simps gw0_def sample_defs max_rates_def max_safe_def)
  then obtain x where "fst (updateUserProfile env0 ''u'' update0 gw0) = Inr x"
    by (cases "fst (updateUserProfile env0 ''u'' update0 gw0)") simp_all
  then obtain h where x: "updateUserProfile env0 ''u'' update0 gw0 = (Inr x, h)" by (metis prod.collapse)
  have d: "distinct (map us_id (t_users (g_db gw0)))" by (simp add: gw0_def db0_def)
  obtain y k where y: "updateUserProfile env0 ''u'' update0 h = (y, k)" by (cases "updateUserProfile env0 ''u'' update0 h")
  from profile_update_exclusive [OF d x] y have "\<exists>e. y = Inl e" by blast
  then show ?thesis using x y by auto
qed

section \<open>The invariant of the database\<close>

lemma logs_updateUserProfile [logs_rules]: "keeps (gstore_ok (dbnow E)) (updateUserProfile E uid b)"
proof -
  have inv: "changes_inv (upd_rows P (set_profile name avatar) U) C = changes_inv U C" for P name avatar U C
    by (rule changes_inv_upd) (simp add: set_profile_def)
  show ?thesis
    unfolding updateUserProfile_def write_profile_def userProfile_def Let_def
    by (intro logs_rules keeps_rules keeps_mod) (simp add: store_ok_def logs_ok_def inv)
qed

lemma logs_userProfile [logs_rules]: "keeps (store_ok T) (userProfile uid)"
  unfolding userProfile_def by (intro logs_rules keeps_rules)

end
