(* ===== verification/Resources.thy ===== *)
theory Resources
  imports Pairing
begin

text \<open>
  \<open>internal/gateway/resources.go\<close>: the lists of a user's resources, read page by page with signed tokens,
  the reading of one resource by its kind, and the first screen of a client (\<open>bootstrap\<close>).
\<close>

section \<open>The lists\<close>

datatype listing = L_nodes | L_projects | L_agents | L_sessions | L_requests | L_notifications | L_audit

fun listing_name :: "listing \<Rightarrow> string" where
  "listing_name L_nodes = ''nodes''"
| "listing_name L_projects = ''projects''"
| "listing_name L_agents = ''agents''"
| "listing_name L_sessions = ''sessions''"
| "listing_name L_requests = ''requests''"
| "listing_name L_notifications = ''notifications''"
| "listing_name L_audit = ''audit''"

datatype resource_row =
    R_node node_row
  | R_project project_row
  | R_agent agent_row
  | R_session session_row
  | R_request request_row
  | R_notice notice_row
  | R_audit audit_row

text \<open>The \<open>Where\<close> of the lists that join a row with its session, over the rows.\<close>

definition own_session :: "db \<Rightarrow> string \<Rightarrow> session_row \<Rightarrow> bool" where
  "own_session d uid s \<longleftrightarrow> se_user s = uid \<and> accessible d uid (se_node s)"

definition own_request :: "db \<Rightarrow> string \<Rightarrow> request_row \<Rightarrow> bool" where
  "own_request d uid r \<longleftrightarrow> rq_user r = uid
     \<and> (case find_session d (rq_session r) of None \<Rightarrow> False | Some s \<Rightarrow> own_session d uid s)"

fun own_rows :: "db \<Rightarrow> string \<Rightarrow> listing \<Rightarrow> resource_row list" where
  "own_rows d uid L_nodes =
     map R_node (filter (\<lambda>n. has_row (\<lambda>a. ac_user a = uid \<and> ac_node a = nd_id n) (t_access d)) (t_nodes d))"
| "own_rows d uid L_projects = map R_project (filter (\<lambda>p. accessible d uid (pj_node p)) (t_projects d))"
| "own_rows d uid L_agents = map R_agent (filter (\<lambda>a. accessible d uid (ar_node a)) (t_agents d))"
| "own_rows d uid L_sessions = map R_session (filter (own_session d uid) (t_sessions d))"
| "own_rows d uid L_requests = map R_request (filter (own_request d uid) (t_requests d))"
| "own_rows d uid L_notifications = map R_notice (filter (own_notice d uid) (t_notices d))"
| "own_rows d uid L_audit = map R_audit (filter (\<lambda>a. au_user a = uid) (t_audits d))"

fun resource_id :: "resource_row \<Rightarrow> string" where
  "resource_id (R_node n) = nd_id n"
| "resource_id (R_project p) = np_id (pj_body p)"
| "resource_id (R_agent a) = ag_id (ar_body a)"
| "resource_id (R_session s) = se_id s"
| "resource_id (R_request r) = rq_id r"
| "resource_id (R_notice n) = nt_id n"
| "resource_id (R_audit a) = au_id a"

text \<open>
  \<open>Sort\<close>: a time for most lists, the identifier for the inventory. A key is the time, the identifier it
  is sorted by, and the identifier that breaks ties; the part that a list does not use is constant.
\<close>

fun resource_key :: "resource_row \<Rightarrow> int \<times> string \<times> string" where
  "resource_key (R_node n) = (nd_created n, [], nd_id n)"
| "resource_key (R_project p) = (0, np_id (pj_body p), np_id (pj_body p))"
| "resource_key (R_agent a) = (0, ag_id (ar_body a), ag_id (ar_body a))"
| "resource_key (R_session s) = (se_updated s, [], se_id s)"
| "resource_key (R_request r) = (rq_created r, [], rq_id r)"
| "resource_key (R_notice n) = (nt_created n, [], nt_id n)"
| "resource_key (R_audit a) = (au_created a, [], au_id a)"

definition by_id :: "listing \<Rightarrow> bool" where
  "by_id k \<longleftrightarrow> k = L_projects \<or> k = L_agents"

text \<open>The member \<^verbatim>\<open>__sort\<close>, which a token carries, and how the next page reads it.\<close>

definition sort_text :: "env \<Rightarrow> listing \<Rightarrow> int \<times> string \<times> string \<Rightarrow> string" where
  "sort_text E k c = (if by_id k then fst (snd c) else pg_time E (fst c))"

definition sort_position :: "env \<Rightarrow> listing \<Rightarrow> string \<Rightarrow> string \<Rightarrow> int \<times> string \<times> string" where
  "sort_position E k srt rid = (if by_id k then (0, srt, rid) else (parse_time E srt, [], rid))"

definition node_view_of :: "env \<Rightarrow> db \<Rightarrow> string \<Rightarrow> bool \<Rightarrow> node_row \<Rightarrow> node_view" where
  "node_view_of E d uid on n =
     \<lparr>nv_id = nd_id n, nv_name = nd_name n, nv_platform = nd_platform n, nv_version = nd_version n, nv_online = on,
      nv_last_seen = map_option (pg_time E) (nd_last_seen n),
      nv_revoked = (nd_revoked n \<noteq> None
        \<or> has_row (\<lambda>a. ac_user a = uid \<and> ac_node a = nd_id n \<and> ac_revoked a \<noteq> None) (t_access d)),
      nv_revision = nd_revision n\<rparr>"

text \<open>The view of a row; a device is shown as \<open>on\<close> says.\<close>

fun view_of :: "env \<Rightarrow> db \<Rightarrow> string \<Rightarrow> (string \<Rightarrow> bool) \<Rightarrow> resource_row \<Rightarrow> resource_view" where
  "view_of E d uid on (R_node n) = V_node (node_view_of E d uid (on (nd_id n)) n)"
| "view_of E d uid on (R_project p) = V_project p"
| "view_of E d uid on (R_agent a) = V_agent a"
| "view_of E d uid on (R_session s) = V_session s (session_queue E d (se_id s))"
| "view_of E d uid on (R_request r) = V_request (request_view_of E r)"
| "view_of E d uid on (R_notice n) = V_notice \<lparr>nw_id = nt_id n, nw_session = nt_session n, nw_kind = nt_kind n,
     nw_title = nt_title n, nw_read = (nt_read n \<noteq> None), nw_created = pg_time E (nt_created n), nw_revision = nt_revision n\<rparr>"
| "view_of E d uid on (R_audit a) = V_audit \<lparr>aw_id = au_id a, aw_action = au_action a, aw_state = au_state a,
     aw_op = au_op a, aw_node = au_node a, aw_session = au_session a, aw_created = pg_time E (au_created a)\<rparr>"

section \<open>Filters\<close>

text \<open>\<^verbatim>\<open>url.Values\<close>; the first value of a name counts.\<close>

type_synonym query = "(string \<times> string list) list"

definition qget :: "query \<Rightarrow> string \<Rightarrow> string" where
  "qget q k = (case map_of q k of Some (v # vs) \<Rightarrow> v | _ \<Rightarrow> [])"

text \<open>The column that a name filters by, in the lists that have it.\<close>

fun column :: "string \<Rightarrow> resource_row \<Rightarrow> string option" where
  "column k (R_project p) = (if k = ''nodeId'' then Some (pj_node p) else None)"
| "column k (R_agent a) = (if k = ''nodeId'' then Some (ar_node a) else None)"
| "column k (R_session s) =
     (if k = ''nodeId'' then Some (se_node s) else if k = ''projectId'' then Some (se_project s)
      else if k = ''agentId'' then Some (se_agent s) else None)"
| "column k (R_request r) = (if k = ''sessionId'' then Some (rq_session r) else None)"
| "column k r = None"

definition filter_keys :: "string list" where
  "filter_keys = [''nodeId'', ''projectId'', ''agentId'', ''sessionId'']"

fun filterable :: "listing \<Rightarrow> string \<Rightarrow> bool" where
  "filterable L_projects k = (k = ''nodeId'')"
| "filterable L_agents k = (k = ''nodeId'')"
| "filterable L_sessions k = (k = ''nodeId'' \<or> k = ''projectId'' \<or> k = ''agentId'')"
| "filterable L_requests k = (k = ''sessionId'')"
| "filterable l k = False"

fun state_name :: "session_state \<Rightarrow> string" where
  "state_name S_idle = ''idle''"
| "state_name S_running = ''running''"
| "state_name S_waiting_approval = ''waiting_approval''"
| "state_name S_waiting_input = ''waiting_input''"
| "state_name S_cancelling = ''cancelling''"
| "state_name S_completed = ''completed''"
| "state_name S_cancelled = ''cancelled''"
| "state_name S_failed = ''failed''"
| "state_name S_closed = ''closed''"

definition state_names :: "string list" where
  "state_names = map state_name [S_idle, S_running, S_waiting_approval, S_waiting_input, S_cancelling, S_completed,
     S_cancelled, S_failed, S_closed]"

definition flag_ok :: "string \<Rightarrow> bool" where
  "flag_ok v \<longleftrightarrow> v = [] \<or> v = ''true'' \<or> v = ''false''"

text \<open>What is refused with \<open>INVALID_ARGUMENT\<close>, whatever comes first.\<close>

definition query_ok :: "listing \<Rightarrow> query \<Rightarrow> bool" where
  "query_ok k q \<longleftrightarrow>
     list_all (\<lambda>key. qget q key = [] \<or> filterable k key) filter_keys
     \<and> (k = L_sessions \<longrightarrow> flag_ok (qget q ''archived'') \<and> flag_ok (qget q ''pinned'')
          \<and> (qget q ''state'' = [] \<or> qget q ''state'' \<in> set state_names) \<and> rune_count (qget q ''q'') \<le> 100)
     \<and> (k = L_requests \<longrightarrow> qget q ''bucket'' \<in> {[], ''pending'', ''history''})
     \<and> (k = L_notifications \<longrightarrow> flag_ok (qget q ''unread''))"

definition like_escape :: "string \<Rightarrow> string" where
  "like_escape t = concat (map (\<lambda>c. if c = char_of (92 :: nat) \<or> c = CHR ''%'' \<or> c = CHR ''_''
     then [char_of (92 :: nat), c] else [c]) t)"

definition like_pattern :: "string \<Rightarrow> string" where
  "like_pattern t = ''%'' @ like_escape t @ ''%''"

definition is_open :: "env \<Rightarrow> request_row \<Rightarrow> bool" where
  "is_open E r \<longleftrightarrow> rq_state r = R_deciding \<or> rq_state r = R_pending \<and> rq_expires r > dbnow E"

fun matches :: "env \<Rightarrow> query \<Rightarrow> resource_row \<Rightarrow> bool" where
  "matches E q (R_session s) =
     (list_all (\<lambda>v. qget q v = [] \<or> column v (R_session s) = Some (qget q v)) filter_keys
      \<and> (qget q ''archived'' = [] \<or> se_archived s = (qget q ''archived'' = ''true''))
      \<and> (qget q ''pinned'' = [] \<or> se_pinned s = (qget q ''pinned'' = ''true''))
      \<and> (qget q ''state'' = [] \<or> state_name (se_state s) = qget q ''state'')
      \<and> (qget q ''q'' = [] \<or> ilike E (se_title s) (like_pattern (qget q ''q''))))"
| "matches E q (R_request r) =
     (list_all (\<lambda>v. qget q v = [] \<or> column v (R_request r) = Some (qget q v)) filter_keys
      \<and> is_open E r = (qget q ''bucket'' \<noteq> ''history''))"
| "matches E q (R_notice n) =
     (qget q ''unread'' = [] \<or> (nt_read n = None) = (qget q ''unread'' = ''true''))"
| "matches E q r = list_all (\<lambda>v. qget q v = [] \<or> column v r = Some (qget q v)) filter_keys"

definition listed_rows :: "env \<Rightarrow> string \<Rightarrow> listing \<Rightarrow> query \<Rightarrow> db \<Rightarrow> resource_row list" where
  "listed_rows E uid k q d = filter (matches E q) (own_rows d uid k)"

text \<open>\<^verbatim>\<open>url.Values.Encode\<close> of the query without the position, whose hash binds a token to it.\<close>

definition unreserved :: "char \<Rightarrow> bool" where
  "unreserved c \<longleftrightarrow> (let n = byte c in 48 \<le> n \<and> n \<le> 57 \<or> 65 \<le> n \<and> n \<le> 90 \<or> 97 \<le> n \<and> n \<le> 122
     \<or> n = 45 \<or> n = 95 \<or> n = 46 \<or> n = 126)"

definition upper_digit :: "nat \<Rightarrow> char" where
  "upper_digit n = (if n < 10 then char_of (48 + n) else char_of (55 + n))"

definition query_escape :: "string \<Rightarrow> string" where
  "query_escape s = concat (map (\<lambda>c. if unreserved c then [c] else if byte c = 32 then ''+''
     else [CHR ''%'', upper_digit (byte c div 16), upper_digit (byte c mod 16)]) s)"

definition encode_query :: "query \<Rightarrow> string" where
  "encode_query q =
     (let pairs = concat (map (\<lambda>(k, vs). map (\<lambda>v. query_escape k @ ''='' @ query_escape v) vs) (sort_key fst q)) in
      concat (map (\<lambda>(i, p). if i = 0 then p else ''&'' @ p) (enumerate 0 pairs)))"

definition list_filter :: "query \<Rightarrow> query" where
  "list_filter q = filter (\<lambda>(k, vs). k \<noteq> ''pageToken'' \<and> k \<noteq> ''limit'') q"

definition filter_hash :: "env \<Rightarrow> query \<Rightarrow> string" where
  "filter_hash E q = hex (token_hash E (encode_query (list_filter q)))"

section \<open>Pages\<close>

definition page_position ::
  "env \<Rightarrow> string \<Rightarrow> listing \<Rightarrow> query \<Rightarrow> err + (int \<times> string \<times> string) option" where
  "page_position E uid k q =
     (if qget q ''pageToken'' = [] then Inr None
      else case decodeCursor (codec_of E) (unix E (now E)) (qget q ''pageToken'') of
        Inl e \<Rightarrow> Inl e
      | Inr c \<Rightarrow> (if cu_user c \<noteq> uid \<or> cu_kind c \<noteq> listing_name k \<or> cu_filter c \<noteq> filter_hash E q then Inl invalid
                 else Inr (Some (sort_position E k (cu_sort c) (cu_id c)))))"

definition page_token :: "env \<Rightarrow> string \<Rightarrow> listing \<Rightarrow> query \<Rightarrow> int \<times> string \<times> string \<Rightarrow> string" where
  "page_token E uid k q c =
     sign_cursor (codec_of E)
       \<lparr>cu_user = uid, cu_kind = listing_name k, cu_filter = filter_hash E q, cu_sort = sort_text E k c,
        cu_id = snd (snd c), cu_after = 0, cu_scope = [], cu_before = [], cu_item = [],
        cu_expires = unix E (now E + ten_minutes)\<rparr>"

text \<open>
  The loop over the rows: a page ends at its limit or, unless it is still empty, before the row that
  would take it over 256 KiB. A device counts as it is read from the table, and as it is shown.
\<close>

fun fill_page :: "env \<Rightarrow> (resource_row \<Rightarrow> string) \<Rightarrow> (resource_row \<Rightarrow> resource_view) \<Rightarrow> (resource_row \<Rightarrow> resource_view)
    \<Rightarrow> nat \<Rightarrow> nat \<Rightarrow> nat \<Rightarrow> resource_row list \<Rightarrow> resource_row list" where
  "fill_page E srt stored shown limit n used [] = []"
| "fill_page E srt stored shown limit n used (r # rs) =
     (if n \<ge> limit \<or> n > 0 \<and> used + view_size E (Some (srt r)) (stored r) > 262144 then []
      else r # fill_page E srt stored shown limit (n + 1) (used + view_size E None (shown r)) rs)"

record resource_page =
  rp_items :: "resource_view list"
  rp_next :: "string option"

definition listResource :: "env \<Rightarrow> string \<Rightarrow> listing \<Rightarrow> query \<Rightarrow> resource_page gwact" where
  "listResource E uid k q =
     bindS (liftS (\<lambda>_. parseLimit (qget q ''limit'') 50 100)) (\<lambda>limit.
     thenS (guardS (query_ok k q) invalid)
     (bindS (liftS (\<lambda>_. page_position E uid k q)) (\<lambda>c.
      bindS (getS (\<lambda>g. take (nat limit + 1) (filter (behind resource_key c) (descending resource_key (listed_rows E uid k q (g_db g)))))) (\<lambda>rows.
      bindS (getS (\<lambda>g. view_of E (g_db g) uid)) (\<lambda>view.
      bindS (getS (online E)) (\<lambda>on.
      let srt = (\<lambda>r. sort_text E k (resource_key r));
          items = fill_page E srt (view (\<lambda>_. False)) (view on) (nat limit) 0 0 rows in
      returnS \<lparr>rp_items = map (view on) items,
               rp_next = (if length items < length rows then Some (page_token E uid k q (resource_key (last items))) else None)\<rparr>))))))"

section \<open>One resource, and the first screen\<close>

definition getNode :: "env \<Rightarrow> string \<Rightarrow> string \<Rightarrow> resource_view gwact" where
  "getNode E uid nid =
     bindS (getS (\<lambda>g. online E g nid)) (\<lambda>on.
     dbS (oneS (\<lambda>d. map_option (\<lambda>n. V_node (node_view_of E d uid on n))
       (find (\<lambda>n. nd_id n = nid \<and> has_row (\<lambda>a. ac_user a = uid \<and> ac_node a = nid) (t_access d)) (t_nodes d)))))"

fun getResource :: "env \<Rightarrow> string \<Rightarrow> listing \<Rightarrow> string \<Rightarrow> resource_view gwact" where
  "getResource E uid L_nodes rid = getNode E uid rid"
| "getResource E uid L_projects rid = bindS (dbS (getProject uid rid)) (\<lambda>p. returnS (V_project p))"
| "getResource E uid L_agents rid = bindS (dbS (getAgent uid rid)) (\<lambda>a. returnS (V_agent a))"
| "getResource E uid L_sessions rid = bindS (dbS (getSession E uid rid)) (\<lambda>(s, q). returnS (V_session s q))"
| "getResource E uid L_requests rid = bindS (dbS (getRequest E uid rid)) (\<lambda>r. returnS (V_request r))"
| "getResource E uid L_notifications rid =
     dbS (oneS (\<lambda>d. map_option (\<lambda>n. view_of E d uid (\<lambda>_. False) (R_notice n))
       (find (\<lambda>n. nt_id n = rid \<and> own_notice d uid n) (t_notices d))))"
| "getResource E uid L_audit rid =
     dbS (oneS (\<lambda>d. map_option (\<lambda>a. view_of E d uid (\<lambda>_. False) (R_audit a))
       (find (\<lambda>a. au_id a = rid \<and> au_user a = uid) (t_audits d))))"

text \<open>\<open>resource\<close>: one resource or a list, by the name of the operation.\<close>

definition resource_kinds :: "(string \<times> listing) list" where
  "resource_kinds = [(''Nodes'', L_nodes), (''Node'', L_nodes), (''Projects'', L_projects), (''Project'', L_projects),
     (''Agents'', L_agents), (''Agent'', L_agents), (''Sessions'', L_sessions), (''Session'', L_sessions),
     (''Requests'', L_requests), (''InteractionRequest'', L_requests), (''Notifications'', L_notifications),
     (''Audits'', L_audit)]"

definition trim_prefix :: "string \<Rightarrow> string \<Rightarrow> string" where
  "trim_prefix p s = (if take (length p) s = p then drop (length p) s else s)"

datatype resource_answer = One resource_view | Page resource_page

definition resource :: "env \<Rightarrow> string \<Rightarrow> string \<Rightarrow> string \<Rightarrow> query \<Rightarrow> resource_answer gwact" where
  "resource E uid name rid q =
     (case map_of resource_kinds (trim_prefix ''get'' (trim_prefix ''list'' name)) of
        None \<Rightarrow> failS notFound
      | Some k \<Rightarrow>
          if take 3 name = ''get'' then bindS (getResource E uid k rid) (\<lambda>v. returnS (One v))
          else bindS (listResource E uid k q) (\<lambda>p. returnS (Page p)))"

text \<open>The operations of the contract that come here.\<close>

datatype resource_route = Get_node | Get_project | Get_agent | Get_session | Get_request | List_of listing

fun route_name :: "resource_route \<Rightarrow> string" where
  "route_name Get_node = ''getNode''"
| "route_name Get_project = ''getProject''"
| "route_name Get_agent = ''getAgent''"
| "route_name Get_session = ''getSession''"
| "route_name Get_request = ''getInteractionRequest''"
| "route_name (List_of L_nodes) = ''listNodes''"
| "route_name (List_of L_projects) = ''listProjects''"
| "route_name (List_of L_agents) = ''listAgents''"
| "route_name (List_of L_sessions) = ''listSessions''"
| "route_name (List_of L_requests) = ''listRequests''"
| "route_name (List_of L_notifications) = ''listNotifications''"
| "route_name (List_of L_audit) = ''listAudits''"

lemma resource_list: "resource E uid (route_name (List_of k)) rid q = bindS (listResource E uid k q) (\<lambda>p. returnS (Page p))"
  by (cases k) (simp_all add: resource_def resource_kinds_def trim_prefix_def)

definition all_listings :: "listing list" where
  "all_listings = [L_nodes, L_projects, L_agents, L_sessions, L_requests, L_notifications, L_audit]"

record counts =
  ct_online :: nat
  ct_sessions :: nat
  ct_requests :: nat
  ct_unread :: nat

record first_screen =
  fs_user :: user_view
  fs_revision :: int
  fs_time :: string
  fs_pages :: "(listing \<times> resource_page) list"
  fs_counts :: counts

definition count_resources :: "env \<Rightarrow> string \<Rightarrow> gw \<Rightarrow> counts" where
  "count_resources E uid g =
     (let d = g_db g in
      \<lparr>ct_online = length (filter (\<lambda>(k, p). pr_user p = uid \<and> online E g (pr_node p)) (g_nodes g)),
       ct_sessions = length (own_rows d uid L_sessions),
       ct_requests = length (filter (\<lambda>r. own_request d uid r \<and> is_open E r) (t_requests d)),
       ct_unread = length (filter (\<lambda>n. own_notice d uid n \<and> nt_read n = None) (t_notices d))\<rparr>)"

definition bootstrap :: "env \<Rightarrow> string \<Rightarrow> first_screen gwact" where
  "bootstrap E uid =
     bindS (dbS (userJSON E uid)) (\<lambda>user.
     bindS (dbS (oneS (\<lambda>d. map_option us_last_rev (find (\<lambda>u. us_id u = uid) (t_users d))))) (\<lambda>rev.
     bindS (foldS (\<lambda>k pages. bindS (listResource E uid k []) (\<lambda>p. returnS (pages @ [(k, p)]))) all_listings []) (\<lambda>pages.
     bindS (getS (count_resources E uid)) (\<lambda>counts.
     returnS \<lparr>fs_user = user, fs_revision = rev, fs_time = timestamp E (now E), fs_pages = pages,
              fs_counts = counts\<rparr>))))"

section \<open>The lists keep the contract\<close>

lemma fill_page_take:
  "\<exists>m. fill_page E srt a b limit n used rs = take m rs \<and> m \<le> length rs \<and> m \<le> limit - n
     \<and> (n = 0 \<and> 0 < limit \<and> rs \<noteq> [] \<longrightarrow> 0 < m)"
proof (induction rs arbitrary: n used)
  case (Cons r rs)
  let ?u = "used + view_size E None (b r)"
  obtain m where m: "fill_page E srt a b limit (n + 1) ?u rs = take m rs" "m \<le> length rs" "m \<le> limit - (n + 1)"
    using Cons.IH by blast
  show ?case
  proof (cases "n \<ge> limit \<or> n > 0 \<and> used + view_size E (Some (srt r)) (a r) > 262144")
    case True
    then show ?thesis by (intro exI [of _ 0]) auto
  next
    case False
    then show ?thesis using m by (intro exI [of _ "Suc m"]) auto
  qed
qed simp

fun of_listing :: "listing \<Rightarrow> resource_row \<Rightarrow> bool" where
  "of_listing k (R_node n) = (k = L_nodes)"
| "of_listing k (R_project p) = (k = L_projects)"
| "of_listing k (R_agent a) = (k = L_agents)"
| "of_listing k (R_session s) = (k = L_sessions)"
| "of_listing k (R_request r) = (k = L_requests)"
| "of_listing k (R_notice n) = (k = L_notifications)"
| "of_listing k (R_audit a) = (k = L_audit)"

lemma own_rows_kind: "r \<in> set (own_rows d uid k) \<Longrightarrow> of_listing k r"
  by (cases k) auto

lemma listed_rows_kind: "r \<in> set (listed_rows E uid k q d) \<Longrightarrow> of_listing k r"
  by (auto simp: listed_rows_def dest: own_rows_kind)

text \<open>The keys of the tables.\<close>

definition ids_unique :: "db \<Rightarrow> bool" where
  "ids_unique d \<longleftrightarrow> distinct (map nd_id (t_nodes d)) \<and> distinct (map (\<lambda>p. np_id (pj_body p)) (t_projects d))
     \<and> distinct (map (\<lambda>a. ag_id (ar_body a)) (t_agents d)) \<and> distinct (map se_id (t_sessions d))
     \<and> distinct (map rq_id (t_requests d)) \<and> distinct (map nt_id (t_notices d)) \<and> distinct (map au_id (t_audits d))"

lemma distinct_resource_ids: "ids_unique d \<Longrightarrow> distinct (map resource_id (own_rows d uid k))"
  by (cases k) (auto simp: ids_unique_def comp_def distinct_map intro: inj_on_subset)

lemma key_id: "snd (snd (resource_key r)) = resource_id r"
  by (cases r) simp_all

lemma distinct_listed_keys: "ids_unique d \<Longrightarrow> distinct (map resource_key (listed_rows E uid k q d))"
proof -
  assume "ids_unique d"
  then have "distinct (map resource_id (listed_rows E uid k q d))"
    unfolding listed_rows_def by (intro distinct_map_filter distinct_resource_ids)
  then have "distinct (map (snd \<circ> snd) (map resource_key (listed_rows E uid k q d)))"
    by (simp add: comp_def key_id)
  then show ?thesis by (simp only: distinct_map)
qed

text \<open>What the tokens rely on.\<close>

definition page_tokens_work :: "env \<Rightarrow> bool" where
  "page_tokens_work E \<longleftrightarrow>
     (\<forall>c. unmarshal (codec_of E) (marshal (codec_of E) c) = Some c) \<and> (\<forall>t. parse_time E (pg_time E t) = t)
     \<and> unix E (now E) \<le> unix E (now E + ten_minutes)"

lemma sort_position_key:
  "page_tokens_work E \<Longrightarrow> of_listing k r \<Longrightarrow>
     sort_position E k (sort_text E k (resource_key r)) (resource_id r) = resource_key r"
  by (cases r) (auto simp: page_tokens_work_def sort_position_def sort_text_def by_id_def)

text \<open>A request of the client: its filters, the size of a page and the token.\<close>

definition page_query :: "query \<Rightarrow> nat \<Rightarrow> string option \<Rightarrow> query" where
  "page_query q n t = q @ [(''limit'', [decimal n])] @ (case t of None \<Rightarrow> [] | Some x \<Rightarrow> [(''pageToken'', [x])])"

definition plain_query :: "query \<Rightarrow> bool" where
  "plain_query q \<longleftrightarrow> ''limit'' \<notin> fst ` set q \<and> ''pageToken'' \<notin> fst ` set q"

lemma qget_page_query:
  "k \<noteq> ''limit'' \<Longrightarrow> k \<noteq> ''pageToken'' \<Longrightarrow> qget (page_query q n t) k = qget q k"
  by (simp add: qget_def page_query_def map_add_def split: option.split)

lemma page_query_limit: "plain_query q \<Longrightarrow> qget (page_query q n t) ''limit'' = decimal n"
proof -
  assume "plain_query q"
  then have "map_of q ''limit'' = None" by (simp add: plain_query_def map_of_eq_None_iff)
  then show ?thesis by (cases t) (simp_all add: qget_def page_query_def map_add_def)
qed

lemma page_query_token: "plain_query q \<Longrightarrow> qget (page_query q n t) ''pageToken'' = (case t of None \<Rightarrow> [] | Some x \<Rightarrow> x)"
proof -
  assume "plain_query q"
  then have "map_of q ''pageToken'' = None" by (simp add: plain_query_def map_of_eq_None_iff)
  then show ?thesis by (cases t) (simp_all add: qget_def page_query_def map_add_def)
qed

lemma matches_page_query: "matches E (page_query q n t) r = matches E q r"
  by (cases r) (simp_all add: qget_page_query filter_keys_def)

lemma query_ok_page_query: "query_ok k (page_query q n t) = query_ok k q"
  by (simp add: query_ok_def qget_page_query filter_keys_def)

lemma filter_hash_page_query: "filter_hash E (page_query q n t) = filter_hash E q"
proof -
  have "list_filter (page_query q n t) = list_filter q"
    by (cases t) (simp_all add: list_filter_def page_query_def)
  then show ?thesis by (simp add: filter_hash_def)
qed

definition list_fetch :: "env \<Rightarrow> string \<Rightarrow> listing \<Rightarrow> query \<Rightarrow> nat \<Rightarrow> string option \<Rightarrow> gw
    \<Rightarrow> err + resource_view list \<times> string option" where
  "list_fetch E uid k q n t g =
     (case fst (listResource E uid k (page_query q n t) g) of
        Inl e \<Rightarrow> Inl e | Inr p \<Rightarrow> Inr (rp_items p, rp_next p))"

definition resources_listed :: "env \<Rightarrow> listing \<Rightarrow> query \<Rightarrow> nat \<Rightarrow> gw \<Rightarrow> bool" where
  "resources_listed E k q n g \<longleftrightarrow>
     page_tokens_work E \<and> 1 \<le> n \<and> n \<le> 100 \<and> plain_query q \<and> query_ok k q \<and> ids_unique (g_db g)"

lemma page_position_token:
  assumes "page_tokens_work E" and "plain_query q" and "set_option c \<subseteq> resource_key ` {r. of_listing k r}"
  shows "page_position E uid k (page_query q n (map_option (page_token E uid k q) c)) = Inr c"
proof (cases c)
  case None
  then show ?thesis using assms(2) by (simp add: page_position_def page_query_token)
next
  case (Some x)
  then obtain r where r: "x = resource_key r" "of_listing k r" using assms(3) by auto
  have "sort_position E k (sort_text E k x) (snd (snd x)) = x"
    using sort_position_key [OF assms(1) r(2)] by (simp add: r(1) key_id)
  then show ?thesis
    using assms(1,2) Some
    by (auto simp: page_position_def page_query_token page_token_def decode_sign_cursor sign_cursor_nonempty
        filter_hash_page_query page_tokens_work_def)
qed

lemma listResource_page:
  assumes "resources_listed E k q n g" and "set_option c \<subseteq> resource_key ` {r. of_listing k r}"
    and "rs = filter (behind resource_key c) (descending resource_key (listed_rows E uid k q (g_db g)))"
  shows "\<exists>m>0. list_fetch E uid k q n (map_option (page_token E uid k q) c) g
    = Inr (map (view_of E (g_db g) uid (online E g)) (take m rs),
           if m < length rs then Some (page_token E uid k q (resource_key (rs ! (m - 1)))) else None)"
proof -
  let ?q = "page_query q n (map_option (page_token E uid k q) c)"
  let ?v = "view_of E (g_db g) uid"
  let ?fill = "fill_page E (\<lambda>r. sort_text E k (resource_key r)) (?v (\<lambda>_. False)) (?v (online E g)) n 0 0 (take (Suc n) rs)"
  have E: "page_tokens_work E" "plain_query q" "query_ok k q" "1 \<le> n" "n \<le> 100"
    using assms(1) by (simp_all add: resources_listed_def)
  have limit: "parseLimit (qget ?q ''limit'') 50 100 = Inr (int n)"
    using E(4,5) by (simp add: page_query_limit [OF E(2)] parseLimit_decimal max_int64_def)
  have pos: "page_position E uid k ?q = Inr c" by (rule page_position_token [OF E(1,2) assms(2)])
  have rows: "filter (behind resource_key c) (descending resource_key (listed_rows E uid k ?q (g_db g))) = rs"
    by (simp add: assms(3) listed_rows_def matches_page_query cong: filter_cong)
  have ok: "query_ok k ?q" using E(3) by (simp add: query_ok_page_query)
  have tok: "page_token E uid k ?q = page_token E uid k q"
    by (rule ext) (simp add: page_token_def filter_hash_page_query)
  obtain m where m: "?fill = take m (take (Suc n) rs)" "m \<le> length (take (Suc n) rs)" "m \<le> n"
    and pos_m: "rs \<noteq> [] \<Longrightarrow> 0 < m"
    using fill_page_take [of E "\<lambda>r. sort_text E k (resource_key r)" "?v (\<lambda>_. False)" "?v (online E g)" n 0 0 "take (Suc n) rs"]
      E(4) by auto
  have items: "?fill = take m rs" using m by (simp add: min_def)
  have more: "length (take m rs) < length (take (Suc n) rs) \<longleftrightarrow> m < length rs" using m(2,3) by auto
  have last: "last (take m rs) = rs ! (m - 1)" if "m < length rs"
  proof -
    have "0 < m" "take m rs \<noteq> []" using that pos_m by (cases rs; simp)+
    then show ?thesis using that by (simp add: last_conv_nth min_def)
  qed
  have run: "list_fetch E uid k q n (map_option (page_token E uid k q) c) g
    = Inr (map (?v (online E g)) (take m rs),
           if m < length rs then Some (page_token E uid k q (resource_key (rs ! (m - 1)))) else None)"
    using more last by (auto simp: list_fetch_def listResource_def run_simps limit pos rows ok tok items Let_def)
  show ?thesis
  proof (cases "rs = []")
    case True
    then show ?thesis using run by (intro exI [of _ 1]) simp
  next
    case False
    then show ?thesis using run pos_m by (intro exI [of _ m]) simp
  qed
qed

interpretation resource_listing: keyset_listing "resources_listed E k q n" "\<lambda>g. listed_rows E uid k q (g_db g)" resource_key
    "\<lambda>g. view_of E (g_db g) uid (online E g)" "page_token E uid k q" "list_fetch E uid k q n"
  for E uid k q n
proof unfold_locales
  show "resources_listed E k q n g \<Longrightarrow> distinct (map resource_key (listed_rows E uid k q (g_db g)))" for g
    by (rule distinct_listed_keys) (simp add: resources_listed_def)
  show "\<exists>m>0. list_fetch E uid k q n (map_option (page_token E uid k q) c) g =
      Inr (map (view_of E (g_db g) uid (online E g)) (take m rs),
        if m < length rs then Some (page_token E uid k q (resource_key (rs ! (m - 1)))) else None)"
    if "resources_listed E k q n g" and "set_option c \<subseteq> resource_key ` set (listed_rows E uid k q (g_db g))"
      and "rs = filter (behind resource_key c) (descending resource_key (listed_rows E uid k q (g_db g)))" for g rs c
  proof (rule listResource_page [OF that(1) _ that(3)])
    show "set_option c \<subseteq> resource_key ` {r. of_listing k r}"
      using that(2) listed_rows_kind by fastforce
  qed
qed

text \<open>
  C28: a client that follows the tokens of any of the seven lists, with any filters the list accepts and any
  size of the pages, gets each of the user's rows that match exactly once, although a page also ends at 256 KiB; one request more
  than there are rows is enough. They come in descending order of the list's key: sessions by their last
  update, projects and agents by their identifiers, the others by their creation. The walk is
  that of one client at one clock, ahead of which its tokens expire, and in one state of the gateway.
\<close>

theorem list_complete:
  assumes "resources_listed E k q n g" and "length (listed_rows E uid k q (g_db g)) < m"
  shows "follow (list_fetch E uid k q n) m None g
    = Some (Inr (map (view_of E (g_db g) uid (online E g)) (descending resource_key (listed_rows E uid k q (g_db g)))))
    \<and> distinct (descending resource_key (listed_rows E uid k q (g_db g)))
    \<and> sorted_wrt (\<lambda>a b. resource_key b < resource_key a) (descending resource_key (listed_rows E uid k q (g_db g)))"
proof (intro conjI)
  show "follow (list_fetch E uid k q n) m None g
    = Some (Inr (map (view_of E (g_db g) uid (online E g)) (descending resource_key (listed_rows E uid k q (g_db g)))))"
    by (rule resource_listing.follow_all [OF assms])
  have keys: "distinct (map resource_key (listed_rows E uid k q (g_db g)))"
    by (rule distinct_listed_keys) (use assms(1) in \<open>simp add: resources_listed_def\<close>)
  then show "sorted_wrt (\<lambda>a b. resource_key b < resource_key a) (descending resource_key (listed_rows E uid k q (g_db g)))"
    by (rule descending_sorted)
  show "distinct (descending resource_key (listed_rows E uid k q (g_db g)))"
    using keys by (simp add: descending_def distinct_map)
qed

lemma env1_tokens: "page_tokens_work env1"
  by (simp add: page_tokens_work_def env1_def codec1_reads take_put_int env0_def ten_minutes_def)

text \<open>Two sessions.\<close>

definition two_sessions :: gw where
  "two_sessions = gw0\<lparr>g_db := db0\<lparr>t_sessions := [session0, session0\<lparr>se_id := ''r'', se_updated := 2\<rparr>]\<rparr>\<rparr>"

theorem list_complete_witness:
  "follow (list_fetch env1 ''u'' L_sessions [(''pinned'', [''false''])] 1) 3 None two_sessions
    = Some (Inr [V_session (session0\<lparr>se_id := ''r'', se_updated := 2\<rparr>) [], V_session session0 []])"
proof -
  let ?q = "[(''pinned'', [''false''])]"
  let ?r = "session0\<lparr>se_id := ''r'', se_updated := 2\<rparr>"
  have rows: "listed_rows env1 ''u'' L_sessions ?q (g_db two_sessions) = [R_session session0, R_session ?r]"
    by (simp add: listed_rows_def two_sessions_def gw0_def db0_def session0_def own_session_def accessible_def has_row_def
        filter_keys_def qget_def)
  have ok: "resources_listed env1 L_sessions ?q 1 two_sessions"
    by (simp add: resources_listed_def env1_tokens plain_query_def query_ok_def filter_keys_def qget_def flag_ok_def
        rune_count_def ids_unique_def two_sessions_def gw0_def db0_def session0_def)
  have sorted: "descending resource_key [R_session session0, R_session ?r] = [R_session ?r, R_session session0]"
    by (simp add: descending_def session0_def)
  have queue: "session_queue env1 (g_db two_sessions) sid = []" for sid
    by (simp add: session_queue_def open_queue_def two_sessions_def gw0_def db0_def)
  from list_complete [OF ok, of "''u''" 3] show ?thesis
    by (simp add: rows sorted queue)
qed

section \<open>The invariant of the database\<close>

lemma logs_listResource [logs_rules]: "keeps (gstore_ok T) (listResource E uid k q)"
  unfolding listResource_def Let_def by (intro logs_rules keeps_rules)

lemma logs_diffFile [logs_rules]: "keeps (store_ok T) (diffFile E uid fid)"
  unfolding diffFile_def by (intro keeps_rules)

lemma logs_getResource [logs_rules]: "keeps (gstore_ok T) (getResource E uid k rid)"
  by (cases k)
    (simp_all only: getResource.simps getNode_def getProject_def getAgent_def getSession_def getRequest_def,
      (intro logs_rules keeps_rules)+)

lemma logs_resource [logs_rules]: "keeps (gstore_ok T) (resource E uid name rid q)"
  unfolding resource_def by (intro logs_rules keeps_rules)

lemma logs_bootstrap [logs_rules]: "keeps (gstore_ok T) (bootstrap E uid)"
  unfolding bootstrap_def userJSON_def by (intro logs_rules keeps_rules)

end
