(* ===== verification/Gateway.thy ===== *)
theory Gateway
  imports Share_Lists Profile Subscriptions History_Actions Resources
begin

text \<open>
  The whole server as a state machine: every critical section of \<open>s.mu\<close> is an action, \<open>run\<close> executes
  it, and \<open>step\<close> lets time pass between two actions. The invariants of the database and of the
  connections hold in every state that the server can reach.
\<close>

section \<open>The connections stay within their bounds\<close>

definition peers_ok :: "env \<Rightarrow> gw \<Rightarrow> bool" where
  "peers_ok E g \<longleftrightarrow>
     list_all (\<lambda>(k, p). queue_ok E p) (g_nodes g) \<and> list_all (\<lambda>(k, p). queue_ok E p) (g_clients g) \<and>
     distinct (map fst (g_nodes g)) \<and> connections g \<le> cf_max_connections (cfg E)"

named_theorems peer_rules \<open>handlers that keep the connections within their bounds\<close>

lemma list_all_upd_key:
  "list_all (\<lambda>(k, p). P p) xs \<Longrightarrow> (\<And>p. P p \<Longrightarrow> P (f p)) \<Longrightarrow> list_all (\<lambda>(k, p). P p) (upd_key k f xs)"
  by (induction xs) (auto simp: upd_key_def)

lemma peers_set_node:
  "(\<And>p. queue_ok E p \<Longrightarrow> queue_ok E (f p)) \<Longrightarrow> keeps (peers_ok E) (set_node nid f)"
  by (simp add: keeps_def set_node_run peers_ok_def connections_def list_all_upd_key)

lemma peers_set_client:
  "(\<And>p. queue_ok E p \<Longrightarrow> queue_ok E (f p)) \<Longrightarrow> keeps (peers_ok E) (set_client cid f)"
  by (simp add: keeps_def set_client_def modS_run peers_ok_def connections_def list_all_upd_key)

lemma peers_db [peer_rules]: "keeps (peers_ok E) (dbS m)"
  by (simp add: keeps_def dbS_run peers_ok_def connections_def)

lemma peers_node [peer_rules]: "keeps (peers_ok E) (nodeS nid)"
  by (simp add: keeps_def nodeS_def split: option.split)

lemma peers_client [peer_rules]: "keeps (peers_ok E) (clientS cid)"
  by (simp add: keeps_def clientS_def split: option.split)

lemma peers_rate [peer_rules]: "keeps (peers_ok E) (rateS F key limit)"
  by (simp add: keeps_def rateS_def peers_ok_def connections_def)

text \<open>Changes of a peer that leave its queue alone.\<close>

lemma queue_ok_frame [simp]:
  "queue_ok E (p\<lparr>pr_last_seen := a\<rparr>) = queue_ok E p"
  "queue_ok E (p\<lparr>pr_closed := b\<rparr>) = queue_ok E p"
  "queue_ok E (p\<lparr>pr_revision := c\<rparr>) = queue_ok E p"
  "queue_ok E (p\<lparr>pr_watching := b\<rparr>) = queue_ok E p"
  "queue_ok E (p\<lparr>pr_watched := w\<rparr>) = queue_ok E p"
  "queue_ok E (p\<lparr>pr_inventory := i\<rparr>) = queue_ok E p"
  "queue_ok E (p\<lparr>pr_projects := ps\<rparr>) = queue_ok E p"
  "queue_ok E (p\<lparr>pr_agents := as\<rparr>) = queue_ok E p"
  "queue_ok E (p\<lparr>pr_complete := b\<rparr>) = queue_ok E p"
  "queue_ok E (p\<lparr>pr_ready := b\<rparr>) = queue_ok E p"
  "queue_ok E (p\<lparr>pr_needs_sync := s\<rparr>) = queue_ok E p"
  by (simp_all add: queue_ok_def)

lemma queue_ok_stop [simp]: "queue_ok E (stop p) = queue_ok E p"
  by (simp add: stop_def)

lemma queue_ok_unwatch [simp]: "queue_ok E (unwatch sid p) = queue_ok E p"
  by (simp add: unwatch_def)

lemma queue_ok_collect [simp]: "queue_ok E (collect_inventory b p) = queue_ok E p"
  by (simp add: collect_inventory_def Let_def)

lemma queue_ok_take:
  "queue_ok E p \<Longrightarrow> take_frame p = Some (x, q) \<Longrightarrow> queue_ok E q"
  by (auto simp: take_frame_def queue_ok_def split: list.splits)

lemma peers_enqueue_node [peer_rules]: "keeps (peers_ok E) (enqueue_node E nid f)"
proof (rule keepsI)
  fix g assume ok: "peers_ok E g"
  show "peers_ok E (snd (enqueue_node E nid f g))"
  proof (cases "map_of (g_nodes g) nid")
    case None
    then show ?thesis using ok by (simp add: enqueue_node_def run_simps)
  next
    case (Some p)
    then have "queue_ok E p" using ok by (auto simp: peers_ok_def list_all_iff dest!: map_of_SomeD)
    then show ?thesis using ok Some
      by (simp add: enqueue_node_def run_simps peers_ok_def connections_def list_all_upd_key enqueue_ok)
  qed
qed

lemma peers_send_node [peer_rules]: "keeps (peers_ok E) (send_node E nid f)"
  unfolding send_node_def by (intro peer_rules keeps_rules)

lemma peers_nodeReady [peer_rules]: "keeps (peers_ok E) (nodeReady E nid)"
  unfolding nodeReady_def by (intro peer_rules keeps_rules peers_set_node) simp_all

lemma peers_inventory [peer_rules]: "keeps (peers_ok E) (inventory E nid b)"
  unfolding inventory_def by (intro peer_rules keeps_rules peers_set_node) simp_all

lemma peers_source [peer_rules]: "keeps (peers_ok E) (source E nid m)"
  unfolding source_def by (intro peer_rules keeps_rules peers_set_node) simp_all

lemma peers_release [peer_rules]: "keeps (peers_ok E) (releaseUnstartedSync E nid sid)"
  unfolding releaseUnstartedSync_def by (intro peer_rules keeps_rules peers_set_node) simp_all

lemma peers_settle [peer_rules]: "keeps (peers_ok E) (settle E nid uid sid op r rc isQuery)"
  unfolding settle_def journal_miss_def
  by (cases rc) (auto intro!: peer_rules keeps_rules)

lemma peers_acknowledge [peer_rules]: "keeps (peers_ok E) (acknowledge E nid op rc isQuery)"
  unfolding acknowledge_def by (intro peer_rules keeps_rules)

lemma peers_nodeFrame [peer_rules]: "keeps (peers_ok E) (nodeFrame E nid m)"
  by (cases m) (auto simp: node_heartbeat_def intro!: peer_rules keeps_rules)

lemma peers_dispatch [peer_rules]: "keeps (peers_ok E) (dispatch E nid uid op cmd)"
  unfolding dispatch_def by (intro peer_rules keeps_rules)

lemma peers_command [peer_rules]: "keeps (peers_ok E) (command E adm uid op fp path b)"
  unfolding command_def submit_def by (intro peer_rules keeps_rules)

text \<open>A peer that was looked up is within its bounds, and a database step may compute a peer.\<close>

lemma peers_bind_node:
  assumes "\<And>p. queue_ok E p \<Longrightarrow> keeps (peers_ok E) (f p)"
  shows "keeps (peers_ok E) (bindS (nodeS nid) f)"
proof (rule keepsI)
  fix g assume ok: "peers_ok E g"
  show "peers_ok E (snd (bindS (nodeS nid) f g))"
  proof (cases "map_of (g_nodes g) nid")
    case None
    then show ?thesis using ok by (simp add: bindS_run nodeS_run)
  next
    case (Some p)
    then have "queue_ok E p" using ok by (auto simp: peers_ok_def list_all_iff dest!: map_of_SomeD)
    then show ?thesis using assms ok Some by (simp add: bindS_run nodeS_run keeps_def)
  qed
qed

lemma peers_bind_client:
  assumes "\<And>p. queue_ok E p \<Longrightarrow> keeps (peers_ok E) (f p)"
  shows "keeps (peers_ok E) (bindS (clientS cid) f)"
proof (rule keepsI)
  fix g assume ok: "peers_ok E g"
  show "peers_ok E (snd (bindS (clientS cid) f g))"
  proof (cases "map_of (g_clients g) cid")
    case None
    then show ?thesis using ok by (simp add: bindS_run clientS_def)
  next
    case (Some p)
    then have "queue_ok E p" using ok by (auto simp: peers_ok_def list_all_iff dest!: map_of_SomeD)
    then show ?thesis using assms ok Some by (simp add: bindS_run clientS_def keeps_def)
  qed
qed

lemma peers_bind_db:
  assumes "\<And>d x t. m d = (Inr x, t) \<Longrightarrow> Q x" and "\<And>x. Q x \<Longrightarrow> keeps (peers_ok E) (f x)"
  shows "keeps (peers_ok E) (bindS (dbS m) f)"
proof (rule keepsI)
  fix g assume ok: "peers_ok E g"
  obtain r t where m: "m (g_db g) = (r, t)" by (cases "m (g_db g)")
  have t: "peers_ok E (g\<lparr>g_db := t\<rparr>)" using ok by (simp add: peers_ok_def connections_def)
  show "peers_ok E (snd (bindS (dbS m) f g))"
  proof (cases r)
    case (Inl e)
    then show ?thesis using m t by (simp add: bindS_run dbS_run)
  next
    case (Inr x)
    then show ?thesis using m t assms by (simp add: bindS_run dbS_run keeps_def)
  qed
qed

lemma peers_writer_node [peer_rules]: "keeps (peers_ok E) (writer_node E nid sent)"
  unfolding writer_node_def
  by (rule peers_bind_node)
    (auto split: option.split intro!: peer_rules keeps_rules peers_set_node dest: queue_ok_take)

lemma peers_writer_client [peer_rules]: "keeps (peers_ok E) (writer_client cid sent)"
  unfolding writer_client_def
  by (rule peers_bind_client)
    (auto split: option.split intro!: peer_rules keeps_rules peers_set_client dest: queue_ok_take)

text \<open>The pump computes peers within the bounds.\<close>

lemma queue_ok_push_changes:
  "push_changes E cs p d = (Inr q, t) \<Longrightarrow> queue_ok E p \<Longrightarrow> queue_ok E q"
proof (induction cs arbitrary: p d)
  case Nil
  then show ?case by (simp add: run_iff)
next
  case (Cons c cs)
  let ?q = "(snd (enqueue E (F_change c) p))\<lparr>pr_revision := cg_revision c\<rparr>"
  have q: "queue_ok E (snd (enqueue E (F_change c) p))" "queue_ok E ?q" using enqueue_ok [OF Cons.prems(2)] by simp_all
  consider "q = snd (enqueue E (F_change c) p)" | "push_changes E cs ?q d = (Inr q, t)"
    | r where "push_changes E cs (snd (enqueue E (F_operation r) ?q)) d = (Inr q, t)"
    using Cons.prems(1)
    by (auto simp: Let_def split_beta operation_def tryS_iff oneS_run bindS_Inr returnS_iff
        split: if_splits option.splits)
  then show ?case using Cons.IH q enqueue_ok [OF q(2)] by cases auto
qed

lemma queue_ok_push_events: "queue_ok E p \<Longrightarrow> queue_ok E (push_events E sid es p)"
proof (induction es arbitrary: p)
  case (Cons e es)
  then show ?case using enqueue_ok [OF Cons.prems] by (simp add: Let_def split_beta)
qed simp

lemma queue_ok_pump_sessions:
  "pump_sessions E ws p d = (Inr q, t) \<Longrightarrow> queue_ok E p \<Longrightarrow> queue_ok E q"
proof (induction ws arbitrary: p d)
  case Nil
  then show ?case by (simp add: run_iff)
next
  case (Cons w ws)
  obtain sid after where w: "w = (sid, after)" by (cases w)
  consider "q = stop p"
    | f d' where "pump_sessions E ws (unwatch sid (snd (enqueue E f p))) d' = (Inr q, t)"
    | es where "pump_sessions E ws (push_events E sid es p) d = (Inr q, t)"
    using Cons.prems(1) w
    by (auto simp: ownSession_def tryS_iff oneS_run bindS_Inr returnS_iff getS_iff error_frame_def
        split: option.splits sum.splits)
  then show ?case using Cons.IH Cons.prems(2) enqueue_ok queue_ok_push_events by cases auto
qed

lemma queue_ok_pump_client:
  "pump_client E p d = (Inr q, t) \<Longrightarrow> queue_ok E p \<Longrightarrow> queue_ok E q"
  by (auto simp: pump_client_def bindS_Inr returnS_iff getS_iff enqueue_ok
      split: if_splits option.splits sum.splits
      dest!: queue_ok_pump_sessions dest: queue_ok_push_changes)

lemma peers_pump [peer_rules]: "keeps (peers_ok E) (pump E)"
proof -
  have one: "keeps (peers_ok E) (bindS (clientS cid) (\<lambda>p. bindS (dbS (pump_client E p)) (\<lambda>q. set_client cid (\<lambda>_. q))))"
    for cid
    by (rule peers_bind_client, rule peers_bind_db [where Q = "queue_ok E"])
      (auto intro: queue_ok_pump_client peers_set_client)
  show ?thesis unfolding pump_def by (intro keeps_rules one)
qed

lemma queue_ok_new: "queue_ok E (new_peer E uid nid token epoch expiry fence)"
  by (simp add: queue_ok_def new_peer_def)

lemma peers_clientFrame [peer_rules]: "keeps (peers_ok E) (clientFrame E cid m)"
  by (cases m) (auto intro!: peer_rules keeps_rules peers_set_client enqueue_ok)

lemma peers_node_receive [peer_rules]: "keeps (peers_ok E) (node_receive E nid epoch m)"
  unfolding node_receive_def by (intro peer_rules keeps_rules peers_set_node) simp_all

lemma peers_client_receive [peer_rules]: "keeps (peers_ok E) (client_receive E cid m)"
  unfolding client_receive_def by (intro peer_rules keeps_rules peers_set_client) (simp_all add: enqueue_ok)

lemma peers_node_exit [peer_rules]: "keeps (peers_ok E) (node_exit E nid)"
proof -
  have "keeps (peers_ok E) (modS (\<lambda>g. g\<lparr>g_nodes := filter (\<lambda>(k, p). k \<noteq> nid) (g_nodes g)\<rparr>))"
    by (rule keeps_mod)
      (auto simp: peers_ok_def connections_def list_all_iff distinct_map_filter
        intro: order_trans [OF add_right_mono [OF length_filter_le]])
  then show ?thesis unfolding node_exit_def by (intro peer_rules keeps_rules)
qed

lemma peers_client_exit [peer_rules]: "keeps (peers_ok E) (client_exit cid)"
  unfolding client_exit_def
  by (rule keeps_mod)
    (auto simp: peers_ok_def connections_def list_all_iff
      intro: order_trans [OF add_left_mono [OF length_filter_le]])

lemma peers_stop_where: "peers_ok E g \<Longrightarrow> peers_ok E (stop_where P g)"
  by (auto simp: peers_ok_def stop_where_def connections_def list_all_iff comp_def case_prod_unfold)

lemma peers_query_node [peer_rules]: "keeps (peers_ok E) (query_node E r)"
  unfolding query_node_def by (intro peer_rules keeps_rules)

lemma peers_expireOperations [peer_rules]: "keeps (peers_ok E) (expireOperations E)"
  unfolding expireOperations_def by (intro peer_rules keeps_rules)

lemma peers_draining [simp]: "peers_ok E (g\<lparr>g_draining := b\<rparr>) = peers_ok E g"
  by (simp add: peers_ok_def connections_def)

lemma peers_tick [peer_rules]: "keeps (peers_ok E) (tick E lease lm)"
  unfolding tick_def
  by (intro peer_rules keeps_rules keeps_mod) (simp_all add: peers_stop_where close_server_def)

text \<open>A connection is accepted only below the cap; a node's new connection replaces its old one.\<close>

lemma admit_socket_Inr:
  "admit_socket E origin ip g = (Inr x, h) \<Longrightarrow>
     connections h < cf_max_connections (cfg E) \<and> (\<exists>R. h = g\<lparr>g_rates := R\<rparr>)"
  by (auto simp: admit_socket_def run_iff rateS_def)

lemma peers_admit [peer_rules]: "keeps (peers_ok E) (admit_socket E origin ip)"
  unfolding admit_socket_def by (intro peer_rules keeps_rules)

text \<open>What follows a successful admission may count on a free connection.\<close>

lemma peers_then_admit:
  assumes "\<And>h. peers_ok E h \<Longrightarrow> connections h < cf_max_connections (cfg E) \<Longrightarrow> peers_ok E (snd (k h))"
  shows "keeps (peers_ok E) (thenS (admit_socket E origin ip) k)"
proof (rule keepsI)
  fix g assume ok: "peers_ok E g"
  obtain r h where a: "admit_socket E origin ip g = (r, h)" by (cases "admit_socket E origin ip g")
  have h: "peers_ok E h" by (rule keepsD [OF peers_admit a ok])
  show "peers_ok E (snd (thenS (admit_socket E origin ip) k g))"
  proof (cases r)
    case (Inl e)
    then show ?thesis using h a by (simp add: thenS_stop)
  next
    case (Inr x)
    then show ?thesis using assms [OF h] admit_socket_Inr [of E origin ip g x h] a by (simp add: thenS_step)
  qed
qed

lemma peers_add_node:
  "peers_ok E g \<Longrightarrow> connections g < cf_max_connections (cfg E) \<Longrightarrow> queue_ok E p \<Longrightarrow>
     peers_ok E (g\<lparr>g_nodes := (nid, p) # filter (\<lambda>(k, p). k \<noteq> nid) (g_nodes g)\<rparr>)"
  by (auto simp: peers_ok_def connections_def list_all_iff distinct_map_filter Suc_le_eq
      intro: le_less_trans [OF add_right_mono [OF length_filter_le]])

lemma peers_add_client:
  "peers_ok E g \<Longrightarrow> connections g < cf_max_connections (cfg E) \<Longrightarrow> queue_ok E p \<Longrightarrow>
     peers_ok E (g\<lparr>g_clients := g_clients g @ [(cid, p)]\<rparr>)"
  by (auto simp: peers_ok_def connections_def)

lemma peers_connect_node [peer_rules]: "keeps (peers_ok E) (connect_node E origin ip header)"
  unfolding connect_node_def
proof (rule peers_then_admit, goal_cases)
  case (1 h)
  show ?case
  proof (cases "node_identity E (bearer header) (g_db h)")
    case None
    then show ?thesis using 1 by (simp add: bindS_get failS_run)
  next
    case (Some w)
    obtain nid uid where w: "w = (nid, uid)" by (cases w)
    obtain q t where tx: "transaction uid (next_epoch E nid) (g_db h) = (q, t)"
      by (cases "transaction uid (next_epoch E nid) (g_db h)")
    have db: "dbS (transaction uid (next_epoch E nid)) h = (q, h\<lparr>g_db := t\<rparr>)" by (simp add: dbS_run tx)
    have t: "peers_ok E (h\<lparr>g_db := t\<rparr>)" "connections (h\<lparr>g_db := t\<rparr>) < cf_max_connections (cfg E)"
      using 1 by (simp_all add: peers_ok_def connections_def)
    show ?thesis
    proof (cases q)
      case (Inl e)
      then show ?thesis using t w Some db by (simp add: bindS_get bindS_stop)
    next
      case (Inr epoch)
      have k: "keeps (peers_ok E) (thenS (send_node E nid (F_node_ready nid epoch (heartbeat_seconds E) (timestamp E (now E))))
          (thenS (forS (open_ops t nid) (\<lambda>op. send_node E nid (F_command_query epoch op))) (returnS nid)))"
        by (intro peer_rules keeps_rules)
      show ?thesis
        using k [unfolded keeps_def, rule_format, OF peers_add_node [OF t queue_ok_new]] w Some db Inr
        by (simp add: bindS_get bindS_step thenS_mod)
    qed
  qed
qed

lemma peers_connect_client [peer_rules]: "keeps (peers_ok E) (connect_client E origin ip header)"
  unfolding connect_client_def
proof (rule peers_then_admit, goal_cases)
  case (1 h)
  have db: "dbS (authenticate E header) h = (fst (authenticate E header (g_db h)), h)"
    by (simp add: dbS_run authenticate_run split: option.split)
  show ?case
    using 1 peers_add_client [OF 1 queue_ok_new]
    by (auto simp: bindS_run tryS_run db getS_run thenS_run guardS_run failS_run modS_run returnS_run split: sum.split)
qed

section \<open>Requests\<close>

text \<open>The operations of the HTTP interface.\<close>

datatype request =
    Rq_command string string payload
  | Rq_operation string
  | Rq_events string string string string
  | Rq_changes string string string
  | Rq_checkpoint string
  | Rq_checkpoint_items string string string
  | Rq_login string string
  | Rq_logout
  | Rq_profile
  | Rq_update_profile profile_update
  | Rq_enroll enrollment_input
  | Rq_poll string
  | Rq_challenge string
  | Rq_prove node_proof
  | Rq_preview string
  | Rq_local string local_command
  | Rq_history string history_command
  | Rq_export string
  | Rq_subscriptions
  | Rq_consent string consent_input
  | Rq_share string string create_share
  | Rq_shares string bool string string
  | Rq_redeem string
  | Rq_revoke_share string
  | Rq_shared_session string
  | Rq_shared_read string shared_read
  | Rq_shared_command string string shared_command
  | Rq_shared_operation string string
  | Rq_share_activity string string string
  | Rq_resource resource_route string query
  | Rq_diff string
  | Rq_bootstrap
  | Rq_health bool

fun command_name :: "payload \<Rightarrow> string" where
  "command_name (P_create b) = ''createSession''"
| "command_name (P_send b) = ''sendMessage''"
| "command_name (P_cancel b) = ''cancelTurn''"
| "command_name (P_respond b) = ''respondRequest''"
| "command_name (P_native b) = ''nativeControl''"
| "command_name (P_history b) = ''projectHistory''"

fun local_name :: "local_command \<Rightarrow> string" where
  "local_name (Lc_confirm t) = ''confirmPairing''"
| "local_name (Lc_revoke n) = ''revokeNode''"
| "local_name (Lc_read n) = ''markNotificationRead''"

fun history_name :: "history_command \<Rightarrow> string" where
  "history_name (Hc_organize sid b) = ''organizeSession''"
| "history_name (Hc_delete sid b) = ''deleteHistory''"
| "history_name (Hc_import b) = ''importHistory''"

fun read_name :: "shared_read \<Rightarrow> string" where
  "read_name (Sr_events a l u) = ''listSharedEvents''"
| "read_name Sr_checkpoint = ''getSharedCheckpoint''"
| "read_name (Sr_items c l t) = ''getSharedCheckpointItems''"
| "read_name (Sr_diff f) = ''getSharedDiffFile''"
| "read_name (Sr_request r) = ''getSharedRequest''"
| "read_name Sr_other = []"

fun api_name :: "request \<Rightarrow> string" where
  "api_name (Rq_command url path b) = command_name b"
| "api_name (Rq_operation op) = ''getOperation''"
| "api_name (Rq_events sid a l u) = ''listEvents''"
| "api_name (Rq_changes a l u) = ''listChanges''"
| "api_name (Rq_checkpoint sid) = ''getCheckpoint''"
| "api_name (Rq_checkpoint_items cid l t) = ''getCheckpointItems''"
| "api_name (Rq_login identity name) = ''login''"
| "api_name Rq_logout = ''logout''"
| "api_name Rq_profile = ''getUserProfile''"
| "api_name (Rq_update_profile b) = ''updateUserProfile''"
| "api_name (Rq_enroll b) = ''createEnrollment''"
| "api_name (Rq_poll eid) = ''pollEnrollment''"
| "api_name (Rq_challenge nid) = ''createNodeChallenge''"
| "api_name (Rq_prove b) = ''proveNodeIdentity''"
| "api_name (Rq_preview code) = ''previewPairing''"
| "api_name (Rq_local url c) = local_name c"
| "api_name (Rq_history url c) = history_name c"
| "api_name (Rq_export sid) = ''exportHistory''"
| "api_name Rq_subscriptions = ''getSubscriptionConfig''"
| "api_name (Rq_consent url b) = ''recordSubscriptionConsent''"
| "api_name (Rq_share url sid b) = ''createShare''"
| "api_name (Rq_shares sid received l t) = (if received then ''listReceivedShares'' else ''listSessionShares'')"
| "api_name (Rq_redeem token) = ''redeemShare''"
| "api_name (Rq_revoke_share gid) = ''revokeShare''"
| "api_name (Rq_shared_session gid) = ''getSharedSession''"
| "api_name (Rq_shared_read gid rd) = read_name rd"
| "api_name (Rq_shared_command url gid b) = ''sharedCommand''"
| "api_name (Rq_shared_operation gid op) = ''getSharedOperation''"
| "api_name (Rq_share_activity sid l t) = ''getShareActivity''"
| "api_name (Rq_resource route rid q) = route_name route"
| "api_name (Rq_diff fid) = ''getDiffFile''"
| "api_name Rq_bootstrap = ''bootstrap''"
| "api_name (Rq_health db) = (if db then ''ready'' else ''health'')"

text \<open>The methods of \<^verbatim>\<open>contracts/http.openapi.json\<close>.\<close>

fun is_post :: "request \<Rightarrow> bool" where
  "is_post (Rq_command url path b) = True"
| "is_post (Rq_login identity name) = True"
| "is_post Rq_logout = True"
| "is_post (Rq_enroll b) = True"
| "is_post (Rq_challenge nid) = True"
| "is_post (Rq_prove b) = True"
| "is_post (Rq_preview code) = True"
| "is_post (Rq_local url c) = True"
| "is_post (Rq_history url c) = True"
| "is_post (Rq_consent url b) = True"
| "is_post (Rq_share url sid b) = True"
| "is_post (Rq_redeem token) = True"
| "is_post (Rq_revoke_share gid) = True"
| "is_post (Rq_shared_command url gid b) = True"
| "is_post rq = False"

fun request_transfer :: "request \<Rightarrow> bool" where
  "request_transfer (Rq_command url path b) = workspaceTransfer b"
| "request_transfer rq = False"

fun local_body :: "local_command \<Rightarrow> http_body" where
  "local_body (Lc_confirm t) = Body_ticket t"
| "local_body c = Body_none"

fun history_body :: "history_command \<Rightarrow> http_body" where
  "history_body (Hc_organize sid b) = Body_metadata b"
| "history_body (Hc_delete sid b) = Body_delete b"
| "history_body (Hc_import b) = Body_import b"

definition posted :: "string \<Rightarrow> http_body \<Rightarrow> fingerprint" where
  "posted url b = \<lparr>fp_method = ''POST'', fp_path = url, fp_body = b\<rparr>"

definition unitS :: "'a gwact \<Rightarrow> unit gwact" where
  "unitS m = bindS m (\<lambda>_. returnS ())"

text \<open>
  \<open>handle\<close>, without the value that is sent back; the idempotency key names the operation, the
  authorisation header is the token of \<open>logout\<close> and the secret of \<open>pollEnrollment\<close>.
\<close>

fun handle :: "env \<Rightarrow> request \<Rightarrow> string \<Rightarrow> string \<Rightarrow> string \<Rightarrow> unit gwact" where
  "handle E (Rq_command url path b) key header uid = unitS (command E None uid key (posted url (Body_command b)) path b)"
| "handle E (Rq_operation op) key header uid = unitS (dbS (operation uid op))"
| "handle E (Rq_events sid a l u) key header uid = unitS (dbS (eventsPage E uid sid a l u))"
| "handle E (Rq_changes a l u) key header uid = unitS (dbS (changesPage uid a l u))"
| "handle E (Rq_checkpoint sid) key header uid = unitS (dbS (checkpoint E uid sid))"
| "handle E (Rq_checkpoint_items cid l t) key header uid = unitS (dbS (checkpointItems E uid cid l t))"
| "handle E (Rq_login identity name) key header uid = unitS (dbS (login E identity name))"
| "handle E Rq_logout key header uid = logout E header"
| "handle E Rq_profile key header uid = unitS (dbS (userProfile uid))"
| "handle E (Rq_update_profile b) key header uid = unitS (updateUserProfile E uid b)"
| "handle E (Rq_enroll b) key header uid = unitS (dbS (enroll E b))"
| "handle E (Rq_poll eid) key header uid = unitS (dbS (pollEnrollment E eid (bearer header)))"
| "handle E (Rq_challenge nid) key header uid = unitS (dbS (challenge E nid))"
| "handle E (Rq_prove b) key header uid = unitS (dbS (prove E b))"
| "handle E (Rq_preview code) key header uid = unitS (preview E uid code)"
| "handle E (Rq_local url c) key header uid = unitS (localCommand E uid key (posted url (local_body c)) c)"
| "handle E (Rq_history url c) key header uid = unitS (dbS (historyCommand E uid key (posted url (history_body c)) c))"
| "handle E (Rq_export sid) key header uid = unitS (dbS (exportHistory E uid sid))"
| "handle E Rq_subscriptions key header uid = returnS ()"
| "handle E (Rq_consent url b) key header uid =
     unitS (dbS (subscriptionConsent E uid key (posted url (Body_consent b)) b))"
| "handle E (Rq_share url sid b) key header uid =
     unitS (dbS (createShare E uid key (posted url (Body_share b)) sid b))"
| "handle E (Rq_shares sid received l t) key header uid = unitS (dbS (shareList E uid sid received l t))"
| "handle E (Rq_redeem token) key header uid = unitS (redeemShare E uid token)"
| "handle E (Rq_revoke_share gid) key header uid = unitS (dbS (revokeShare E uid gid))"
| "handle E (Rq_shared_session gid) key header uid = unitS (sharedSession E uid gid)"
| "handle E (Rq_shared_read gid rd) key header uid = unitS (dbS (sharedRead E uid gid rd))"
| "handle E (Rq_shared_command url gid b) key header uid = unitS (sharedCommand E uid gid key url b)"
| "handle E (Rq_shared_operation gid op) key header uid = unitS (dbS (sharedOperation E uid gid op))"
| "handle E (Rq_share_activity sid l t) key header uid = unitS (dbS (shareActivity E uid sid l t))"
| "handle E (Rq_resource route rid q) key header uid = unitS (resource E uid (route_name route) rid q)"
| "handle E (Rq_diff fid) key header uid = unitS (dbS (diffFile E uid fid))"
| "handle E Rq_bootstrap key header uid = unitS (bootstrap E uid)"
| "handle E (Rq_health db) key header uid = returnS ()"

definition http :: "env \<Rightarrow> request \<Rightarrow> string \<Rightarrow> string \<Rightarrow> string \<Rightarrow> unit gwact" where
  "http E rq key ip header =
     thenS (wrap E (api_name rq) key ip header (request_transfer rq) (handle E rq key header))
       (if is_post rq then pump E else returnS ())"

section \<open>The state machine\<close>

datatype action =
    Http request string string string
  | Connect_node string string string
  | Connect_client string string string
  | Node_says string int node_message
  | Client_says nat client_message
  | Node_writes string bool
  | Client_writes nat bool
  | Node_leaves string
  | Client_leaves nat
  | Tick bool int
  | Restart

text \<open>A restart keeps the database only; a server whose recovery fails does not come up.\<close>

definition restart :: "env \<Rightarrow> gw \<Rightarrow> gw" where
  "restart E g =
     (case recoverOperations E (g_db g) of
        (r, d) \<Rightarrow> \<lparr>g_db = d, g_nodes = [], g_clients = [], g_rates = [],
                   g_draining = (case r of Inl e \<Rightarrow> True | Inr x \<Rightarrow> False)\<rparr>)"

fun run :: "env \<Rightarrow> action \<Rightarrow> gw \<Rightarrow> gw" where
  "run E (Http rq key ip header) g = snd (http E rq key ip header g)"
| "run E (Connect_node origin ip header) g = snd (connect_node E origin ip header g)"
| "run E (Connect_client origin ip header) g = snd (connect_client E origin ip header g)"
| "run E (Node_says nid epoch m) g = snd (node_receive E nid epoch m g)"
| "run E (Client_says cid m) g = snd (client_receive E cid m g)"
| "run E (Node_writes nid sent) g = snd (writer_node E nid sent g)"
| "run E (Client_writes cid sent) g = snd (writer_client cid sent g)"
| "run E (Node_leaves nid) g = snd (node_exit E nid g)"
| "run E (Client_leaves cid) g = snd (client_exit cid g)"
| "run E (Tick lease lm) g = snd (tick E lease lm g)"
| "run E Restart g = restart E g"

text \<open>Between two actions the database's clock moves on; the gateway's own clock may say anything.\<close>

definition at_time :: "env \<Rightarrow> int \<Rightarrow> int \<Rightarrow> env" where
  "at_time E t n = E\<lparr>now := n, dbnow := t\<rparr>"

definition fresh :: "db \<Rightarrow> gw" where
  "fresh d = \<lparr>g_db = d, g_nodes = [], g_clients = [], g_rates = [], g_draining = False\<rparr>"

inductive reachable :: "env \<Rightarrow> int \<Rightarrow> gw \<Rightarrow> bool" for E where
  start: "store_ok T d \<Longrightarrow> reachable E T (fresh d)"
| step: "reachable E T g \<Longrightarrow> T \<le> t \<Longrightarrow> reachable E t (run (at_time E t n) a g)"

lemma logs_page [logs_rules]:
  "keeps (store_ok T) (eventsPage E uid sid a l u)" "keeps (store_ok T) (changesPage uid a l u)"
  "keeps (store_ok T) (checkpointItems E uid cid l u)"
  by (auto simp: eventsPage_def changesPage_def checkpointItems_def intro!: logs_rules keeps_rules)

lemma checkpoint_store [logs_rules]: "keeps (store_ok (dbnow E)) (checkpoint E uid sid)"
  unfolding checkpoint_def insert_checkpoint_def
  by (intro logs_rules keeps_rules logs_mod) simp_all

lemma logs_unit [logs_rules]: "keeps (gstore_ok T) m \<Longrightarrow> keeps (gstore_ok T) (unitS m)"
  unfolding unitS_def by (intro keeps_rules)

lemma store_handle: "keeps (gstore_ok (dbnow E)) (handle E rq key header uid)"
  by (cases rq) (simp_all only: handle.simps, (intro logs_rules keeps_rules)+)

lemma store_http: "keeps (gstore_ok (dbnow E)) (http E rq key ip header)"
  unfolding http_def wrap_def admission_def charge_address_def identify_def charge_user_def
  by (intro logs_rules keeps_rules store_handle)

lemma peers_unit [peer_rules]: "keeps (peers_ok E) m \<Longrightarrow> keeps (peers_ok E) (unitS m)"
  unfolding unitS_def by (intro keeps_rules)

lemma peers_logout [peer_rules]: "keeps (peers_ok E) (logout E header)"
  unfolding logout_def Let_def
  by (intro peer_rules keeps_rules keeps_mod)
    (auto simp: peers_ok_def connections_def list_all_iff case_prod_unfold)

lemma peers_drop_node: "peers_ok E g \<Longrightarrow> peers_ok E (drop_node uid nid g)"
  by (auto simp: peers_ok_def connections_def drop_node_def list_all_iff case_prod_unfold distinct_map_filter
      intro: order_trans [OF add_right_mono [OF length_filter_le]])

lemma peers_localCommand [peer_rules]: "keeps (peers_ok E) (localCommand E uid op fp c)"
proof -
  have after: "keeps (peers_ok E) (case c of
                   Lc_revoke nid \<Rightarrow> thenS (modS (drop_node uid nid)) (dbS (invalidateNodeOperations E uid nid))
                 | _ \<Rightarrow> returnS ())"
    by (cases c) (auto intro!: peer_rules keeps_rules keeps_mod peers_drop_node)
  show ?thesis unfolding localCommand_def by (intro peer_rules keeps_rules after)
qed

lemma peers_preview [peer_rules]: "keeps (peers_ok E) (preview E uid code)"
  unfolding preview_def by (intro peer_rules keeps_rules)

lemma peers_profile [peer_rules]: "keeps (peers_ok E) (updateUserProfile E uid b)"
  unfolding updateUserProfile_def by (intro peer_rules keeps_rules)

lemma peers_redeem [peer_rules]: "keeps (peers_ok E) (redeemShare E uid token)"
  unfolding redeemShare_def by (intro peer_rules keeps_rules)

lemma peers_sharedSession [peer_rules]: "keeps (peers_ok E) (sharedSession E uid gid)"
  unfolding sharedSession_def by (intro peer_rules keeps_rules)

lemma peers_sharedCommand [peer_rules]: "keeps (peers_ok E) (sharedCommand E uid gid op url b)"
  unfolding sharedCommand_def Let_def by (intro peer_rules keeps_rules)

lemma peers_getResource [peer_rules]: "keeps (peers_ok E) (getResource E uid k rid)"
  by (cases k) (simp_all only: getResource.simps getNode_def, (intro peer_rules keeps_rules)+)

lemma peers_listResource [peer_rules]: "keeps (peers_ok E) (listResource E uid k q)"
  unfolding listResource_def Let_def by (intro peer_rules keeps_rules)

lemma peers_resource [peer_rules]: "keeps (peers_ok E) (resource E uid name rid q)"
  unfolding resource_def by (intro peer_rules keeps_rules)

lemma peers_bootstrap [peer_rules]: "keeps (peers_ok E) (bootstrap E uid)"
  unfolding bootstrap_def by (intro peer_rules keeps_rules)

lemma peers_handle: "keeps (peers_ok E) (handle E rq key header uid)"
  by (cases rq) (simp_all only: handle.simps, (intro peer_rules keeps_rules)+)

lemma peers_http: "keeps (peers_ok E) (http E rq key ip header)"
  unfolding http_def wrap_def admission_def charge_address_def identify_def charge_user_def
  by (intro peer_rules keeps_rules peers_handle)

lemma store_restart: "gstore_ok (dbnow E) g \<Longrightarrow> gstore_ok (dbnow E) (restart E g)"
  using logs_recoverOperations [of E, unfolded keeps_def, rule_format, of "g_db g"]
  by (simp add: restart_def case_prod_unfold)

lemma peers_restart: "peers_ok E (restart E g)"
  by (simp add: restart_def peers_ok_def connections_def split: prod.split)

lemma run_store: "gstore_ok (dbnow E) g \<Longrightarrow> gstore_ok (dbnow E) (run E a g)"
  by (cases a)
    (simp_all add: store_restart keepsD [OF store_http surjective_pairing]
      keepsD [OF logs_connect_node surjective_pairing] keepsD [OF logs_connect_client surjective_pairing]
      keepsD [OF logs_node_receive surjective_pairing] keepsD [OF logs_client_receive surjective_pairing]
      keepsD [OF logs_writer_node surjective_pairing] keepsD [OF logs_writer_client surjective_pairing]
      keepsD [OF logs_node_exit surjective_pairing] keepsD [OF logs_client_exit surjective_pairing]
      keepsD [OF logs_tick surjective_pairing])

lemma run_peers: "peers_ok E g \<Longrightarrow> peers_ok E (run E a g)"
  by (cases a)
    (simp_all add: peers_restart keepsD [OF peers_http surjective_pairing]
      keepsD [OF peers_connect_node surjective_pairing] keepsD [OF peers_connect_client surjective_pairing]
      keepsD [OF peers_node_receive surjective_pairing] keepsD [OF peers_client_receive surjective_pairing]
      keepsD [OF peers_writer_node surjective_pairing] keepsD [OF peers_writer_client surjective_pairing]
      keepsD [OF peers_node_exit surjective_pairing] keepsD [OF peers_client_exit surjective_pairing]
      keepsD [OF peers_tick surjective_pairing])

lemma store_ok_later: "store_ok T d \<Longrightarrow> T \<le> U \<Longrightarrow> store_ok U d"
  by (auto simp: store_ok_def intro: timed_mono)

lemma at_time_simps [simp]:
  "dbnow (at_time E t n) = t" "now (at_time E t n) = n" "cfg (at_time E t n) = cfg E"
  "peers_ok (at_time E t n) = peers_ok E"
  by (simp_all add: at_time_def peers_ok_def [abs_def] queue_ok_def [abs_def])

text \<open>
  C1: in every state the server can reach, by any interleaving of requests, node and client messages,
  writes, disconnections, ticks and restarts: the change log and the event logs have no gap, a request
  has a decision exactly while one is under way or carried out, an operation has an error exactly if it
  failed and a result exactly if it is confirmed; and no connection queues more frames or bytes than
  configured, nor are there more connections than the cap.
\<close>

theorem server_invariant:
  assumes "reachable E T g"
  shows "store_ok T (g_db g) \<and> peers_ok E g"
  using assms
proof (induction rule: reachable.induct)
  case (start T d)
  then show ?case by (simp add: fresh_def peers_ok_def connections_def)
next
  case (step T g t n a)
  then have "gstore_ok (dbnow (at_time E t n)) g" by (auto intro: store_ok_later)
  then show ?case using step.IH run_store [of "at_time E t n" g a] run_peers [of "at_time E t n" g a] by simp
qed

theorem server_invariant_witness:
  "\<exists>g. reachable env0 200 g \<and> store_ok 200 (g_db g) \<and> peers_ok env0 g
     \<and> g = run (at_time env0 200 200) (Client_says 1 (Cm_heartbeat [])) (fresh db0)"
proof -
  have "reachable env0 100 (fresh db0)" by (rule reachable.start) (simp add: store_db0)
  then have r: "reachable env0 200 (run (at_time env0 200 200) (Client_says 1 (Cm_heartbeat [])) (fresh db0))"
    by (rule reachable.step) simp
  from server_invariant [OF r] r show ?thesis by blast
qed

end
