(* ===== verification/Config.thy ===== *)
theory Config
  imports Pairing "HOL-Library.Word"
begin

unbundle bit_operations_syntax

text \<open>
  What the gateway is started with: \<open>config.go\<close>, the file of templates in \<open>subscriptions.go\<close>, the address
  of a client in \<open>client_ip.go\<close> and the identity providers of \<open>auth_provider.go\<close>. The functions of Go's
  \<open>net\<close>, \<open>netip\<close>, \<open>strings\<close> and \<open>time\<close> that they rest on are written out. The environment of the process, the
  content of the file, its JSON, the product of floating point numbers in a duration with a fraction, SHA-256
  and the answers of the identity service are arguments.
\<close>

section \<open>Strings\<close>

fun split_on :: "char \<Rightarrow> string \<Rightarrow> string list" where
  "split_on c [] = [[]]"
| "split_on c (x # xs) =
     (if x = c then [] # split_on c xs
      else case split_on c xs of [] \<Rightarrow> [[x]] | part # parts \<Rightarrow> (x # part) # parts)"

text \<open>The part before the last occurrence of a character, and the part behind it.\<close>

definition last_split :: "char \<Rightarrow> string \<Rightarrow> (string \<times> string) option" where
  "last_split c s =
     (if c \<in> set s
      then let after = rev (takeWhile (\<lambda>x. x \<noteq> c) (rev s)) in Some (take (length s - length after - 1) s, after)
      else None)"

text \<open>\<^verbatim>\<open>net.SplitHostPort\<close>, of which only the host is used.\<close>

definition split_host :: "string \<Rightarrow> string option" where
  "split_host s =
     (case last_split CHR '':'' s of
        None \<Rightarrow> None
      | Some (before, port) \<Rightarrow>
          if take 1 s = ''[''
          then let inner = takeWhile (\<lambda>c. c \<noteq> CHR '']'') (tl s) in
            if before = CHR ''['' # inner @ '']'' \<and> CHR ''['' \<notin> set (tl s) \<and> CHR '']'' \<notin> set port
            then Some inner else None
          else if CHR '':'' \<in> set before \<or> CHR ''['' \<in> set s \<or> CHR '']'' \<in> set s then None
          else Some before)"

section \<open>Addresses\<close>

text \<open>An address of four or of sixteen bytes, the latter with a zone; its bits are one word.\<close>

datatype addr = V4 "32 word" | V6 "128 word" string

definition octet :: "string \<Rightarrow> nat option" where
  "octet p =
     (if p \<noteq> [] \<and> list_all digit p \<and> (length p = 1 \<or> hd p \<noteq> CHR ''0'') \<and> number_of p \<le> 255
      then Some (nat (number_of p)) else None)"

definition octets :: "string \<Rightarrow> nat list option" where
  "octets s =
     (let parts = split_on CHR ''.'' s in
      if length parts = 4 then all_some (map octet parts) else None)"

definition join_groups :: "nat \<Rightarrow> nat list \<Rightarrow> 'w::len word" where
  "join_groups n groups = foldl (\<lambda>w g. push_bit n w OR of_nat g) 0 groups"

definition hex_value :: "char \<Rightarrow> nat option" where
  "hex_value c =
     (let b = byte c in
      if 48 \<le> b \<and> b \<le> 57 then Some (b - 48)
      else if 97 \<le> b \<and> b \<le> 102 then Some (b - 87)
      else if 65 \<le> b \<and> b \<le> 70 then Some (b - 55) else None)"

text \<open>
  The groups of an address of sixteen bytes: those read so far, where two colons stood for zeros, and what
  is left to read. The last two groups can be written as an address of four bytes.
\<close>

fun v6_groups :: "nat \<Rightarrow> nat list \<Rightarrow> nat option \<Rightarrow> string \<Rightarrow> (nat list \<times> nat option \<times> string) option" where
  "v6_groups 0 groups gap s = Some (groups, gap, s)"
| "v6_groups (Suc n) groups gap s =
     (let digits = takeWhile (\<lambda>c. hex_value c \<noteq> None) s;
          rest = drop (length digits) s;
          value = foldl (\<lambda>v c. 16 * v + the (hex_value c)) 0 digits;
          more = groups @ [value] in
      if digits = [] \<or> length digits > 4 then None
      else case rest of
        [] \<Rightarrow> Some (more, gap, [])
      | c # t \<Rightarrow>
          if c = CHR ''.'' then
            (if gap = None \<and> length groups \<noteq> 6 \<or> length groups > 6 then None
             else case octets s of
               Some [a, b, c, d] \<Rightarrow> Some (groups @ [256 * a + b, 256 * c + d], gap, [])
             | _ \<Rightarrow> None)
          else if c \<noteq> CHR '':'' \<or> t = [] then None
          else if hd t \<noteq> CHR '':'' then v6_groups n more gap t
          else if gap \<noteq> None then None
          else if tl t = [] then Some (more, Some (length more), [])
          else v6_groups n more (Some (length more)) (tl t))"

definition fill_gap :: "nat list \<times> nat option \<times> string \<Rightarrow> nat list option" where
  "fill_gap = (\<lambda>(groups, gap, s).
     if s \<noteq> [] then None
     else case gap of
       None \<Rightarrow> (if length groups < 8 then None else Some groups)
     | Some k \<Rightarrow>
         if length groups < 8 then Some (take k groups @ replicate (8 - length groups) 0 @ drop k groups) else None)"

definition parse_v6 :: "string \<Rightarrow> addr option" where
  "parse_v6 whole =
     (let s = takeWhile (\<lambda>c. c \<noteq> CHR ''%'') whole;
          behind = dropWhile (\<lambda>c. c \<noteq> CHR ''%'') whole;
          zone = tl behind;
          groups = (if s = ''::'' then Some (replicate 8 0)
            else Option.bind (if take 2 s = ''::'' then v6_groups 8 [] (Some 0) (drop 2 s) else v6_groups 8 [] None s) fill_gap) in
      if behind \<noteq> [] \<and> zone = [] then None
      else map_option (\<lambda>g. V6 (join_groups 16 g) zone) groups)"

text \<open>\<^verbatim>\<open>netip.ParseAddr\<close>: the first of three characters tells which kind of address it is.\<close>

definition parse_addr :: "string \<Rightarrow> addr option" where
  "parse_addr s =
     (case dropWhile (\<lambda>c. c \<notin> {CHR ''.'', CHR '':'', CHR ''%''}) s of
        [] \<Rightarrow> None
      | c # t \<Rightarrow>
          if c = CHR ''.'' then map_option (\<lambda>p. V4 (join_groups 8 p)) (octets s)
          else if c = CHR '':'' then parse_v6 s
          else None)"

fun zone_of :: "addr \<Rightarrow> string" where
  "zone_of (V4 a) = []"
| "zone_of (V6 a zone) = zone"

text \<open>\<^verbatim>\<open>Unmap\<close>: an address of four bytes that was written as one of sixteen.\<close>

fun unmap :: "addr \<Rightarrow> addr" where
  "unmap (V4 a) = V4 a"
| "unmap (V6 a zone) = (if drop_bit 32 a = 65535 then V4 (ucast a) else V6 a zone)"

fun is_loopback :: "addr \<Rightarrow> bool" where
  "is_loopback (V4 a) \<longleftrightarrow> drop_bit 24 a = 127"
| "is_loopback (V6 a zone) \<longleftrightarrow> a = 1"

text \<open>\<^verbatim>\<open>net.ParseIP\<close> and \<^verbatim>\<open>IsLoopback\<close> of what it gives.\<close>

definition loopback_host :: "string \<Rightarrow> bool" where
  "loopback_host host \<longleftrightarrow>
     (case parse_addr host of None \<Rightarrow> False | Some a \<Rightarrow> zone_of a = [] \<and> is_loopback (unmap a))"

record prefix =
  px_addr :: addr
  px_bits :: nat

fun addr_bits :: "addr \<Rightarrow> nat" where
  "addr_bits (V4 a) = 32"
| "addr_bits (V6 a zone) = 128"

text \<open>\<^verbatim>\<open>netip.ParsePrefix\<close>.\<close>

definition parse_prefix :: "string \<Rightarrow> prefix option" where
  "parse_prefix s =
     (case last_split CHR ''/'' s of
        None \<Rightarrow> None
      | Some (host, bits) \<Rightarrow>
          (case parse_addr host of
             None \<Rightarrow> None
           | Some a \<Rightarrow>
               if zone_of a \<noteq> [] \<or> length bits > 1 \<and> \<not> (49 \<le> byte (hd bits) \<and> byte (hd bits) \<le> 57) then None
               else case parse_int bits of
                 None \<Rightarrow> None
               | Some n \<Rightarrow> if n < 0 \<or> n > int (addr_bits a) then None else Some \<lparr>px_addr = a, px_bits = nat n\<rparr>))"

text \<open>\<^verbatim>\<open>Prefix.Contains\<close>.\<close>

fun px_contains :: "prefix \<Rightarrow> addr \<Rightarrow> bool" where
  "px_contains p (V4 a) \<longleftrightarrow> (case px_addr p of V4 b \<Rightarrow> drop_bit (32 - px_bits p) (a XOR b) = 0 | _ \<Rightarrow> False)"
| "px_contains p (V6 a zone) \<longleftrightarrow>
     zone = [] \<and> (case px_addr p of V6 b _ \<Rightarrow> drop_bit (128 - px_bits p) (a XOR b) = 0 | _ \<Rightarrow> False)"

section \<open>The address of a client\<close>

text \<open>
  A request as \<open>clientIP\<close> sees it: the address of the connection and the values of \<open>X-Real-IP\<close>. The
  result stands for its text, in which different addresses differ; none is \<open>invalid-peer\<close>.
\<close>

definition header_address :: "string list \<Rightarrow> addr option" where
  "header_address values =
     (case values of
        [value] \<Rightarrow>
          (case parse_addr (trim_space value) of
             None \<Rightarrow> None
           | Some a \<Rightarrow> if zone_of a = [] then Some (unmap a) else None)
      | _ \<Rightarrow> None)"

definition clientIP :: "prefix list \<Rightarrow> string \<Rightarrow> string list \<Rightarrow> addr option" where
  "clientIP trusted remote values =
     (case Option.bind (split_host remote) parse_addr of
        None \<Rightarrow> None
      | Some a \<Rightarrow>
          let peer = unmap a in
          if list_ex (\<lambda>p. px_contains p peer) trusted
          then (case header_address values of None \<Rightarrow> Some peer | Some client \<Rightarrow> Some client)
          else Some peer)"

section \<open>Durations\<close>

text \<open>
  \<^verbatim>\<open>time.ParseDuration\<close>: a sign, then numbers with a unit each. The value is an unsigned 64-bit number of
  nanoseconds, at most \<open>2\<^sup>6\<^sup>3\<close> at every step. The fraction is multiplied in floating point, which is an argument
  (of the digits, the unit and the scale).
\<close>

definition two63 :: nat where
  "two63 = 9223372036854775808"

definition duration_unit :: "string \<Rightarrow> nat option" where
  "duration_unit u =
     (if u = ''ns'' then Some 1
      else if u = ''us'' \<or> map byte u = [194, 181, 115] \<or> map byte u = [206, 188, 115] then Some 1000
      else if u = ''ms'' then Some 1000000
      else if u = ''s'' then Some 1000000000
      else if u = ''m'' then Some 60000000000
      else if u = ''h'' then Some 3600000000000
      else None)"

definition digit_value :: "char \<Rightarrow> nat" where
  "digit_value c = byte c - 48"

definition leading_int :: "string \<Rightarrow> nat option" where
  "leading_int ds =
     foldl (\<lambda>v c. case v of None \<Rightarrow> None
       | Some x \<Rightarrow> if x > two63 div 10 \<or> x * 10 + digit_value c > two63 then None else Some (x * 10 + digit_value c))
     (Some 0) ds"

text \<open>Digits beyond the range are dropped.\<close>

definition leading_fraction :: "string \<Rightarrow> nat \<times> nat" where
  "leading_fraction ds =
     (case foldl (\<lambda>(x, scale, full) c.
         if full \<or> x > (two63 - 1) div 10 \<or> x * 10 + digit_value c > two63 then (x, scale, True)
         else (x * 10 + digit_value c, scale * 10, False)) (0, 1, False) ds of
      (x, scale, full) \<Rightarrow> (x, scale))"

text \<open>One number with its unit, and what follows it.\<close>

definition duration_part :: "(nat \<Rightarrow> nat \<Rightarrow> nat \<Rightarrow> nat) \<Rightarrow> string \<Rightarrow> (nat \<times> string) option" where
  "duration_part product s =
     (let whole = takeWhile digit s;
          s1 = dropWhile digit s;
          point = take 1 s1 = ''.'';
          frac = (if point then takeWhile digit (tl s1) else []);
          s2 = (if point then dropWhile digit (tl s1) else s1);
          u = takeWhile (\<lambda>c. \<not> digit c \<and> c \<noteq> CHR ''.'') s2 in
      if whole = [] \<and> frac = [] then None
      else case (leading_int whole, duration_unit u) of
        (Some v, Some unit) \<Rightarrow>
          (case leading_fraction frac of
             (f, scale) \<Rightarrow>
               let total = v * unit + (if f > 0 then product f unit scale else 0) in
               if v > two63 div unit \<or> total > two63 then None else Some (total, drop (length u) s2))
      | _ \<Rightarrow> None)"

fun duration_parts :: "(nat \<Rightarrow> nat \<Rightarrow> nat \<Rightarrow> nat) \<Rightarrow> nat \<Rightarrow> nat \<Rightarrow> string \<Rightarrow> nat option" where
  "duration_parts product fuel d [] = Some d"
| "duration_parts product 0 d (c # cs) = None"
| "duration_parts product (Suc fuel) d (c # cs) =
     (case duration_part product (c # cs) of
        None \<Rightarrow> None
      | Some (v, rest) \<Rightarrow> if d + v > two63 then None else duration_parts product fuel (d + v) rest)"

text \<open>Every part takes at least a character, so the length of the text is fuel enough.\<close>

definition parse_duration :: "(nat \<Rightarrow> nat \<Rightarrow> nat \<Rightarrow> nat) \<Rightarrow> string \<Rightarrow> int option" where
  "parse_duration product s =
     (let neg = take 1 s = ''-'';
          t = (if take 1 s = ''-'' \<or> take 1 s = ''+'' then tl s else s) in
      if t = ''0'' then Some 0
      else if t = [] then None
      else case duration_parts product (length t) 0 t of
        None \<Rightarrow> None
      | Some d \<Rightarrow> if neg then Some (- int d) else if d > two63 - 1 then None else Some (int d))"

section \<open>Templates\<close>

record raw_field =
  rf_source :: string
  rf_value :: string
  rf_limit :: int

record raw_template =
  rt_id :: string
  rt_title :: string
  rt_kind :: string
  rt_state :: string
  rt_data :: "(string \<times> raw_field) list"

text \<open>What the texts of a valid template stand for in the rest of the gateway.\<close>

definition kind_of_text :: "string \<Rightarrow> notice_kind option" where
  "kind_of_text s =
     (if s = ''approval'' then Some N_approval
      else if s = ''question'' then Some N_question
      else if s = ''completed'' then Some N_completed
      else if s = ''failed'' then Some N_failed
      else None)"

definition source_of_text :: "string \<Rightarrow> field_source option" where
  "source_of_text s =
     (if s = ''summary'' then Some Src_summary
      else if s = ''session_title'' then Some Src_session_title
      else if s = ''state'' then Some Src_state
      else if s = ''time'' then Some Src_time
      else if s = ''fixed'' then Some Src_value
      else None)"

definition read_field :: "string \<times> raw_field \<Rightarrow> (string \<times> subscription_field) option" where
  "read_field = (\<lambda>(key, f).
     if key = [] \<or> length key > 64 \<or> rf_limit f < 1 \<or> rf_limit f > 200 then None
     else case source_of_text (rf_source f) of
       None \<Rightarrow> None
     | Some src \<Rightarrow>
         if src = Src_value \<and> rf_value f = [] then None
         else Some (key, \<lparr>sf_source = src, sf_value = rf_value f, sf_limit = nat (rf_limit f)\<rparr>))"

definition read_template :: "string list \<Rightarrow> string list \<Rightarrow> raw_template \<Rightarrow> subscription_template option" where
  "read_template ids titles t =
     (if rt_id t = [] \<or> length (rt_id t) > 128 \<or> rt_title t = [] \<or> rune_count (rt_title t) > 100
         \<or> rt_id t \<in> set ids \<or> rt_title t \<in> set titles then None
      else case kind_of_text (rt_kind t) of
        None \<Rightarrow> None
      | Some kind \<Rightarrow>
          if rt_state t \<notin> {''formal'', ''trial'', ''developer''} then None
          else if rt_data t = [] \<or> length (rt_data t) > 10 then None
          else map_option (\<lambda>fs. \<lparr>st_id = rt_id t, st_title = rt_title t, st_kind = kind, st_app = rt_state t, st_data = fs\<rparr>)
                 (all_some (map read_field (rt_data t))))"

fun read_templates :: "string list \<Rightarrow> string list \<Rightarrow> raw_template list \<Rightarrow> subscription_template list option" where
  "read_templates ids titles [] = Some []"
| "read_templates ids titles (t # ts) =
     (case read_template ids titles t of
        None \<Rightarrow> None
      | Some x \<Rightarrow> map_option ((#) x) (read_templates (rt_id t # ids) (rt_title t # titles) ts))"

text \<open>The first 32769 bytes of the file, and the JSON value they are, when they are one and nothing follows.\<close>

definition loadSubscriptions ::
  "(string \<Rightarrow> string option) \<Rightarrow> (string \<Rightarrow> raw_template list option) \<Rightarrow> string \<Rightarrow> subscription_template list option" where
  "loadSubscriptions file json path =
     (if path = [] then Some []
      else case file path of
        None \<Rightarrow> None
      | Some raw \<Rightarrow>
          if length (take 32769 raw) > 32768 then None
          else case json raw of
            None \<Rightarrow> None
          | Some ts \<Rightarrow> if length ts > 5 then None else read_templates [] [] ts)"

section \<open>The configuration\<close>

datatype config_error =
    Bad_proxies | Bad_key | No_database | Bad_mode | Not_loopback | No_wechat | Wildcard_origin
  | Bad_limit | Bad_duration | Bad_heartbeat | Bad_retention | Short_retention | Bad_templates

record settings =
  sg_listen :: string
  sg_database :: string
  sg_mode :: string
  sg_app_id :: string
  sg_secret :: string
  sg_key :: string
  sg_proxies :: "prefix list"
  sg_origins :: "string list"
  sg_heartbeat :: int
  sg_offline_after :: int
  sg_command_ttl :: int
  sg_user_ttl :: int
  sg_node_ttl :: int
  sg_maintenance :: int
  sg_connections :: int
  sg_inflight :: int
  sg_queue_frames :: int
  sg_queue_bytes :: int
  sg_content :: int
  sg_metadata :: int
  sg_changes :: int
  sg_templates :: "subscription_template list"

text \<open>The environment of the process, a variable that is not set being empty, and the library's parts.\<close>

record os =
  os_getenv :: "string \<Rightarrow> string"
  os_file :: "string \<Rightarrow> string option"
  os_json :: "string \<Rightarrow> raw_template list option"
  os_product :: "nat \<Rightarrow> nat \<Rightarrow> nat \<Rightarrow> nat"

definition Defaults :: settings where
  "Defaults = \<lparr>sg_listen = ''127.0.0.1:8080'', sg_database = [], sg_mode = ''wechat'', sg_app_id = [], sg_secret = [],
     sg_key = [], sg_proxies = [], sg_origins = [], sg_heartbeat = 15 * second, sg_offline_after = 45 * second,
     sg_command_ttl = 15 * second, sg_user_ttl = 2 * hour, sg_node_ttl = 10 * minute, sg_maintenance = minute,
     sg_connections = 256, sg_inflight = 128, sg_queue_frames = 256, sg_queue_bytes = 2097152, sg_content = 30 * day,
     sg_metadata = 90 * day, sg_changes = 7 * day, sg_templates = []\<rparr>"

type_synonym loading = "(settings, config_error, unit) act"

text \<open>A comma separated list, without its blanks.\<close>

definition listed :: "string \<Rightarrow> string list" where
  "listed s = filter (\<lambda>v. v \<noteq> []) (map trim_space (split_on CHR '','' s))"

definition load_proxies :: "os \<Rightarrow> loading" where
  "load_proxies X =
     forS (listed (os_getenv X ''TRUSTED_PROXY_CIDRS'')) (\<lambda>value.
       case parse_prefix value of
         None \<Rightarrow> failS Bad_proxies
       | Some p \<Rightarrow> if px_bits p = 0 then failS Bad_proxies else modS (\<lambda>c. c\<lparr>sg_proxies := sg_proxies c @ [p]\<rparr>))"

definition getenv_or :: "os \<Rightarrow> string \<Rightarrow> string \<Rightarrow> string" where
  "getenv_or X key value = (if os_getenv X key = [] then value else os_getenv X key)"

definition load_mode :: "os \<Rightarrow> loading" where
  "load_mode X =
     thenS (modS (\<lambda>c. c\<lparr>sg_listen := getenv_or X ''LISTEN_ADDR'' (sg_listen c),
       sg_mode := getenv_or X ''AUTH_MODE'' (sg_mode c)\<rparr>))
     (case std_decode (os_getenv X ''GATEWAY_HMAC_KEY'') of
        None \<Rightarrow> failS Bad_key
      | Some key \<Rightarrow>
          thenS (guardS (length key \<ge> 32) Bad_key)
          (thenS (modS (\<lambda>c. c\<lparr>sg_key := key\<rparr>))
          (thenS (guardS (os_getenv X ''DATABASE_URL'' \<noteq> []) No_database)
          (bindS (getS (\<lambda>c. c)) (\<lambda>c.
           thenS (guardS (sg_mode c = ''wechat'' \<or> sg_mode c = ''development'') Bad_mode)
           (thenS (guardS (sg_mode c = ''development'' \<longrightarrow>
                     (case split_host (sg_listen c) of None \<Rightarrow> False | Some host \<Rightarrow> loopback_host host)) Not_loopback)
           (guardS (sg_mode c = ''wechat'' \<longrightarrow> sg_app_id c \<noteq> [] \<and> sg_secret c \<noteq> []) No_wechat)))))))"

definition load_origins :: "os \<Rightarrow> loading" where
  "load_origins X =
     forS (listed (os_getenv X ''ALLOWED_ORIGINS'')) (\<lambda>s.
       thenS (guardS (CHR ''*'' \<notin> set s \<and> CHR ''?'' \<notin> set s) Wildcard_origin)
       (modS (\<lambda>c. c\<lparr>sg_origins := sg_origins c @ [s]\<rparr>)))"

text \<open>A variable that is set replaces a value, when it is within its bounds.\<close>

definition load_limit :: "os \<Rightarrow> string \<Rightarrow> (int \<Rightarrow> settings \<Rightarrow> settings) \<Rightarrow> loading" where
  "load_limit X key put =
     (if os_getenv X key = [] then returnS ()
      else case parse_int (os_getenv X key) of
        None \<Rightarrow> failS Bad_limit
      | Some n \<Rightarrow> if n < 1 \<or> n > 10000 then failS Bad_limit else modS (put n))"

definition load_duration :: "os \<Rightarrow> string \<Rightarrow> (int \<Rightarrow> settings \<Rightarrow> settings) \<Rightarrow> loading" where
  "load_duration X key put =
     (if os_getenv X key = [] then returnS ()
      else case parse_duration (os_product X) (os_getenv X key) of
        None \<Rightarrow> failS Bad_duration
      | Some d \<Rightarrow> if d < second \<or> d > hour then failS Bad_duration else modS (put d))"

definition load_retention :: "os \<Rightarrow> string \<Rightarrow> (int \<Rightarrow> settings \<Rightarrow> settings) \<Rightarrow> loading" where
  "load_retention X key put =
     (if os_getenv X key = [] then returnS ()
      else case parse_int (os_getenv X key) of
        None \<Rightarrow> failS Bad_retention
      | Some n \<Rightarrow> if n < 1 \<or> n > 3650 then failS Bad_retention else modS (put (n * day)))"

definition load_limits :: "os \<Rightarrow> loading" where
  "load_limits X =
     thenS (load_limit X ''MAX_CONNECTIONS'' (\<lambda>n c. c\<lparr>sg_connections := n\<rparr>))
     (load_limit X ''MAX_INFLIGHT'' (\<lambda>n c. c\<lparr>sg_inflight := n\<rparr>))"

definition load_durations :: "os \<Rightarrow> loading" where
  "load_durations X =
     thenS (load_duration X ''HEARTBEAT_INTERVAL'' (\<lambda>d c. c\<lparr>sg_heartbeat := d\<rparr>))
     (thenS (load_duration X ''OFFLINE_AFTER'' (\<lambda>d c. c\<lparr>sg_offline_after := d\<rparr>))
     (thenS (load_duration X ''COMMAND_TTL'' (\<lambda>d c. c\<lparr>sg_command_ttl := d\<rparr>))
     (thenS (load_duration X ''MAINTENANCE_INTERVAL'' (\<lambda>d c. c\<lparr>sg_maintenance := d\<rparr>))
     (bindS (getS (\<lambda>c. 5 * second \<le> sg_heartbeat c \<and> sg_heartbeat c \<le> 60 * second
        \<and> 2 * sg_heartbeat c \<le> sg_offline_after c)) (\<lambda>ok. guardS ok Bad_heartbeat)))))"

definition load_retentions :: "os \<Rightarrow> loading" where
  "load_retentions X =
     thenS (load_retention X ''CONTENT_RETENTION_DAYS'' (\<lambda>d c. c\<lparr>sg_content := d\<rparr>))
     (thenS (load_retention X ''METADATA_RETENTION_DAYS'' (\<lambda>d c. c\<lparr>sg_metadata := d\<rparr>))
     (thenS (load_retention X ''CHANGES_RETENTION_DAYS'' (\<lambda>d c. c\<lparr>sg_changes := d\<rparr>))
     (bindS (getS (\<lambda>c. sg_content c \<le> sg_metadata c \<and> 90 * day \<le> sg_metadata c)) (\<lambda>ok. guardS ok Short_retention))))"

definition load_config :: "os \<Rightarrow> loading" where
  "load_config X =
     thenS (modS (\<lambda>c. c\<lparr>sg_database := os_getenv X ''DATABASE_URL'', sg_app_id := os_getenv X ''WECHAT_APP_ID'',
       sg_secret := os_getenv X ''WECHAT_APP_SECRET''\<rparr>))
     (thenS (load_proxies X)
     (thenS (load_mode X)
     (thenS (load_origins X)
     (thenS (load_limits X)
     (thenS (load_durations X)
     (thenS (load_retentions X)
     (case loadSubscriptions (os_file X) (os_json X) (os_getenv X ''WECHAT_SUBSCRIPTIONS_FILE'') of
        None \<Rightarrow> failS Bad_templates
      | Some ts \<Rightarrow> modS (\<lambda>c. c\<lparr>sg_templates := ts\<rparr>))))))))"

definition LoadConfig :: "os \<Rightarrow> config_error + settings" where
  "LoadConfig X = (case load_config X Defaults of (Inl e, c) \<Rightarrow> Inl e | (Inr _, c) \<Rightarrow> Inr c)"

text \<open>The configuration as the rest of the gateway reads it.\<close>

definition config_of :: "settings \<Rightarrow> config" where
  "config_of c = \<lparr>cf_wechat = (sg_mode c = ''wechat''), cf_subscriptions = sg_templates c, cf_command_ttl = sg_command_ttl c,
     cf_offline_after = sg_offline_after c, cf_heartbeat = sg_heartbeat c, cf_max_connections = nat (sg_connections c),
     cf_queue_frames = nat (sg_queue_frames c), cf_queue_bytes = nat (sg_queue_bytes c), cf_content_retention = sg_content c,
     cf_metadata_retention = sg_metadata c, cf_changes_retention = sg_changes c, cf_maintenance_interval = sg_maintenance c,
     cf_origins = sg_origins c, cf_user_ttl = sg_user_ttl c, cf_node_ttl = sg_node_ttl c, cf_app_id = sg_app_id c\<rparr>"

section \<open>Identity providers\<close>

record identity =
  id_subject :: string
  id_name :: string

definition has_prefix :: "string \<Rightarrow> string \<Rightarrow> bool" where
  "has_prefix p s \<longleftrightarrow> take (length p) s = p"

text \<open>The reply to a code: status, body, and the body read as JSON with its \<open>openid\<close> and \<open>errcode\<close>.\<close>

record wechat_service =
  ws_post :: "string \<Rightarrow> (nat \<times> string) option"
  ws_json :: "string \<Rightarrow> (string \<times> int) option"

definition wechat_user :: string where
  "wechat_user = map char_of ([229, 190, 174, 228, 191, 161, 231, 148, 168, 230, 136, 183] :: nat list)"

definition local_user :: string where
  "local_user = map char_of ([230, 156, 172, 229, 156, 176, 230, 181, 139, 232, 175, 149, 231, 148, 168, 230, 136, 183] :: nat list)"

definition wechat_exchange :: "wechat_service \<Rightarrow> string \<Rightarrow> string \<Rightarrow> identity option" where
  "wechat_exchange W app code =
     (if trim_space code = [] \<or> has_prefix ''dev:'' code then None
      else case ws_post W code of
        None \<Rightarrow> None
      | Some (status, body) \<Rightarrow>
          if length (take 65537 body) > 65536 \<or> status \<noteq> 200 then None
          else case ws_json W body of
            None \<Rightarrow> None
          | Some (openid, errcode) \<Rightarrow>
              if errcode \<noteq> 0 \<or> openid = [] then None
              else Some \<lparr>id_subject = app @ '':'' @ openid, id_name = wechat_user\<rparr>)"

definition development_exchange :: "(string \<Rightarrow> string) \<Rightarrow> string \<Rightarrow> identity option" where
  "development_exchange sha256 code =
     (if \<not> has_prefix ''dev:'' code \<or> length code < 5 \<or> length code > 100 then None
      else Some \<lparr>id_subject = ''development:'' @ hex (sha256 code), id_name = local_user\<rparr>)"

text \<open>\<open>New\<close> takes the provider of the mode.\<close>

definition exchange :: "settings \<Rightarrow> wechat_service \<Rightarrow> (string \<Rightarrow> string) \<Rightarrow> string \<Rightarrow> identity option" where
  "exchange c W sha256 code =
     (if sg_mode c = ''development'' then development_exchange sha256 code else wechat_exchange W (sg_app_id c) code)"

end
