(* ===== verification/Front.thy ===== *)
theory Front
  imports Gateway Config
begin

text \<open>
  The way of a request through \<open>wrap\<close> (server.go), from the socket to the response: the slots for requests
  in flight, the body with its media type, size, JSON and schema, the key, the budgets of the client's
  address, the identity provider, shutdown, the user, the handler, the schema of the answer. The lexer of
  \<open>encoding/json\<close>, \<open>mime\<close> and the schema compiler are arguments.
\<close>

section \<open>Requests and responses\<close>

record route =
  ro_name :: string
  ro_input :: string
  ro_output :: string
  ro_status :: nat

text \<open>A request; its body is none when it cannot be read.\<close>

record http_request =
  hq_post :: bool
  hq_type :: string
  hq_body :: "string option"
  hq_key :: string
  hq_auth :: string
  hq_remote :: string
  hq_real_ip :: "string list"

text \<open>The answer: an error with its code, whether to try again, and the trace, or the value of the handler.\<close>

record 'a http_response =
  hp_status :: nat
  hp_retry_after :: bool
  hp_trace :: string
  hp_body :: "error_code \<times> bool + 'a"

record 'a library =
  lb_media :: "string \<Rightarrow> string option"
  lb_tokens :: "string \<Rightarrow> token list option"
  lb_valid :: "string \<Rightarrow> json \<Rightarrow> bool"
  lb_answer :: "string \<Rightarrow> 'a \<Rightarrow> bool"
  lb_address :: "addr \<Rightarrow> string"
  lb_provider :: "string \<Rightarrow> identity option"

text \<open>\<open>refName\<close>: the last part of a reference to a schema.\<close>

definition refName :: "string \<Rightarrow> string" where
  "refName ref = (case last_split CHR ''/'' ref of None \<Rightarrow> [] | Some (before, after) \<Rightarrow> after)"

text \<open>The route of an operation of the contract: the schema of its body, and of its answer under 200 or 202.\<close>

record contract =
  ct_operation :: string
  ct_body :: "string option"
  ct_ok :: string
  ct_accepted :: string

definition route_of :: "contract \<Rightarrow> route" where
  "route_of c =
     (let response = refName (ct_ok c) in
      \<lparr>ro_name = ct_operation c,
       ro_input = (case ct_body c of None \<Rightarrow> [] | Some ref \<Rightarrow> refName ref),
       ro_output = (if response = [] then refName (ct_accepted c) else response),
       ro_status = (if response = [] then 202 else 200)\<rparr>)"

definition routes :: "contract list \<Rightarrow> route list" where
  "routes cs = map route_of cs"

section \<open>The body\<close>

definition max_body :: nat where
  "max_body = 65536"

definition read_body :: "'a library \<Rightarrow> string \<Rightarrow> http_request \<Rightarrow> err + json option" where
  "read_body L input rq =
     (if input = [] then Inr None
      else if lb_media L (hq_type rq) \<noteq> Some ''application/json'' then Inl invalid
      else case hq_body rq of
        None \<Rightarrow> Inl invalid
      | Some b \<Rightarrow>
          if length b > max_body then Inl (apierr 413 PAYLOAD_TOO_LARGE)
          else case lb_tokens L b of
            None \<Rightarrow> Inl invalid
          | Some ts \<Rightarrow>
              (case decode ts of
                 Inl e \<Rightarrow> Inl invalid
               | Inr v \<Rightarrow> if lb_valid L input v then Inr (Some v) else Inl invalid))"

text \<open>The accessors \<open>object\<close> and \<open>str\<close> of common.go; what is missing or of another type is empty.\<close>

definition json_object :: "json \<Rightarrow> string \<Rightarrow> json" where
  "json_object v key =
     (case v of
        JObj m \<Rightarrow> (case map_of m key of Some (JObj n) \<Rightarrow> JObj n | _ \<Rightarrow> JObj [])
      | _ \<Rightarrow> JObj [])"

definition json_str :: "json \<Rightarrow> string \<Rightarrow> string" where
  "json_str v key =
     (case v of
        JObj m \<Rightarrow> (case map_of m key of Some (JStr s) \<Rightarrow> s | _ \<Rightarrow> [])
      | _ \<Rightarrow> [])"

definition body_of :: "json option \<Rightarrow> json" where
  "body_of v = (case v of Some (JObj m) \<Rightarrow> JObj m | _ \<Rightarrow> JObj [])"

definition transfer_of :: "string \<Rightarrow> json \<Rightarrow> bool" where
  "transfer_of name body \<longleftrightarrow>
     name = ''nativeControl'' \<and> json_str (json_object body ''control'') ''action'' = ''workspace'' \<and>
     json_str (json_object (json_object body ''control'') ''request'') ''kind'' \<in> {''read_file'', ''upload_chunk''}"

section \<open>From the socket to the handler\<close>

definition client_text :: "'a library \<Rightarrow> prefix list \<Rightarrow> http_request \<Rightarrow> string" where
  "client_text L trusted rq =
     (case clientIP trusted (hq_remote rq) (hq_real_ip rq) of
        None \<Rightarrow> ''invalid-peer''
      | Some a \<Rightarrow> lb_address L a)"

definition no_identity :: identity where
  "no_identity = \<lparr>id_subject = [], id_name = []\<rparr>"

text \<open>The code of a login is exchanged before the lock is taken again.\<close>

definition identity_step :: "'a library \<Rightarrow> string \<Rightarrow> json \<Rightarrow> identity gwact" where
  "identity_step L name body =
     (if name \<noteq> ''login'' then returnS no_identity
      else case lb_provider L (json_str body ''code'') of
        None \<Rightarrow> failS (apierr 401 UNAUTHENTICATED)
      | Some i \<Rightarrow> returnS i)"

definition answered :: "'a library \<Rightarrow> string \<Rightarrow> 'a \<Rightarrow> 'a gwact" where
  "answered L output v = thenS (guardS (lb_answer L output v) (apierr 500 INTERNAL)) (returnS v)"

definition behind_body ::
  "env \<Rightarrow> 'a library \<Rightarrow> prefix list \<Rightarrow> route \<Rightarrow> http_request \<Rightarrow> json \<Rightarrow> (json \<Rightarrow> identity \<Rightarrow> string \<Rightarrow> 'a gwact) \<Rightarrow> 'a gwact" where
  "behind_body E L trusted ro rq body handler =
     (let name = ro_name ro; transfer = transfer_of name body in
      thenS (guardS (\<not> (requiresKey name \<and> \<not> operationKey (hq_key rq))) invalid)
      (bindS (charge_address E name (client_text L trusted rq) transfer) (\<lambda>allowed.
       thenS (guardS allowed (apierr 429 RATE_LIMITED))
       (bindS (identity_step L name body) (\<lambda>identity.
        bindS (getS g_draining) (\<lambda>draining.
        thenS (guardS (\<not> (draining \<and> name \<noteq> ''health'')) (apierr 503 SERVICE_UNAVAILABLE))
        (bindS (identify E name (hq_auth rq) transfer) (\<lambda>uid.
         bindS (handler body identity uid) (answered L (ro_output ro))))))))))"

definition through ::
  "env \<Rightarrow> 'a library \<Rightarrow> prefix list \<Rightarrow> nat \<Rightarrow> nat \<Rightarrow> route \<Rightarrow> http_request \<Rightarrow> (json \<Rightarrow> identity \<Rightarrow> string \<Rightarrow> 'a gwact) \<Rightarrow> 'a gwact" where
  "through E L trusted limit used ro rq handler =
     thenS (guardS (used < limit) (apierr 503 SERVICE_UNAVAILABLE))
     (case read_body L (ro_input ro) rq of
        Inl e \<Rightarrow> failS e
      | Inr v \<Rightarrow> behind_body E L trusted ro rq (body_of v) handler)"

text \<open>\<open>writeError\<close>, or the answer with the status of its route.\<close>

fun error_answer :: "string \<Rightarrow> err \<Rightarrow> 'a http_response" where
  "error_answer trace (Api status code retry) =
     \<lparr>hp_status = status, hp_retry_after = (status = 429), hp_trace = trace, hp_body = Inl (code, retry)\<rparr>"
| "error_answer trace NoRows =
     \<lparr>hp_status = 404, hp_retry_after = False, hp_trace = trace, hp_body = Inl (NOT_FOUND, False)\<rparr>"
| "error_answer trace DBError =
     \<lparr>hp_status = 500, hp_retry_after = False, hp_trace = trace, hp_body = Inl (INTERNAL, False)\<rparr>"

definition serve_request ::
  "env \<Rightarrow> 'a library \<Rightarrow> prefix list \<Rightarrow> nat \<Rightarrow> nat \<Rightarrow> string \<Rightarrow> route \<Rightarrow> http_request \<Rightarrow>
     (json \<Rightarrow> identity \<Rightarrow> string \<Rightarrow> 'a gwact) \<Rightarrow> 'a http_response gwact" where
  "serve_request E L trusted limit used trace ro rq handler =
     bindS (tryS (through E L trusted limit used ro rq handler)) (\<lambda>r.
     case r of
       Inl e \<Rightarrow> returnS (error_answer trace (normalizeError e))
     | Inr v \<Rightarrow>
         thenS (if hq_post rq then bindS (tryS (pump E)) (\<lambda>_. returnS ()) else returnS ())
         (returnS \<lparr>hp_status = ro_status ro, hp_retry_after = False, hp_trace = trace, hp_body = Inr v\<rparr>))"

text \<open>
  \<open>New\<close>: a server starts on a database when there is a connection, a strong key, the schema and the lease,
  and once its operations are recovered and the contract is read.
\<close>

definition New :: "env \<Rightarrow> settings \<Rightarrow> bool \<Rightarrow> bool \<Rightarrow> bool \<Rightarrow> bool \<Rightarrow> db \<Rightarrow> gw option \<times> db" where
  "New E c connected schema lease contract d =
     (if \<not> connected \<or> length (sg_key c) < 32 \<or> \<not> schema \<or> \<not> lease then (None, d)
      else case recoverOperations E d of
        (Inl e, t) \<Rightarrow> (None, t)
      | (Inr x, t) \<Rightarrow> if contract then (Some (fresh t), t) else (None, t))"

lemma New_restart: "New E c k s l b (g_db g) = (Some h, t) \<Longrightarrow> h = restart E g \<and> t = g_db h"
  by (auto simp: New_def restart_def fresh_def split: if_splits prod.splits sum.splits)

section \<open>What reaches a handler\<close>

text \<open>The body of a route that takes one.\<close>

definition body_accepted :: "'a library \<Rightarrow> string \<Rightarrow> http_request \<Rightarrow> json \<Rightarrow> bool" where
  "body_accepted L input rq v \<longleftrightarrow>
     (\<exists>b ts. hq_body rq = Some b \<and> length b \<le> max_body \<and> lb_media L (hq_type rq) = Some ''application/json'' \<and>
        lb_tokens L b = Some ts \<and> decode ts = Inr v \<and> json_ok 64 v \<and> lb_valid L input v)"

lemma read_body_Inr:
  "read_body L input rq = Inr v \<Longrightarrow> (if input = [] then v = None else \<exists>w. v = Some w \<and> body_accepted L input rq w)"
  by (auto simp: read_body_def body_accepted_def linorder_not_less dest: decode_ok
      split: if_splits option.splits sum.splits)

lemma read_body_Inl: "read_body L input rq = Inl e \<Longrightarrow> e \<in> {invalid, apierr 413 PAYLOAD_TOO_LARGE}"
  by (auto simp: read_body_def split: if_splits option.splits sum.splits)

lemma identity_step_run:
  "identity_step L name body g =
     (if name \<noteq> ''login'' then (Inr no_identity, g)
      else case lb_provider L (json_str body ''code'') of
        None \<Rightarrow> (Inl (apierr 401 UNAUTHENTICATED), g)
      | Some i \<Rightarrow> (Inr i, g))"
  by (simp add: identity_step_def run_simps split: option.split)

lemma behind_body_admits:
  assumes "behind_body E L trusted ro rq body handler g = (r, h)"
  shows "(\<exists>i uid R. \<not> (requiresKey (ro_name ro) \<and> \<not> operationKey (hq_key rq)) \<and> \<not> (g_draining g \<and> ro_name ro \<noteq> ''health'')
      \<and> identified E (g_db g) (ro_name ro) (hq_auth rq) uid
      \<and> (ro_name ro = ''login'' \<longrightarrow> lb_provider L (json_str body ''code'') = Some i)
      \<and> bindS (handler body i uid) (answered L (ro_output ro)) (g\<lparr>g_rates := R\<rparr>) = (r, h))
    \<or> (\<exists>e R. r = Inl e \<and> h = g\<lparr>g_rates := R\<rparr> \<and>
         e \<in> {invalid, apierr 429 RATE_LIMITED, apierr 503 SERVICE_UNAVAILABLE, apierr 401 UNAUTHENTICATED})"
proof -
  let ?name = "ro_name ro" and ?t = "transfer_of (ro_name ro) body"
  let ?fail = "\<exists>e R. r = Inl e \<and> h = g\<lparr>g_rates := R\<rparr> \<and>
         e \<in> {invalid, apierr 429 RATE_LIMITED, apierr 503 SERVICE_UNAVAILABLE, apierr 401 UNAUTHENTICATED}"
  show ?thesis
  proof (cases "requiresKey ?name \<and> \<not> operationKey (hq_key rq)")
    case True
    then have ?fail using assms
      by (auto simp: behind_body_def Let_def thenS_run bindS_run run_simps only_rates_refl)
    then show ?thesis ..
  next
    case key: False
    obtain q k where c: "charge_address E ?name (client_text L trusted rq) ?t g = (q, k)" by (cases "charge_address E ?name (client_text L trusted rq) ?t g")
    from only_ratesD [OF only_rates_address c] obtain R where k: "k = g\<lparr>g_rates := R\<rparr>" by blast
    obtain allowed where q: "q = Inr allowed" using c
      by (auto simp: charge_address_def bindS_run rateS_def run_simps split: if_splits)
    have rest: "thenS (guardS allowed (apierr 429 RATE_LIMITED))
       (bindS (identity_step L ?name body) (\<lambda>identity.
        bindS (getS g_draining) (\<lambda>draining.
        thenS (guardS (\<not> (draining \<and> ?name \<noteq> ''health'')) (apierr 503 SERVICE_UNAVAILABLE))
        (bindS (identify E ?name (hq_auth rq) ?t) (\<lambda>uid.
         bindS (handler body identity uid) (answered L (ro_output ro))))))) k = (r, h)"
      using assms key by (simp add: behind_body_def Let_def c q thenS_run bindS_run run_simps)
    show ?thesis
    proof (cases "allowed \<and> (?name = ''login'' \<longrightarrow> lb_provider L (json_str body ''code'') \<noteq> None) \<and> \<not> (g_draining g \<and> ?name \<noteq> ''health'')")
      case False
      then have ?fail using rest
        by (auto simp: k identity_step_run thenS_run bindS_run run_simps split: if_splits option.splits)
      then show ?thesis ..
    next
      case True
      then obtain i where i: "identity_step L ?name body k = (Inr i, k)" "?name = ''login'' \<longrightarrow> lb_provider L (json_str body ''code'') = Some i"
        by (cases "?name = ''login''") (auto simp: identity_step_run)
      have last: "bindS (identify E ?name (hq_auth rq) ?t) (\<lambda>uid.
         bindS (handler body i uid) (answered L (ro_output ro))) k = (r, h)"
        using rest True by (simp add: i(1) [unfolded k] thenS_run bindS_run run_simps k)
      obtain u k' where u: "identify E ?name (hq_auth rq) ?t k = (u, k')" by (cases "identify E ?name (hq_auth rq) ?t k")
      from only_ratesD [OF only_rates_identify u] obtain R' where k': "k' = g\<lparr>g_rates := R'\<rparr>" by (auto simp: k)
      show ?thesis
      proof (cases u)
        case (Inl e)
        then have ?fail using last u k' identify_Inl [of E ?name "hq_auth rq" ?t k e k'] by (auto simp: bindS_run)
        then show ?thesis ..
      next
        case (Inr uid)
        have "identified E (g_db g) ?name (hq_auth rq) uid" using identify_Inr [OF u [unfolded Inr]] by (simp add: k)
        moreover have "bindS (handler body i uid) (answered L (ro_output ro)) (g\<lparr>g_rates := R'\<rparr>) = (r, h)"
          using last u Inr k' by (simp add: bindS_run)
        ultimately show ?thesis using key True i(2) by blast
      qed
    qed
  qed
qed

text \<open>
  C7: every request gets one answer under its trace, and a handler runs for it only when a slot was free, the
  body (where the route takes one) was JSON of at most 64 KiB without duplicate names that its schema admits,
  the idempotency key is well-formed (where one is needed), the server is not stopping, the user's token is
  live (where the operation is not public) and the identity provider vouched for a login; it starts in the state
  the request found, budgets apart. A request that is refused before leaves everything but the budgets alone.
\<close>

theorem request_admitted:
  assumes "through E L trusted limit used ro rq handler g = (r, h)"
  shows "((\<exists>body i uid R. used < limit
      \<and> (if ro_input ro = [] then body = body_of None else \<exists>v. body = body_of (Some v) \<and> body_accepted L (ro_input ro) rq v)
      \<and> \<not> (requiresKey (ro_name ro) \<and> \<not> operationKey (hq_key rq)) \<and> \<not> (g_draining g \<and> ro_name ro \<noteq> ''health'')
      \<and> identified E (g_db g) (ro_name ro) (hq_auth rq) uid
      \<and> (ro_name ro = ''login'' \<longrightarrow> lb_provider L (json_str body ''code'') = Some i)
      \<and> bindS (handler body i uid) (answered L (ro_output ro)) (g\<lparr>g_rates := R\<rparr>) = (r, h))
    \<or> (\<exists>e R. r = Inl e \<and> h = g\<lparr>g_rates := R\<rparr> \<and>
         e \<in> {invalid, apierr 413 PAYLOAD_TOO_LARGE, apierr 429 RATE_LIMITED, apierr 503 SERVICE_UNAVAILABLE,
               apierr 401 UNAUTHENTICATED}))
    \<and> (\<exists>p. fst (serve_request E L trusted limit used trace ro rq handler g) = Inr p \<and> hp_trace p = trace \<and>
         (case r of Inl e \<Rightarrow> p = error_answer trace (normalizeError e)
          | Inr v \<Rightarrow> hp_status p = ro_status ro \<and> hp_body p = Inr v))"
    (is "?way \<and> ?answer")
proof
  show ?way
  proof (cases "used < limit")
    case True
    show ?thesis
    proof (cases "read_body L (ro_input ro) rq")
      case (Inl e)
      then have "r = Inl e \<and> h = g" using assms True by (auto simp: through_def thenS_run bindS_run run_simps)
      then show ?thesis using read_body_Inl [OF Inl] only_rates_refl [of g] by blast
    next
      case (Inr v)
      have "behind_body E L trusted ro rq (body_of v) handler g = (r, h)"
        using assms True Inr by (simp add: through_def thenS_run bindS_run run_simps)
      from behind_body_admits [OF this] read_body_Inr [OF Inr] True show ?thesis by (auto split: if_splits)
    qed
  next
    case False
    then have "r = Inl (apierr 503 SERVICE_UNAVAILABLE) \<and> h = g"
      using assms by (auto simp: through_def thenS_run bindS_run run_simps)
    then show ?thesis using only_rates_refl [of g] by blast
  qed
  have trace: "hp_trace (error_answer trace e) = trace" for e by (cases e) simp_all
  show ?answer
    using assms trace
    by (cases r) (auto simp: serve_request_def bindS_run tryS_run thenS_run returnS_run split: prod.splits sum.splits)
qed

text \<open>A request for the health of the server, from an address that is counted.\<close>

definition health_route :: route where
  "health_route = route_of \<lparr>ct_operation = ''health'', ct_body = None, ct_ok = ''#/components/schemas/Health'', ct_accepted = []\<rparr>"

definition health_request :: http_request where
  "health_request = \<lparr>hq_post = False, hq_type = [], hq_body = None, hq_key = [], hq_auth = [], hq_remote = ''1.2.3.4:5'',
     hq_real_ip = []\<rparr>"

definition open_library :: "nat library" where
  "open_library = \<lparr>lb_media = (\<lambda>_. None), lb_tokens = (\<lambda>_. None), lb_valid = (\<lambda>_ _. True), lb_answer = (\<lambda>_ _. True),
     lb_address = (\<lambda>_. ''1.2.3.4''), lb_provider = (\<lambda>_. None)\<rparr>"

lemma request_admitted_witness:
  "\<exists>p. fst (serve_request env0 open_library [] 1 0 ''t'' health_route health_request (\<lambda>body i uid. returnS 7) gw0) = Inr p
     \<and> hp_trace p = ''t'' \<and> hp_status p = 200 \<and> hp_body p = Inr 7"
proof -
  obtain r h where t: "through env0 open_library [] 1 0 health_route health_request (\<lambda>body i uid. returnS 7) gw0 = (r, h)"
    by (cases "through env0 open_library [] 1 0 health_route health_request (\<lambda>body i uid. returnS 7) gw0")
  have "r = Inr 7" using t
    by (auto simp: through_def read_body_def behind_body_def health_route_def route_of_def requiresKey_def charge_address_def
        isPublic_def rateS_def rate_def identity_step_run identify_def answered_def open_library_def gw0_def refName_def
        last_split_def transfer_of_def run_simps Let_def env0_def rate_of_def put_rate_def max_rates_def)
  moreover have "ro_status health_route = 200"
    by (simp add: health_route_def route_of_def refName_def last_split_def Let_def)
  ultimately show ?thesis using request_admitted [OF t, of "''t''"] by auto
qed

end
