(* ===== verification/Fakenode.thy ===== *)
theory Fakenode
  imports Pairing
begin

text \<open>
  \<open>internal/fakenode/node.go\<close>: the node side of the protocol, as the reference node plays it. The node
  keeps a journal of the commands it was given, its sessions, and a spool of the reports the gateway has
  not acknowledged, in one file that it replaces whole. A command is journalled before it is answered,
  marked before it is carried out, and never carried out twice; a report is saved before it is sent.

  What can go wrong is an argument: every save and every write to the socket asks the environment how it
  ends, and the process may be killed at any of them. The numbers of the steps index the clock and the
  random bytes as well.
\<close>

section \<open>State\<close>

datatype journal_state = Jn_delivered | Jn_executing | Jn_confirmed | Jn_rejected | Jn_unknown

record journal =
  jn_hash :: string
  jn_state :: journal_state
  jn_result :: "op_result option"
  jn_error :: "error_code option"
  jn_command :: node_command

record node_session =
  ks_id :: string
  ks_turn :: string
  ks_state :: session_state
  ks_seq :: int
  ks_queue :: "queue_item list"
  ks_request :: "node_request option"

record node_state =
  no_key :: string
  no_node :: string
  no_project :: string
  no_agent :: string
  no_enrollment :: "enrollment option"
  no_journal :: "(string \<times> journal) list"
  no_sessions :: "(string \<times> node_session) list"
  no_spool :: "source_message list"
  no_calls :: nat

text \<open>
  The memory of the process, its file, the frames it has written to its connections, and the operations for
  which it has made a native call; what was sent and what was called outlives the process.
\<close>

record world =
  wd_mem :: node_state
  wd_disk :: "node_state option"
  wd_alive :: bool
  wd_up :: bool
  wd_epoch :: int
  wd_offset :: int
  wd_sent :: "(int \<times> node_message) list"
  wd_native :: "string list"
  wd_step :: nat

section \<open>What comes from outside\<close>

datatype save_fate = Saved | Save_failed | Crash_before | Crash_after
datatype send_fate = Sent | Send_failed | Crash_sent

text \<open>
  The replies of the gateway to \<open>api\<close> are the values that are used of them, none when the call fails;
  \<open>nv_dial\<close> is the first frame of a connection. \<open>nv_file\<close> tells whether the file can be read, \<open>nv_order\<close> in
  which order a map is walked through.
\<close>

record nenv =
  nv_random :: "nat \<Rightarrow> string"
  nv_clock :: "nat \<Rightarrow> int"
  nv_save :: "nat \<Rightarrow> save_fate"
  nv_send :: "nat \<Rightarrow> send_fate"
  nv_file :: "nat \<Rightarrow> bool"
  nv_size :: "node_state \<Rightarrow> nat"
  nv_hash :: "node_command \<Rightarrow> string"
  nv_valid :: "int \<Rightarrow> node_message \<Rightarrow> bool"
  nv_order :: "string list \<Rightarrow> string list"
  nv_keypair :: "nat \<Rightarrow> string"
  nv_public :: "string \<Rightarrow> string"
  nv_sign :: "string \<Rightarrow> string \<Rightarrow> string"
  nv_enroll :: "nat \<Rightarrow> enrollment_input \<Rightarrow> enrollment option"
  nv_poll :: "nat \<Rightarrow> string \<Rightarrow> string \<Rightarrow> enrollment_status option"
  nv_challenge :: "nat \<Rightarrow> string \<Rightarrow> node_challenge option"
  nv_prove :: "nat \<Rightarrow> node_proof \<Rightarrow> node_token option"
  nv_dial :: "nat \<Rightarrow> string \<Rightarrow> frame option"
  nv_stamp :: "int \<Rightarrow> string"
  nv_parse :: "string \<Rightarrow> int"
  nv_name :: string
  nv_fault :: bool

text \<open>A function returns an error, and the connection is given up, or the process is killed.\<close>

datatype halt = Broken | Crashed

type_synonym 'a nodeact = "(world, halt, 'a) act"

definition envS :: "(nat \<Rightarrow> 'a) \<Rightarrow> 'a nodeact" where
  "envS f = (\<lambda>w. (Inr (f (wd_step w)), w\<lparr>wd_step := wd_step w + 1\<rparr>))"

definition orBroken :: "'a option \<Rightarrow> 'a nodeact" where
  "orBroken x = (case x of None \<Rightarrow> failS Broken | Some y \<Rightarrow> returnS y)"

definition memS :: "(node_state \<Rightarrow> node_state) \<Rightarrow> unit nodeact" where
  "memS f = modS (\<lambda>w. w\<lparr>wd_mem := f (wd_mem w)\<rparr>)"

definition crashS :: "'a nodeact" where
  "crashS = (\<lambda>w. (Inl Crashed, w\<lparr>wd_alive := False, wd_up := False\<rparr>))"

definition uidN :: "nenv \<Rightarrow> string \<Rightarrow> string nodeact" where
  "uidN E prefix = bindS (envS (nv_random E)) (\<lambda>r. returnS (prefix @ ''_'' @ r))"

section \<open>The file\<close>

definition state_quota :: nat where
  "state_quota = 67108864"

definition write_file :: "world \<Rightarrow> world" where
  "write_file w = w\<lparr>wd_disk := Some (wd_mem w)\<rparr>"

definition save :: "nenv \<Rightarrow> unit nodeact" where
  "save E =
     bindS (getS wd_mem) (\<lambda>st.
     thenS (guardS (nv_size E st \<le> state_quota) Broken)
     (bindS (envS (nv_save E)) (\<lambda>fate.
      case fate of
        Saved \<Rightarrow> modS write_file
      | Save_failed \<Rightarrow> failS Broken
      | Crash_before \<Rightarrow> crashS
      | Crash_after \<Rightarrow> thenS (modS write_file) crashS)))"

text \<open>What was being carried out when the process was killed is not known to have happened.\<close>

definition interrupted :: "journal \<Rightarrow> journal" where
  "interrupted j = (if jn_state j = Jn_executing then j\<lparr>jn_state := Jn_unknown\<rparr> else j)"

definition resumed :: "node_state \<Rightarrow> node_state" where
  "resumed st = st\<lparr>no_journal := map (\<lambda>(k, j). (k, interrupted j)) (no_journal st)\<rparr>"

definition first_identity :: "nenv \<Rightarrow> unit nodeact" where
  "first_identity E =
     bindS (envS (nv_keypair E)) (\<lambda>key.
     bindS (uidN E ''project'') (\<lambda>project.
     bindS (uidN E ''agent'') (\<lambda>agent.
     thenS (memS (\<lambda>_. \<lparr>no_key = std_encode key, no_node = [], no_project = project, no_agent = agent,
       no_enrollment = None, no_journal = [], no_sessions = [], no_spool = [], no_calls = 0\<rparr>))
     (save E))))"

definition load :: "nenv \<Rightarrow> unit nodeact" where
  "load E =
     bindS (envS (nv_file E)) (\<lambda>readable.
     thenS (guardS readable Broken)
     (bindS (getS wd_disk) (\<lambda>disk.
      case disk of
        Some st \<Rightarrow> thenS (guardS (nv_size E st \<le> state_quota) Broken) (thenS (memS (\<lambda>_. resumed st)) (save E))
      | None \<Rightarrow> first_identity E)))"

section \<open>Pairing and connecting\<close>

text \<open>Polling until the context ends, after a number of polls.\<close>

fun poll_until :: "nenv \<Rightarrow> enrollment \<Rightarrow> nat \<Rightarrow> unit nodeact" where
  "poll_until E en 0 = failS Broken"
| "poll_until E en (Suc n) =
     bindS (envS (\<lambda>i. nv_poll E i (ev_enrollment en) (ev_poll en))) (\<lambda>reply.
     bindS (orBroken reply) (\<lambda>status.
     case es_state status of
       Enroll_confirmed \<Rightarrow>
         thenS (memS (\<lambda>st. st\<lparr>no_node := str (es_node status), no_enrollment := None\<rparr>)) (save E)
     | Enroll_expired \<Rightarrow> thenS (memS (\<lambda>st. st\<lparr>no_enrollment := None\<rparr>)) (save E)
     | Enroll_pending \<Rightarrow> poll_until E en n))"

text \<open>An identity is a decoded private key of 64 bytes.\<close>

definition identity_key :: "string nodeact" where
  "identity_key =
     bindS (getS (\<lambda>w. std_decode (no_key (wd_mem w)))) (\<lambda>k.
     bindS (orBroken k) (\<lambda>key. thenS (guardS (length key = 64) Broken) (returnS key)))"

definition provision :: "nenv \<Rightarrow> nat \<Rightarrow> unit nodeact" where
  "provision E polls =
     thenS (bindS (getS (\<lambda>w. no_enrollment (wd_mem w))) (\<lambda>known.
       case known of
         Some en \<Rightarrow> returnS ()
       | None \<Rightarrow>
           bindS identity_key (\<lambda>key.
           bindS (envS (\<lambda>i. nv_enroll E i \<lparr>en_key = std_encode (nv_public E key), en_name = nv_name E,
             en_platform = ''other'', en_version = ''fake/1''\<rparr>)) (\<lambda>reply.
           bindS (orBroken reply) (\<lambda>en.
           thenS (memS (\<lambda>st. st\<lparr>no_enrollment := Some en\<rparr>)) (save E))))))
     (bindS (getS (\<lambda>w. no_enrollment (wd_mem w))) (\<lambda>en.
      bindS (orBroken en) (\<lambda>en. poll_until E en polls)))"

definition connectN :: "nenv \<Rightarrow> unit nodeact" where
  "connectN E =
     bindS (getS (\<lambda>w. no_node (wd_mem w))) (\<lambda>nid.
     thenS (guardS (nid \<noteq> []) Broken)
     (bindS (envS (\<lambda>i. nv_challenge E i nid)) (\<lambda>reply.
      bindS (orBroken reply) (\<lambda>ch.
      bindS identity_key (\<lambda>key.
      bindS (envS (\<lambda>i. nv_prove E i \<lparr>pf_challenge = nh_id ch,
        pf_signature = std_encode (nv_sign E key (nh_input ch))\<rparr>)) (\<lambda>reply.
      bindS (orBroken reply) (\<lambda>token.
      bindS (envS (\<lambda>i. nv_dial E i (nt_token token))) (\<lambda>first.
      bindS (orBroken first) (\<lambda>f.
      case f of
        F_node_ready node epoch heartbeat time \<Rightarrow>
          bindS (envS (nv_clock E)) (\<lambda>now.
          modS (\<lambda>w. w\<lparr>wd_epoch := epoch, wd_offset := nv_parse E time - now\<rparr>))
      | _ \<Rightarrow> failS Broken)))))))))"

section \<open>Frames\<close>

definition send :: "nenv \<Rightarrow> node_message \<Rightarrow> unit nodeact" where
  "send E m =
     bindS (getS wd_epoch) (\<lambda>epoch.
     thenS (guardS (nv_valid E epoch m) Broken)
     (bindS (envS (nv_send E)) (\<lambda>fate.
      thenS (modS (\<lambda>w. w\<lparr>wd_sent := wd_sent w @ [(epoch, m)]\<rparr>))
      (case fate of Sent \<Rightarrow> returnS () | Send_failed \<Rightarrow> failS Broken | Crash_sent \<Rightarrow> crashS))))"

definition sessionS :: "string \<Rightarrow> node_session nodeact" where
  "sessionS sid = bindS (getS (\<lambda>w. map_of (no_sessions (wd_mem w)) sid)) orBroken"

definition put_session :: "string \<Rightarrow> (node_session \<Rightarrow> node_session) \<Rightarrow> unit nodeact" where
  "put_session sid f = memS (\<lambda>st. st\<lparr>no_sessions := upd_key sid f (no_sessions st)\<rparr>)"

definition put_journal :: "string \<Rightarrow> (journal \<Rightarrow> journal) \<Rightarrow> unit nodeact" where
  "put_journal op f = memS (\<lambda>st. st\<lparr>no_journal := upd_key op f (no_journal st)\<rparr>)"

definition transmitSource :: "nenv \<Rightarrow> source_message \<Rightarrow> unit nodeact" where
  "transmitSource E m =
     (case src_body m of Src_event sid turn data \<Rightarrow> send E (Nm_events [m]) | _ \<Rightarrow> send E (Nm_source m))"

text \<open>A report takes the next number of its session and is put on the spool, then saved, then sent.\<close>

definition new_report :: "nenv \<Rightarrow> string \<Rightarrow> source_body \<Rightarrow> source_message nodeact" where
  "new_report E sid body =
     thenS (put_session sid (\<lambda>s. s\<lparr>ks_seq := ks_seq s + 1\<rparr>))
     (bindS (uidN E ''source'') (\<lambda>source.
      bindS (sessionS sid) (\<lambda>s.
      let event = \<lparr>src_event = source, src_seq = ks_seq s, src_body = body\<rparr> in
      thenS (memS (\<lambda>st. st\<lparr>no_spool := no_spool st @ [event]\<rparr>)) (returnS event))))"

definition emit :: "nenv \<Rightarrow> string \<Rightarrow> source_body \<Rightarrow> unit nodeact" where
  "emit E sid body =
     bindS (new_report E sid body) (\<lambda>event. thenS (save E) (transmitSource E event))"

definition fake_caps :: capabilities where
  "fake_caps = \<lparr>cap_send = True, cap_cancel = True, cap_approval = True, cap_question = True, cap_diff = True,
     cap_plan = True, cap_usage = True, cap_queue = True, cap_steer = False, cap_models = None, cap_compact = None,
     cap_workspace = None, cap_history_import = None, cap_sections = None\<rparr>"

definition emitState :: "nenv \<Rightarrow> string \<Rightarrow> unit nodeact" where
  "emitState E sid =
     bindS (sessionS sid) (\<lambda>s.
     emit E sid (Src_session \<lparr>ns_session = ks_id s, ns_turn = ks_turn s, ns_state = ks_state s,
       ns_caps = fake_caps, ns_caprev = 1, ns_queue = ks_queue s\<rparr>))"

definition messageN :: "nenv \<Rightarrow> string \<Rightarrow> string \<Rightarrow> string \<Rightarrow> unit nodeact" where
  "messageN E sid role text =
     bindS (sessionS sid) (\<lambda>s.
     bindS (uidN E ''message'') (\<lambda>item.
     emit E sid (Src_event (ks_id s) (ks_turn s) (Message_completed item role text False))))"

text \<open>What the journal says of a command; an entry without its result or error cannot be sent.\<close>

definition receipt_of :: "journal \<Rightarrow> receipt option" where
  "receipt_of j =
     (case jn_state j of
        Jn_delivered \<Rightarrow> Some Rc_delivered
      | Jn_executing \<Rightarrow> Some Rc_unknown
      | Jn_unknown \<Rightarrow> Some Rc_unknown
      | Jn_confirmed \<Rightarrow> map_option Rc_confirmed (jn_result j)
      | Jn_rejected \<Rightarrow> map_option (\<lambda>code. Rc_rejected code False) (jn_error j))"

definition receiptN :: "nenv \<Rightarrow> (string \<Rightarrow> receipt \<Rightarrow> node_message) \<Rightarrow> string \<Rightarrow> unit nodeact" where
  "receiptN E kind op =
     bindS (getS (\<lambda>w. map_of (no_journal (wd_mem w)) op)) (\<lambda>j.
     bindS (orBroken (case j of None \<Rightarrow> None | Some j \<Rightarrow> receipt_of j)) (\<lambda>r. send E (kind op r)))"

definition reject :: "nenv \<Rightarrow> string \<Rightarrow> error_code \<Rightarrow> unit nodeact" where
  "reject E op code =
     bindS (uidN E ''trace'') (\<lambda>_.
     thenS (put_journal op (\<lambda>j. j\<lparr>jn_state := Jn_rejected, jn_error := Some code\<rparr>))
     (thenS (save E) (receiptN E Nm_ack op)))"

section \<open>A turn\<close>

definition contains :: "string \<Rightarrow> string \<Rightarrow> bool" where
  "contains text t \<longleftrightarrow> list_ex (\<lambda>i. take (length t) (drop i text) = t) [0..<length text + 1]"

text \<open>The fixed texts of the node, in UTF-8.\<close>

definition fake_hold :: string where
  "fake_hold = map char_of
     ([70, 97, 107, 101, 32, 78, 111, 100, 101, 32, 228, 191, 157, 230, 140, 129, 232, 191, 144, 232, 161, 140,
       239, 188, 140, 231, 173, 137, 229, 190, 133, 230, 152, 142, 231, 161, 174, 229, 143, 150, 230, 182, 136,
       230, 136, 150, 230, 142, 146, 233, 152, 159, 227, 128, 130] :: nat list)"

definition fake_done :: string where
  "fake_done = map char_of
     ([70, 97, 107, 101, 32, 78, 111, 100, 101, 32, 229, 183, 178, 229, 174, 140, 230, 136, 144, 229, 141, 143,
       232, 174, 174, 232, 129, 148, 232, 176, 131, 227, 128, 130, 230, 173, 164, 232, 190, 147, 229, 135, 186,
       228, 184, 141, 228, 187, 163, 232, 161, 168, 231, 156, 159, 229, 174, 158, 32, 65, 103, 101, 110, 116,
       32, 230, 137, 167, 232, 161, 140, 231, 187, 147, 230, 158, 156, 227, 128, 130] :: nat list)"

definition fake_answer :: string where
  "fake_answer = map char_of
     ([229, 183, 178, 230, 148, 182, 229, 136, 176, 230, 156, 172, 230, 172, 161, 229, 155, 158, 231, 173, 148,
       239, 188, 136, 70, 97, 107, 101, 32, 78, 111, 100, 101, 32, 229, 141, 143, 232, 174, 174, 232, 129, 148,
       232, 176, 131, 239, 188, 137, 227, 128, 130] :: nat list)"

definition fake_title :: string where
  "fake_title = map char_of
     ([231, 161, 174, 232, 174, 164, 230, 156, 172, 230, 172, 161, 230, 181, 139, 232, 175, 149, 230, 147, 141,
       228, 189, 156] :: nat list)"

definition fake_summary :: string where
  "fake_summary = map char_of
     ([232, 191, 153, 230, 152, 175, 32, 70, 97, 107, 101, 32, 78, 111, 100, 101, 32, 229, 141, 143, 232, 174,
       174, 232, 175, 183, 230, 177, 130, 239, 188, 140, 228, 184, 141, 230, 137, 167, 232, 161, 140, 228, 187,
       187, 228, 189, 149, 231, 156, 159, 229, 174, 158, 32, 83, 104, 101, 108, 108, 227, 128, 130] :: nat list)"

definition fake_once :: string where
  "fake_once = map char_of
     ([229, 133, 129, 232, 174, 184, 228, 184, 128, 230, 172, 161] :: nat list)"

definition fake_deny :: string where
  "fake_deny = map char_of
     ([230, 139, 146, 231, 187, 157] :: nat list)"

definition fake_strategy :: string where
  "fake_strategy = map char_of
     ([230, 129, 162, 229, 164, 141, 231, 173, 150, 231, 149, 165] :: nat list)"

definition fake_history :: string where
  "fake_history = map char_of
     ([228, 191, 157, 231, 149, 153, 229, 142, 134, 229, 143, 178, 228, 184, 142, 232, 141, 137, 231, 168, 191] :: nat list)"

definition fake_draft :: string where
  "fake_draft = map char_of
     ([228, 187, 133, 232, 141, 137, 231, 168, 191] :: nat list)"

definition fake_note :: string where
  "fake_note = map char_of
     ([232, 161, 165, 229, 133, 133, 232, 175, 180, 230, 152, 142] :: nat list)"

text \<open>A request of the turn, as a report of its own before the state that waits for it.\<close>

definition ask :: "nenv \<Rightarrow> string \<Rightarrow> string \<Rightarrow> unit nodeact" where
  "ask E sid prompt =
     bindS (sessionS sid) (\<lambda>s.
     bindS (uidN E ''request'') (\<lambda>rid.
     bindS (envS (nv_clock E)) (\<lambda>created.
     bindS (envS (nv_clock E)) (\<lambda>now.
     let approval = contains prompt ''[approval]'';
         request = \<lparr>nr_id = rid, nr_session = ks_id s, nr_turn = ks_turn s, nr_title = fake_title,
           nr_summary = fake_summary, nr_created = nv_stamp E created, nr_expires = nv_stamp E (now + 5 * minute),
           nr_body = (if approval
             then Approval_body ''fixture action'' ''fixture only''
               [\<lparr>ch_id = ''allow_once'', ch_label = fake_once\<rparr>, \<lparr>ch_id = ''deny'', ch_label = fake_deny\<rparr>]
             else Question_body
               [\<lparr>qn_id = ''strategy'', qn_label = fake_strategy, qn_required = True,
                 qn_body = Single [\<lparr>ch_id = ''history'', ch_label = fake_history\<rparr>,
                                   \<lparr>ch_id = ''draft'', ch_label = fake_draft\<rparr>]\<rparr>,
                \<lparr>qn_id = ''note'', qn_label = fake_note, qn_required = False, qn_body = Free_text 4000\<rparr>])\<rparr> in
     thenS (put_session sid (\<lambda>s. s\<lparr>ks_state := (if approval then S_waiting_approval else S_waiting_input),
       ks_request := Some request\<rparr>))
     (thenS (emit E sid (Src_request request)) (emitState E sid))))))"

text \<open>A turn, with what is done when it is over.\<close>

definition turn_then :: "nenv \<Rightarrow> string \<Rightarrow> string \<Rightarrow> unit nodeact \<Rightarrow> unit nodeact" where
  "turn_then E sid prompt after =
     thenS (put_session sid (\<lambda>s. s\<lparr>ks_state := S_running\<rparr>))
     (thenS (emitState E sid)
     (thenS (messageN E sid ''user'' prompt)
     (if contains prompt ''[hold]'' then messageN E sid ''assistant'' fake_hold
      else if contains prompt ''[question]'' \<or> contains prompt ''[approval]'' then ask E sid prompt
      else thenS (messageN E sid ''assistant'' fake_done) after)))"

text \<open>
  \<open>complete\<close> and \<open>runTurn\<close> call each other until the queue of the session is empty; the queue, which only
  \<open>complete\<close> shortens, is the argument of the recursion.
\<close>

fun complete :: "nenv \<Rightarrow> string \<Rightarrow> queue_item list \<Rightarrow> unit nodeact" where
  "complete E sid [] = thenS (put_session sid (\<lambda>s. s\<lparr>ks_state := S_completed\<rparr>)) (emitState E sid)"
| "complete E sid (q # qs) =
     thenS (put_session sid (\<lambda>s. s\<lparr>ks_state := S_completed\<rparr>))
     (thenS (emitState E sid)
     (bindS (getS (\<lambda>w. map_of (no_journal (wd_mem w)) (qi_op q))) (\<lambda>found.
      bindS (orBroken found) (\<lambda>j.
      thenS (guardS (jn_state j = Jn_confirmed) Broken)
      (thenS (put_session sid (\<lambda>s. s\<lparr>ks_queue := qs, ks_turn := c_next_turn (jn_command j)\<rparr>))
      (turn_then E sid (qi_text q) (complete E sid qs)))))))"

definition completeS :: "nenv \<Rightarrow> string \<Rightarrow> unit nodeact" where
  "completeS E sid = bindS (sessionS sid) (\<lambda>s. complete E sid (ks_queue s))"

definition runTurn :: "nenv \<Rightarrow> string \<Rightarrow> string \<Rightarrow> unit nodeact" where
  "runTurn E sid prompt = bindS (sessionS sid) (\<lambda>s. turn_then E sid prompt (complete E sid (ks_queue s)))"

section \<open>Commands\<close>

fun is_create :: "payload \<Rightarrow> bool" where
  "is_create (P_create b) = True"
| "is_create p = False"

definition blank_result :: "node_state \<Rightarrow> node_command \<Rightarrow> op_result" where
  "blank_result st cmd = \<lparr>or_session = Some (c_session cmd), or_turn = None, or_request = None,
     or_node = Some (no_node st), or_queue_item = None, or_native = None\<rparr>"

text \<open>
  The checks of each kind of command and what it changes before it is marked as executing: the error it
  is rejected with, or its result and the prompt of the turn it begins.
\<close>

definition add_session :: "string \<Rightarrow> string \<Rightarrow> node_state \<Rightarrow> node_state" where
  "add_session sid turn st = st\<lparr>no_sessions := no_sessions st @ [(sid, \<lparr>ks_id = sid, ks_turn = turn,
     ks_state = S_running, ks_seq = 0, ks_queue = [], ks_request = None\<rparr>)]\<rparr>"

definition prepare_create :: "node_command \<Rightarrow> create_session \<Rightarrow> (error_code + op_result \<times> string) nodeact" where
  "prepare_create cmd b =
     bindS (getS wd_mem) (\<lambda>st.
     let sid = c_session cmd in
     if map_of (no_sessions st) sid \<noteq> None \<or> cs_project b \<noteq> no_project st \<or> cs_agent b \<noteq> no_agent st
     then returnS (Inl VALIDATION_FAILED)
     else thenS (memS (add_session sid (c_turn cmd)))
       (returnS (Inr ((blank_result st cmd)\<lparr>or_turn := Some (c_turn cmd)\<rparr>, cs_prompt b))))"

definition prepare_queue :: "nenv \<Rightarrow> node_command \<Rightarrow> send_message \<Rightarrow> node_session \<Rightarrow> (error_code + op_result \<times> string) nodeact" where
  "prepare_queue E cmd b s =
     (if ks_state s \<notin> {S_running, S_waiting_approval, S_waiting_input} then returnS (Inl STALE_TURN)
      else if length (ks_queue s) \<ge> 20 then returnS (Inl CAPABILITY_UNSUPPORTED)
      else bindS (uidN E ''queue'') (\<lambda>qid.
        bindS (envS (nv_clock E)) (\<lambda>now.
        thenS (put_session (c_session cmd) (\<lambda>s. s\<lparr>ks_queue := ks_queue s @ [\<lparr>qi_id = qid, qi_op = c_op cmd,
           qi_text = sm_text b, qi_state = Q_queued, qi_created = nv_stamp E now\<rparr>]\<rparr>))
        (bindS (getS wd_mem) (\<lambda>st.
         returnS (Inr ((blank_result st cmd)\<lparr>or_queue_item := Some qid, or_turn := Some (ks_turn s)\<rparr>, [])))))))"

definition prepare_send :: "node_command \<Rightarrow> send_message \<Rightarrow> node_session \<Rightarrow> (error_code + op_result \<times> string) nodeact" where
  "prepare_send cmd b s =
     (if ks_state s \<notin> {S_completed, S_cancelled, S_failed} then returnS (Inl STALE_TURN)
      else thenS (put_session (c_session cmd) (\<lambda>s. s\<lparr>ks_turn := c_next_turn cmd, ks_state := S_running\<rparr>))
        (bindS (getS wd_mem) (\<lambda>st.
         returnS (Inr ((blank_result st cmd)\<lparr>or_turn := Some (c_next_turn cmd)\<rparr>, sm_text b)))))"

definition prepare_cancel :: "node_command \<Rightarrow> node_session \<Rightarrow> (error_code + op_result \<times> string) nodeact" where
  "prepare_cancel cmd s =
     (if ks_state s \<in> {S_completed, S_cancelled, S_closed} then returnS (Inl STALE_TURN)
      else thenS (put_session (c_session cmd) (\<lambda>s. s\<lparr>ks_request := None\<rparr>))
        (bindS (getS wd_mem) (\<lambda>st. returnS (Inr ((blank_result st cmd)\<lparr>or_turn := Some (ks_turn s)\<rparr>, [])))))"

definition prepare_respond :: "nenv \<Rightarrow> node_command \<Rightarrow> node_session \<Rightarrow> (error_code + op_result \<times> string) nodeact" where
  "prepare_respond E cmd s =
     (case ks_request s of
        None \<Rightarrow> returnS (Inl REQUEST_ALREADY_DECIDED)
      | Some r \<Rightarrow>
          if nr_id r \<noteq> c_request cmd then returnS (Inl REQUEST_ALREADY_DECIDED)
          else bindS (envS (nv_clock E)) (\<lambda>now.
            bindS (getS wd_offset) (\<lambda>offset.
            if nv_parse E (nr_expires r) \<le> now + offset then returnS (Inl REQUEST_EXPIRED)
            else bindS (getS wd_mem) (\<lambda>st.
              returnS (Inr ((blank_result st cmd)\<lparr>or_request := Some (c_request cmd), or_turn := Some (ks_turn s)\<rparr>, []))))))"

fun prepare :: "nenv \<Rightarrow> node_command \<Rightarrow> payload \<Rightarrow> (error_code + op_result \<times> string) nodeact" where
  "prepare E cmd (P_create b) = prepare_create cmd b"
| "prepare E cmd (P_send b) =
     bindS (sessionS (c_session cmd)) (\<lambda>s.
     if sm_mode b = Mode_queue then prepare_queue E cmd b s else prepare_send cmd b s)"
| "prepare E cmd (P_cancel b) = bindS (sessionS (c_session cmd)) (prepare_cancel cmd)"
| "prepare E cmd (P_respond b) = bindS (sessionS (c_session cmd)) (prepare_respond E cmd)"
| "prepare E cmd (P_native b) = returnS (Inl PROTOCOL_UNSUPPORTED)"
| "prepare E cmd (P_history b) = returnS (Inl PROTOCOL_UNSUPPORTED)"

text \<open>The checks that come first: the epoch, the deadline by the gateway's clock, the turn, the capabilities.\<close>

definition check_command :: "nenv \<Rightarrow> node_command \<Rightarrow> (error_code + op_result \<times> string) nodeact" where
  "check_command E cmd =
     bindS (getS (\<lambda>w. c_epoch cmd = wd_epoch w)) (\<lambda>current.
     bindS (if current then bindS (envS (nv_clock E)) (\<lambda>now. getS (\<lambda>w. nv_parse E (c_deadline cmd) > now + wd_offset w))
            else returnS False) (\<lambda>fresh.
     if \<not> fresh then returnS (Inl STALE_TURN)
     else bindS (getS (\<lambda>w. map_of (no_sessions (wd_mem w)) (c_session cmd))) (\<lambda>s.
       if \<not> is_create (c_payload cmd)
          \<and> (case s of None \<Rightarrow> True | Some s \<Rightarrow> ks_turn s \<noteq> payload_turn (c_payload cmd))
       then returnS (Inl STALE_TURN)
       else if payload_caprev (c_payload cmd) \<noteq> 1 then returnS (Inl CAPABILITY_CHANGED)
       else prepare E cmd (c_payload cmd))))"

text \<open>What is reported after a confirmed command.\<close>

fun follow_up :: "nenv \<Rightarrow> string \<Rightarrow> string \<Rightarrow> payload \<Rightarrow> unit nodeact" where
  "follow_up E sid prompt (P_create b) = runTurn E sid prompt"
| "follow_up E sid prompt (P_send b) = (if sm_mode b = Mode_queue then emitState E sid else runTurn E sid prompt)"
| "follow_up E sid prompt (P_cancel b) =
     thenS (put_session sid (\<lambda>s. s\<lparr>ks_state := S_cancelled\<rparr>)) (emitState E sid)"
| "follow_up E sid prompt (P_respond b) =
     thenS (put_session sid (\<lambda>s. s\<lparr>ks_request := None, ks_state := S_running\<rparr>))
     (thenS (emitState E sid)
     (thenS (messageN E sid ''assistant'' fake_answer)
     (completeS E sid)))"
| "follow_up E sid prompt p = returnS ()"

text \<open>
  The native call lies between the two saves: it is counted, the mark is saved, and from then on the call is
  taken for accepted (\<^verbatim>\<open>after_native_accept\<close>). The reference node calls no agent; \<open>nativeS\<close> is the mark that an
  accepted call leaves outside the process.
\<close>

definition nativeS :: "string \<Rightarrow> unit nodeact" where
  "nativeS op = modS (\<lambda>w. w\<lparr>wd_native := wd_native w @ [op]\<rparr>)"

definition execute :: "nenv \<Rightarrow> node_command \<Rightarrow> op_result \<times> string \<Rightarrow> unit nodeact" where
  "execute E cmd = (\<lambda>(result, prompt).
     thenS (memS (\<lambda>st. st\<lparr>no_journal := upd_key (c_op cmd) (\<lambda>j. j\<lparr>jn_state := Jn_executing\<rparr>) (no_journal st),
                         no_calls := no_calls st + 1\<rparr>))
     (thenS (save E)
     (thenS (nativeS (c_op cmd))
     (thenS (guardS (\<not> nv_fault E) Broken)
     (thenS (put_journal (c_op cmd) (\<lambda>j. j\<lparr>jn_state := Jn_confirmed, jn_result := Some result\<rparr>))
     (thenS (save E)
     (thenS (receiptN E Nm_ack (c_op cmd))
     (follow_up E (c_session cmd) prompt (c_payload cmd)))))))))"

definition new_command :: "nenv \<Rightarrow> node_command \<Rightarrow> unit nodeact" where
  "new_command E cmd =
     thenS (memS (\<lambda>st. st\<lparr>no_journal := no_journal st @ [(c_op cmd, \<lparr>jn_hash = nv_hash E cmd, jn_state = Jn_delivered,
        jn_result = None, jn_error = None, jn_command = cmd\<rparr>)]\<rparr>))
     (thenS (save E)
     (thenS (receiptN E Nm_ack (c_op cmd))
     (bindS (check_command E cmd) (\<lambda>checked.
      case checked of
        Inl code \<Rightarrow> reject E (c_op cmd) code
      | Inr r \<Rightarrow> execute E cmd r))))"

definition commandN :: "nenv \<Rightarrow> node_command \<Rightarrow> unit nodeact" where
  "commandN E cmd =
     bindS (getS (\<lambda>w. map_of (no_journal (wd_mem w)) (c_op cmd))) (\<lambda>old.
     case old of
       Some j \<Rightarrow> thenS (guardS (jn_hash j = nv_hash E cmd) Broken) (receiptN E Nm_ack (c_op cmd))
     | None \<Rightarrow> new_command E cmd)"

section \<open>A connection\<close>

definition inventoryN :: "nenv \<Rightarrow> unit nodeact" where
  "inventoryN E =
     bindS (uidN E ''inventory'') (\<lambda>i.
     bindS (getS wd_mem) (\<lambda>st.
     send E (Nm_inventory \<lparr>if_inventory = i,
       if_projects = [\<lparr>np_id = no_project st, np_name = ''Fake workspace'',
         np_description = ''Protocol fixture; no filesystem execution'', np_branch = Some ''fixture'', np_valid = True\<rparr>],
       if_agents = [\<lparr>ag_id = no_agent st, ag_name = ''Fake Agent'', ag_state = Ready, ag_version = Some ''fake/1'',
         ag_adapter = ''fake/1'', ag_caps = fake_caps, ag_caprev = 1\<rparr>], if_complete = True\<rparr>)))"

text \<open>\<open>serve\<close> before its loop: the inventory, the spool as it is, a snapshot of every session.\<close>

definition greet :: "nenv \<Rightarrow> unit nodeact" where
  "greet E =
     thenS (inventoryN E)
     (bindS (getS (\<lambda>w. no_spool (wd_mem w))) (\<lambda>spool.
      thenS (forS spool (transmitSource E))
      (bindS (getS (\<lambda>w. nv_order E (map fst (no_sessions (wd_mem w))))) (\<lambda>sids.
       forS sids (emitState E)))))"

definition acknowledged :: "string \<Rightarrow> int \<Rightarrow> node_state \<Rightarrow> node_state" where
  "acknowledged sid seq st =
     st\<lparr>no_spool := filter (\<lambda>m. source_session (src_body m) \<noteq> sid \<or> src_seq m > seq) (no_spool st)\<rparr>"

fun incoming :: "nenv \<Rightarrow> frame \<Rightarrow> unit nodeact" where
  "incoming E (F_command cmd) = commandN E cmd"
| "incoming E (F_command_query epoch op) =
     bindS (getS (\<lambda>w. map_of (no_journal (wd_mem w)) op)) (\<lambda>entry.
     case entry of None \<Rightarrow> send E (Nm_status op Rc_not_seen) | Some j \<Rightarrow> receiptN E Nm_status op)"
| "incoming E (F_events_ack epoch sid seq gatewaySeq) = thenS (memS (acknowledged sid seq)) (save E)"
| "incoming E (F_node_heartbeat epoch nonce time) =
     bindS (envS (nv_clock E)) (\<lambda>now. modS (\<lambda>w. w\<lparr>wd_offset := nv_parse E time - now\<rparr>))"
| "incoming E (F_error e) = failS Broken"
| "incoming E f = returnS ()"

definition beat :: "nenv \<Rightarrow> unit nodeact" where
  "beat E = bindS (uidN E ''nonce'') (\<lambda>nonce. send E (Nm_heartbeat nonce))"

section \<open>The process\<close>

datatype node_action = Start | Provision nat | Connect | Incoming frame | Beat | Kill

text \<open>An error ends the connection; a process that is not alive does nothing until it is started.\<close>

definition attempt :: "unit nodeact \<Rightarrow> world \<Rightarrow> world" where
  "attempt m w = (case m w of (Inl Broken, t) \<Rightarrow> t\<lparr>wd_up := False\<rparr> | (r, t) \<Rightarrow> t)"

fun node_run :: "nenv \<Rightarrow> node_action \<Rightarrow> world \<Rightarrow> world" where
  "node_run E Start w =
     (if wd_alive w then w
      else attempt (thenS (load E) (modS (\<lambda>w. w\<lparr>wd_alive := True, wd_up := False\<rparr>))) w)"
| "node_run E (Provision polls) w =
     (if wd_alive w \<and> \<not> wd_up w \<and> no_node (wd_mem w) = [] then attempt (provision E polls) w else w)"
| "node_run E Connect w =
     (if wd_alive w \<and> \<not> wd_up w \<and> no_node (wd_mem w) \<noteq> []
      then attempt (thenS (connectN E) (thenS (modS (\<lambda>w. w\<lparr>wd_up := True\<rparr>)) (greet E))) w else w)"
| "node_run E (Incoming f) w = (if wd_alive w \<and> wd_up w then attempt (incoming E f) w else w)"
| "node_run E Beat w = (if wd_alive w \<and> wd_up w then attempt (beat E) w else w)"
| "node_run E Kill w = w\<lparr>wd_alive := False, wd_up := False\<rparr>"

definition no_state :: node_state where
  "no_state = \<lparr>no_key = [], no_node = [], no_project = [], no_agent = [], no_enrollment = None, no_journal = [],
     no_sessions = [], no_spool = [], no_calls = 0\<rparr>"

definition first_start :: world where
  "first_start = \<lparr>wd_mem = no_state, wd_disk = None, wd_alive = False, wd_up = False, wd_epoch = 0, wd_offset = 0,
     wd_sent = [], wd_native = [], wd_step = 0\<rparr>"

inductive node_reachable :: "nenv \<Rightarrow> world \<Rightarrow> bool" for E where
  first: "node_reachable E first_start"
| step: "node_reachable E w \<Longrightarrow> node_reachable E (node_run E a w)"

end
