(* ===== verification/Node_Frame.thy ===== *)
theory Node_Frame
  imports Fakenode
begin

text \<open>
  How a promise about the node is carried through its operations. The locale \<open>reporter\<close> takes a promise
  that the few operations touching the state keep, \<open>process\<close> one that outlives the process, \<open>carrier\<close> one that does not speak of the journal either;
  what follows for every function of the node is proved here once, for the promises of \<open>Fakenode_Spec\<close>.
\<close>

section \<open>What a step leads to\<close>

text \<open>From \<open>P\<close>, a success leaves \<open>Q\<close> and an error leaves \<open>X\<close>.\<close>

definition leads :: "(world \<Rightarrow> bool) \<Rightarrow> 'a nodeact \<Rightarrow> ('a \<Rightarrow> world \<Rightarrow> bool) \<Rightarrow> (world \<Rightarrow> bool) \<Rightarrow> bool" where
  "leads P m Q X \<longleftrightarrow> (\<forall>w. P w \<longrightarrow> (case m w of (Inl e, t) \<Rightarrow> X t | (Inr x, t) \<Rightarrow> Q x t))"

definition holds :: "(world \<Rightarrow> bool) \<Rightarrow> 'a nodeact \<Rightarrow> (world \<Rightarrow> bool) \<Rightarrow> bool" where
  "holds P m X \<longleftrightarrow> leads P m (\<lambda>_. P) X"

named_theorems holds_rules \<open>operations that keep a promise\<close>

lemma leads_bind:
  "leads P m Q X \<Longrightarrow> (\<And>x. leads (Q x) (f x) R X) \<Longrightarrow> leads P (bindS m f) R X"
  by (fastforce simp: leads_def bindS_def split: prod.splits sum.splits)

lemma leads_then: "leads P m (\<lambda>_. Q) X \<Longrightarrow> leads Q k R X \<Longrightarrow> leads P (thenS m k) R X"
  unfolding thenS_def by (rule leads_bind)

lemma leads_mod: "(\<And>w. P w \<Longrightarrow> Q (f w)) \<Longrightarrow> leads P (modS f) (\<lambda>_. Q) X"
  by (simp add: leads_def modS_run)

lemma leadsD: "leads P m Q X \<Longrightarrow> P w \<Longrightarrow> (case m w of (Inl e, t) \<Rightarrow> X t | (Inr x, t) \<Rightarrow> Q x t)"
  by (simp add: leads_def)

lemma leads_get: "leads P (getS f) (\<lambda>x w. P w \<and> f w = x) X"
  by (simp add: leads_def getS_run)

lemma leads_pre: "leads Q m R X \<Longrightarrow> (\<And>w. P w \<Longrightarrow> Q w) \<Longrightarrow> leads P m R X"
  by (simp add: leads_def)

lemma leads_post: "leads P m Q X \<Longrightarrow> (\<And>x w. Q x w \<Longrightarrow> R x w) \<Longrightarrow> leads P m R X"
  unfolding leads_def by (fastforce split: prod.splits sum.splits)

lemma leads_if: "(b \<Longrightarrow> leads P m Q X) \<Longrightarrow> (\<not> b \<Longrightarrow> leads P k Q X) \<Longrightarrow> leads P (if b then m else k) Q X"
  by simp

lemma leads_snd: "leads P m (\<lambda>_. X) X \<Longrightarrow> P w \<Longrightarrow> X (snd (m w))"
  unfolding leads_def by (fastforce split: prod.splits sum.splits)

lemma holdsD: "holds P m X \<Longrightarrow> leads P m (\<lambda>_. P) X"
  by (simp add: holds_def)

lemma holds_snd: "holds P m X \<Longrightarrow> (\<And>w. P w \<Longrightarrow> X w) \<Longrightarrow> P w \<Longrightarrow> X (snd (m w))"
  unfolding holds_def by (erule leads_snd [OF leads_post]) simp_all

lemma holds_bind [holds_rules]: "holds P m X \<Longrightarrow> (\<And>x. holds P (f x) X) \<Longrightarrow> holds P (bindS m f) X"
  unfolding holds_def by (rule leads_bind)

lemma holds_then [holds_rules]: "holds P m X \<Longrightarrow> holds P k X \<Longrightarrow> holds P (thenS m k) X"
  unfolding holds_def by (rule leads_then)

lemma holds_get [holds_rules]: "holds P (getS f) X"
  by (simp add: holds_def leads_def getS_run)

lemma holds_return [holds_rules]: "holds P (returnS x) X"
  by (simp add: holds_def leads_def returnS_run)

lemma holds_mod: "(\<And>w. P w \<Longrightarrow> P (f w)) \<Longrightarrow> holds P (modS f) X"
  by (simp add: holds_def leads_mod)

lemma holds_if [holds_rules]: "(b \<Longrightarrow> holds P m X) \<Longrightarrow> (\<not> b \<Longrightarrow> holds P k X) \<Longrightarrow> holds P (if b then m else k) X"
  by simp

lemma holds_option [holds_rules]:
  "holds P m X \<Longrightarrow> (\<And>x. holds P (f x) X) \<Longrightarrow> holds P (case z of None \<Rightarrow> m | Some x \<Rightarrow> f x) X"
  by (simp split: option.split)

lemma holds_sum [holds_rules]:
  "(\<And>x. holds P (f x) X) \<Longrightarrow> (\<And>x. holds P (h x) X) \<Longrightarrow> holds P (case z of Inl x \<Rightarrow> f x | Inr x \<Rightarrow> h x) X"
  by (simp split: sum.split)

lemma holds_for: "(\<And>x. x \<in> set xs \<Longrightarrow> holds P (f x) X) \<Longrightarrow> holds P (forS xs f) X"
  by (induction xs) (simp_all add: holds_bind holds_return)

text \<open>A save and a frame, from what they do to the world; a node whose file can always be written is reliable.\<close>

definition reliable :: "nenv \<Rightarrow> bool" where
  "reliable E \<longleftrightarrow> (\<forall>n. nv_save E n \<noteq> Save_failed) \<and> (\<forall>st. nv_size E st \<le> state_quota)"

lemma leads_save:
  assumes tick: "\<And>w n. P w \<Longrightarrow> P (w\<lparr>wd_step := n\<rparr>)" and wrote: "\<And>w. P w \<Longrightarrow> Q (write_file w)"
    and fail: "\<And>w. \<not> reliable E \<Longrightarrow> P w \<Longrightarrow> X w"
    and dead: "\<And>w. P w \<Longrightarrow> X (w\<lparr>wd_alive := False, wd_up := False\<rparr>)"
      "\<And>w. Q w \<Longrightarrow> X (w\<lparr>wd_alive := False, wd_up := False\<rparr>)"
  shows "leads P (save E) (\<lambda>_. Q) X"
  unfolding leads_def
proof (intro allI impI)
  fix w assume w: "P w"
  let ?w = "w\<lparr>wd_step := wd_step w + 1\<rparr>"
  have s: "P ?w" using w by (rule tick)
  have q: "nv_size E (wd_mem w) > state_quota \<Longrightarrow> \<not> reliable E" "nv_save E n = Save_failed \<Longrightarrow> \<not> reliable E" for n
    by (auto simp: reliable_def linorder_not_le [symmetric])
  show "case save E w of (Inl e, t) \<Rightarrow> X t | (Inr x, t) \<Rightarrow> Q t"
    using fail [OF q(1) w] fail [OF q(2) s] wrote [OF s] dead(1) [OF s] dead(2) [OF wrote [OF s]]
    by (auto simp: save_def guardS_def envS_def crashS_def run_simps split: save_fate.split)
qed

lemma leads_send:
  assumes tick: "\<And>w n. P w \<Longrightarrow> P (w\<lparr>wd_step := n\<rparr>)"
    and told: "\<And>w ep. P w \<Longrightarrow> Q (w\<lparr>wd_sent := wd_sent w @ [(ep, m)]\<rparr>)"
    and ends: "\<And>w. P w \<Longrightarrow> X w" "\<And>w. Q w \<Longrightarrow> X w"
    and dead: "\<And>w. X w \<Longrightarrow> X (w\<lparr>wd_alive := False, wd_up := False\<rparr>)"
  shows "leads P (send E m) (\<lambda>_. Q) X"
  unfolding leads_def
proof (intro allI impI)
  fix w assume w: "P w"
  have t: "Q (w\<lparr>wd_step := wd_step w + 1, wd_sent := wd_sent w @ [(wd_epoch w, m)]\<rparr>)"
    using told [OF tick [OF w, of "wd_step w + 1"]] by simp
  show "case send E m w of (Inl e, t) \<Rightarrow> X t | (Inr x, t) \<Rightarrow> Q t"
    using ends(1) [OF w] t ends(2) [OF t] dead [OF ends(2) [OF t]]
    by (auto simp: send_def guardS_def envS_def crashS_def run_simps split: send_fate.split)
qed

section \<open>The operations, for any promise\<close>

text \<open>
  \<open>P\<close> holds while the process runs, \<open>X\<close> also when it has been killed or has returned an error. A session is
  known under its name by the state and by its own record.
\<close>

definition named :: "(world \<Rightarrow> bool) \<Rightarrow> string \<Rightarrow> string \<Rightarrow> world \<Rightarrow> bool" where
  "named P sid i w \<longleftrightarrow> P w \<and> (\<exists>s. map_of (no_sessions (wd_mem w)) sid = Some s \<and> ks_id s = i)"

definition on_mem :: "(node_state \<Rightarrow> node_state) \<Rightarrow> world \<Rightarrow> world" where
  "on_mem f w = w\<lparr>wd_mem := f (wd_mem w)\<rparr>"

definition on_session :: "string \<Rightarrow> (node_session \<Rightarrow> node_session) \<Rightarrow> node_state \<Rightarrow> node_state" where
  "on_session sid f st = st\<lparr>no_sessions := upd_key sid f (no_sessions st)\<rparr>"

fun reports_in :: "node_message \<Rightarrow> source_message list" where
  "reports_in (Nm_events ms) = ms"
| "reports_in (Nm_source m) = [m]"
| "reports_in m = []"

locale reporter =
  fixes E :: nenv and P X :: "world \<Rightarrow> bool"
  assumes outside: "P w \<Longrightarrow> P (w\<lparr>wd_up := u, wd_epoch := e, wd_offset := off, wd_step := n\<rparr>)"
    and final: "P w \<Longrightarrow> X w"
    and down: "X w \<Longrightarrow> X (w\<lparr>wd_up := False\<rparr>)"
    and killed: "X w \<Longrightarrow> X (w\<lparr>wd_alive := False, wd_up := False\<rparr>)"
    and identity: "P w \<Longrightarrow> P (on_mem (\<lambda>st. st\<lparr>no_node := i, no_enrollment := en\<rparr>) w)"
    and session: "(\<And>s. ks_id (f s) = ks_id s \<and> ks_seq (f s) = ks_seq s) \<Longrightarrow> P w \<Longrightarrow> P (on_mem (on_session sid f) w)"
    and create: "P w \<Longrightarrow> map_of (no_sessions (wd_mem w)) sid = None \<Longrightarrow> P (on_mem (add_session sid turn) w)"
    and told: "P w \<Longrightarrow> reports_in m = [] \<Longrightarrow> P (w\<lparr>wd_sent := wd_sent w @ [(ep, m)]\<rparr>)"
    and saves: "holds P (save E) X"
    and emits: "leads (named P sid (source_session body)) (emit E sid body) (\<lambda>_. P) X"
    and resends: "ev \<in> set sp \<Longrightarrow> holds (\<lambda>w. P w \<and> no_spool (wd_mem w) = sp) (transmitSource E ev) X"
    and acks: "holds P (thenS (memS (acknowledged sid seq)) (save E)) X"
begin

lemma h_mem: "(\<And>w. P w \<Longrightarrow> P (on_mem f w)) \<Longrightarrow> holds P (memS f) X"
  unfolding memS_def by (rule holds_mod) (simp add: on_mem_def)

lemma raised: "P w \<Longrightarrow> P (w\<lparr>wd_up := u\<rparr>)"
  using outside [where w = w and u = u and e = "wd_epoch w" and off = "wd_offset w" and n = "wd_step w"] by simp

lemma adjusted: "P w \<Longrightarrow> P (w\<lparr>wd_offset := off\<rparr>)"
  using outside [where w = w and u = "wd_up w" and e = "wd_epoch w" and off = off and n = "wd_step w"] by simp

lemma begun: "P w \<Longrightarrow> P (w\<lparr>wd_epoch := e, wd_offset := off\<rparr>)"
  using outside [where w = w and u = "wd_up w" and e = e and off = off and n = "wd_step w"] by simp

lemma ticked: "P w \<Longrightarrow> P (w\<lparr>wd_step := n\<rparr>)"
  using outside [where w = w and u = "wd_up w" and e = "wd_epoch w" and off = "wd_offset w" and n = n] by simp

lemma h_env [holds_rules]: "holds P (envS f) X"
  by (simp add: holds_def leads_def envS_def ticked)

lemma h_orBroken [holds_rules]: "holds P (orBroken x) X"
  by (simp add: holds_def leads_def orBroken_def returnS_run failS_run final split: option.split)

lemma h_guard [holds_rules]: "holds P (guardS b x) X"
  by (simp add: holds_def leads_def guardS_def returnS_run failS_run final)

lemma h_fail [holds_rules]: "holds P (failS x) X"
  by (simp add: holds_def leads_def failS_run final)

lemma h_crash [holds_rules]: "holds P crashS X"
  by (simp add: holds_def leads_def crashS_def final killed)

lemma h_put [holds_rules]:
  "(\<And>s. ks_id (f s) = ks_id s \<and> ks_seq (f s) = ks_seq s) \<Longrightarrow> holds P (put_session sid f) X"
  unfolding put_session_def on_session_def [symmetric] by (rule h_mem, rule session)

lemma h_uid [holds_rules]: "holds P (uidN E prefix) X"
  unfolding uidN_def by (intro holds_rules)

lemma h_save [holds_rules]: "holds P (save E) X"
  by (rule saves)

lemma h_send: "reports_in m = [] \<Longrightarrow> holds P (send E m) X"
  unfolding holds_def by (rule leads_send) (auto intro: ticked told final killed)

lemma h_session [holds_rules]: "holds P (sessionS sid) X"
  unfolding sessionS_def by (intro holds_rules)

lemma leads_session: "leads P (sessionS sid) (\<lambda>s. named P sid (ks_id s)) X"
  by (auto simp: leads_def sessionS_def bindS_get orBroken_def named_def returnS_run failS_run final
      split: option.split)

lemma named_put:
  "(\<And>s. ks_id (f s) = ks_id s \<and> ks_seq (f s) = ks_seq s) \<Longrightarrow> holds (named P sid i) (put_session sid f) X"
  unfolding put_session_def on_session_def [symmetric] memS_def
  by (rule holds_mod) (auto simp: named_def on_mem_def [symmetric] intro: session,
      auto simp: on_mem_def on_session_def)

lemma named_env [holds_rules]: "holds (named P sid i) (envS f) X"
  by (auto simp: holds_def leads_def envS_def named_def ticked)

lemma named_uid [holds_rules]: "holds (named P sid i) (uidN E prefix) X"
  unfolding uidN_def by (intro holds_rules)

lemma h_emitState [holds_rules]: "holds P (emitState E sid) X"
  unfolding emitState_def holds_def
  by (rule leads_bind [OF leads_session], rule leads_pre [OF emits]) simp

lemma h_message [holds_rules]: "holds P (messageN E sid role text) X"
  unfolding messageN_def holds_def
  by (rule leads_bind [OF leads_session], rule leads_bind [OF holdsD], rule named_uid, rule leads_pre [OF emits]) simp

lemma h_ask [holds_rules]: "holds P (ask E sid prompt) X"
  unfolding ask_def holds_def Let_def
  by (rule leads_bind [OF leads_session], rule leads_bind [OF holdsD], rule named_uid,
      (rule leads_bind [OF holdsD], rule named_env)+, rule leads_then [OF holdsD], rule named_put, simp,
      rule leads_then, rule leads_pre [OF emits], simp, rule holdsD, rule h_emitState)

lemma h_turn [holds_rules]: "holds P after X \<Longrightarrow> holds P (turn_then E sid prompt after) X"
  unfolding turn_then_def by (intro holds_rules) simp_all

lemma h_complete [holds_rules]: "holds P (complete E sid qs) X"
proof (induction qs)
  case Nil
  show ?case unfolding complete.simps by (intro holds_rules) simp
next
  case (Cons q qs)
  show ?case unfolding complete.simps by (intro holds_rules Cons) simp_all
qed

lemma h_runTurn [holds_rules]: "holds P (runTurn E sid prompt) X"
  unfolding runTurn_def by (intro holds_rules)

lemma h_follow_up [holds_rules]: "holds P (follow_up E sid prompt p) X"
  by (cases p; simp only: follow_up.simps completeS_def) (intro holds_rules; simp)+

lemma h_receipt: "(\<And>op r. reports_in (kind op r) = []) \<Longrightarrow> holds P (receiptN E kind op) X"
  unfolding receiptN_def by (intro holds_rules h_send)

lemma h_prepare_create: "holds P (prepare_create cmd b) X"
  unfolding prepare_create_def Let_def holds_def
proof (rule leads_bind [OF leads_get], rule leads_if)
  fix st
  show "leads (\<lambda>w. P w \<and> wd_mem w = st) (returnS (Inl VALIDATION_FAILED)) (\<lambda>_. P) X"
    by (simp add: leads_def returnS_run)
  assume new: "\<not> (map_of (no_sessions st) (c_session cmd) \<noteq> None \<or> cs_project b \<noteq> no_project st \<or> cs_agent b \<noteq> no_agent st)"
  show "leads (\<lambda>w. P w \<and> wd_mem w = st) (thenS (memS (add_session (c_session cmd) (c_turn cmd)))
      (returnS (Inr ((blank_result st cmd)\<lparr>or_turn := Some (c_turn cmd)\<rparr>, cs_prompt b)))) (\<lambda>_. P) X"
    unfolding memS_def using new
    by (intro leads_then [OF leads_mod [where Q = P]])
      (auto simp: on_mem_def [symmetric] leads_def returnS_run intro: create)
qed

lemma h_prepares [holds_rules]:
  "holds P (prepare_queue E cmd m s) X" "holds P (prepare_send cmd m s) X" "holds P (prepare_cancel cmd s) X"
  "holds P (prepare_respond E cmd s) X"
  unfolding prepare_queue_def prepare_send_def prepare_cancel_def prepare_respond_def
  by (intro holds_rules; simp)+

lemma h_prepare: "holds P (prepare E cmd p) X"
  by (cases p; simp only: prepare.simps) (intro holds_rules h_prepare_create)+

lemma h_check: "holds P (check_command E cmd) X"
  unfolding check_command_def by (intro holds_rules h_prepare)

lemma h_greet: "holds P (greet E) X"
proof -
  have spool: "leads (\<lambda>w. P w \<and> no_spool (wd_mem w) = sp) (forS sp (transmitSource E)) (\<lambda>_. P) X" for sp
    by (rule leads_post [OF holdsD [OF holds_for]], rule resends) simp_all
  have rest: "leads P (bindS (getS (\<lambda>w. no_spool (wd_mem w))) (\<lambda>sp. thenS (forS sp (transmitSource E))
      (bindS (getS (\<lambda>w. nv_order E (map fst (no_sessions (wd_mem w))))) (\<lambda>sids. forS sids (emitState E))))) (\<lambda>_. P) X"
    by (rule leads_bind [OF leads_get], rule leads_then [OF spool], intro holdsD holds_rules holds_for)
  show ?thesis unfolding greet_def inventoryN_def
    by (rule holds_then, intro holds_rules h_send, simp, simp add: holds_def rest)
qed

lemma h_identity [holds_rules]: "holds P identity_key X"
  unfolding identity_key_def by (intro holds_rules)

lemma h_connect: "holds P (connectN E) X"
  unfolding connectN_def
proof (intro holds_rules)
  fix f
  show "holds P (case f of F_node_ready node epoch heartbeat time \<Rightarrow>
      bindS (envS (nv_clock E)) (\<lambda>now. modS (\<lambda>w. w\<lparr>wd_epoch := epoch, wd_offset := nv_parse E time - now\<rparr>))
    | _ \<Rightarrow> failS Broken) X"
    by (cases f) (auto intro!: holds_rules holds_mod begun)
qed

lemma h_poll: "holds P (poll_until E en n) X"
proof (induction n)
  case (Suc n)
  have node: "P w \<Longrightarrow> P (w\<lparr>wd_mem := (wd_mem w)\<lparr>no_node := i, no_enrollment := e\<rparr>\<rparr>)" for w i e
    using identity [where w = w and i = i and en = e] by (simp add: on_mem_def)
  have same: "P w \<Longrightarrow> P (w\<lparr>wd_mem := (wd_mem w)\<lparr>no_enrollment := e\<rparr>\<rparr>)" for w e
    using node [where w = w and i = "no_node (wd_mem w)" and e = e] by simp
  show ?case unfolding poll_until.simps
    by (intro holds_rules, simp split: enrollment_state.split)
      (intro conjI impI holds_rules Suc h_mem; use node same in \<open>simp add: on_mem_def\<close>)
qed (simp add: holds_rules)

lemma h_provision: "holds P (provision E polls) X"
proof -
  have "P w \<Longrightarrow> P (w\<lparr>wd_mem := (wd_mem w)\<lparr>no_enrollment := e\<rparr>\<rparr>)" for w e
    using identity [where w = w and i = "no_node (wd_mem w)" and en = e] by (simp add: on_mem_def)
  then show ?thesis unfolding provision_def
    by (intro holds_rules h_poll h_mem) (simp add: on_mem_def)
qed

lemma h_incoming:
  assumes "\<And>cmd. holds P (commandN E cmd) X"
  shows "holds P (incoming E f) X"
proof (cases f)
  case (F_events_ack epoch sid seq gatewaySeq)
  show ?thesis unfolding F_events_ack incoming.simps by (rule acks)
next
  case (F_node_heartbeat epoch nonce time)
  show ?thesis unfolding F_node_heartbeat incoming.simps
    by (intro holds_rules holds_mod adjusted)
qed (simp_all only: incoming.simps, (intro holds_rules assms h_receipt h_send; simp)+)

end

text \<open>A promise that is kept from one start of the process to the next.\<close>

locale process = reporter +
  assumes running: "X w \<Longrightarrow> wd_alive w \<Longrightarrow> P w"
    and starts: "leads (\<lambda>w. X w \<and> \<not> wd_alive w)
      (thenS (load E) (modS (\<lambda>w. w\<lparr>wd_alive := True, wd_up := False\<rparr>))) (\<lambda>_. X) X"
begin

lemma x_attempt: "holds P m X \<Longrightarrow> X w \<Longrightarrow> wd_alive w \<Longrightarrow> X (attempt m w)"
  using holds_snd [of P m X w] running [of w] final down
  by (auto simp: attempt_def split: prod.splits sum.splits halt.splits)

lemma x_run:
  assumes "\<And>cmd. holds P (commandN E cmd) X" and "X w"
  shows "X (node_run E a w)"
proof (cases a)
  case Start
  have "X (snd ((thenS (load E) (modS (\<lambda>w. w\<lparr>wd_alive := True, wd_up := False\<rparr>))) w))" if "\<not> wd_alive w"
    using assms(2) that by (intro leads_snd [OF starts]) simp
  then show ?thesis using assms(2) down Start
    by (auto simp: attempt_def split: prod.splits sum.splits halt.splits)
next
  case Connect
  have up: "holds P (modS (\<lambda>w. w\<lparr>wd_up := True\<rparr>)) X"
    by (intro holds_mod raised)
  show ?thesis using assms(2) unfolding Connect node_run.simps
    by (auto intro!: x_attempt holds_rules h_connect h_greet up)
next
  case Beat
  have "holds P (beat E) X" unfolding beat_def by (intro holds_rules h_send) simp
  then show ?thesis using assms(2) Beat by (auto intro: x_attempt)
qed (use assms(2) h_provision h_incoming [OF assms(1)] killed in \<open>auto intro: x_attempt\<close>)

end

text \<open>A promise that does not speak of the journal is kept by the commands as well.\<close>

locale carrier = process +
  assumes journal: "P w \<Longrightarrow> P (on_mem (\<lambda>st. st\<lparr>no_journal := js, no_calls := n\<rparr>) w)"
    and native: "P w \<Longrightarrow> P (w\<lparr>wd_native := ops\<rparr>)"
begin

lemma h_journal: "holds P (memS (\<lambda>st. st\<lparr>no_journal := f st, no_calls := g st\<rparr>)) X"
  by (rule h_mem) (use journal in \<open>simp add: on_mem_def\<close>)

lemma h_entries: "holds P (memS (\<lambda>st. st\<lparr>no_journal := f st\<rparr>)) X"
  using h_journal [where f = f and g = no_calls] by simp

lemma h_command: "holds P (commandN E cmd) X"
  unfolding commandN_def new_command_def execute_def nativeS_def reject_def put_journal_def case_prod_beta
  by (intro holds_rules h_entries h_journal holds_mod native h_receipt h_check) simp_all

lemma x_reachable: "node_reachable E w \<Longrightarrow> X first_start \<Longrightarrow> X w"
  by (induction rule: node_reachable.induct) (simp_all add: x_run h_command)

end

end
