(* ===== verification/Fakenode_Spec.thy ===== *)
theory Fakenode_Spec
  imports Node_Frame
begin

text \<open>
  The journal of the node: a command is carried out at most once, whatever fails and whenever the process
  is killed, and its outcome never changes.
\<close>

section \<open>The journal\<close>

text \<open>
  How an entry may change: its command and its fingerprint stay, and an outcome is final. The commands that
  were carried out, or may have been, are those marked as such.
\<close>

definition later_entry :: "journal \<Rightarrow> journal \<Rightarrow> bool" where
  "later_entry j k \<longleftrightarrow> jn_hash k = jn_hash j \<and> jn_command k = jn_command j \<and>
     (case jn_state j of
        Jn_delivered \<Rightarrow> True
      | Jn_executing \<Rightarrow> jn_state k \<in> {Jn_executing, Jn_confirmed, Jn_unknown}
      | _ \<Rightarrow> k = j)"

definition later_journal :: "node_state \<Rightarrow> node_state \<Rightarrow> bool" where
  "later_journal s t \<longleftrightarrow> (\<forall>op j. map_of (no_journal s) op = Some j \<longrightarrow>
     (\<exists>k. map_of (no_journal t) op = Some k \<and> later_entry j k))"

definition was_run :: "journal \<Rightarrow> bool" where
  "was_run j \<longleftrightarrow> jn_state j \<in> {Jn_executing, Jn_confirmed, Jn_unknown}"

definition called :: "node_state \<Rightarrow> string list" where
  "called s = map fst (filter (\<lambda>e. was_run (snd e)) (no_journal s))"

definition counted :: "node_state \<Rightarrow> bool" where
  "counted s \<longleftrightarrow> distinct (map fst (no_journal s)) \<and> no_calls s = length (called s)"

lemma later_entry_refl [simp]: "later_entry j j"
  by (simp add: later_entry_def split: journal_state.split)

lemma later_entry_trans: "later_entry i j \<Longrightarrow> later_entry j k \<Longrightarrow> later_entry i k"
  by (auto simp: later_entry_def split: journal_state.splits)

lemma later_journal_refl [simp]: "later_journal s s"
  by (simp add: later_journal_def)

lemma later_journal_trans: "later_journal s t \<Longrightarrow> later_journal t u \<Longrightarrow> later_journal s u"
  unfolding later_journal_def by (metis later_entry_trans)

lemma later_journal_same: "no_journal t = no_journal s \<Longrightarrow> later_journal s t"
  by (simp add: later_journal_def)

lemma counted_same: "no_journal t = no_journal s \<Longrightarrow> no_calls t = no_calls s \<Longrightarrow> counted t = counted s"
  by (simp add: counted_def called_def)

lemma called_grows:
  assumes later: "later_journal s t" and d: "distinct (map fst (no_journal s))"
  shows "set (called s) \<subseteq> set (called t)"
proof
  fix op assume "op \<in> set (called s)"
  then obtain j where "map_of (no_journal s) op = Some j" and j: "was_run j" using d
    by (force simp: called_def)
  with later obtain k where k: "map_of (no_journal t) op = Some k" "later_entry j k" by (auto simp: later_journal_def)
  then have "was_run k" using j unfolding was_run_def later_entry_def by (cases "jn_state j") auto
  then show "op \<in> set (called t)" using map_of_SomeD [OF k(1)] by (force simp: called_def)
qed

text \<open>
  The promise about a file and what comes of it: it holds throughout a run that started from it, and every
  operation keeps it that only lets the journal in memory advance.
\<close>

text \<open>No operation was called twice, and those that were called are marked in the file.\<close>

definition natives_ok :: "world \<Rightarrow> bool" where
  "natives_ok w \<longleftrightarrow> distinct (wd_native w) \<and>
     (\<forall>op\<in>set (wd_native w). \<exists>d. wd_disk w = Some d \<and> op \<in> set (called d))"

definition booked :: "node_state option \<Rightarrow> world \<Rightarrow> bool" where
  "booked old w \<longleftrightarrow> (\<forall>d. old = Some d \<longrightarrow> (\<exists>e. wd_disk w = Some e \<and> later_journal d e)) \<and>
     (\<forall>d. wd_disk w = Some d \<longrightarrow> counted d \<and> later_journal d (wd_mem w)) \<and> counted (wd_mem w) \<and> natives_ok w"

text \<open>What the promises here depend on.\<close>

definition agrees :: "world \<Rightarrow> world \<Rightarrow> bool" where
  "agrees w t \<longleftrightarrow> wd_disk t = wd_disk w \<and> wd_native t = wd_native w \<and>
     no_journal (wd_mem t) = no_journal (wd_mem w) \<and> no_calls (wd_mem t) = no_calls (wd_mem w)"

lemma booked_same: "booked old w \<Longrightarrow> agrees w t \<Longrightarrow> booked old t"
  using counted_same [of "wd_mem t" "wd_mem w"] by (simp add: agrees_def booked_def natives_ok_def later_journal_def)

lemma booked_write: "booked old w \<Longrightarrow> booked old (write_file w)"
proof -
  assume w: "booked old w"
  have "op \<in> set (called (wd_mem w))" if "op \<in> set (wd_native w)" for op
    using w that called_grows by (fastforce simp: booked_def natives_ok_def counted_def)
  then have "natives_ok (write_file w)" using w by (simp add: booked_def natives_ok_def write_file_def)
  then show ?thesis using w by (auto simp: booked_def write_file_def dest: later_journal_trans)
qed

lemma booked_later:
  "booked old w \<Longrightarrow> later_journal (wd_mem w) t \<Longrightarrow> counted t \<Longrightarrow> booked old (w\<lparr>wd_mem := t\<rparr>)"
  by (auto simp: booked_def natives_ok_def dest: later_journal_trans)

section \<open>Operations outside the journal\<close>

text \<open>An entry of the journal in one state; it is new while its operation has not been called.\<close>

definition entry :: "node_state option \<Rightarrow> string \<Rightarrow> journal_state \<Rightarrow> world \<Rightarrow> bool" where
  "entry old op s w \<longleftrightarrow> booked old w \<and> (\<exists>j. map_of (no_journal (wd_mem w)) op = Some j \<and> jn_state j = s)"

definition new_entry :: "node_state option \<Rightarrow> string \<Rightarrow> journal_state \<Rightarrow> world \<Rightarrow> bool" where
  "new_entry old op s w \<longleftrightarrow> entry old op s w \<and> op \<notin> set (wd_native w)"

definition steady :: "(world \<Rightarrow> bool) \<Rightarrow> bool" where
  "steady P \<longleftrightarrow> (\<forall>w t. P w \<longrightarrow> agrees w t \<longrightarrow> P t) \<and> (\<forall>w. P w \<longrightarrow> P (write_file w))"

lemma steady_booked: "steady (booked old)"
  unfolding steady_def using booked_same booked_write by blast

lemma steady_entry: "steady (entry old op s)"
  unfolding steady_def entry_def using booked_same booked_write by (auto simp: write_file_def agrees_def)

lemma steady_new_entry: "steady (new_entry old op s)"
  using steady_entry [of old op s] unfolding steady_def new_entry_def by (auto simp: write_file_def agrees_def)

lemma entry_booked: "entry old op s w \<Longrightarrow> booked old w"
  by (simp add: entry_def)

lemma new_entry_entry: "new_entry old op s w \<Longrightarrow> entry old op s w"
  by (simp add: new_entry_def)

text \<open>What neither the file nor the journal can tell apart is kept by what leaves both alone or saves.\<close>

locale bookkeeper =
  fixes E :: nenv and P X :: "world \<Rightarrow> bool"
  assumes keeps_P: "steady P" and keeps_X: "steady X" and ends: "P w \<Longrightarrow> X w"
begin

lemma unseen: "P w \<Longrightarrow> agrees w t \<Longrightarrow> P t"
  using keeps_P unfolding steady_def by blast

lemma unseen_end: "X w \<Longrightarrow> agrees w t \<Longrightarrow> X t"
  using keeps_X unfolding steady_def by blast

lemma b_mem [holds_rules]:
  "(\<And>st. no_journal (f st) = no_journal st \<and> no_calls (f st) = no_calls st) \<Longrightarrow> holds P (memS f) X"
  unfolding memS_def by (rule holds_mod, erule unseen) (simp add: agrees_def)

lemma b_env [holds_rules]: "holds P (envS f) X"
  by (auto simp: holds_def leads_def envS_def agrees_def intro: unseen)

lemma b_guard [holds_rules]: "holds P (guardS b x) X" "holds P (failS x) X"
  by (simp_all add: holds_def leads_def guardS_def returnS_run failS_run ends)

lemma b_orBroken [holds_rules]: "holds P (orBroken x) X"
  by (simp add: holds_def leads_def orBroken_def returnS_run failS_run ends split: option.split)

lemma b_crash [holds_rules]: "holds P crashS X"
  by (auto simp: holds_def leads_def crashS_def agrees_def intro: unseen_end [OF ends])

lemma b_write [holds_rules]: "holds P (modS write_file) X"
  using keeps_P by (auto simp: steady_def intro: holds_mod)

lemma b_save [holds_rules]: "holds P (save E) X"
  unfolding save_def
  by (intro holds_rules, simp split: save_fate.split) (intro conjI impI holds_rules)

lemma b_send [holds_rules]: "holds P (send E m) X"
  unfolding send_def
  by (intro holds_rules holds_mod, erule unseen, simp_all add: agrees_def split: send_fate.split)
    (intro conjI impI holds_rules)

lemma b_transmit [holds_rules]: "holds P (transmitSource E m) X"
  unfolding transmitSource_def by (simp split: source_body.split) (intro conjI allI impI holds_rules)

lemma b_emit: "holds P (emit E sid body) X"
  unfolding emit_def new_report_def put_session_def sessionS_def uidN_def Let_def by (intro holds_rules) simp_all

lemma b_spool: "holds (\<lambda>w. P w \<and> no_spool (wd_mem w) = sp) (transmitSource E m) X"
proof -
  have "no_spool (wd_mem t) = no_spool (wd_mem w)" if "send E n w = (r, t)" for n w r t
    using that by (auto simp: send_def envS_def guardS_def crashS_def run_simps split: send_fate.splits if_splits)
  then have "no_spool (wd_mem t) = no_spool (wd_mem w)" if "transmitSource E m w = (r, t)" for w r t
    using that by (auto simp: transmitSource_def split: source_body.splits)
  then show ?thesis using b_transmit [of m] unfolding holds_def leads_def by (fastforce split: prod.splits sum.splits)
qed

end

sublocale bookkeeper \<subseteq> reporter E P X
proof
  show "leads (named P sid (source_session body)) (emit E sid body) (\<lambda>_. P) X" for sid body
    by (rule leads_pre [OF holdsD [OF b_emit]]) (simp add: named_def)
  show "holds P (thenS (memS (acknowledged sid seq)) (save E)) X" for sid seq
    by (intro holds_rules) (simp add: acknowledged_def)
qed (auto simp: on_mem_def on_session_def add_session_def agrees_def intro: unseen unseen_end ends b_save b_spool)

interpretation bk: bookkeeper E "booked old" "booked old" for E old
  by unfold_locales (auto simp: steady_booked)

interpretation en: bookkeeper E "entry old op s" "booked old" for E old op s
  by unfold_locales (auto simp: steady_booked steady_entry entry_booked)

interpretation ne: bookkeeper E "new_entry old op s" "booked old" for E old op s
  by unfold_locales (auto simp: steady_booked steady_new_entry intro: entry_booked new_entry_entry)

section \<open>A command\<close>

lemma upd_key_absent: "k \<notin> fst ` set xs \<Longrightarrow> upd_key k f xs = xs"
  by (induction xs) auto

lemma called_upd:
  "distinct (map fst xs) \<Longrightarrow> map_of xs op = Some j \<Longrightarrow> (was_run j \<Longrightarrow> was_run (f j)) \<Longrightarrow>
     length (filter (\<lambda>e. was_run (snd e)) (upd_key op f xs)) =
     length (filter (\<lambda>e. was_run (snd e)) xs) + (if was_run (f j) \<and> \<not> was_run j then 1 else 0)"
  by (induction xs) (auto simp: upd_key_absent split: if_splits)

lemma later_was_run: "later_entry j k \<Longrightarrow> was_run j \<Longrightarrow> was_run k"
  unfolding was_run_def later_entry_def by (cases "jn_state j") auto

lemma entry_step:
  assumes "entry old op s w" and t: "no_journal t = upd_key op f (no_journal (wd_mem w))"
    and n: "no_calls t = no_calls (wd_mem w) + n"
    and f: "\<And>j. jn_state j = s \<Longrightarrow> later_entry j (f j) \<and> n = (if was_run (f j) \<and> \<not> was_run j then 1 else 0)"
  shows "booked old (w\<lparr>wd_mem := t\<rparr>)"
proof -
  from assms(1) obtain j where b: "booked old w" and j: "map_of (no_journal (wd_mem w)) op = Some j" "jn_state j = s"
    by (auto simp: entry_def)
  have c: "counted (wd_mem w)" using b by (simp add: booked_def)
  have "later_journal (wd_mem w) t" using j f by (auto simp: later_journal_def t)
  moreover have "counted t"
    using c j f [OF j(2)] called_upd [of "no_journal (wd_mem w)" op j f] later_was_run [of j "f j"]
    by (simp add: counted_def called_def t n)
  ultimately show ?thesis using b booked_later by blast
qed

lemma leads_rejected:
  "leads (entry old op Jn_delivered) (put_journal op (\<lambda>j. j\<lparr>jn_state := Jn_rejected, jn_error := Some code\<rparr>))
     (\<lambda>_. booked old) (booked old)"
  unfolding put_journal_def memS_def
  by (rule leads_mod, erule entry_step [where n = 0], simp, simp, simp add: later_entry_def was_run_def)

lemma leads_confirmed:
  "leads (entry old op Jn_executing) (put_journal op (\<lambda>j. j\<lparr>jn_state := Jn_confirmed, jn_result := Some r\<rparr>))
     (\<lambda>_. booked old) (booked old)"
  unfolding put_journal_def memS_def
  by (rule leads_mod, erule entry_step [where n = 0], simp, simp, simp add: later_entry_def was_run_def)

lemma leads_executing:
  "leads (new_entry old op Jn_delivered)
     (memS (\<lambda>st. st\<lparr>no_journal := upd_key op (\<lambda>j. j\<lparr>jn_state := Jn_executing\<rparr>) (no_journal st), no_calls := no_calls st + 1\<rparr>))
     (\<lambda>_. new_entry old op Jn_executing) (booked old)"
  unfolding memS_def
proof (rule leads_mod)
  fix w assume n: "new_entry old op Jn_delivered w"
  then have w: "entry old op Jn_delivered w" by (rule new_entry_entry)
  let ?t = "(wd_mem w)\<lparr>no_journal := upd_key op (\<lambda>j. j\<lparr>jn_state := Jn_executing\<rparr>) (no_journal (wd_mem w)),
    no_calls := no_calls (wd_mem w) + 1\<rparr>"
  have "booked old (w\<lparr>wd_mem := ?t\<rparr>)"
    by (rule entry_step [OF w, where n = 1], simp, simp, simp add: later_entry_def was_run_def)
  then show "new_entry old op Jn_executing (w\<lparr>wd_mem := ?t\<rparr>)" using w n by (auto simp: entry_def new_entry_def)
qed

text \<open>The mark is in the file when the operation is called.\<close>

definition marked :: "node_state option \<Rightarrow> string \<Rightarrow> world \<Rightarrow> bool" where
  "marked old op w \<longleftrightarrow> new_entry old op Jn_executing w \<and> (\<exists>d. wd_disk w = Some d \<and> op \<in> set (called d))"

lemma leads_marked: "leads (new_entry old op Jn_executing) (save E) (\<lambda>_. marked old op) (booked old)"
proof (rule leads_save)
  fix w assume w: "new_entry old op Jn_executing w"
  note steady = steady_new_entry [of old op Jn_executing, unfolded steady_def]
  show "new_entry old op Jn_executing (w\<lparr>wd_step := n\<rparr>)" for n
    using w steady by (auto simp: agrees_def)
  have "op \<in> set (called (wd_mem w))"
    using w by (auto simp: new_entry_def entry_def called_def was_run_def intro!: image_eqI dest!: map_of_SomeD)
  then show "marked old op (write_file w)" using w steady by (simp add: marked_def write_file_def)
  show b: "booked old w" using w by (simp add: new_entry_def entry_def)
  show "booked old (w\<lparr>wd_alive := False, wd_up := False\<rparr>)" by (rule booked_same [OF b]) (simp add: agrees_def)
next
  fix w assume "marked old op w"
  then have "booked old w" by (simp add: marked_def new_entry_def entry_def)
  then show "booked old (w\<lparr>wd_alive := False, wd_up := False\<rparr>)" by (rule booked_same) (simp add: agrees_def)
qed

lemma leads_native: "leads (marked old op) (nativeS op) (\<lambda>_. entry old op Jn_executing) (booked old)"
  unfolding nativeS_def
  by (rule leads_mod) (auto simp: marked_def new_entry_def entry_def booked_def natives_ok_def)

lemma leads_delivered:
  assumes "jn_state j = Jn_delivered"
  shows "leads (\<lambda>w. booked old w \<and> map_of (no_journal (wd_mem w)) op = None)
    (memS (\<lambda>st. st\<lparr>no_journal := no_journal st @ [(op, j)]\<rparr>)) (\<lambda>_. new_entry old op Jn_delivered) (booked old)"
  unfolding memS_def
proof (rule leads_mod, elim conjE)
  fix w assume w: "booked old w" and new: "map_of (no_journal (wd_mem w)) op = None"
  let ?t = "(wd_mem w)\<lparr>no_journal := no_journal (wd_mem w) @ [(op, j)]\<rparr>"
  have "later_journal (wd_mem w) ?t" by (auto simp: later_journal_def)
  moreover have "counted ?t"
    using w new assms by (auto simp: booked_def counted_def called_def was_run_def map_of_eq_None_iff)
  ultimately have "entry old op Jn_delivered (w\<lparr>wd_mem := ?t\<rparr>)"
    using booked_later [OF w] assms new by (auto simp: entry_def map_add_def)
  moreover have "op \<notin> set (called (wd_mem w))"
    using new by (auto simp: called_def map_of_eq_None_iff)
  then have "op \<notin> set (wd_native w)"
    using w called_grows by (fastforce simp: booked_def natives_ok_def counted_def)
  ultimately show "new_entry old op Jn_delivered (w\<lparr>wd_mem := ?t\<rparr>)" by (simp add: new_entry_def)
qed

lemma leads_reject: "leads (new_entry old op Jn_delivered) (reject E op code) (\<lambda>_. booked old) (booked old)"
  unfolding reject_def
  by (rule leads_pre [OF _ new_entry_entry], rule leads_bind [OF holdsD [OF en.h_uid]],
      rule leads_then [OF leads_rejected], rule holdsD, intro holds_rules bk.saves bk.h_receipt) simp_all

lemma leads_execute: "leads (new_entry old (c_op cmd) Jn_delivered) (execute E cmd r) (\<lambda>_. booked old) (booked old)"
  unfolding execute_def case_prod_beta
  by (rule leads_then [OF leads_executing], rule leads_then [OF leads_marked], rule leads_then [OF leads_native],
      rule leads_then [OF holdsD [OF en.h_guard]], rule leads_then [OF leads_confirmed],
      rule holdsD, intro holds_rules bk.saves bk.h_receipt bk.h_follow_up) simp

lemma leads_new:
  "leads (\<lambda>w. booked old w \<and> map_of (no_journal (wd_mem w)) (c_op cmd) = None) (new_command E cmd)
     (\<lambda>_. booked old) (booked old)"
  unfolding new_command_def
  by (rule leads_then [OF leads_delivered], simp, rule leads_then [OF holdsD [OF ne.saves]],
      rule leads_then [OF holdsD [OF ne.h_receipt]], simp, rule leads_bind [OF holdsD [OF ne.h_check]],
      simp add: leads_reject leads_execute split: sum.split)

lemma booked_command: "holds (booked old) (commandN E cmd) (booked old)"
  unfolding commandN_def holds_def
proof (rule leads_bind [OF leads_get], simp split: option.split, intro conjI allI impI)
  show "leads (\<lambda>w. booked old w \<and> map_of (no_journal (wd_mem w)) (c_op cmd) = None) (new_command E cmd)
      (\<lambda>_. booked old) (booked old)" by (rule leads_new)
  fix j :: journal
  have "holds (booked old) (thenS (guardS (jn_hash j = nv_hash E cmd) Broken) (receiptN E Nm_ack (c_op cmd))) (booked old)"
    by (intro holds_rules bk.h_receipt bk.h_guard) simp
  then show "leads (\<lambda>w. booked old w \<and> map_of (no_journal (wd_mem w)) (c_op cmd) = Some j)
      (thenS (guardS (jn_hash j = nv_hash E cmd) Broken) (receiptN E Nm_ack (c_op cmd))) (\<lambda>_. booked old) (booked old)"
    by (rule leads_pre [OF holdsD]) simp
qed

section \<open>Starting again\<close>

lemma interrupted_later: "later_entry j (interrupted j)"
  by (simp add: interrupted_def later_entry_def split: journal_state.split)

lemma interrupted_run: "was_run (interrupted j) = was_run j"
  by (simp add: interrupted_def was_run_def)

lemma map_of_resumed: "map_of (no_journal (resumed st)) op = map_option interrupted (map_of (no_journal st) op)"
proof -
  have "map_of (map (\<lambda>(k, j). (k, interrupted j)) xs) op = map_option interrupted (map_of xs op)" for xs
    by (induction xs) auto
  then show ?thesis by (simp add: resumed_def)
qed

lemma counted_resumed: "counted (resumed st) = counted st"
proof -
  let ?f = "\<lambda>(k, j). (k, interrupted j)"
  have keys: "fst \<circ> ?f = fst" by auto
  have runs: "(\<lambda>e. was_run (snd e)) \<circ> ?f = (\<lambda>e. was_run (snd e))" by (auto simp: interrupted_run)
  show ?thesis by (simp add: counted_def called_def resumed_def keys runs)
qed

lemma booked_resumed:
  assumes "booked old w" and "wd_disk w = Some st"
  shows "booked old (w\<lparr>wd_mem := resumed st\<rparr>)"
  using assms by (simp add: booked_def natives_ok_def later_journal_def map_of_resumed counted_resumed)
    (metis interrupted_later later_entry_trans)

lemma leads_first:
  "leads (\<lambda>w. booked old w \<and> wd_disk w = None) (first_identity E) (\<lambda>_. booked old) (booked old)"
proof -
  let ?P = "\<lambda>w. booked old w \<and> wd_disk w = None"
  have env: "leads ?P (envS f) (\<lambda>_. ?P) (booked old)" for f :: "nat \<Rightarrow> string"
    by (auto simp: leads_def envS_def agrees_def elim: booked_same)
  have uid: "leads ?P (uidN E p) (\<lambda>_. ?P) (booked old)" for p
    unfolding uidN_def by (rule leads_bind [OF env]) (simp add: leads_def returnS_run)
  have fresh: "leads ?P (memS (\<lambda>_. \<lparr>no_key = k, no_node = n, no_project = pr, no_agent = a, no_enrollment = en,
      no_journal = [], no_sessions = ss, no_spool = sp, no_calls = 0\<rparr>)) (\<lambda>_. booked old) (booked old)"
    for k n pr a en ss sp
    unfolding memS_def by (rule leads_mod) (auto simp: booked_def natives_ok_def counted_def called_def)
  show ?thesis unfolding first_identity_def
    by (rule leads_bind [OF env], rule leads_bind [OF uid], rule leads_bind [OF uid], rule leads_then [OF fresh],
        rule holdsD [OF bk.saves])
qed

lemma booked_load: "booked old w \<Longrightarrow> booked old (snd (load E w))"
proof -
  assume w: "booked old w"
  let ?w = "w\<lparr>wd_step := wd_step w + 1\<rparr>"
  have b: "booked old ?w" using w by (rule booked_same) (simp add: agrees_def)
  show ?thesis
  proof (cases "wd_disk w")
    case (Some st)
    have "booked old (snd (save E (?w\<lparr>wd_mem := resumed st\<rparr>)))"
      using booked_resumed [OF b, of st] Some by (intro holds_snd [OF bk.saves]) simp_all
    then show ?thesis using b Some by (simp add: load_def envS_def guardS_def memS_def run_simps)
  next
    case None
    have "booked old (snd (first_identity E ?w))" using b None by (intro leads_snd [OF leads_first]) simp
    then show ?thesis using b None by (simp add: load_def envS_def guardS_def run_simps)
  qed
qed

interpretation bp: process E "booked old" "booked old" for E old
proof unfold_locales
  have "booked old (snd (thenS (load E) (modS (\<lambda>w. w\<lparr>wd_alive := True, wd_up := False\<rparr>)) w))" if "booked old w" for w
    using booked_load [OF that, of E]
    by (auto simp: thenS_def bindS_def modS_def agrees_def split: prod.splits sum.splits elim: booked_same)
  then show "leads (\<lambda>w. booked old w \<and> \<not> wd_alive w)
      (thenS (load E) (modS (\<lambda>w. w\<lparr>wd_alive := True, wd_up := False\<rparr>))) (\<lambda>_. booked old) (booked old)"
    unfolding leads_def by (fastforce split: prod.splits sum.splits)
qed

lemma reachable_booked: "node_reachable E w \<Longrightarrow> booked (wd_disk w) w"
proof (induction rule: node_reachable.induct)
  case first
  show ?case by (simp add: booked_def natives_ok_def first_start_def no_state_def counted_def called_def)
next
  case (step w a)
  from bp.x_run [OF booked_command step.IH] show ?case by (auto simp: booked_def)
qed

text \<open>
  C10: whatever fails and whenever the process is killed, a node makes the native call of each command at
  most once, over all its lives: the calls it has ever made, which no crash takes back, are for different
  operations, and each of them is marked in the file as executing, confirmed or unknown, so that no later
  life takes it for one that has not run. The calls it counts, in memory and in its file, are as
  many as the different operations its journal marks as called; from one action to the next the file loses no
  entry of the journal and no called operation, an entry keeps its command and fingerprint, and one that is
  confirmed, rejected or unknown never changes again. A command whose operation is in the journal changes
  neither the memory nor the file and calls nothing.
\<close>

theorem commands_run_once:
  assumes "node_reachable E w"
  shows "distinct (wd_native w) \<and>
    (\<forall>op\<in>set (wd_native w). \<exists>d j. wd_disk w = Some d \<and> map_of (no_journal d) op = Some j \<and> was_run j) \<and>
    counted (wd_mem w) \<and>
    (\<forall>d. wd_disk w = Some d \<longrightarrow> counted d \<and>
       (\<exists>e. wd_disk (node_run E a w) = Some e \<and> later_journal d e \<and> set (called d) \<subseteq> set (called e))) \<and>
    (map_of (no_journal (wd_mem w)) (c_op cmd) \<noteq> None \<longrightarrow>
       wd_mem (node_run E (Incoming (F_command cmd)) w) = wd_mem w \<and>
       wd_disk (node_run E (Incoming (F_command cmd)) w) = wd_disk w \<and>
       wd_native (node_run E (Incoming (F_command cmd)) w) = wd_native w)"
proof -
  from reachable_booked [OF assms] have b: "booked (wd_disk w) w" .
  have "booked (wd_disk w) (node_run E a w)" by (rule bp.x_run [OF booked_command b])
  then have "\<exists>e. wd_disk (node_run E a w) = Some e \<and> later_journal d e \<and> set (called d) \<subseteq> set (called e)"
    if "wd_disk w = Some d" for d
    using that b called_grows by (fastforce simp: booked_def counted_def)
  moreover have "\<exists>d j. wd_disk w = Some d \<and> map_of (no_journal d) op = Some j \<and> was_run j" if "op \<in> set (wd_native w)" for op
    using that b by (fastforce simp: booked_def natives_ok_def counted_def called_def)
  moreover have "wd_mem (node_run E (Incoming (F_command cmd)) w) = wd_mem w \<and>
       wd_disk (node_run E (Incoming (F_command cmd)) w) = wd_disk w \<and>
       wd_native (node_run E (Incoming (F_command cmd)) w) = wd_native w"
    if "map_of (no_journal (wd_mem w)) (c_op cmd) = Some j" for j
    using that
    by (auto simp: attempt_def commandN_def bindS_get guardS_def receiptN_def orBroken_def send_def envS_def crashS_def
        run_simps split: option.split send_fate.split prod.splits sum.splits)
  ultimately show ?thesis using b by (auto simp: booked_def natives_ok_def)
qed

section \<open>A run\<close>

text \<open>A node that is paired, connects and is given a command.\<close>

definition trial_env :: "(nat \<Rightarrow> save_fate) \<Rightarrow> (nat \<Rightarrow> string) \<Rightarrow> nenv" where
  "trial_env fates bytes = \<lparr>nv_random = bytes, nv_clock = (\<lambda>_. 0), nv_save = fates, nv_send = (\<lambda>_. Sent),
     nv_file = (\<lambda>_. True), nv_size = (\<lambda>_. 0), nv_hash = (\<lambda>c. c_session c), nv_valid = (\<lambda>_ _. True), nv_order = id,
     nv_keypair = (\<lambda>_. replicate 64 CHR ''k''), nv_public = id, nv_sign = (\<lambda>k s. s),
     nv_enroll = (\<lambda>_ _. Some \<lparr>ev_enrollment = ''e'', ev_code = '''', ev_poll = ''p'', ev_fingerprint = '''', ev_expires = ''''\<rparr>),
     nv_poll = (\<lambda>_ _ _. Some \<lparr>es_state = Enroll_confirmed, es_node = Some ''node_1'', es_expires = ''''\<rparr>),
     nv_challenge = (\<lambda>_ _. Some \<lparr>nh_id = ''c'', nh_input = ''i'', nh_expires = ''''\<rparr>),
     nv_prove = (\<lambda>_ _. Some \<lparr>nt_token = ''t'', nt_token_expires = ''''\<rparr>),
     nv_dial = (\<lambda>_ _. Some (F_node_ready ''node_1'' 1 30 '''')), nv_stamp = (\<lambda>_. ''''), nv_parse = (\<lambda>s. int (length s)),
     nv_name = ''fake'', nv_fault = True\<rparr>"

definition trial_create :: node_command where
  "trial_create = \<lparr>c_op = ''op_1'', c_epoch = 1, c_deadline = ''soon'', c_session = ''s_1'', c_turn = ''t_1'', c_next_turn = '''',
     c_request = '''', c_payload = P_create \<lparr>cs_node = ''node_1'', cs_project = ''project_r'', cs_agent = ''agent_r'', cs_prompt = ''hi'',
       cs_caprev = 1, cs_origin = None, cs_preset = None, cs_history_only = False\<rparr>\<rparr>"



definition trial_key :: string where
  "trial_key = replicate 64 CHR ''k''"

definition trial_state :: "string \<Rightarrow> (string \<times> journal) list \<Rightarrow> (string \<times> node_session) list \<Rightarrow> node_state" where
  "trial_state nid js ss = \<lparr>no_key = std_encode trial_key, no_node = nid, no_project = ''project_r'', no_agent = ''agent_r'',
     no_enrollment = None, no_journal = js, no_sessions = ss, no_spool = [], no_calls = length js\<rparr>"

definition trial_world :: "node_state \<Rightarrow> bool \<Rightarrow> nat \<Rightarrow> (int \<times> node_message) list \<Rightarrow> world" where
  "trial_world st up n sent = \<lparr>wd_mem = st, wd_disk = Some st, wd_alive = True, wd_up = up, wd_epoch = (if up then 1 else 0),
     wd_offset = 0, wd_sent = sent, wd_native = [], wd_step = n\<rparr>"

text \<open>The first saves go well.\<close>

definition calm :: "(nat \<Rightarrow> save_fate) \<Rightarrow> (nat \<Rightarrow> string) \<Rightarrow> bool" where
  "calm fates bytes \<longleftrightarrow> (\<forall>n<25. fates n = Saved \<and> bytes n = ''r'')"

lemma calm_step: "calm fates bytes \<Longrightarrow> n < 25 \<Longrightarrow> fates n = Saved \<and> bytes n = ''r''"
  by (simp add: calm_def)

lemma trial_start: "calm fates bytes \<Longrightarrow> node_run (trial_env fates bytes) Start first_start = trial_world (trial_state [] [] []) False 5 []"
  by (simp add: calm_step run_simps envS_def guardS_def memS_def uidN_def save_def write_file_def state_quota_def load_def
    first_identity_def trial_env_def attempt_def trial_state_def trial_world_def trial_key_def first_start_def)

lemma trial_provision:
  "calm fates bytes \<Longrightarrow> node_run (trial_env fates bytes) (Provision 1) (trial_world (trial_state [] [] []) False 5 []) =
     trial_world (trial_state ''node_1'' [] []) False 9 []"
  by (simp add: calm_step run_simps envS_def guardS_def memS_def save_def write_file_def state_quota_def identity_key_def orBroken_def
    provision_def trial_env_def attempt_def trial_state_def trial_world_def std_decode_encode trial_key_def)

lemma trial_connect:
  "calm fates bytes \<Longrightarrow> \<exists>m. reports_in m = [] \<and> node_run (trial_env fates bytes) Connect (trial_world (trial_state ''node_1'' [] []) False 9 []) =
     trial_world (trial_state ''node_1'' [] []) True 15 [(1, m)]"
  by (simp add: calm_step run_simps envS_def guardS_def identity_key_def orBroken_def send_def uidN_def greet_def inventoryN_def
    connectN_def trial_env_def attempt_def trial_state_def trial_world_def std_decode_encode trial_key_def)

text \<open>The native call of this node fails, after it has been counted and filed.\<close>

definition trial_called :: node_state where
  "trial_called = trial_state ''node_1'' [(''op_1'', \<lparr>jn_hash = ''s_1'', jn_state = Jn_executing, jn_result = None,
     jn_error = None, jn_command = trial_create\<rparr>)] [(''s_1'', \<lparr>ks_id = ''s_1'', ks_turn = ''t_1'', ks_state = S_running, ks_seq = 0,
       ks_queue = [], ks_request = None\<rparr>)]"

definition trial_after :: "(nat \<Rightarrow> save_fate) \<Rightarrow> (nat \<Rightarrow> string) \<Rightarrow> world" where
  "trial_after fates bytes = fold (node_run (trial_env fates bytes))
     [Start, Provision 1, Connect, Incoming (F_command trial_create)] first_start"

lemma trial_after_reachable: "node_reachable (trial_env fates bytes) (trial_after fates bytes)"
  unfolding trial_after_def by (simp add: node_reachable.intros del: node_run.simps)

lemma trial_command:
  assumes c: "calm fates bytes"
  shows "\<exists>sent. trial_after fates bytes = \<lparr>wd_mem = trial_called, wd_disk = Some trial_called, wd_alive = True,
    wd_up = False, wd_epoch = 1, wd_offset = 0, wd_sent = sent, wd_native = [''op_1''], wd_step = 19\<rparr> \<and> concat (map (reports_in \<circ> snd) sent) = []"
proof -
  from trial_connect [OF c] obtain m where m: "reports_in m = []" and
    "node_run (trial_env fates bytes) Connect (trial_world (trial_state ''node_1'' [] []) False 9 []) =
       trial_world (trial_state ''node_1'' [] []) True 15 [(1, m)]" by blast
  then have "trial_after fates bytes = node_run (trial_env fates bytes) (Incoming (F_command trial_create))
      (trial_world (trial_state ''node_1'' [] []) True 15 [(1, m)])"
    by (simp add: trial_after_def trial_start [OF c] trial_provision [OF c] del: node_run.simps One_nat_def)
  also have "\<dots> = \<lparr>wd_mem = trial_called, wd_disk = Some trial_called, wd_alive = True,
    wd_up = False, wd_epoch = 1, wd_offset = 0, wd_sent = [(1, m), (1, Nm_ack ''op_1'' Rc_delivered)],
    wd_native = [''op_1''], wd_step = 19\<rparr>"
    by (simp add: calm_step [OF c] run_simps envS_def guardS_def orBroken_def memS_def send_def save_def write_file_def
      state_quota_def commandN_def new_command_def receiptN_def receipt_of_def check_command_def prepare_create_def
      add_session_def execute_def nativeS_def trial_create_def trial_env_def attempt_def trial_state_def trial_world_def Let_def
      trial_called_def)
  finally show ?thesis using m by simp
qed

text \<open>The process is killed after the call, started again and connected; the command arrives a second time.\<close>

definition trial_again :: world where
  "trial_again = fold (node_run (trial_env (\<lambda>_. Saved) (\<lambda>_. ''r''))) [Kill, Start, Connect]
     (trial_after (\<lambda>_. Saved) (\<lambda>_. ''r''))"

lemma trial_again_reachable: "node_reachable (trial_env (\<lambda>_. Saved) (\<lambda>_. ''r'')) trial_again"
  unfolding trial_again_def using trial_after_reachable by (simp add: node_reachable.intros del: node_run.simps)

lemma trial_again_state:
  "wd_up trial_again \<and> wd_native trial_again = [''op_1''] \<and>
     map_option jn_state (map_of (no_journal (wd_mem trial_again)) (c_op trial_create)) = Some Jn_unknown"
proof -
  have "calm (\<lambda>_. Saved) (\<lambda>_. ''r'')" by (simp add: calm_def)
  from trial_command [OF this] obtain sent where "trial_after (\<lambda>_. Saved) (\<lambda>_. ''r'') = \<lparr>wd_mem = trial_called,
    wd_disk = Some trial_called, wd_alive = True, wd_up = False, wd_epoch = 1, wd_offset = 0, wd_sent = sent,
    wd_native = [''op_1''], wd_step = 19\<rparr>" by blast
  then show ?thesis
    by (simp add: trial_again_def run_simps envS_def guardS_def orBroken_def memS_def send_def save_def write_file_def
      state_quota_def load_def resumed_def interrupted_def uidN_def identity_key_def std_decode_encode connectN_def
      greet_def inventoryN_def emitState_def emit_def new_report_def put_session_def sessionS_def transmitSource_def
      trial_env_def attempt_def trial_state_def trial_called_def trial_key_def trial_create_def Let_def)
qed

lemma commands_run_once_witness:
  "wd_up trial_again \<and> wd_native trial_again = [''op_1''] \<and> called (wd_mem trial_again) \<noteq> [] \<and>
     (\<exists>d j. wd_disk trial_again = Some d \<and> map_of (no_journal d) ''op_1'' = Some j \<and> was_run j) \<and>
     wd_native (node_run (trial_env (\<lambda>_. Saved) (\<lambda>_. ''r'')) (Incoming (F_command trial_create)) trial_again) = [''op_1'']"
proof -
  have n: "wd_native trial_again = [''op_1'']" and up: "wd_up trial_again"
    and known: "map_of (no_journal (wd_mem trial_again)) (c_op trial_create) \<noteq> None"
    using trial_again_state by auto
  have c: "called (wd_mem trial_again) \<noteq> []"
    using trial_again_state by (force simp: called_def filter_empty_conv was_run_def dest!: map_of_SomeD)
  note once = commands_run_once [OF trial_again_reachable, where cmd = trial_create and a = Kill]
  have "\<exists>d j. wd_disk trial_again = Some d \<and> map_of (no_journal d) ''op_1'' = Some j \<and> was_run j"
    using once n by (simp del: node_run.simps)
  moreover have "wd_native (node_run (trial_env (\<lambda>_. Saved) (\<lambda>_. ''r'')) (Incoming (F_command trial_create)) trial_again) = [''op_1'']"
    using once known n by (simp del: node_run.simps)
  ultimately show ?thesis using n up c by blast
qed

end
