(* ===== verification/Fakenode_Reports.thy ===== *)
theory Fakenode_Reports
  imports Fakenode_Spec
begin

text \<open>
  The reports of the node: those of a session are numbered without a gap, and as long as the file can be
  written no number is given to two reports.
\<close>

section \<open>Numbers\<close>

definition reports_of :: "string \<Rightarrow> node_state \<Rightarrow> source_message list" where
  "reports_of sid st = filter (\<lambda>m. source_session (src_body m) = sid) (no_spool st)"

text \<open>
  The reports of a session that wait for an acknowledgement are the last ones, in order; a session is filed
  under its own name and reports wait for known sessions only.
\<close>

definition numbered :: "node_state \<Rightarrow> bool" where
  "numbered st \<longleftrightarrow>
     (\<forall>sid s. map_of (no_sessions st) sid = Some s \<longrightarrow> ks_id s = sid \<and>
        (\<exists>k. 0 \<le> k \<and> k \<le> ks_seq s \<and> map src_seq (reports_of sid st) = [k + 1..ks_seq s])) \<and>
     (\<forall>sid. map_of (no_sessions st) sid = None \<longrightarrow> reports_of sid st = [])"

definition well_numbered :: "world \<Rightarrow> bool" where
  "well_numbered w \<longleftrightarrow> numbered (wd_mem w) \<and> (\<forall>d. wd_disk w = Some d \<longrightarrow> numbered d)"

lemma numbered_same:
  "numbered st \<Longrightarrow> no_sessions t = no_sessions st \<Longrightarrow> no_spool t = no_spool st \<Longrightarrow> numbered t"
  by (simp add: numbered_def reports_of_def)

lemma well_numbered_same:
  "well_numbered w \<Longrightarrow> wd_disk t = wd_disk w \<Longrightarrow> no_sessions (wd_mem t) = no_sessions (wd_mem w) \<Longrightarrow>
     no_spool (wd_mem t) = no_spool (wd_mem w) \<Longrightarrow> well_numbered t"
  unfolding well_numbered_def using numbered_same by metis

lemma numbered_session:
  "(\<And>s. ks_id (f s) = ks_id s \<and> ks_seq (f s) = ks_seq s) \<Longrightarrow> numbered st \<Longrightarrow> numbered (on_session sid f st)"
  by (auto simp: numbered_def on_session_def reports_of_def)

lemma numbered_create:
  "numbered st \<Longrightarrow> map_of (no_sessions st) sid = None \<Longrightarrow> numbered (add_session sid turn st)"
  by (auto simp: numbered_def add_session_def reports_of_def map_add_def split: option.splits)

lemma upto_above:
  "k \<le> (n::int) \<Longrightarrow> filter (\<lambda>i. seq < i) [k + 1..n] = [max k (min seq n) + 1..n]"
proof (induction "nat (n - k)" arbitrary: k)
  case 0
  then show ?case by simp
next
  case (Suc j)
  then have "[k + 1..n] = (k + 1) # [k + 1 + 1..n]" and "j = nat (n - (k + 1))" and "k + 1 \<le> n"
    by (simp_all add: upto_rec1)
  with Suc.hyps(1) [of "k + 1"] show ?case by (auto simp: max_def min_def upto_rec1)
qed

lemma numbered_acknowledged:
  assumes "numbered st"
  shows "numbered (acknowledged sid seq st)"
proof -
  have other: "reports_of i (acknowledged sid seq st) = (if i = sid then filter (\<lambda>m. src_seq m > seq) (reports_of i st)
      else reports_of i st)" for i
    by (auto simp: reports_of_def acknowledged_def intro: filter_cong)
  have "\<exists>k. 0 \<le> k \<and> k \<le> ks_seq s \<and> map src_seq (filter (\<lambda>m. src_seq m > seq) ms) = [k + 1..ks_seq s]"
    if "0 \<le> k" "k \<le> ks_seq s" "map src_seq ms = [k + 1..ks_seq s]" for k s ms
  proof -
    have "map src_seq (filter (\<lambda>m. src_seq m > seq) ms) = filter (\<lambda>i. seq < i) (map src_seq ms)"
      by (simp add: filter_map comp_def)
    with upto_above [OF that(2)] that show ?thesis
      by (intro exI [of _ "max k (min seq (ks_seq s))"]) auto
  qed
  then show ?thesis using assms unfolding numbered_def other
    by (auto simp: acknowledged_def) blast
qed

text \<open>A new report takes the next number.\<close>

definition reported :: "string \<Rightarrow> source_message \<Rightarrow> node_state \<Rightarrow> node_state" where
  "reported sid m st = (on_session sid (\<lambda>s. s\<lparr>ks_seq := ks_seq s + 1\<rparr>) st)\<lparr>no_spool := no_spool st @ [m]\<rparr>"

lemma numbered_reported:
  assumes n: "numbered st" and s: "map_of (no_sessions st) sid = Some s"
    and m: "src_seq m = ks_seq s + 1" "source_session (src_body m) = sid"
  shows "numbered (reported sid m st)"
proof -
  have r: "reports_of i (reported sid m st) = reports_of i st @ (if i = sid then [m] else [])" for i
    using m by (auto simp: reports_of_def reported_def)
  have k: "map_of (no_sessions (reported sid m st)) i =
      (if i = sid then Some (s\<lparr>ks_seq := ks_seq s + 1\<rparr>) else map_of (no_sessions st) i)" for i
    using s by (simp add: reported_def on_session_def)
  have next_number: "[a + 1..b] @ [b + 1] = [a + 1..b + 1]" if "a \<le> b" for a b :: int
    using that upto_rec2 [of "a + 1" "b + 1"] by simp
  show ?thesis unfolding numbered_def r k
  proof (intro conjI allI impI)
    fix i t assume t: "(if i = sid then Some (s\<lparr>ks_seq := ks_seq s + 1\<rparr>) else map_of (no_sessions st) i) = Some t"
    then show "ks_id t = i" using n s by (auto simp: numbered_def split: if_splits)
    show "\<exists>k. 0 \<le> k \<and> k \<le> ks_seq t \<and> map src_seq (reports_of i st @ (if i = sid then [m] else [])) = [k + 1..ks_seq t]"
    proof (cases "i = sid")
      case True
      from n s obtain k where "0 \<le> k" "k \<le> ks_seq s" "map src_seq (reports_of sid st) = [k + 1..ks_seq s]"
        by (auto simp: numbered_def)
      then show ?thesis using t True m next_number [of k "ks_seq s"] by (intro exI [of _ k]) auto
    next
      case False
      then show ?thesis using t n by (auto simp: numbered_def)
    qed
  qed (use n in \<open>auto simp: numbered_def split: if_splits\<close>)
qed

lemma new_report_named:
  assumes "map_of (no_sessions (wd_mem w)) sid = Some s"
  shows "\<exists>i. new_report E sid body w =
    (Inr \<lparr>src_event = i, src_seq = ks_seq s + 1, src_body = body\<rparr>,
     (on_mem (reported sid \<lparr>src_event = i, src_seq = ks_seq s + 1, src_body = body\<rparr>) w)\<lparr>wd_step := wd_step w + 1\<rparr>)"
  using assms
  by (simp add: new_report_def put_session_def memS_def uidN_def envS_def sessionS_def orBroken_def run_simps
      on_mem_def reported_def on_session_def Let_def)

section \<open>What was sent\<close>

definition seq_of :: "node_state \<Rightarrow> string \<Rightarrow> int" where
  "seq_of st sid = (case map_of (no_sessions st) sid of None \<Rightarrow> 0 | Some s \<Rightarrow> ks_seq s)"

definition sent_reports :: "world \<Rightarrow> source_message list" where
  "sent_reports w = concat (map (\<lambda>(epoch, m). reports_in m) (wd_sent w))"

definition same_number :: "source_message \<Rightarrow> source_message \<Rightarrow> bool" where
  "same_number m n \<longleftrightarrow> source_session (src_body m) = source_session (src_body n) \<and> src_seq m = src_seq n"

text \<open>A state knows of reports when their numbers are used up and only theirs.\<close>

definition knows :: "node_state \<Rightarrow> source_message list \<Rightarrow> bool" where
  "knows st ms \<longleftrightarrow> (\<forall>m\<in>set ms. src_seq m \<le> seq_of st (source_session (src_body m)) \<and>
     (\<forall>n\<in>set (no_spool st). same_number m n \<longrightarrow> m = n))"

definition unmixed :: "source_message list \<Rightarrow> bool" where
  "unmixed ms \<longleftrightarrow> (\<forall>m\<in>set ms. \<forall>n\<in>set ms. same_number m n \<longrightarrow> m = n)"

definition traced :: "world \<Rightarrow> bool" where
  "traced w \<longleftrightarrow> unmixed (sent_reports w) \<and> knows (wd_mem w) (sent_reports w) \<and>
     (case wd_disk w of None \<Rightarrow> sent_reports w = [] | Some d \<Rightarrow> knows d (sent_reports w))"

definition synced :: "world \<Rightarrow> bool" where
  "synced w \<longleftrightarrow> (\<exists>d. wd_disk w = Some d \<and> no_spool d = no_spool (wd_mem w) \<and> seq_of d = seq_of (wd_mem w))"

definition told_once :: "nenv \<Rightarrow> world \<Rightarrow> bool" where
  "told_once E w \<longleftrightarrow> well_numbered w \<and> (reliable E \<longrightarrow> traced w \<and> synced w)"

definition told_before :: "nenv \<Rightarrow> world \<Rightarrow> bool" where
  "told_before E w \<longleftrightarrow> well_numbered w \<and> (reliable E \<longrightarrow> traced w)"

definition told_ever :: "nenv \<Rightarrow> world \<Rightarrow> bool" where
  "told_ever E w \<longleftrightarrow> told_before E w \<and> (wd_alive w \<longrightarrow> told_once E w)"

lemma spool_numbers:
  assumes "numbered st" and "m \<in> set (no_spool st)"
  shows "src_seq m \<le> seq_of st (source_session (src_body m))"
    and "n \<in> set (no_spool st) \<Longrightarrow> same_number m n \<Longrightarrow> m = n"
proof -
  let ?sid = "source_session (src_body m)"
  have m: "m \<in> set (reports_of ?sid st)" using assms(2) by (simp add: reports_of_def)
  then obtain s where s: "map_of (no_sessions st) ?sid = Some s"
    using assms(1) by (cases "map_of (no_sessions st) ?sid") (auto simp: numbered_def)
  with assms(1) obtain k where k: "map src_seq (reports_of ?sid st) = [k + 1..ks_seq s]"
    unfolding numbered_def by blast
  have "src_seq m \<in> set (map src_seq (reports_of ?sid st))" using m by simp
  then show "src_seq m \<le> seq_of st ?sid" unfolding k by (simp add: seq_of_def s)
  assume n: "n \<in> set (no_spool st)" "same_number m n"
  then have "n \<in> set (reports_of ?sid st)" by (simp add: reports_of_def same_number_def)
  moreover have "inj_on src_seq (set (reports_of ?sid st))"
    using k distinct_upto [of "k + 1" "ks_seq s"] by (metis distinct_map)
  ultimately show "m = n" using m n(2) by (simp add: inj_on_def same_number_def)
qed

section \<open>What the operations do to it\<close>

lemma knows_less:
  "knows s ms \<Longrightarrow> set (no_spool t) \<subseteq> set (no_spool s) \<Longrightarrow> seq_of t = seq_of s \<Longrightarrow> knows t ms"
  unfolding knows_def by fastforce

lemma seq_of_cong: "no_sessions t = no_sessions s \<Longrightarrow> seq_of t = seq_of s"
  by (simp add: seq_of_def fun_eq_iff)

lemma sent_reports_cong: "wd_sent t = wd_sent w \<Longrightarrow> sent_reports t = sent_reports w"
  by (simp add: sent_reports_def)

text \<open>Less to send is no harm.\<close>

lemma before_less:
  assumes w: "told_before E w" and t: "wd_disk t = wd_disk w" "set (no_spool (wd_mem t)) \<subseteq> set (no_spool (wd_mem w))"
    "no_sessions (wd_mem t) = no_sessions (wd_mem w)" "wd_sent t = wd_sent w" "numbered (wd_mem t)"
  shows "told_before E t"
  using w t knows_less [OF _ t(2) seq_of_cong [OF t(3)]]
  by (auto simp: told_before_def well_numbered_def traced_def sent_reports_cong [OF t(4)] split: option.splits)

lemma told_same:
  assumes w: "told_once E w" and d: "wd_disk t = wd_disk w" and sp: "no_spool (wd_mem t) = no_spool (wd_mem w)"
    and q: "seq_of (wd_mem t) = seq_of (wd_mem w)" and r: "sent_reports t = sent_reports w" and n: "numbered (wd_mem t)"
  shows "told_once E t"
proof -
  have "knows (wd_mem t) ms = knows (wd_mem w) ms" for ms using sp q by (simp add: knows_def)
  moreover have "synced t = synced w" using d sp q by (simp add: synced_def)
  ultimately show ?thesis using w d r n
    by (simp add: told_once_def well_numbered_def traced_def split: option.splits)
qed

lemma told_unchanged:
  assumes w: "told_once E w" and "wd_disk t = wd_disk w" and "no_spool (wd_mem t) = no_spool (wd_mem w)"
    and s: "no_sessions (wd_mem t) = no_sessions (wd_mem w)" and r: "wd_sent t = wd_sent w"
  shows "told_once E t"
proof -
  have "numbered (wd_mem t)" using assms numbered_same by (auto simp: told_once_def well_numbered_def)
  then show ?thesis by (rule told_same [OF w assms(2,3) seq_of_cong [OF s] sent_reports_cong [OF r]])
qed

lemma before_unchanged:
  assumes "told_before E w" and "wd_disk t = wd_disk w" and "no_spool (wd_mem t) = no_spool (wd_mem w)"
    and "no_sessions (wd_mem t) = no_sessions (wd_mem w)" and "wd_sent t = wd_sent w"
  shows "told_before E t"
proof -
  have "numbered (wd_mem t)" using assms numbered_same by (auto simp: told_before_def well_numbered_def)
  then show ?thesis using assms by (intro before_less [OF assms(1)]) simp_all
qed

lemma told_before_once: "told_once E w \<Longrightarrow> told_before E w"
  by (simp add: told_once_def told_before_def)

lemma ever_dead: "told_before E w \<Longrightarrow> told_ever E (w\<lparr>wd_alive := False, wd_up := False\<rparr>)"
  by (simp add: told_ever_def before_unchanged [of E w])

lemma once_ever: "told_once E w \<Longrightarrow> told_ever E w"
  by (simp add: told_ever_def told_before_once)

lemma ever_before: "told_ever E w \<Longrightarrow> told_before E w"
  by (simp add: told_ever_def)

lemma told_write: "told_before E w \<Longrightarrow> told_once E (write_file w)"
  by (simp add: told_before_def told_once_def well_numbered_def traced_def synced_def write_file_def sent_reports_def)

lemma told_save:
  "leads (\<lambda>w. told_before E w \<and> Q (wd_mem w)) (save E) (\<lambda>_ w. told_once E w \<and> Q (wd_mem w)) (told_ever E)"
proof (rule leads_save)
  fix w assume w: "told_before E w \<and> Q (wd_mem w)"
  show "told_before E (w\<lparr>wd_step := n\<rparr>) \<and> Q (wd_mem (w\<lparr>wd_step := n\<rparr>))" for n
    using w before_unchanged [of E w "w\<lparr>wd_step := n\<rparr>"] by simp
  show "told_once E (write_file w) \<and> Q (wd_mem (write_file w))" using w told_write by (simp add: write_file_def)
  show "told_ever E (w\<lparr>wd_alive := False, wd_up := False\<rparr>)" using w by (simp add: ever_dead)
  show "told_ever E w" if "\<not> reliable E"
    using w that by (simp add: told_ever_def told_before_def told_once_def)
qed (simp add: ever_dead told_before_once)

lemma told_saved: "leads (told_before E) (save E) (\<lambda>_. told_once E) (told_ever E)"
  using told_save [of E "\<lambda>_. True"] by simp

text \<open>A report of the spool is sent; one that is new is put on the spool.\<close>

lemma sent_reports_snoc: "sent_reports (w\<lparr>wd_sent := wd_sent w @ [(ep, m)]\<rparr>) = sent_reports w @ reports_in m"
  by (simp add: sent_reports_def)

lemma knows_more:
  "knows st ms \<Longrightarrow> numbered st \<Longrightarrow> m \<in> set (no_spool st) \<Longrightarrow> knows st (ms @ [m])"
  using spool_numbers by (fastforce simp: knows_def)

lemma unmixed_more:
  "unmixed ms \<Longrightarrow> knows st ms \<Longrightarrow> m \<in> set (no_spool st) \<Longrightarrow> unmixed (ms @ [m])"
proof -
  assume "unmixed ms" and k: "knows st ms" and m: "m \<in> set (no_spool st)"
  have "n = m" if "n \<in> set ms" "same_number n m" for n using k m that by (simp add: knows_def)
  with \<open>unmixed ms\<close> show ?thesis by (auto simp: unmixed_def same_number_def)
qed

lemma told_report:
  assumes "told_once E w" and "m \<in> set (no_spool (wd_mem w))" and "reports_in n = [m]"
  shows "told_once E (w\<lparr>wd_sent := wd_sent w @ [(ep, n)]\<rparr>)"
  using assms knows_more [of "wd_mem w" "sent_reports w" m] unmixed_more [of "sent_reports w" "wd_mem w" m]
    knows_less [of "wd_mem w" "sent_reports w @ [m]"]
  by (auto simp: told_once_def well_numbered_def traced_def synced_def sent_reports_snoc)

lemma told_transmit:
  assumes "m \<in> set sp"
  shows "holds (\<lambda>w. told_once E w \<and> no_spool (wd_mem w) = sp) (transmitSource E m) (told_ever E)"
proof -
  have "leads (\<lambda>w. told_once E w \<and> no_spool (wd_mem w) = sp) (send E n)
      (\<lambda>_ w. told_once E w \<and> no_spool (wd_mem w) = sp) (told_ever E)" if "reports_in n = [m]" for n
  proof (rule leads_send)
    fix w assume w: "told_once E w \<and> no_spool (wd_mem w) = sp"
    show "told_once E (w\<lparr>wd_step := k\<rparr>) \<and> no_spool (wd_mem (w\<lparr>wd_step := k\<rparr>)) = sp" for k
      using w told_unchanged [of E w "w\<lparr>wd_step := k\<rparr>"] by simp
    show "told_once E (w\<lparr>wd_sent := wd_sent w @ [(ep, n)]\<rparr>) \<and>
        no_spool (wd_mem (w\<lparr>wd_sent := wd_sent w @ [(ep, n)]\<rparr>)) = sp" for ep
      using w told_report [OF _ _ that] assms by simp
  qed (simp_all add: once_ever ever_before ever_dead)
  then show ?thesis unfolding holds_def transmitSource_def by (simp split: source_body.split)
qed

lemma before_reported:
  assumes "told_once E w" and "map_of (no_sessions (wd_mem w)) sid = Some s"
    and "src_seq m = ks_seq s + 1" and "source_session (src_body m) = sid"
  shows "told_before E (on_mem (reported sid m) w)"
proof -
  have n: "numbered (reported sid m (wd_mem w))"
    using assms by (auto simp: told_once_def well_numbered_def intro: numbered_reported)
  have "seq_of (reported sid m (wd_mem w)) i = (if i = sid then ks_seq s + 1 else seq_of (wd_mem w) i)" for i
    using assms(2) by (simp add: seq_of_def reported_def on_session_def)
  then have "knows (wd_mem w) ms \<Longrightarrow> knows (reported sid m (wd_mem w)) ms" for ms
    using assms(2-4) by (fastforce simp: knows_def reported_def same_number_def seq_of_def on_session_def)
  with n assms(1) show ?thesis
    by (auto simp: told_once_def told_before_def well_numbered_def traced_def on_mem_def sent_reports_def split: option.splits)
qed

lemma told_new_report:
  "leads (named (told_once E) sid (source_session body)) (new_report E sid body)
     (\<lambda>m w. told_before E w \<and> m \<in> set (no_spool (wd_mem w))) (told_ever E)"
  unfolding leads_def
proof (intro allI impI)
  fix w assume w: "named (told_once E) sid (source_session body) w"
  then have t: "told_once E w" by (simp add: named_def)
  from w obtain s where s: "map_of (no_sessions (wd_mem w)) sid = Some s" "ks_id s = source_session body"
    unfolding named_def by blast
  have "numbered (wd_mem w)" using t by (simp add: told_once_def well_numbered_def)
  then have "ks_id s = sid" using s(1) unfolding numbered_def by blast
  then have sid: "source_session body = sid" using s(2) by simp
  from new_report_named [OF s(1)] obtain i where i: "new_report E sid body w =
    (Inr \<lparr>src_event = i, src_seq = ks_seq s + 1, src_body = body\<rparr>,
     (on_mem (reported sid \<lparr>src_event = i, src_seq = ks_seq s + 1, src_body = body\<rparr>) w)\<lparr>wd_step := wd_step w + 1\<rparr>)"
    by blast
  define m where "m = \<lparr>src_event = i, src_seq = ks_seq s + 1, src_body = body\<rparr>"
  have "told_before E (on_mem (reported sid m) w)"
    by (rule before_reported [OF t s(1)]) (simp_all add: m_def sid)
  then have "told_before E ((on_mem (reported sid m) w)\<lparr>wd_step := wd_step w + 1\<rparr>)"
    by (rule before_unchanged) simp_all
  moreover have "m \<in> set (no_spool (wd_mem ((on_mem (reported sid m) w)\<lparr>wd_step := wd_step w + 1\<rparr>)))"
    by (simp add: on_mem_def reported_def)
  ultimately show "case new_report E sid body w of (Inl e, t) \<Rightarrow> told_ever E t
      | (Inr m, t) \<Rightarrow> told_before E t \<and> m \<in> set (no_spool (wd_mem t))"
    unfolding i m_def [symmetric] by simp
qed

lemma told_transmit_new:
  "leads (\<lambda>w. told_once E w \<and> m \<in> set (no_spool (wd_mem w))) (transmitSource E m) (\<lambda>_. told_once E) (told_ever E)"
  unfolding leads_def
proof (intro allI impI)
  fix w assume w: "told_once E w \<and> m \<in> set (no_spool (wd_mem w))"
  then have "m \<in> set (no_spool (wd_mem w))" by simp
  from leadsD [OF holdsD [OF told_transmit [OF this, of E]], of w] w
  have "case transmitSource E m w of (Inl e, t) \<Rightarrow> told_ever E t
      | (Inr x, t) \<Rightarrow> told_once E t \<and> no_spool (wd_mem t) = no_spool (wd_mem w)" by simp
  then show "case transmitSource E m w of (Inl e, t) \<Rightarrow> told_ever E t | (Inr x, t) \<Rightarrow> told_once E t"
    by (simp split: prod.splits sum.splits)
qed

lemma told_emit:
  "leads (named (told_once E) sid (source_session body)) (emit E sid body) (\<lambda>_. told_once E) (told_ever E)"
  unfolding emit_def
  by (rule leads_bind [OF told_new_report],
      rule leads_then [OF told_save [where Q = "\<lambda>st. _ \<in> set (no_spool st)"] told_transmit_new])

text \<open>An acknowledgement, and a start of the process.\<close>

lemma before_acknowledged: "told_once E w \<Longrightarrow> told_before E (on_mem (acknowledged sid seq) w)"
  using numbered_acknowledged [of "wd_mem w" sid seq]
  by (rule_tac before_less [OF told_before_once]) (auto simp: told_once_def well_numbered_def on_mem_def acknowledged_def)

lemma told_ack: "holds (told_once E) (thenS (memS (acknowledged sid seq)) (save E)) (told_ever E)"
  unfolding holds_def memS_def
  by (rule leads_then [OF leads_mod told_saved]) (use before_acknowledged in \<open>simp add: on_mem_def\<close>)

lemma told_resumed:
  assumes "told_before E w" and "wd_disk w = Some d"
  shows "told_before E (w\<lparr>wd_mem := resumed d\<rparr>)"
proof -
  have "numbered (resumed d)" using assms numbered_same [of d "resumed d"]
    by (simp add: told_before_def well_numbered_def resumed_def)
  moreover have "knows d ms \<Longrightarrow> knows (resumed d) ms" for ms
    by (erule knows_less) (simp_all add: resumed_def seq_of_def fun_eq_iff)
  ultimately show ?thesis using assms
    by (simp add: told_before_def well_numbered_def traced_def sent_reports_def)
qed

lemma told_first:
  "leads (\<lambda>w. told_before E w \<and> wd_disk w = None) (first_identity E) (\<lambda>_. told_once E) (told_ever E)"
proof -
  let ?P = "\<lambda>w. told_before E w \<and> wd_disk w = None"
  have env: "leads ?P (envS f) (\<lambda>_. ?P) (told_ever E)" for f :: "nat \<Rightarrow> string"
    by (auto simp: leads_def envS_def elim: before_unchanged)
  have uid: "leads ?P (uidN E p) (\<lambda>_. ?P) (told_ever E)" for p
    unfolding uidN_def by (rule leads_bind [OF env]) (simp add: leads_def returnS_run)
  have fresh: "leads ?P (memS (\<lambda>_. \<lparr>no_key = k, no_node = n, no_project = pr, no_agent = a, no_enrollment = en,
      no_journal = [], no_sessions = [], no_spool = [], no_calls = 0\<rparr>)) (\<lambda>_. told_before E) (told_ever E)"
    for k n pr a en
    unfolding memS_def
    by (rule leads_mod)
      (auto simp: told_before_def well_numbered_def numbered_def reports_of_def traced_def knows_def
        sent_reports_cong [of "wd_mem_update _ _"])
  show ?thesis unfolding first_identity_def
    by (rule leads_bind [OF env], rule leads_bind [OF uid], rule leads_bind [OF uid], rule leads_then [OF fresh],
        rule told_saved)
qed

lemma told_load: "leads (\<lambda>w. told_ever E w \<and> \<not> wd_alive w) (load E) (\<lambda>_. told_once E) (told_ever E)"
  unfolding leads_def
proof (intro allI impI)
  fix w assume w: "told_ever E w \<and> \<not> wd_alive w"
  let ?w = "w\<lparr>wd_step := wd_step w + 1\<rparr>"
  have b: "told_before E ?w" using ever_before [of E w] w before_unchanged [of E w ?w] by simp
  have e: "told_ever E ?w" using b w by (simp add: told_ever_def)
  show "case load E w of (Inl e, t) \<Rightarrow> told_ever E t | (Inr x, t) \<Rightarrow> told_once E t"
  proof (cases "wd_disk w")
    case (Some st)
    have "told_before E (?w\<lparr>wd_mem := resumed st\<rparr>)" using told_resumed [OF b, of st] Some by simp
    then have "case save E (?w\<lparr>wd_mem := resumed st\<rparr>) of (Inl e, t) \<Rightarrow> told_ever E t | (Inr x, t) \<Rightarrow> told_once E t"
      using told_saved [of E] unfolding leads_def by simp
    then show ?thesis using Some e by (simp add: load_def envS_def guardS_def memS_def run_simps)
  next
    case None
    have "case first_identity E ?w of (Inl e, t) \<Rightarrow> told_ever E t | (Inr x, t) \<Rightarrow> told_once E t"
      using told_first [of E] b None unfolding leads_def by simp
    then show ?thesis using None e by (simp add: load_def envS_def guardS_def run_simps)
  qed
qed

interpretation tr: carrier E "told_once E" "told_ever E" for E
proof unfold_locales
  show "leads (\<lambda>w. told_ever E w \<and> \<not> wd_alive w)
      (thenS (load E) (modS (\<lambda>w. w\<lparr>wd_alive := True, wd_up := False\<rparr>))) (\<lambda>_. told_ever E) (told_ever E)"
    by (rule leads_then [OF told_load], rule leads_mod)
      (auto intro!: once_ever elim: told_unchanged)
  show "told_ever E (w\<lparr>wd_up := False\<rparr>)" if "told_ever E w" for w
    using that before_unchanged [of E w "w\<lparr>wd_up := False\<rparr>"] told_unchanged [of E w "w\<lparr>wd_up := False\<rparr>"]
    by (auto simp: told_ever_def)
  show "told_ever E (w\<lparr>wd_alive := False, wd_up := False\<rparr>)" if "told_ever E w" for w
    by (rule ever_dead [OF ever_before [OF that]])
  show "told_once E (on_mem (on_session sid f) w)" if "\<And>s. ks_id (f s) = ks_id s \<and> ks_seq (f s) = ks_seq s" "told_once E w"
    for f sid w
  proof (rule told_same [OF that(2)])
    show "numbered (wd_mem (on_mem (on_session sid f) w))"
      using that numbered_session by (simp add: on_mem_def told_once_def well_numbered_def)
    show "seq_of (wd_mem (on_mem (on_session sid f) w)) = seq_of (wd_mem w)"
      using that(1) by (auto simp: on_mem_def seq_of_def on_session_def fun_eq_iff split: option.split)
  qed (simp_all add: on_mem_def on_session_def sent_reports_def)
  show "told_once E (on_mem (add_session sid turn) w)" if "told_once E w" "map_of (no_sessions (wd_mem w)) sid = None"
    for sid turn w
  proof (rule told_same [OF that(1)])
    show "numbered (wd_mem (on_mem (add_session sid turn) w))"
      using that numbered_create by (simp add: on_mem_def told_once_def well_numbered_def)
    show "seq_of (wd_mem (on_mem (add_session sid turn) w)) = seq_of (wd_mem w)"
      using that(2) by (auto simp: on_mem_def seq_of_def add_session_def map_add_def fun_eq_iff split: option.splits)
  qed (simp_all add: on_mem_def add_session_def sent_reports_def)
  show "told_once E (w\<lparr>wd_sent := wd_sent w @ [(ep, m)]\<rparr>)" if "told_once E w" "reports_in m = []" for w ep m
    by (rule told_same [OF that(1)])
      (use that in \<open>simp_all add: sent_reports_snoc told_once_def well_numbered_def\<close>)
  show "holds (told_once E) (save E) (told_ever E)"
    unfolding holds_def
    by (rule leads_pre [OF told_saved]) (rule told_before_once)
qed (auto simp: on_mem_def told_before_once told_ever_def told_emit told_transmit told_ack elim: told_unchanged)

section \<open>The promise\<close>

text \<open>
  C11: whatever fails and whenever the process is killed, the reports of a session that wait in the
  spool, in memory and in the file, carry the last numbers of the session, without a gap and in order, and
  every session is filed under its name; and if the file can always be written, two reports that were ever
  sent for a session under the same number are the same report.
\<close>

theorem reports_told_once:
  assumes "node_reachable E w"
  shows "numbered (wd_mem w) \<and> (\<forall>d. wd_disk w = Some d \<longrightarrow> numbered d) \<and>
    (reliable E \<longrightarrow> (\<forall>m\<in>set (sent_reports w). \<forall>n\<in>set (sent_reports w). same_number m n \<longrightarrow> m = n))"
proof -
  have "told_ever E first_start"
    by (simp add: told_ever_def told_before_def told_once_def well_numbered_def numbered_def reports_of_def traced_def
        knows_def unmixed_def sent_reports_def first_start_def no_state_def)
  with tr.x_reachable [OF assms] have "told_before E w" using ever_before by blast
  then show ?thesis by (simp add: told_before_def well_numbered_def traced_def unmixed_def)
qed

text \<open>The node of the run before connects again and reports its session.\<close>

definition trial_spooled :: "journal_state \<Rightarrow> int \<Rightarrow> source_message list \<Rightarrow> node_state" where
  "trial_spooled s k spool = (trial_state ''node_1'' [(''op_1'', \<lparr>jn_hash = ''s_1'', jn_state = s, jn_result = None,
     jn_error = None, jn_command = trial_create\<rparr>)] [(''s_1'', \<lparr>ks_id = ''s_1'', ks_turn = ''t_1'', ks_state = S_running,
     ks_seq = k, ks_queue = [], ks_request = None\<rparr>)])\<lparr>no_spool := spool\<rparr>"

definition trial_report :: "string \<Rightarrow> source_message" where
  "trial_report r = \<lparr>src_event = ''source_'' @ r, src_seq = 1, src_body = Src_session \<lparr>ns_session = ''s_1'',
     ns_turn = ''t_1'', ns_state = S_running, ns_caps = fake_caps, ns_caprev = 1, ns_queue = []\<rparr>\<rparr>"

definition trial_alive :: "node_state \<Rightarrow> node_state \<Rightarrow> (int \<times> node_message) list \<Rightarrow> nat \<Rightarrow> world" where
  "trial_alive mem disk sent n = \<lparr>wd_mem = mem, wd_disk = Some disk, wd_alive = True, wd_up = False, wd_epoch = 1,
     wd_offset = 0, wd_sent = sent, wd_native = [''op_1''], wd_step = n\<rparr>"

lemma trial_after_alive:
  assumes "calm fates bytes"
  obtains sent where "trial_after fates bytes =
    trial_alive (trial_spooled Jn_executing 0 []) (trial_spooled Jn_executing 0 []) sent 19"
proof -
  have "trial_called = trial_spooled Jn_executing 0 []" by (simp add: trial_called_def trial_spooled_def trial_state_def)
  then show ?thesis using trial_command [OF assms] that by (auto simp: trial_alive_def)
qed

lemmas trial_rules = run_simps envS_def guardS_def orBroken_def memS_def send_def save_def write_file_def
  state_quota_def uidN_def identity_key_def std_decode_encode connectN_def greet_def inventoryN_def emitState_def emit_def
  new_report_def put_session_def sessionS_def transmitSource_def trial_env_def attempt_def trial_state_def
  trial_spooled_def trial_report_def trial_alive_def crashS_def trial_key_def Let_def

lemma trial_greets:
  assumes "fates 26 = Saved"
  shows "\<exists>m. wd_sent (node_run (trial_env fates bytes) Connect
      (trial_alive (trial_spooled Jn_executing 0 []) (trial_spooled Jn_executing 0 []) sent 19)) =
    sent @ [m, (1, Nm_source (trial_report (bytes 25)))] \<and> reports_in (snd m) = []"
  using assms by (simp add: trial_rules)

lemma reports_told_once_witness:
  "\<exists>E w m. node_reachable E w \<and> m \<in> set (sent_reports w) \<and> src_seq m = 1 \<and> numbered (wd_mem w) \<and>
     (\<forall>m\<in>set (sent_reports w). \<forall>n\<in>set (sent_reports w). same_number m n \<longrightarrow> m = n)"
proof -
  define fates where "fates = (\<lambda>n::nat. Saved)"
  define bytes where "bytes = (\<lambda>n::nat. ''r'')"
  let ?E = "trial_env fates bytes"
  have "calm fates bytes" by (simp add: calm_def fates_def bytes_def)
  then obtain sent where a: "trial_after fates bytes =
    trial_alive (trial_spooled Jn_executing 0 []) (trial_spooled Jn_executing 0 []) sent 19" by (rule trial_after_alive)
  have r: "node_reachable ?E (node_run ?E Connect (trial_after fates bytes))"
    by (intro node_reachable.step trial_after_reachable)
  have l: "reliable ?E" by (simp add: reliable_def trial_env_def fates_def state_quota_def)
  have "trial_report (bytes 25) \<in> set (sent_reports (node_run ?E Connect (trial_after fates bytes)))"
    unfolding a using trial_greets [of fates bytes sent] by (auto simp: sent_reports_def fates_def)
  with r l reports_told_once [OF r] show ?thesis by (force simp: trial_report_def)
qed

section \<open>A file that cannot be written\<close>

lemma trial_failed:
  assumes "fates 26 = Save_failed"
  shows "\<exists>t. node_run (trial_env fates bytes) Connect
      (trial_alive (trial_spooled Jn_executing 0 []) (trial_spooled Jn_executing 0 []) sent 19) =
    trial_alive (trial_spooled Jn_executing 1 [trial_report (bytes 25)]) (trial_spooled Jn_executing 0 []) t 27"
  using assms by (simp add: trial_rules)

lemma trial_crashed:
  assumes "fates 35 = Crash_before"
  shows "\<exists>m n. node_run (trial_env fates bytes) Connect
      (trial_alive (trial_spooled Jn_executing 1 [trial_report r]) (trial_spooled Jn_executing 0 []) sent 27) =
    (trial_alive m (trial_spooled Jn_executing 0 []) (sent @ [n, (1, Nm_source (trial_report r))]) 36)
      \<lparr>wd_alive := False\<rparr>"
  using assms by (simp add: trial_rules)

lemma trial_restarted:
  assumes "fates 37 = Saved"
  shows "node_run (trial_env fates bytes) Start
      ((trial_alive m (trial_spooled Jn_executing 0 []) sent 36)\<lparr>wd_alive := False\<rparr>) =
    trial_alive (trial_spooled Jn_unknown 0 []) (trial_spooled Jn_unknown 0 []) sent 38"
  using assms by (simp add: trial_rules load_def resumed_def interrupted_def)

lemma trial_reused:
  assumes "fates 45 = Saved"
  shows "\<exists>n. wd_sent (node_run (trial_env fates bytes) Connect
      (trial_alive (trial_spooled Jn_unknown 0 []) (trial_spooled Jn_unknown 0 []) sent 38)) =
    sent @ [n, (1, Nm_source (trial_report (bytes 44)))]"
  using assms by (simp add: trial_rules)

text \<open>
  C25: the promise needs the file: when one save fails, the report it should have kept stays in the memory
  of the node, is sent unsaved when the node connects again, and after a crash its number goes to another
  report of the session.
\<close>

theorem unsaved_report_reused:
  "\<exists>E w m n. node_reachable E w \<and> (\<exists>!k. nv_save E k = Save_failed) \<and> m \<in> set (sent_reports w) \<and>
     n \<in> set (sent_reports w) \<and> same_number m n \<and> src_event m \<noteq> src_event n"
proof -
  define fates where "fates = (\<lambda>n::nat. if n = 26 then Save_failed else if n = 35 then Crash_before else Saved)"
  define bytes where "bytes = (\<lambda>n::nat. if n = 44 then ''x'' else ''r'')"
  let ?E = "trial_env fates bytes"
  have f: "fates 26 = Save_failed" "fates 35 = Crash_before" "fates 37 = Saved" "fates 45 = Saved"
    by (simp_all add: fates_def)
  have "calm fates bytes" by (simp add: calm_def fates_def bytes_def)
  then obtain s where 0: "trial_after fates bytes =
    trial_alive (trial_spooled Jn_executing 0 []) (trial_spooled Jn_executing 0 []) s 19" by (rule trial_after_alive)
  define w where "w = node_run ?E Connect (node_run ?E Start (node_run ?E Connect (node_run ?E Connect (trial_after fates bytes))))"
  obtain a b c where "wd_sent w = a @ [b, (1, Nm_source (trial_report (bytes 25))), c, (1, Nm_source (trial_report (bytes 44)))]"
  proof -
    obtain t1 where 1: "node_run ?E Connect (trial_after fates bytes) =
        trial_alive (trial_spooled Jn_executing 1 [trial_report (bytes 25)]) (trial_spooled Jn_executing 0 []) t1 27"
      unfolding 0 using trial_failed [of fates, OF f(1)] by blast
    obtain m n where 2: "node_run ?E Connect (node_run ?E Connect (trial_after fates bytes)) =
        (trial_alive m (trial_spooled Jn_executing 0 []) (t1 @ [n, (1, Nm_source (trial_report (bytes 25)))]) 36)
          \<lparr>wd_alive := False\<rparr>"
      unfolding 1 using trial_crashed [of fates, OF f(2)] by blast
    let ?s = "t1 @ [n, (1, Nm_source (trial_report (bytes 25)))]"
    obtain k where "wd_sent w = ?s @ [k, (1, Nm_source (trial_report (bytes 44)))]"
      unfolding w_def 2 trial_restarted [of fates, OF f(3)]
      using trial_reused [of fates bytes ?s, OF f(4)] by blast
    then show ?thesis by (intro that) simp
  qed
  then have "trial_report (bytes 25) \<in> set (sent_reports w)" "trial_report (bytes 44) \<in> set (sent_reports w)"
    by (simp_all add: sent_reports_def case_prod_beta)
  moreover have "same_number (trial_report x) (trial_report y)" for x y by (simp add: same_number_def trial_report_def)
  moreover have "src_event (trial_report (bytes 25)) \<noteq> src_event (trial_report (bytes 44))"
    by (simp add: trial_report_def bytes_def)
  moreover have "node_reachable ?E w" unfolding w_def by (intro node_reachable.step trial_after_reachable)
  moreover have "\<exists>!k. nv_save ?E k = Save_failed" 
    by (rule ex1I [of _ 26]) (auto simp: trial_env_def fates_def split: if_splits)
  ultimately show ?thesis by blast
qed

end
