(* ===== verification/Config_Spec.thy ===== *)
theory Config_Spec
  imports Config
begin

unbundle bit_operations_syntax

text \<open>
  A configuration that was accepted is safe to serve with, and a client cannot choose the address it is
  counted under unless it comes through a proxy that the configuration names.
\<close>

section \<open>What an accepted configuration promises\<close>

definition origin_ok :: "string \<Rightarrow> bool" where
  "origin_ok s \<longleftrightarrow> s \<noteq> [] \<and> CHR ''*'' \<notin> set s \<and> CHR ''?'' \<notin> set s"

definition proxy_ok :: "prefix \<Rightarrow> bool" where
  "proxy_ok p \<longleftrightarrow> px_bits p \<le> addr_bits (px_addr p) \<and> zone_of (px_addr p) = [] \<and>
     (\<exists>a. addr_bits a = addr_bits (px_addr p) \<and> zone_of a = [] \<and> \<not> px_contains p a)"

definition template_ok :: "subscription_template \<Rightarrow> bool" where
  "template_ok t \<longleftrightarrow> st_id t \<noteq> [] \<and> length (st_id t) \<le> 128 \<and> st_title t \<noteq> [] \<and> rune_count (st_title t) \<le> 100 \<and>
     st_kind t \<noteq> N_system \<and> st_app t \<in> {''formal'', ''trial'', ''developer''} \<and>
     st_data t \<noteq> [] \<and> length (st_data t) \<le> 10 \<and>
     (\<forall>(key, f)\<in>set (st_data t). key \<noteq> [] \<and> length key \<le> 64 \<and> 1 \<le> sf_limit f \<and> sf_limit f \<le> 200 \<and>
        (sf_source f = Src_value \<longrightarrow> sf_value f \<noteq> []))"

definition limits_ok :: "settings \<Rightarrow> bool" where
  "limits_ok c \<longleftrightarrow> sg_connections c \<in> {1..10000} \<and> sg_inflight c \<in> {1..10000}"

definition times_ok :: "settings \<Rightarrow> bool" where
  "times_ok c \<longleftrightarrow> sg_heartbeat c \<in> {5 * second..60 * second} \<and> sg_offline_after c \<in> {2 * sg_heartbeat c..hour} \<and>
     sg_command_ttl c \<in> {second..hour} \<and> sg_maintenance c \<in> {second..hour}"

definition retention_ok :: "settings \<Rightarrow> bool" where
  "retention_ok c \<longleftrightarrow> sg_content c \<in> {day..sg_metadata c} \<and> sg_metadata c \<in> {90 * day..3650 * day} \<and>
     sg_changes c \<in> {day..3650 * day}"

definition access_ok :: "settings \<Rightarrow> bool" where
  "access_ok c \<longleftrightarrow> 32 \<le> length (sg_key c) \<and>
     (sg_mode c = ''wechat'' \<and> sg_app_id c \<noteq> [] \<and> sg_secret c \<noteq> []
      \<or> sg_mode c = ''development'' \<and> (\<exists>host. split_host (sg_listen c) = Some host \<and> loopback_host host))"

definition settings_ok :: "settings \<Rightarrow> bool" where
  "settings_ok c \<longleftrightarrow> sg_database c \<noteq> [] \<and> access_ok c \<and> limits_ok c \<and> times_ok c \<and> retention_ok c \<and>
     list_all origin_ok (sg_origins c) \<and> list_all proxy_ok (sg_proxies c) \<and>
     length (sg_templates c) \<le> 5 \<and> list_all template_ok (sg_templates c) \<and>
     distinct (map st_id (sg_templates c)) \<and> distinct (map st_title (sg_templates c))"

section \<open>What each part of the loading leaves\<close>

lemma clocks [simp]: "second = 1000000000" "hour = 3600000000000" "day = 86400000000000" "minute = 60000000000"
  by (simp_all add: second_def hour_def minute_def day_def)

text \<open>A prefix of at least one bit leaves addresses out: those that differ in the first bit.\<close>

lemma first_bit:
  assumes "0 < k" and "k \<le> LENGTH('w)"
  shows "drop_bit (LENGTH('w) - k) ((b XOR push_bit (LENGTH('w) - 1) 1) XOR b) \<noteq> (0 :: 'w::len word)"
proof
  assume "drop_bit (LENGTH('w) - k) ((b XOR push_bit (LENGTH('w) - 1) 1) XOR b) = (0 :: 'w word)"
  then have "\<not> bit (drop_bit (LENGTH('w) - k) ((b XOR push_bit (LENGTH('w) - 1) 1) XOR b)) (k - 1)" by simp
  then show False using assms by (auto simp: bit_simps)
qed

lemma proxy_not_global:
  assumes "0 < px_bits p" and "px_bits p \<le> addr_bits (px_addr p)"
  shows "\<exists>a. addr_bits a = addr_bits (px_addr p) \<and> zone_of a = [] \<and> \<not> px_contains p a"
proof (cases "px_addr p")
  case (V4 b)
  then show ?thesis using assms first_bit [of "px_bits p" b]
    by (intro exI [of _ "V4 (b XOR push_bit 31 1)"]) simp
next
  case (V6 b zone)
  then show ?thesis using assms first_bit [of "px_bits p" b]
    by (intro exI [of _ "V6 (b XOR push_bit 127 1) []"]) simp
qed

lemma load_proxies_Inr:
  assumes "load_proxies X c = (Inr (), t)"
  shows "\<exists>ps. t = c\<lparr>sg_proxies := ps\<rparr> \<and> (list_all proxy_ok (sg_proxies c) \<longrightarrow> list_all proxy_ok ps)"
proof -
  have one: "px_bits p \<noteq> 0 \<Longrightarrow> proxy_ok p" if "parse_prefix v = Some p" for v p
  proof -
    assume "px_bits p \<noteq> 0"
    moreover have "px_bits p \<le> addr_bits (px_addr p) \<and> zone_of (px_addr p) = []"
      using that by (auto simp: parse_prefix_def split: option.splits prod.splits if_splits)
    ultimately show ?thesis using proxy_not_global [of p] by (simp add: proxy_ok_def)
  qed
  have "\<exists>ps. t = c\<lparr>sg_proxies := ps\<rparr> \<and> (list_all proxy_ok (sg_proxies c) \<longrightarrow> list_all proxy_ok ps)"
    if "forS vs (\<lambda>value. case parse_prefix value of None \<Rightarrow> failS Bad_proxies
       | Some p \<Rightarrow> if px_bits p = 0 then failS Bad_proxies else modS (\<lambda>c. c\<lparr>sg_proxies := sg_proxies c @ [p]\<rparr>)) c = (Inr (), t)"
    for vs
    using that
  proof (induction vs arbitrary: c)
    case Nil
    then show ?case by (auto simp: run_iff intro: exI [of _ "sg_proxies c"])
  next
    case (Cons v vs)
    from Cons.prems obtain p where p: "parse_prefix v = Some p" "px_bits p \<noteq> 0" and
      rest: "forS vs (\<lambda>value. case parse_prefix value of None \<Rightarrow> failS Bad_proxies
       | Some p \<Rightarrow> if px_bits p = 0 then failS Bad_proxies else modS (\<lambda>c. c\<lparr>sg_proxies := sg_proxies c @ [p]\<rparr>))
         (c\<lparr>sg_proxies := sg_proxies c @ [p]\<rparr>) = (Inr (), t)"
      by (auto simp: run_iff split: option.splits if_splits)
    from Cons.IH [OF rest] one [OF p] show ?case by auto
  qed
  then show ?thesis using assms by (simp add: load_proxies_def)
qed

lemma load_origins_Inr:
  assumes "load_origins X c = (Inr (), t)"
  shows "\<exists>os. t = c\<lparr>sg_origins := os\<rparr> \<and> (list_all origin_ok (sg_origins c) \<longrightarrow> list_all origin_ok os)"
proof -
  have "\<exists>os. t = c\<lparr>sg_origins := os\<rparr> \<and> (list_all origin_ok (sg_origins c) \<longrightarrow> list_all origin_ok os)"
    if "forS vs (\<lambda>s. thenS (guardS (CHR ''*'' \<notin> set s \<and> CHR ''?'' \<notin> set s) Wildcard_origin)
       (modS (\<lambda>c. c\<lparr>sg_origins := sg_origins c @ [s]\<rparr>))) c = (Inr (), t)" "\<forall>v\<in>set vs. v \<noteq> []"
    for vs
    using that
  proof (induction vs arbitrary: c)
    case Nil
    then show ?case by (auto simp: run_iff intro: exI [of _ "sg_origins c"])
  next
    case (Cons v vs)
    then have v: "origin_ok v" and
      rest: "forS vs (\<lambda>s. thenS (guardS (CHR ''*'' \<notin> set s \<and> CHR ''?'' \<notin> set s) Wildcard_origin)
       (modS (\<lambda>c. c\<lparr>sg_origins := sg_origins c @ [s]\<rparr>))) (c\<lparr>sg_origins := sg_origins c @ [v]\<rparr>) = (Inr (), t)"
      by (auto simp: run_iff origin_ok_def)
    from Cons.IH [OF rest] Cons.prems v show ?case by auto
  qed
  then show ?thesis using assms by (simp add: load_origins_def listed_def)
qed

lemma load_mode_Inr:
  assumes "load_mode X c = (Inr (), t)"
  shows "\<exists>l m k. t = c\<lparr>sg_listen := l, sg_mode := m, sg_key := k\<rparr> \<and> access_ok t \<and> os_getenv X ''DATABASE_URL'' \<noteq> []"
proof -
  let ?l = "getenv_or X ''LISTEN_ADDR'' (sg_listen c)" and ?m = "getenv_or X ''AUTH_MODE'' (sg_mode c)"
  from assms obtain k where k: "std_decode (os_getenv X ''GATEWAY_HMAC_KEY'') = Some k"
    by (auto simp: load_mode_def run_iff split: option.splits)
  from assms have t: "t = c\<lparr>sg_listen := ?l, sg_mode := ?m, sg_key := k\<rparr>" and key: "32 \<le> length k"
    and db: "os_getenv X ''DATABASE_URL'' \<noteq> []" and mode: "?m = ''wechat'' \<or> ?m = ''development''"
    and dev: "?m = ''development'' \<longrightarrow> (case split_host ?l of None \<Rightarrow> False | Some host \<Rightarrow> loopback_host host)"
    and app: "?m = ''wechat'' \<longrightarrow> sg_app_id c \<noteq> [] \<and> sg_secret c \<noteq> []"
    by (simp_all add: load_mode_def k thenS_Inr modS_iff guardS_Inr bindS_Inr getS_iff)
  have "access_ok t" using key mode dev app by (auto simp: t access_ok_def split: option.splits)
  then show ?thesis using t db by blast
qed

text \<open>A value is replaced by one within its bounds or stays.\<close>

lemma load_limit_Inr:
  "load_limit X key put c = (Inr (), t) \<Longrightarrow> put v c = c \<Longrightarrow> \<exists>n. t = put n c \<and> (n = v \<or> n \<in> {1..10000})"
  by (cases "os_getenv X key = []") (force simp: load_limit_def run_iff split: option.splits if_splits)+

lemma load_duration_Inr:
  "load_duration X key put c = (Inr (), t) \<Longrightarrow> put v c = c \<Longrightarrow> \<exists>n. t = put n c \<and> (n = v \<or> n \<in> {second..hour})"
  by (cases "os_getenv X key = []") (force simp: load_duration_def run_iff split: option.splits if_splits)+

lemma load_retention_Inr:
  "load_retention X key put c = (Inr (), t) \<Longrightarrow> put v c = c \<Longrightarrow> \<exists>n. t = put n c \<and> (n = v \<or> n \<in> {day..3650 * day})"
  by (cases "os_getenv X key = []") (force simp: load_retention_def run_iff split: option.splits if_splits)+

lemma load_limits_Inr:
  assumes "load_limits X c = (Inr (), t)"
  shows "\<exists>a b. t = c\<lparr>sg_connections := a, sg_inflight := b\<rparr> \<and> (limits_ok c \<longrightarrow> limits_ok t)"
proof -
  from assms obtain c1 where 1: "load_limit X ''MAX_CONNECTIONS'' (\<lambda>n c. c\<lparr>sg_connections := n\<rparr>) c = (Inr (), c1)"
    and 2: "load_limit X ''MAX_INFLIGHT'' (\<lambda>n c. c\<lparr>sg_inflight := n\<rparr>) c1 = (Inr (), t)"
    by (auto simp: load_limits_def thenS_Inr)
  from load_limit_Inr [OF 1, of "sg_connections c"] obtain a where
    a: "c1 = c\<lparr>sg_connections := a\<rparr>" "a = sg_connections c \<or> a \<in> {1..10000}" by auto
  from load_limit_Inr [OF 2, of "sg_inflight c1"] obtain b where
    b: "t = c1\<lparr>sg_inflight := b\<rparr>" "b = sg_inflight c \<or> b \<in> {1..10000}" using a by auto
  have t: "t = c\<lparr>sg_connections := a, sg_inflight := b\<rparr>" by (simp add: a(1) b(1))
  then have "limits_ok c \<longrightarrow> limits_ok t" using a(2) b(2) by (auto simp: limits_ok_def)
  with t show ?thesis by blast
qed

lemma load_durations_Inr:
  assumes "load_durations X c = (Inr (), t)"
  shows "\<exists>a b d e. t = c\<lparr>sg_heartbeat := a, sg_offline_after := b, sg_command_ttl := d, sg_maintenance := e\<rparr> \<and>
    (sg_offline_after c \<le> hour \<and> sg_command_ttl c \<in> {second..hour} \<and> sg_maintenance c \<in> {second..hour} \<longrightarrow> times_ok t)"
proof -
  from assms obtain c1 c2 c3 where
    1: "load_duration X ''HEARTBEAT_INTERVAL'' (\<lambda>d c. c\<lparr>sg_heartbeat := d\<rparr>) c = (Inr (), c1)" and
    2: "load_duration X ''OFFLINE_AFTER'' (\<lambda>d c. c\<lparr>sg_offline_after := d\<rparr>) c1 = (Inr (), c2)" and
    3: "load_duration X ''COMMAND_TTL'' (\<lambda>d c. c\<lparr>sg_command_ttl := d\<rparr>) c2 = (Inr (), c3)" and
    4: "load_duration X ''MAINTENANCE_INTERVAL'' (\<lambda>d c. c\<lparr>sg_maintenance := d\<rparr>) c3 = (Inr (), t)" and
    ok: "5 * second \<le> sg_heartbeat t" "sg_heartbeat t \<le> 60 * second" "2 * sg_heartbeat t \<le> sg_offline_after t"
    unfolding load_durations_def thenS_Inr bindS_Inr getS_iff guardS_Inr by blast
  from load_duration_Inr [OF 1, of "sg_heartbeat c"] obtain a where a: "c1 = c\<lparr>sg_heartbeat := a\<rparr>" by auto
  from load_duration_Inr [OF 2, of "sg_offline_after c1"] obtain b where
    b: "c2 = c1\<lparr>sg_offline_after := b\<rparr>" "b = sg_offline_after c \<or> b \<in> {second..hour}" using a by auto
  from load_duration_Inr [OF 3, of "sg_command_ttl c2"] obtain d where
    d: "c3 = c2\<lparr>sg_command_ttl := d\<rparr>" "d = sg_command_ttl c \<or> d \<in> {second..hour}" using a b by auto
  from load_duration_Inr [OF 4, of "sg_maintenance c3"] obtain e where
    e: "t = c3\<lparr>sg_maintenance := e\<rparr>" "e = sg_maintenance c \<or> e \<in> {second..hour}" using a b d by auto
  have t: "t = c\<lparr>sg_heartbeat := a, sg_offline_after := b, sg_command_ttl := d, sg_maintenance := e\<rparr>"
    by (simp add: a b(1) d(1) e(1))
  then have "sg_offline_after c \<le> hour \<and> sg_command_ttl c \<in> {second..hour} \<and> sg_maintenance c \<in> {second..hour} \<longrightarrow> times_ok t"
    using ok b(2) d(2) e(2) by (auto simp: times_ok_def)
  with t show ?thesis by blast
qed

lemma load_retentions_Inr:
  assumes "load_retentions X c = (Inr (), t)"
  shows "\<exists>a b d. t = c\<lparr>sg_content := a, sg_metadata := b, sg_changes := d\<rparr> \<and>
    (day \<le> sg_content c \<and> sg_metadata c \<le> 3650 * day \<and> sg_changes c \<in> {day..3650 * day} \<longrightarrow> retention_ok t)"
proof -
  from assms obtain c1 c2 where
    1: "load_retention X ''CONTENT_RETENTION_DAYS'' (\<lambda>d c. c\<lparr>sg_content := d\<rparr>) c = (Inr (), c1)" and
    2: "load_retention X ''METADATA_RETENTION_DAYS'' (\<lambda>d c. c\<lparr>sg_metadata := d\<rparr>) c1 = (Inr (), c2)" and
    3: "load_retention X ''CHANGES_RETENTION_DAYS'' (\<lambda>d c. c\<lparr>sg_changes := d\<rparr>) c2 = (Inr (), t)" and
    ok: "sg_content t \<le> sg_metadata t" "90 * day \<le> sg_metadata t"
    unfolding load_retentions_def thenS_Inr bindS_Inr getS_iff guardS_Inr by blast
  from load_retention_Inr [OF 1, of "sg_content c"] obtain a where
    a: "c1 = c\<lparr>sg_content := a\<rparr>" "a = sg_content c \<or> a \<in> {day..3650 * day}" by auto
  from load_retention_Inr [OF 2, of "sg_metadata c1"] obtain b where
    b: "c2 = c1\<lparr>sg_metadata := b\<rparr>" "b = sg_metadata c \<or> b \<in> {day..3650 * day}" using a by auto
  from load_retention_Inr [OF 3, of "sg_changes c2"] obtain d where
    d: "t = c2\<lparr>sg_changes := d\<rparr>" "d = sg_changes c \<or> d \<in> {day..3650 * day}" using a b by auto
  have t: "t = c\<lparr>sg_content := a, sg_metadata := b, sg_changes := d\<rparr>" by (simp add: a(1) b(1) d(1))
  then have "day \<le> sg_content c \<and> sg_metadata c \<le> 3650 * day \<and> sg_changes c \<in> {day..3650 * day} \<longrightarrow> retention_ok t"
    using ok a(2) b(2) d(2) by (auto simp: retention_ok_def)
  with t show ?thesis by blast
qed

section \<open>Templates\<close>

lemma read_field_ok:
  "read_field kf = Some (key, f) \<Longrightarrow> key \<noteq> [] \<and> length key \<le> 64 \<and> 1 \<le> sf_limit f \<and> sf_limit f \<le> 200 \<and>
     (sf_source f = Src_value \<longrightarrow> sf_value f \<noteq> [])"
  by (auto simp: read_field_def split: prod.splits option.splits if_splits)

lemma all_some_set: "all_some xs = Some ys \<Longrightarrow> length ys = length xs \<and> (\<forall>y\<in>set ys. Some y \<in> set xs)"
  by (induction xs arbitrary: ys rule: all_some.induct) (auto split: option.splits)

lemma kind_of_text_user: "kind_of_text s = Some k \<Longrightarrow> k \<noteq> N_system"
  by (auto simp: kind_of_text_def split: if_splits)

lemma read_template_ok:
  assumes "read_template ids titles t = Some x"
  shows "template_ok x \<and> st_id x = rt_id t \<and> st_title x = rt_title t \<and> rt_id t \<notin> set ids \<and> rt_title t \<notin> set titles"
proof -
  from assms obtain k fs where k: "kind_of_text (rt_kind t) = Some k" and fs: "all_some (map read_field (rt_data t)) = Some fs"
    and x: "x = \<lparr>st_id = rt_id t, st_title = rt_title t, st_kind = k, st_app = rt_state t, st_data = fs\<rparr>"
    and c: "rt_id t \<noteq> []" "length (rt_id t) \<le> 128" "rt_title t \<noteq> []" "rune_count (rt_title t) \<le> 100"
      "rt_id t \<notin> set ids" "rt_title t \<notin> set titles" "rt_state t \<in> {''formal'', ''trial'', ''developer''}"
      "rt_data t \<noteq> []" "length (rt_data t) \<le> 10"
    by (auto simp: read_template_def linorder_not_le split: option.splits if_splits)
  have "\<forall>(key, f)\<in>set fs. key \<noteq> [] \<and> length key \<le> 64 \<and> 1 \<le> sf_limit f \<and> sf_limit f \<le> 200 \<and>
     (sf_source f = Src_value \<longrightarrow> sf_value f \<noteq> [])"
  proof (clarify)
    fix key f assume "(key, f) \<in> set fs"
    then obtain kf where "read_field kf = Some (key, f)" using all_some_set [OF fs] by fastforce
    then show "key \<noteq> [] \<and> length key \<le> 64 \<and> 1 \<le> sf_limit f \<and> sf_limit f \<le> 200 \<and>
      (sf_source f = Src_value \<longrightarrow> sf_value f \<noteq> [])" by (rule read_field_ok)
  qed
  moreover have "fs \<noteq> [] \<and> length fs \<le> 10" using all_some_set [OF fs] c by auto
  ultimately show ?thesis using c kind_of_text_user [OF k] by (simp add: x template_ok_def)
qed

lemma read_templates_ok:
  "read_templates ids titles ts = Some xs \<Longrightarrow> length xs = length ts \<and> list_all template_ok xs \<and>
     distinct (map st_id xs) \<and> distinct (map st_title xs) \<and>
     set (map st_id xs) \<inter> set ids = {} \<and> set (map st_title xs) \<inter> set titles = {}"
proof (induction ids titles ts arbitrary: xs rule: read_templates.induct)
  case (2 ids titles t ts)
  then obtain x ys where x: "read_template ids titles t = Some x" and
    ys: "read_templates (rt_id t # ids) (rt_title t # titles) ts = Some ys" "xs = x # ys"
    by (auto split: option.splits)
  from 2(1) [OF x ys(1)] read_template_ok [OF x] show ?case by (auto simp: ys(2))
qed simp

lemma loadSubscriptions_ok:
  "loadSubscriptions file json path = Some ts \<Longrightarrow> length ts \<le> 5 \<and> list_all template_ok ts \<and>
     distinct (map st_id ts) \<and> distinct (map st_title ts)"
  using read_templates_ok by (fastforce simp: loadSubscriptions_def split: if_splits option.splits)

section \<open>The promise\<close>

text \<open>
  C24: a configuration that is accepted, from whatever environment and file, is within every bound the rest of
  the gateway counts on: a key of 32 bytes, logins without credentials on a loopback address only, a
  heartbeat of 5 to 60 seconds that fits twice before a node counts as offline, commands and maintenance
  of at most an hour, metadata kept for 90 days and at least as long as content, no wildcard origin, no
  proxy prefix that covers everything, and at most five well-formed templates.
\<close>

theorem config_sound:
  assumes "LoadConfig X = Inr c"
  shows "settings_ok c"
proof -
  have "load_config X Defaults = (Inr (), c)" using assms by (auto simp: LoadConfig_def split: prod.splits sum.splits)
  then obtain c1 c2 c3 c4 c5 c6 ts where
    1: "load_proxies X (Defaults\<lparr>sg_database := os_getenv X ''DATABASE_URL'', sg_app_id := os_getenv X ''WECHAT_APP_ID'',
       sg_secret := os_getenv X ''WECHAT_APP_SECRET''\<rparr>) = (Inr (), c1)" and
    2: "load_mode X c1 = (Inr (), c2)" and 3: "load_origins X c2 = (Inr (), c3)" and
    4: "load_limits X c3 = (Inr (), c4)" and 5: "load_durations X c4 = (Inr (), c5)" and
    6: "load_retentions X c5 = (Inr (), c6)" and
    7: "loadSubscriptions (os_file X) (os_json X) (os_getenv X ''WECHAT_SUBSCRIPTIONS_FILE'') = Some ts" and
    c: "c = c6\<lparr>sg_templates := ts\<rparr>"
    unfolding load_config_def by (auto simp: thenS_Inr modS_iff failS_iff split: option.splits)
  from load_proxies_Inr [OF 1] obtain ps where 1: "c1 = Defaults\<lparr>sg_database := os_getenv X ''DATABASE_URL'',
    sg_app_id := os_getenv X ''WECHAT_APP_ID'', sg_secret := os_getenv X ''WECHAT_APP_SECRET'', sg_proxies := ps\<rparr>"
    and p: "list_all proxy_ok ps" by (auto simp: Defaults_def)
  from load_mode_Inr [OF 2] obtain l m k where 2: "c2 = c1\<lparr>sg_listen := l, sg_mode := m, sg_key := k\<rparr>"
    and a: "access_ok c2" "os_getenv X ''DATABASE_URL'' \<noteq> []" by blast
  from load_origins_Inr [OF 3] obtain os where 3: "c3 = c2\<lparr>sg_origins := os\<rparr>"
    and o: "list_all origin_ok os" by (auto simp: 2 1 Defaults_def)
  from load_limits_Inr [OF 4] obtain x y where 4: "c4 = c3\<lparr>sg_connections := x, sg_inflight := y\<rparr>"
    and n: "limits_ok c3 \<longrightarrow> limits_ok c4" by blast
  from load_durations_Inr [OF 5] obtain d1 d2 d3 d4 where
    5: "c5 = c4\<lparr>sg_heartbeat := d1, sg_offline_after := d2, sg_command_ttl := d3, sg_maintenance := d4\<rparr>" and
    d: "sg_offline_after c4 \<le> hour \<and> sg_command_ttl c4 \<in> {second..hour} \<and> sg_maintenance c4 \<in> {second..hour} \<longrightarrow> times_ok c5"
    by blast
  from load_retentions_Inr [OF 6] obtain r1 r2 r3 where
    6: "c6 = c5\<lparr>sg_content := r1, sg_metadata := r2, sg_changes := r3\<rparr>" and
    r: "day \<le> sg_content c5 \<and> sg_metadata c5 \<le> 3650 * day \<and> sg_changes c5 \<in> {day..3650 * day} \<longrightarrow> retention_ok c6" by blast
  have "access_ok c" using a by (simp add: access_ok_def c 6 5 4 3)
  moreover have "limits_ok c" using n by (simp add: limits_ok_def c 6 5 4 3 2 1 Defaults_def)
  moreover have "times_ok c" using d by (simp add: times_ok_def c 6 5 4 3 2 1 Defaults_def)
  moreover have "retention_ok c" using r by (simp add: retention_ok_def c 6 5 4 3 2 1 Defaults_def)
  moreover have "sg_database c \<noteq> [] \<and> list_all origin_ok (sg_origins c) \<and> list_all proxy_ok (sg_proxies c)"
    using a(2) o p by (simp add: c 6 5 4 3 2 1)
  ultimately show ?thesis using loadSubscriptions_ok [OF 7] by (simp add: settings_ok_def c)
qed

text \<open>An environment that sets little.\<close>

definition small_environment :: os where
  "small_environment = \<lparr>os_getenv = (\<lambda>key.
       if key = ''DATABASE_URL'' then ''postgres''
       else if key = ''GATEWAY_HMAC_KEY'' then std_encode (replicate 32 CHR ''k'')
       else if key = ''AUTH_MODE'' then ''development''
       else if key = ''TRUSTED_PROXY_CIDRS'' then ''10.0.0.0/8, ''
       else if key = ''ALLOWED_ORIGINS'' then ''https://a''
       else if key = ''MAX_CONNECTIONS'' then ''512''
       else if key = ''HEARTBEAT_INTERVAL'' then ''20s''
       else []), os_file = (\<lambda>_. None), os_json = (\<lambda>_. None), os_product = (\<lambda>f u s. f * u div s)\<rparr>"

lemma config_sound_witness:
  "\<exists>c. LoadConfig small_environment = Inr c \<and> settings_ok c \<and> sg_heartbeat c = 20 * second \<and> length (sg_proxies c) = 1"
proof -
  have "listed ''10.0.0.0/8, '' = [''10.0.0.0/8'']" "listed ''https://a'' = [''https://a'']" by code_simp+
  moreover have "\<exists>a. parse_prefix ''10.0.0.0/8'' = Some \<lparr>px_addr = a, px_bits = 8\<rparr>" 
    by (intro exI [of _ "V4 167772160"]) code_simp
  moreover have "parse_int ''512'' = Some 512" by code_simp
  moreover have "parse_duration f ''20s'' = Some 20000000000" for f
  proof -
    have "duration_part f ''20s'' = Some (20000000000, [])"
      by (simp add: duration_part_def digit_def byte_def leading_int_def leading_fraction_def duration_unit_def
          digit_value_def two63_def)
    then show ?thesis by (simp add: parse_duration_def two63_def)
  qed
  moreover have "loopback_host ''127.0.0.1''" "split_host ''127.0.0.1:8080'' = Some ''127.0.0.1''" by code_simp+
  ultimately have "\<exists>c. LoadConfig small_environment = Inr c \<and> sg_heartbeat c = 20 * second \<and> length (sg_proxies c) = 1"
    by (auto simp: LoadConfig_def load_config_def small_environment_def run_simps load_proxies_def load_mode_def
        load_origins_def load_limits_def load_durations_def load_retentions_def load_limit_def load_duration_def
        load_retention_def getenv_or_def loadSubscriptions_def Defaults_def std_decode_encode)
  then show ?thesis using config_sound by blast
qed

end
