(* ===== verification/Spec2Isabelle.thy ===== *)
theory Spec2Isabelle
  imports Retention_Spec Sessions_Spec Queue_Spec Receipts_Spec Sources_Spec Realtime_Spec Recovery_Spec
    Shares_Spec Pairing_Spec Subscriptions_Spec History_Spec Front Fakenode_Reports Config_Spec
begin

text \<open>
  Verification library of the Miao gateway (\<^verbatim>\<open>internal/gateway\<close>, \<^verbatim>\<open>internal/protocol\<close>) and of the reference node
  that comes with it (\<^verbatim>\<open>internal/fakenode\<close>).

  \<^bold>\<open>The program.\<close> The gateway stands between phones (clients) and the machines on which coding agents
  run (nodes). A client asks over HTTP for something to be done in a session (a message, a decision, a
  cancellation); the gateway records the request as an operation, hands it as a command to the node's
  websocket, and settles the operation by what the node answers. What the agent does comes back as
  numbered reports, which are appended to the log of the session. Every change of a resource is a
  numbered entry of the user's change log, which the clients follow over their own websockets. All state
  that survives is in the database; one mutex serialises the handlers, so that the program is a sequence
  of critical sections.

  \<^bold>\<open>How it is modelled.\<close> A handler is a function from the state to a result (an error or a value) and the
  state it leaves (\<^theory_text>\<open>Prelude\<close>): writes before an error stay, except inside \<open>transaction\<close>, which undoes
  them. The database is a record of tables, a table the list of its rows, and each SQL statement the list
  operation it stands for, with the keys, checks and foreign keys that can make it fail
  (\<^theory_text>\<open>Store\<close>). The clock, random bytes, configuration, schema validation, hashes and renderings of times
  are the record \<open>env\<close>, an argument of the definitions.

  \<^bold>\<open>Theories, in the order of their imports.\<close>
    \<^item> \<^theory_text>\<open>Prelude\<close>: the error-and-state monad, the rules that run handlers (\<open>run_simps\<close>, \<open>run_iff\<close>) and
      carry invariants through them (\<open>keeps_rules\<close>), tables, consecutive numbers.
    \<^item> \<^theory_text>\<open>Wire\<close>: \<open>protocol.go\<close>, the JSON decoder that refuses duplicate names and deep nesting.
    \<^item> \<^theory_text>\<open>Protocol_Types\<close>: the messages of \<open>types_generated.go\<close>.
    \<^item> \<^theory_text>\<open>Common\<close>, \<^theory_text>\<open>Cursor\<close>: \<open>common.go\<close>, errors, query parameters, signed page cursors.
    \<^item> \<^theory_text>\<open>Store\<close>, \<^theory_text>\<open>Samples\<close>: the tables of \<open>database/migrations\<close>, \<open>store.go\<close>, the single reads of
      \<open>resources.go\<close>, \<open>queueSubscription\<close>; a small database and environment for the examples.
    \<^item> \<^theory_text>\<open>Paging\<close>, \<^theory_text>\<open>Events\<close>: \<open>history.go\<close>, the logs. \<^theory_text>\<open>Paging\<close> holds the contract of a numbered log
      that is read page by page, as a locale; events and changes are its interpretations.
    \<^item> \<^theory_text>\<open>Keyset\<close>, \<^theory_text>\<open>Checkpoints\<close>: \<open>history.go\<close>, the checkpoints. \<^theory_text>\<open>Keyset\<close> holds the contract of a listing in
      descending order of a key that is read with page tokens, as a locale; the pages of a checkpoint, the
      lists of shares, of their activity and of resources are its interpretations.
    \<^item> \<^theory_text>\<open>Sessions\<close>, \<^theory_text>\<open>Peers\<close>, \<^theory_text>\<open>Sources\<close>, \<^theory_text>\<open>Receipts\<close>: \<open>node.go\<close>, the reports of a node: session snapshots and
      the queue mirror, connections, the ledger of reports, receipts of commands.
    \<^item> \<^theory_text>\<open>Workspace\<close>, \<^theory_text>\<open>Decisions\<close>, \<^theory_text>\<open>Commands\<close>: \<open>workspace.go\<close> and \<open>commands.go\<close>, the acceptance and the
      dispatch of commands.
    \<^item> \<^theory_text>\<open>Rates\<close>: the budgets and the identification of \<open>server.go\<close>.
    \<^item> \<^theory_text>\<open>Realtime\<close>: \<open>realtime.go\<close>, the sockets' readers and writers and the pump.
    \<^item> \<^theory_text>\<open>Lifecycle\<close>: \<open>maintenance.go\<close>, recovery, expiry and retention.
    \<^item> \<^theory_text>\<open>Shares\<close>, \<^theory_text>\<open>Share_Lists\<close>: \<open>shares.go\<close>, the sharing of a session with another user.
    \<^item> \<^theory_text>\<open>Base64\<close>, \<^theory_text>\<open>Pairing\<close>: \<open>pairing.go\<close>, logins, the pairing of devices and the proof of their keys.
    \<^item> \<^theory_text>\<open>Profile\<close>, \<^theory_text>\<open>Subscriptions\<close>, \<^theory_text>\<open>History_Actions\<close>, \<^theory_text>\<open>Resources\<close>: \<open>profile.go\<close>,
      \<open>subscriptions.go\<close>, \<open>history_actions.go\<close> and \<open>resources.go\<close>. A round of \<open>deliverSubscription\<close> runs on the
      database, the token in memory and the trace of what was posted, and can be killed at each of its steps.
    \<^item> \<^theory_text>\<open>Gateway\<close>: the whole server as a state machine, an action for every critical section.
    \<^item> \<^theory_text>\<open>Config\<close>: \<open>config.go\<close>, \<open>client_ip.go\<close>, \<open>auth_provider.go\<close> and the file of templates, with the functions of
      Go's library for addresses and durations that they use.
    \<^item> \<^theory_text>\<open>Front\<close>: the routes of \<open>server.go\<close>, the whole way of a request through \<open>wrap\<close> to its answer, and \<open>New\<close>.
    \<^item> \<^theory_text>\<open>Fakenode\<close>: \<open>internal/fakenode/node.go\<close>, the node at the other end: journal, sessions, spool, file. The
      world is its memory, its file, what it wrote to its sockets and the native calls it made, the last two of
      which no crash takes back; the fates of saves and writes are arguments. The reference node calls no agent:
      \<open>nativeS\<close> marks the place of the call, between the save of the mark and that of the outcome.
      \<^theory_text>\<open>Node_Frame\<close> carries a promise through all its operations once (the locales \<open>reporter\<close>, \<open>process\<close> and
      \<open>carrier\<close>); \<^theory_text>\<open>Fakenode_Spec\<close> and \<^theory_text>\<open>Fakenode_Reports\<close> interpret them on the journal and on the reports.
    \<^item> \<^theory_text>\<open>Frames\<close> and the theories \<^theory_text>\<open>_Spec\<close>: what the handlers promise, over the definitions above.

  \<^bold>\<open>What is shown.\<close> The invariants of the logs, operations, requests and connections in every reachable
  state (\<^theory_text>\<open>Gateway\<close>); that a command is either handed to an online node or taken back (\<^theory_text>\<open>Commands_Spec\<close>),
  that only the right receipt settles it (\<^theory_text>\<open>Receipts_Spec\<close>) and that recovery leaves none open
  (\<^theory_text>\<open>Recovery_Spec\<close>); that reports enter once and in order (\<^theory_text>\<open>Sources_Spec\<close>), that snapshots follow the
  table of transitions and the reservations of turns (\<^theory_text>\<open>Sessions_Spec\<close>), and that the mirror of the queue
  refines a FIFO (\<^theory_text>\<open>Queue_Spec\<close>); that pages and pushes deliver the logs without a gap (\<^theory_text>\<open>Events\<close>,
  \<^theory_text>\<open>Checkpoints\<close>, \<^theory_text>\<open>Realtime_Spec\<close>) and the lists are complete (\<^theory_text>\<open>Resources\<close>); the bounds of the budgets (\<^theory_text>\<open>Rates\<close>); that a share
  keeps its row, never gives more than it was created with, and to one recipient, whatever requests run
  (\<^theory_text>\<open>Shares_Spec\<close>); that a code pairs one device and a challenge gives one token, whatever challenges come
  after it (\<^theory_text>\<open>Pairing_Spec\<close>); that a push is posted at most once over all rounds, kills and restarts
  (\<^theory_text>\<open>Subscriptions_Spec\<close>); that a transcript survives its import and export (\<^theory_text>\<open>History_Spec\<close>); two ways
  in which the retention pass stops for good (\<^theory_text>\<open>Retention_Spec\<close>); that only an admitted request reaches a handler
  (\<^theory_text>\<open>Front\<close>); that an accepted configuration is well-formed (\<^theory_text>\<open>Config_Spec\<close>); that the node makes the native call of a command at
  most once over all its lives, whatever fails (\<^theory_text>\<open>Fakenode_Spec\<close>), that it
  numbers its reports without a gap and, while its file can be written, once, and how a failed save breaks
  the latter (\<^theory_text>\<open>Fakenode_Reports\<close>).

  \<^bold>\<open>Bounds and fuel.\<close> The decoder recurses over the token stream and needs no fuel; the client that
  collects pages (\<open>collect\<close>) or follows tokens (\<open>follow\<close>) takes a number of requests, and one per entry, or one
  more, is shown to be enough. A walk along tokens is at one clock and in one state of the database; the pages of
  a checkpoint may be read in any later state that still has it.
  A duration is read with its length as fuel, every part taking a character; a node polls its pairing a
  number of times that is an argument. Numbers are unbounded integers with the limits of the program
  (\<open>max_safe\<close>) as guards; addresses are words of 32 and 128 bits.

  \<^bold>\<open>Not modelled.\<close> The mains and the SQL migrations; the multiplexer of routes, logging, JSON encoding and the sockets themselves;
  the lexer of JSON, media types and the schema compiler, which are arguments;
  cryptography, image codecs, the HTTP exchanges with the identity and notification services and the
  floating point product in a duration with a fraction, which are arguments.
\<close>

end
